(* ===== verification/Ctu_Prelude.thy ===== *)
theory Ctu_Prelude
  imports Main "HOL-Library.Word"
begin

text \<open>
  Prelude of the development: the machine types of the driver, the bit-field
  macros of the kernel headers that the register accesses are written with
  (\<open>BIT\<close>, \<open>GENMASK\<close>, \<open>FIELD_GET\<close>, \<open>FIELD_PREP\<close>), byte order helpers, and the
  generic lemmas on words and lists that the component theories share.

  The collections \<open>reg_masks\<close> and \<open>reg_addrs\<close> gather the definitions of field
  masks and register offsets; \<open>field_algebra\<close> gathers the algebra of fields.
\<close>

unbundle bit_operations_syntax

type_synonym u8 = "8 word"
type_synonym u16 = "16 word"
type_synonym u32 = "32 word"
type_synonym u64 = "64 word"
type_synonym iomem = "64 word"

named_theorems reg_masks \<open>definitions of register field masks\<close>
named_theorems reg_addrs \<open>definitions of register offsets\<close>
named_theorems field_algebra \<open>laws of FIELD_GET and FIELD_PREP\<close>

section \<open>Bit-field macros\<close>

definition BIT :: "nat \<Rightarrow> u32" where
  "BIT n = push_bit n 1"

definition GENMASK :: "nat \<Rightarrow> nat \<Rightarrow> u32" where
  "GENMASK h l = push_bit l (mask (Suc h - l))"

text \<open>Position of the lowest set bit of a mask, the shift the field macros use.\<close>

definition bf_shf :: "u32 \<Rightarrow> nat" where
  "bf_shf m = length (takeWhile (\<lambda>i. \<not> bit m i) [0..<32])"

definition FIELD_GET :: "u32 \<Rightarrow> u32 \<Rightarrow> u32" where
  "FIELD_GET m reg = drop_bit (bf_shf m) (reg AND m)"

definition FIELD_PREP :: "u32 \<Rightarrow> u32 \<Rightarrow> u32" where
  "FIELD_PREP m val = push_bit (bf_shf m) val AND m"

lemma BIT_GENMASK: "BIT n = GENMASK n n"
  by (simp add: BIT_def GENMASK_def mask_Suc_0)

lemma bit_GENMASK: "bit (GENMASK h l) n \<longleftrightarrow> n < 32 \<and> l \<le> n \<and> n \<le> h"
  by (auto simp: GENMASK_def bit_simps)

lemma bit_BIT: "bit (BIT k) n \<longleftrightarrow> n < 32 \<and> n = k"
  by (auto simp: BIT_GENMASK bit_GENMASK)

lemma length_takeWhile_upt:
  assumes "l < n" and "P l" and "\<forall>i < l. \<not> P i"
  shows "length (takeWhile (\<lambda>i. \<not> P i) [0..<n]) = l"
proof -
  have "[0..<n] = [0..<l] @ l # [Suc l..<n]"
    using assms(1) by (metis upt_add_eq_append upt_conv_Cons le_add_diff_inverse less_imp_le zero_le)
  moreover have "takeWhile (\<lambda>i. \<not> P i) [0..<l] = [0..<l]"
    using assms(3) by (simp add: takeWhile_eq_all_conv)
  ultimately show ?thesis
    using assms(2,3) by (simp add: takeWhile_append)
qed

lemma bf_shf_GENMASK: "l \<le> h \<Longrightarrow> l < 32 \<Longrightarrow> bf_shf (GENMASK h l) = l"
  unfolding bf_shf_def by (rule length_takeWhile_upt) (auto simp: bit_GENMASK)

lemma FIELD_GET_GENMASK [field_algebra]:
  assumes "l \<le> h" and "h < 32"
  shows "FIELD_GET (GENMASK h l) r = take_bit (Suc h - l) (drop_bit l r)"
  using assms
  by (intro bit_eqI) (auto simp: FIELD_GET_def bf_shf_GENMASK bit_simps bit_GENMASK)

lemma FIELD_PREP_GENMASK [field_algebra]:
  assumes "l \<le> h" and "h < 32"
  shows "FIELD_PREP (GENMASK h l) v = push_bit l (take_bit (Suc h - l) v)"
  using assms
  by (intro bit_eqI) (auto simp: FIELD_PREP_def bf_shf_GENMASK bit_simps bit_GENMASK)

lemma FIELD_GET_or: "FIELD_GET m (a OR b) = FIELD_GET m a OR FIELD_GET m b"
  by (intro bit_eqI) (auto simp: FIELD_GET_def bit_simps)

lemma FIELD_GET_PREP_same:
  assumes "l \<le> h" and "h < 32"
  shows "FIELD_GET (GENMASK h l) (FIELD_PREP (GENMASK h l) v) = take_bit (Suc h - l) v"
  using assms
  by (intro bit_eqI) (auto simp: field_algebra bit_simps)

lemma FIELD_GET_PREP_disjoint:
  assumes "l \<le> h" and "h < 32" and "l' \<le> h'" and "h' < 32" and "h < l' \<or> h' < l"
  shows "FIELD_GET (GENMASK h l) (FIELD_PREP (GENMASK h' l') v) = 0"
  using assms
  by (intro bit_eqI) (auto simp: field_algebra bit_simps)

lemma FIELD_GET_BIT: "k < 32 \<Longrightarrow> FIELD_GET (BIT k) x = of_bool (bit x k)"
  by (intro bit_eqI) (auto simp: BIT_GENMASK FIELD_GET_GENMASK bit_simps bit_1_iff
      even_drop_bit_iff_not_bit)

lemma and_BIT: "k < 32 \<Longrightarrow> (x AND BIT k \<noteq> 0) = bit x k"
  using and_exp_eq_0_iff_not_bit [of x k] by (simp add: BIT_def push_bit_eq_mult)

lemma unat_u8_u32: "unat (ucast (b :: u8) :: u32) = unat b"
  using order_less_trans [OF unsigned_less [of b, where ?'a = nat]]
  by (simp add: unsigned_ucast_eq take_bit_nat_eq_self)

lemma unat_u32_u64: "unat (ucast (b :: u32) :: u64) = unat b"
  using order_less_trans [OF unsigned_less [of b, where ?'a = nat]]
  by (simp add: unsigned_ucast_eq take_bit_nat_eq_self)

lemma ucast_u32_eq: "(ucast (a :: u32) = (ucast b :: u64)) = (a = b)"
  by (simp add: word_unat_eq_iff unat_u32_u64)

lemma unat_add_small: "unat a + unat b < 2 ^ 32 \<Longrightarrow> unat (a + b :: u32) = unat a + unat b"
  by (simp add: unat_word_ariths)

lemma unat_mult_small: "unat a * unat b < 2 ^ 32 \<Longrightarrow> unat (a * b :: u32) = unat a * unat b"
  by (simp add: unat_word_ariths)

lemma word_one_le: "1 \<le> (x :: u32) \<longleftrightarrow> x \<noteq> 0"
  by (auto simp: word_le_nat_alt Suc_le_eq unat_gt_0)

lemma take_bit_less: "unat (x :: u32) < 2 ^ n \<Longrightarrow> take_bit n x = x"
  by (simp add: word_unat_eq_iff unsigned_take_bit_eq take_bit_nat_eq_self)

lemma prod_nonzero:
  fixes a b :: u32
  assumes "a \<noteq> 0" "b \<noteq> 0" "unat a \<le> x" "unat b \<le> y" "x * y < 2 ^ 32"
  shows "a * b \<noteq> 0"
proof -
  have "unat a * unat b \<le> x * y" using assms(3,4) by (rule mult_le_mono)
  then have "unat (a * b) = unat a * unat b" using assms(5) by (intro unat_mult_small) simp
  moreover have "0 < unat a * unat b" using assms(1,2) by (simp add: unat_gt_0)
  ultimately show ?thesis by auto
qed

end
