(* ===== verification/Ctu_Kregs.thy ===== *)
theory Ctu_Kregs
  imports Ctu_Prelude
begin

text \<open>
  The register map of the kernel driver: the offsets and field masks of
  \<open>driver/ctucanfd_kregs.h\<close> and \<open>driver/ctucanfd_kframe.h\<close>, one constant per
  enumerator and per \<open>#define\<close>. The theory \<open>Ctu_Regs\<close> shows that they describe the
  same registers as the bit-field unions of the low-level driver.
\<close>

section \<open>Register offsets\<close>

definition CTUCANFD_DEVICE_ID :: u32 where [reg_addrs]: "CTUCANFD_DEVICE_ID = 0x0"
definition CTUCANFD_VERSION :: u32 where [reg_addrs]: "CTUCANFD_VERSION = 0x2"
definition CTUCANFD_MODE :: u32 where [reg_addrs]: "CTUCANFD_MODE = 0x4"
definition CTUCANFD_SETTINGS :: u32 where [reg_addrs]: "CTUCANFD_SETTINGS = 0x6"
definition CTUCANFD_STATUS :: u32 where [reg_addrs]: "CTUCANFD_STATUS = 0x8"
definition CTUCANFD_COMMAND :: u32 where [reg_addrs]: "CTUCANFD_COMMAND = 0xc"
definition CTUCANFD_INT_STAT :: u32 where [reg_addrs]: "CTUCANFD_INT_STAT = 0x10"
definition CTUCANFD_INT_ENA_SET :: u32 where [reg_addrs]: "CTUCANFD_INT_ENA_SET = 0x14"
definition CTUCANFD_INT_ENA_CLR :: u32 where [reg_addrs]: "CTUCANFD_INT_ENA_CLR = 0x18"
definition CTUCANFD_INT_MASK_SET :: u32 where [reg_addrs]: "CTUCANFD_INT_MASK_SET = 0x1c"
definition CTUCANFD_INT_MASK_CLR :: u32 where [reg_addrs]: "CTUCANFD_INT_MASK_CLR = 0x20"
definition CTUCANFD_BTR :: u32 where [reg_addrs]: "CTUCANFD_BTR = 0x24"
definition CTUCANFD_BTR_FD :: u32 where [reg_addrs]: "CTUCANFD_BTR_FD = 0x28"
definition CTUCANFD_EWL :: u32 where [reg_addrs]: "CTUCANFD_EWL = 0x2c"
definition CTUCANFD_ERP :: u32 where [reg_addrs]: "CTUCANFD_ERP = 0x2d"
definition CTUCANFD_FAULT_STATE :: u32 where [reg_addrs]: "CTUCANFD_FAULT_STATE = 0x2e"
definition CTUCANFD_REC :: u32 where [reg_addrs]: "CTUCANFD_REC = 0x30"
definition CTUCANFD_TEC :: u32 where [reg_addrs]: "CTUCANFD_TEC = 0x32"
definition CTUCANFD_ERR_NORM :: u32 where [reg_addrs]: "CTUCANFD_ERR_NORM = 0x34"
definition CTUCANFD_ERR_FD :: u32 where [reg_addrs]: "CTUCANFD_ERR_FD = 0x36"
definition CTUCANFD_CTR_PRES :: u32 where [reg_addrs]: "CTUCANFD_CTR_PRES = 0x38"
definition CTUCANFD_FILTER_A_MASK :: u32 where [reg_addrs]: "CTUCANFD_FILTER_A_MASK = 0x3c"
definition CTUCANFD_FILTER_A_VAL :: u32 where [reg_addrs]: "CTUCANFD_FILTER_A_VAL = 0x40"
definition CTUCANFD_FILTER_B_MASK :: u32 where [reg_addrs]: "CTUCANFD_FILTER_B_MASK = 0x44"
definition CTUCANFD_FILTER_B_VAL :: u32 where [reg_addrs]: "CTUCANFD_FILTER_B_VAL = 0x48"
definition CTUCANFD_FILTER_C_MASK :: u32 where [reg_addrs]: "CTUCANFD_FILTER_C_MASK = 0x4c"
definition CTUCANFD_FILTER_C_VAL :: u32 where [reg_addrs]: "CTUCANFD_FILTER_C_VAL = 0x50"
definition CTUCANFD_FILTER_RAN_LOW :: u32 where [reg_addrs]: "CTUCANFD_FILTER_RAN_LOW = 0x54"
definition CTUCANFD_FILTER_RAN_HIGH :: u32 where [reg_addrs]: "CTUCANFD_FILTER_RAN_HIGH = 0x58"
definition CTUCANFD_FILTER_CONTROL :: u32 where [reg_addrs]: "CTUCANFD_FILTER_CONTROL = 0x5c"
definition CTUCANFD_FILTER_STATUS :: u32 where [reg_addrs]: "CTUCANFD_FILTER_STATUS = 0x5e"
definition CTUCANFD_RX_MEM_INFO :: u32 where [reg_addrs]: "CTUCANFD_RX_MEM_INFO = 0x60"
definition CTUCANFD_RX_POINTERS :: u32 where [reg_addrs]: "CTUCANFD_RX_POINTERS = 0x64"
definition CTUCANFD_RX_STATUS :: u32 where [reg_addrs]: "CTUCANFD_RX_STATUS = 0x68"
definition CTUCANFD_RX_SETTINGS :: u32 where [reg_addrs]: "CTUCANFD_RX_SETTINGS = 0x6a"
definition CTUCANFD_RX_DATA :: u32 where [reg_addrs]: "CTUCANFD_RX_DATA = 0x6c"
definition CTUCANFD_TX_STATUS :: u32 where [reg_addrs]: "CTUCANFD_TX_STATUS = 0x70"
definition CTUCANFD_TX_COMMAND :: u32 where [reg_addrs]: "CTUCANFD_TX_COMMAND = 0x74"
definition CTUCANFD_TXTB_INFO :: u32 where [reg_addrs]: "CTUCANFD_TXTB_INFO = 0x76"
definition CTUCANFD_TX_PRIORITY :: u32 where [reg_addrs]: "CTUCANFD_TX_PRIORITY = 0x78"
definition CTUCANFD_ERR_CAPT :: u32 where [reg_addrs]: "CTUCANFD_ERR_CAPT = 0x7c"
definition CTUCANFD_RETR_CTR :: u32 where [reg_addrs]: "CTUCANFD_RETR_CTR = 0x7d"
definition CTUCANFD_ALC :: u32 where [reg_addrs]: "CTUCANFD_ALC = 0x7e"
definition CTUCANFD_TS_INFO :: u32 where [reg_addrs]: "CTUCANFD_TS_INFO = 0x7f"
definition CTUCANFD_TRV_DELAY :: u32 where [reg_addrs]: "CTUCANFD_TRV_DELAY = 0x80"
definition CTUCANFD_SSP_CFG :: u32 where [reg_addrs]: "CTUCANFD_SSP_CFG = 0x82"
definition CTUCANFD_RX_FR_CTR :: u32 where [reg_addrs]: "CTUCANFD_RX_FR_CTR = 0x84"
definition CTUCANFD_TX_FR_CTR :: u32 where [reg_addrs]: "CTUCANFD_TX_FR_CTR = 0x88"
definition CTUCANFD_DEBUG_REGISTER :: u32 where [reg_addrs]: "CTUCANFD_DEBUG_REGISTER = 0x8c"
definition CTUCANFD_YOLO_REG :: u32 where [reg_addrs]: "CTUCANFD_YOLO_REG = 0x90"
definition CTUCANFD_TIMESTAMP_LOW :: u32 where [reg_addrs]: "CTUCANFD_TIMESTAMP_LOW = 0x94"
definition CTUCANFD_TIMESTAMP_HIGH :: u32 where [reg_addrs]: "CTUCANFD_TIMESTAMP_HIGH = 0x98"
definition CTUCANFD_TST_CONTROL :: u32 where [reg_addrs]: "CTUCANFD_TST_CONTROL = 0x900"
definition CTUCANFD_TST_DEST :: u32 where [reg_addrs]: "CTUCANFD_TST_DEST = 0x904"
definition CTUCANFD_TST_WDATA :: u32 where [reg_addrs]: "CTUCANFD_TST_WDATA = 0x908"
definition CTUCANFD_TST_RDATA :: u32 where [reg_addrs]: "CTUCANFD_TST_RDATA = 0x90c"

text \<open>The words of the eight TXT buffers, one list of 21 offsets per buffer.\<close>

definition ctucanfd_txtb_data_1_4 :: "u32 list list" where
  "ctucanfd_txtb_data_1_4 = [
    [0x100, 0x104, 0x108, 0x10c, 0x110, 0x114, 0x118, 0x11c, 0x120, 0x124, 0x128, 0x12c, 0x130, 0x134, 0x138, 0x13c, 0x140, 0x144, 0x148, 0x14c, 0x150],
    [0x200, 0x204, 0x208, 0x20c, 0x210, 0x214, 0x218, 0x21c, 0x220, 0x224, 0x228, 0x22c, 0x230, 0x234, 0x238, 0x23c, 0x240, 0x244, 0x248, 0x24c, 0x250],
    [0x300, 0x304, 0x308, 0x30c, 0x310, 0x314, 0x318, 0x31c, 0x320, 0x324, 0x328, 0x32c, 0x330, 0x334, 0x338, 0x33c, 0x340, 0x344, 0x348, 0x34c, 0x350],
    [0x400, 0x404, 0x408, 0x40c, 0x410, 0x414, 0x418, 0x41c, 0x420, 0x424, 0x428, 0x42c, 0x430, 0x434, 0x438, 0x43c, 0x440, 0x444, 0x448, 0x44c, 0x450]]"

definition ctucanfd_txtb_data_5_8 :: "u32 list list" where
  "ctucanfd_txtb_data_5_8 = [
    [0x500, 0x504, 0x508, 0x50c, 0x510, 0x514, 0x518, 0x51c, 0x520, 0x524, 0x528, 0x52c, 0x530, 0x534, 0x538, 0x53c, 0x540, 0x544, 0x548, 0x54c, 0x550],
    [0x600, 0x604, 0x608, 0x60c, 0x610, 0x614, 0x618, 0x61c, 0x620, 0x624, 0x628, 0x62c, 0x630, 0x634, 0x638, 0x63c, 0x640, 0x644, 0x648, 0x64c, 0x650],
    [0x700, 0x704, 0x708, 0x70c, 0x710, 0x714, 0x718, 0x71c, 0x720, 0x724, 0x728, 0x72c, 0x730, 0x734, 0x738, 0x73c, 0x740, 0x744, 0x748, 0x74c, 0x750],
    [0x800, 0x804, 0x808, 0x80c, 0x810, 0x814, 0x818, 0x81c, 0x820, 0x824, 0x828, 0x82c, 0x830, 0x834, 0x838, 0x83c, 0x840, 0x844, 0x848, 0x84c, 0x850]]"

section \<open>Frame word offsets\<close>

definition CTUCANFD_FRAME_FORMAT_W :: u32 where [reg_addrs]: "CTUCANFD_FRAME_FORMAT_W = 0x0"
definition CTUCANFD_IDENTIFIER_W :: u32 where [reg_addrs]: "CTUCANFD_IDENTIFIER_W = 0x4"
definition CTUCANFD_TIMESTAMP_L_W :: u32 where [reg_addrs]: "CTUCANFD_TIMESTAMP_L_W = 0x8"
definition CTUCANFD_TIMESTAMP_U_W :: u32 where [reg_addrs]: "CTUCANFD_TIMESTAMP_U_W = 0xc"
definition CTUCANFD_DATA_1_4_W :: u32 where [reg_addrs]: "CTUCANFD_DATA_1_4_W = 0x10"
definition CTUCANFD_DATA_5_8_W :: u32 where [reg_addrs]: "CTUCANFD_DATA_5_8_W = 0x14"
definition CTUCANFD_DATA_9_12_W :: u32 where [reg_addrs]: "CTUCANFD_DATA_9_12_W = 0x18"
definition CTUCANFD_DATA_13_16_W :: u32 where [reg_addrs]: "CTUCANFD_DATA_13_16_W = 0x1c"
definition CTUCANFD_DATA_17_20_W :: u32 where [reg_addrs]: "CTUCANFD_DATA_17_20_W = 0x20"
definition CTUCANFD_DATA_21_24_W :: u32 where [reg_addrs]: "CTUCANFD_DATA_21_24_W = 0x24"
definition CTUCANFD_DATA_25_28_W :: u32 where [reg_addrs]: "CTUCANFD_DATA_25_28_W = 0x28"
definition CTUCANFD_DATA_29_32_W :: u32 where [reg_addrs]: "CTUCANFD_DATA_29_32_W = 0x2c"
definition CTUCANFD_DATA_33_36_W :: u32 where [reg_addrs]: "CTUCANFD_DATA_33_36_W = 0x30"
definition CTUCANFD_DATA_37_40_W :: u32 where [reg_addrs]: "CTUCANFD_DATA_37_40_W = 0x34"
definition CTUCANFD_DATA_41_44_W :: u32 where [reg_addrs]: "CTUCANFD_DATA_41_44_W = 0x38"
definition CTUCANFD_DATA_45_48_W :: u32 where [reg_addrs]: "CTUCANFD_DATA_45_48_W = 0x3c"
definition CTUCANFD_DATA_49_52_W :: u32 where [reg_addrs]: "CTUCANFD_DATA_49_52_W = 0x40"
definition CTUCANFD_DATA_53_56_W :: u32 where [reg_addrs]: "CTUCANFD_DATA_53_56_W = 0x44"
definition CTUCANFD_DATA_57_60_W :: u32 where [reg_addrs]: "CTUCANFD_DATA_57_60_W = 0x48"
definition CTUCANFD_DATA_61_64_W :: u32 where [reg_addrs]: "CTUCANFD_DATA_61_64_W = 0x4c"
definition CTUCANFD_FRAME_TEST_W :: u32 where [reg_addrs]: "CTUCANFD_FRAME_TEST_W = 0x50"

section \<open>Control register fields\<close>

definition REG_DEVICE_ID_DEVICE_ID :: u32 where [reg_masks]: "REG_DEVICE_ID_DEVICE_ID = GENMASK 15 0"
definition REG_DEVICE_ID_VER_MINOR :: u32 where [reg_masks]: "REG_DEVICE_ID_VER_MINOR = GENMASK 23 16"
definition REG_DEVICE_ID_VER_MAJOR :: u32 where [reg_masks]: "REG_DEVICE_ID_VER_MAJOR = GENMASK 31 24"
definition REG_MODE_RST :: u32 where [reg_masks]: "REG_MODE_RST = BIT 0"
definition REG_MODE_BMM :: u32 where [reg_masks]: "REG_MODE_BMM = BIT 1"
definition REG_MODE_STM :: u32 where [reg_masks]: "REG_MODE_STM = BIT 2"
definition REG_MODE_AFM :: u32 where [reg_masks]: "REG_MODE_AFM = BIT 3"
definition REG_MODE_FDE :: u32 where [reg_masks]: "REG_MODE_FDE = BIT 4"
definition REG_MODE_TTTM :: u32 where [reg_masks]: "REG_MODE_TTTM = BIT 5"
definition REG_MODE_ROM :: u32 where [reg_masks]: "REG_MODE_ROM = BIT 6"
definition REG_MODE_ACF :: u32 where [reg_masks]: "REG_MODE_ACF = BIT 7"
definition REG_MODE_TSTM :: u32 where [reg_masks]: "REG_MODE_TSTM = BIT 8"
definition REG_MODE_RXBAM :: u32 where [reg_masks]: "REG_MODE_RXBAM = BIT 9"
definition REG_MODE_TXBBM :: u32 where [reg_masks]: "REG_MODE_TXBBM = BIT 10"
definition REG_MODE_SAM :: u32 where [reg_masks]: "REG_MODE_SAM = BIT 11"
definition REG_MODE_ERFM :: u32 where [reg_masks]: "REG_MODE_ERFM = BIT 12"
definition REG_MODE_RTRLE :: u32 where [reg_masks]: "REG_MODE_RTRLE = BIT 16"
definition REG_MODE_RTRTH :: u32 where [reg_masks]: "REG_MODE_RTRTH = GENMASK 20 17"
definition REG_MODE_ILBP :: u32 where [reg_masks]: "REG_MODE_ILBP = BIT 21"
definition REG_MODE_ENA :: u32 where [reg_masks]: "REG_MODE_ENA = BIT 22"
definition REG_MODE_NISOFD :: u32 where [reg_masks]: "REG_MODE_NISOFD = BIT 23"
definition REG_MODE_PEX :: u32 where [reg_masks]: "REG_MODE_PEX = BIT 24"
definition REG_MODE_TBFBO :: u32 where [reg_masks]: "REG_MODE_TBFBO = BIT 25"
definition REG_MODE_FDRF :: u32 where [reg_masks]: "REG_MODE_FDRF = BIT 26"
definition REG_MODE_PCHKE :: u32 where [reg_masks]: "REG_MODE_PCHKE = BIT 27"
definition REG_STATUS_RXNE :: u32 where [reg_masks]: "REG_STATUS_RXNE = BIT 0"
definition REG_STATUS_DOR :: u32 where [reg_masks]: "REG_STATUS_DOR = BIT 1"
definition REG_STATUS_TXNF :: u32 where [reg_masks]: "REG_STATUS_TXNF = BIT 2"
definition REG_STATUS_EFT :: u32 where [reg_masks]: "REG_STATUS_EFT = BIT 3"
definition REG_STATUS_RXS :: u32 where [reg_masks]: "REG_STATUS_RXS = BIT 4"
definition REG_STATUS_TXS :: u32 where [reg_masks]: "REG_STATUS_TXS = BIT 5"
definition REG_STATUS_EWL :: u32 where [reg_masks]: "REG_STATUS_EWL = BIT 6"
definition REG_STATUS_IDLE :: u32 where [reg_masks]: "REG_STATUS_IDLE = BIT 7"
definition REG_STATUS_PEXS :: u32 where [reg_masks]: "REG_STATUS_PEXS = BIT 8"
definition REG_STATUS_RXPE :: u32 where [reg_masks]: "REG_STATUS_RXPE = BIT 9"
definition REG_STATUS_TXPE :: u32 where [reg_masks]: "REG_STATUS_TXPE = BIT 10"
definition REG_STATUS_TXDPE :: u32 where [reg_masks]: "REG_STATUS_TXDPE = BIT 11"
definition REG_STATUS_STCNT :: u32 where [reg_masks]: "REG_STATUS_STCNT = BIT 16"
definition REG_STATUS_STRGS :: u32 where [reg_masks]: "REG_STATUS_STRGS = BIT 17"
definition REG_STATUS_SPRT :: u32 where [reg_masks]: "REG_STATUS_SPRT = BIT 18"
definition REG_COMMAND_RXRPMV :: u32 where [reg_masks]: "REG_COMMAND_RXRPMV = BIT 1"
definition REG_COMMAND_RRB :: u32 where [reg_masks]: "REG_COMMAND_RRB = BIT 2"
definition REG_COMMAND_CDO :: u32 where [reg_masks]: "REG_COMMAND_CDO = BIT 3"
definition REG_COMMAND_ERCRST :: u32 where [reg_masks]: "REG_COMMAND_ERCRST = BIT 4"
definition REG_COMMAND_RXFCRST :: u32 where [reg_masks]: "REG_COMMAND_RXFCRST = BIT 5"
definition REG_COMMAND_TXFCRST :: u32 where [reg_masks]: "REG_COMMAND_TXFCRST = BIT 6"
definition REG_COMMAND_CPEXS :: u32 where [reg_masks]: "REG_COMMAND_CPEXS = BIT 7"
definition REG_COMMAND_CRXPE :: u32 where [reg_masks]: "REG_COMMAND_CRXPE = BIT 8"
definition REG_COMMAND_CTXPE :: u32 where [reg_masks]: "REG_COMMAND_CTXPE = BIT 9"
definition REG_COMMAND_CTXDPE :: u32 where [reg_masks]: "REG_COMMAND_CTXDPE = BIT 10"
definition REG_INT_STAT_RXI :: u32 where [reg_masks]: "REG_INT_STAT_RXI = BIT 0"
definition REG_INT_STAT_TXI :: u32 where [reg_masks]: "REG_INT_STAT_TXI = BIT 1"
definition REG_INT_STAT_EWLI :: u32 where [reg_masks]: "REG_INT_STAT_EWLI = BIT 2"
definition REG_INT_STAT_DOI :: u32 where [reg_masks]: "REG_INT_STAT_DOI = BIT 3"
definition REG_INT_STAT_FCSI :: u32 where [reg_masks]: "REG_INT_STAT_FCSI = BIT 4"
definition REG_INT_STAT_ALI :: u32 where [reg_masks]: "REG_INT_STAT_ALI = BIT 5"
definition REG_INT_STAT_BEI :: u32 where [reg_masks]: "REG_INT_STAT_BEI = BIT 6"
definition REG_INT_STAT_OFI :: u32 where [reg_masks]: "REG_INT_STAT_OFI = BIT 7"
definition REG_INT_STAT_RXFI :: u32 where [reg_masks]: "REG_INT_STAT_RXFI = BIT 8"
definition REG_INT_STAT_BSI :: u32 where [reg_masks]: "REG_INT_STAT_BSI = BIT 9"
definition REG_INT_STAT_RBNEI :: u32 where [reg_masks]: "REG_INT_STAT_RBNEI = BIT 10"
definition REG_INT_STAT_TXBHCI :: u32 where [reg_masks]: "REG_INT_STAT_TXBHCI = BIT 11"
definition REG_INT_ENA_SET_INT_ENA_SET :: u32 where [reg_masks]: "REG_INT_ENA_SET_INT_ENA_SET = GENMASK 11 0"
definition REG_INT_ENA_CLR_INT_ENA_CLR :: u32 where [reg_masks]: "REG_INT_ENA_CLR_INT_ENA_CLR = GENMASK 11 0"
definition REG_INT_MASK_SET_INT_MASK_SET :: u32 where [reg_masks]: "REG_INT_MASK_SET_INT_MASK_SET = GENMASK 11 0"
definition REG_INT_MASK_CLR_INT_MASK_CLR :: u32 where [reg_masks]: "REG_INT_MASK_CLR_INT_MASK_CLR = GENMASK 11 0"
definition REG_BTR_PROP :: u32 where [reg_masks]: "REG_BTR_PROP = GENMASK 6 0"
definition REG_BTR_PH1 :: u32 where [reg_masks]: "REG_BTR_PH1 = GENMASK 12 7"
definition REG_BTR_PH2 :: u32 where [reg_masks]: "REG_BTR_PH2 = GENMASK 18 13"
definition REG_BTR_BRP :: u32 where [reg_masks]: "REG_BTR_BRP = GENMASK 26 19"
definition REG_BTR_SJW :: u32 where [reg_masks]: "REG_BTR_SJW = GENMASK 31 27"
definition REG_BTR_FD_PROP_FD :: u32 where [reg_masks]: "REG_BTR_FD_PROP_FD = GENMASK 5 0"
definition REG_BTR_FD_PH1_FD :: u32 where [reg_masks]: "REG_BTR_FD_PH1_FD = GENMASK 11 7"
definition REG_BTR_FD_PH2_FD :: u32 where [reg_masks]: "REG_BTR_FD_PH2_FD = GENMASK 17 13"
definition REG_BTR_FD_BRP_FD :: u32 where [reg_masks]: "REG_BTR_FD_BRP_FD = GENMASK 26 19"
definition REG_BTR_FD_SJW_FD :: u32 where [reg_masks]: "REG_BTR_FD_SJW_FD = GENMASK 31 27"
definition REG_EWL_EW_LIMIT :: u32 where [reg_masks]: "REG_EWL_EW_LIMIT = GENMASK 7 0"
definition REG_EWL_ERP_LIMIT :: u32 where [reg_masks]: "REG_EWL_ERP_LIMIT = GENMASK 15 8"
definition REG_EWL_ERA :: u32 where [reg_masks]: "REG_EWL_ERA = BIT 16"
definition REG_EWL_ERP :: u32 where [reg_masks]: "REG_EWL_ERP = BIT 17"
definition REG_EWL_BOF :: u32 where [reg_masks]: "REG_EWL_BOF = BIT 18"
definition REG_REC_REC_VAL :: u32 where [reg_masks]: "REG_REC_REC_VAL = GENMASK 8 0"
definition REG_REC_TEC_VAL :: u32 where [reg_masks]: "REG_REC_TEC_VAL = GENMASK 24 16"
definition REG_ERR_NORM_ERR_NORM_VAL :: u32 where [reg_masks]: "REG_ERR_NORM_ERR_NORM_VAL = GENMASK 15 0"
definition REG_ERR_NORM_ERR_FD_VAL :: u32 where [reg_masks]: "REG_ERR_NORM_ERR_FD_VAL = GENMASK 31 16"
definition REG_CTR_PRES_CTPV :: u32 where [reg_masks]: "REG_CTR_PRES_CTPV = GENMASK 8 0"
definition REG_CTR_PRES_PTX :: u32 where [reg_masks]: "REG_CTR_PRES_PTX = BIT 9"
definition REG_CTR_PRES_PRX :: u32 where [reg_masks]: "REG_CTR_PRES_PRX = BIT 10"
definition REG_CTR_PRES_ENORM :: u32 where [reg_masks]: "REG_CTR_PRES_ENORM = BIT 11"
definition REG_CTR_PRES_EFD :: u32 where [reg_masks]: "REG_CTR_PRES_EFD = BIT 12"
definition REG_FILTER_A_MASK_BIT_MASK_A_VAL :: u32 where [reg_masks]: "REG_FILTER_A_MASK_BIT_MASK_A_VAL = GENMASK 28 0"
definition REG_FILTER_A_VAL_BIT_VAL_A_VAL :: u32 where [reg_masks]: "REG_FILTER_A_VAL_BIT_VAL_A_VAL = GENMASK 28 0"
definition REG_FILTER_B_MASK_BIT_MASK_B_VAL :: u32 where [reg_masks]: "REG_FILTER_B_MASK_BIT_MASK_B_VAL = GENMASK 28 0"
definition REG_FILTER_B_VAL_BIT_VAL_B_VAL :: u32 where [reg_masks]: "REG_FILTER_B_VAL_BIT_VAL_B_VAL = GENMASK 28 0"
definition REG_FILTER_C_MASK_BIT_MASK_C_VAL :: u32 where [reg_masks]: "REG_FILTER_C_MASK_BIT_MASK_C_VAL = GENMASK 28 0"
definition REG_FILTER_C_VAL_BIT_VAL_C_VAL :: u32 where [reg_masks]: "REG_FILTER_C_VAL_BIT_VAL_C_VAL = GENMASK 28 0"
definition REG_FILTER_RAN_LOW_BIT_RAN_LOW_VAL :: u32 where [reg_masks]: "REG_FILTER_RAN_LOW_BIT_RAN_LOW_VAL = GENMASK 28 0"
definition REG_FILTER_RAN_HIGH_BIT_RAN_HIGH_VAL :: u32 where [reg_masks]: "REG_FILTER_RAN_HIGH_BIT_RAN_HIGH_VAL = GENMASK 28 0"
definition REG_FILTER_CONTROL_FANB :: u32 where [reg_masks]: "REG_FILTER_CONTROL_FANB = BIT 0"
definition REG_FILTER_CONTROL_FANE :: u32 where [reg_masks]: "REG_FILTER_CONTROL_FANE = BIT 1"
definition REG_FILTER_CONTROL_FAFB :: u32 where [reg_masks]: "REG_FILTER_CONTROL_FAFB = BIT 2"
definition REG_FILTER_CONTROL_FAFE :: u32 where [reg_masks]: "REG_FILTER_CONTROL_FAFE = BIT 3"
definition REG_FILTER_CONTROL_FBNB :: u32 where [reg_masks]: "REG_FILTER_CONTROL_FBNB = BIT 4"
definition REG_FILTER_CONTROL_FBNE :: u32 where [reg_masks]: "REG_FILTER_CONTROL_FBNE = BIT 5"
definition REG_FILTER_CONTROL_FBFB :: u32 where [reg_masks]: "REG_FILTER_CONTROL_FBFB = BIT 6"
definition REG_FILTER_CONTROL_FBFE :: u32 where [reg_masks]: "REG_FILTER_CONTROL_FBFE = BIT 7"
definition REG_FILTER_CONTROL_FCNB :: u32 where [reg_masks]: "REG_FILTER_CONTROL_FCNB = BIT 8"
definition REG_FILTER_CONTROL_FCNE :: u32 where [reg_masks]: "REG_FILTER_CONTROL_FCNE = BIT 9"
definition REG_FILTER_CONTROL_FCFB :: u32 where [reg_masks]: "REG_FILTER_CONTROL_FCFB = BIT 10"
definition REG_FILTER_CONTROL_FCFE :: u32 where [reg_masks]: "REG_FILTER_CONTROL_FCFE = BIT 11"
definition REG_FILTER_CONTROL_FRNB :: u32 where [reg_masks]: "REG_FILTER_CONTROL_FRNB = BIT 12"
definition REG_FILTER_CONTROL_FRNE :: u32 where [reg_masks]: "REG_FILTER_CONTROL_FRNE = BIT 13"
definition REG_FILTER_CONTROL_FRFB :: u32 where [reg_masks]: "REG_FILTER_CONTROL_FRFB = BIT 14"
definition REG_FILTER_CONTROL_FRFE :: u32 where [reg_masks]: "REG_FILTER_CONTROL_FRFE = BIT 15"
definition REG_FILTER_CONTROL_SFA :: u32 where [reg_masks]: "REG_FILTER_CONTROL_SFA = BIT 16"
definition REG_FILTER_CONTROL_SFB :: u32 where [reg_masks]: "REG_FILTER_CONTROL_SFB = BIT 17"
definition REG_FILTER_CONTROL_SFC :: u32 where [reg_masks]: "REG_FILTER_CONTROL_SFC = BIT 18"
definition REG_FILTER_CONTROL_SFR :: u32 where [reg_masks]: "REG_FILTER_CONTROL_SFR = BIT 19"
definition REG_RX_MEM_INFO_RX_BUFF_SIZE :: u32 where [reg_masks]: "REG_RX_MEM_INFO_RX_BUFF_SIZE = GENMASK 12 0"
definition REG_RX_MEM_INFO_RX_MEM_FREE :: u32 where [reg_masks]: "REG_RX_MEM_INFO_RX_MEM_FREE = GENMASK 28 16"
definition REG_RX_POINTERS_RX_WPP :: u32 where [reg_masks]: "REG_RX_POINTERS_RX_WPP = GENMASK 11 0"
definition REG_RX_POINTERS_RX_RPP :: u32 where [reg_masks]: "REG_RX_POINTERS_RX_RPP = GENMASK 27 16"
definition REG_RX_STATUS_RXE :: u32 where [reg_masks]: "REG_RX_STATUS_RXE = BIT 0"
definition REG_RX_STATUS_RXF :: u32 where [reg_masks]: "REG_RX_STATUS_RXF = BIT 1"
definition REG_RX_STATUS_RXMOF :: u32 where [reg_masks]: "REG_RX_STATUS_RXMOF = BIT 2"
definition REG_RX_STATUS_RXFRC :: u32 where [reg_masks]: "REG_RX_STATUS_RXFRC = GENMASK 14 4"
definition REG_RX_STATUS_RTSOP :: u32 where [reg_masks]: "REG_RX_STATUS_RTSOP = BIT 16"
definition REG_RX_DATA_RX_DATA :: u32 where [reg_masks]: "REG_RX_DATA_RX_DATA = GENMASK 31 0"
definition REG_TX_STATUS_TX1S :: u32 where [reg_masks]: "REG_TX_STATUS_TX1S = GENMASK 3 0"
definition REG_TX_STATUS_TX2S :: u32 where [reg_masks]: "REG_TX_STATUS_TX2S = GENMASK 7 4"
definition REG_TX_STATUS_TX3S :: u32 where [reg_masks]: "REG_TX_STATUS_TX3S = GENMASK 11 8"
definition REG_TX_STATUS_TX4S :: u32 where [reg_masks]: "REG_TX_STATUS_TX4S = GENMASK 15 12"
definition REG_TX_STATUS_TX5S :: u32 where [reg_masks]: "REG_TX_STATUS_TX5S = GENMASK 19 16"
definition REG_TX_STATUS_TX6S :: u32 where [reg_masks]: "REG_TX_STATUS_TX6S = GENMASK 23 20"
definition REG_TX_STATUS_TX7S :: u32 where [reg_masks]: "REG_TX_STATUS_TX7S = GENMASK 27 24"
definition REG_TX_STATUS_TX8S :: u32 where [reg_masks]: "REG_TX_STATUS_TX8S = GENMASK 31 28"
definition REG_TX_COMMAND_TXCE :: u32 where [reg_masks]: "REG_TX_COMMAND_TXCE = BIT 0"
definition REG_TX_COMMAND_TXCR :: u32 where [reg_masks]: "REG_TX_COMMAND_TXCR = BIT 1"
definition REG_TX_COMMAND_TXCA :: u32 where [reg_masks]: "REG_TX_COMMAND_TXCA = BIT 2"
definition REG_TX_COMMAND_TXB1 :: u32 where [reg_masks]: "REG_TX_COMMAND_TXB1 = BIT 8"
definition REG_TX_COMMAND_TXB2 :: u32 where [reg_masks]: "REG_TX_COMMAND_TXB2 = BIT 9"
definition REG_TX_COMMAND_TXB3 :: u32 where [reg_masks]: "REG_TX_COMMAND_TXB3 = BIT 10"
definition REG_TX_COMMAND_TXB4 :: u32 where [reg_masks]: "REG_TX_COMMAND_TXB4 = BIT 11"
definition REG_TX_COMMAND_TXB5 :: u32 where [reg_masks]: "REG_TX_COMMAND_TXB5 = BIT 12"
definition REG_TX_COMMAND_TXB6 :: u32 where [reg_masks]: "REG_TX_COMMAND_TXB6 = BIT 13"
definition REG_TX_COMMAND_TXB7 :: u32 where [reg_masks]: "REG_TX_COMMAND_TXB7 = BIT 14"
definition REG_TX_COMMAND_TXB8 :: u32 where [reg_masks]: "REG_TX_COMMAND_TXB8 = BIT 15"
definition REG_TX_COMMAND_TXT_BUFFER_COUNT :: u32 where [reg_masks]: "REG_TX_COMMAND_TXT_BUFFER_COUNT = GENMASK 19 16"
definition REG_TX_PRIORITY_TXT1P :: u32 where [reg_masks]: "REG_TX_PRIORITY_TXT1P = GENMASK 2 0"
definition REG_TX_PRIORITY_TXT2P :: u32 where [reg_masks]: "REG_TX_PRIORITY_TXT2P = GENMASK 6 4"
definition REG_TX_PRIORITY_TXT3P :: u32 where [reg_masks]: "REG_TX_PRIORITY_TXT3P = GENMASK 10 8"
definition REG_TX_PRIORITY_TXT4P :: u32 where [reg_masks]: "REG_TX_PRIORITY_TXT4P = GENMASK 14 12"
definition REG_TX_PRIORITY_TXT5P :: u32 where [reg_masks]: "REG_TX_PRIORITY_TXT5P = GENMASK 18 16"
definition REG_TX_PRIORITY_TXT6P :: u32 where [reg_masks]: "REG_TX_PRIORITY_TXT6P = GENMASK 22 20"
definition REG_TX_PRIORITY_TXT7P :: u32 where [reg_masks]: "REG_TX_PRIORITY_TXT7P = GENMASK 26 24"
definition REG_TX_PRIORITY_TXT8P :: u32 where [reg_masks]: "REG_TX_PRIORITY_TXT8P = GENMASK 30 28"
definition REG_ERR_CAPT_ERR_POS :: u32 where [reg_masks]: "REG_ERR_CAPT_ERR_POS = GENMASK 3 0"
definition REG_ERR_CAPT_ERR_ERP :: u32 where [reg_masks]: "REG_ERR_CAPT_ERR_ERP = BIT 4"
definition REG_ERR_CAPT_ERR_TYPE :: u32 where [reg_masks]: "REG_ERR_CAPT_ERR_TYPE = GENMASK 7 5"
definition REG_ERR_CAPT_RETR_CTR_VAL :: u32 where [reg_masks]: "REG_ERR_CAPT_RETR_CTR_VAL = GENMASK 11 8"
definition REG_ERR_CAPT_ALC_BIT :: u32 where [reg_masks]: "REG_ERR_CAPT_ALC_BIT = GENMASK 20 16"
definition REG_ERR_CAPT_ALC_ID_FIELD :: u32 where [reg_masks]: "REG_ERR_CAPT_ALC_ID_FIELD = GENMASK 23 21"
definition REG_ERR_CAPT_TS_BITS :: u32 where [reg_masks]: "REG_ERR_CAPT_TS_BITS = GENMASK 29 24"
definition REG_TRV_DELAY_TRV_DELAY_VALUE :: u32 where [reg_masks]: "REG_TRV_DELAY_TRV_DELAY_VALUE = GENMASK 6 0"
definition REG_TRV_DELAY_SSP_OFFSET :: u32 where [reg_masks]: "REG_TRV_DELAY_SSP_OFFSET = GENMASK 23 16"
definition REG_TRV_DELAY_SSP_SRC :: u32 where [reg_masks]: "REG_TRV_DELAY_SSP_SRC = GENMASK 25 24"
definition REG_RX_FR_CTR_RX_FR_CTR_VAL :: u32 where [reg_masks]: "REG_RX_FR_CTR_RX_FR_CTR_VAL = GENMASK 31 0"
definition REG_TX_FR_CTR_TX_FR_CTR_VAL :: u32 where [reg_masks]: "REG_TX_FR_CTR_TX_FR_CTR_VAL = GENMASK 31 0"
definition REG_DEBUG_REGISTER_STUFF_COUNT :: u32 where [reg_masks]: "REG_DEBUG_REGISTER_STUFF_COUNT = GENMASK 2 0"
definition REG_DEBUG_REGISTER_DESTUFF_COUNT :: u32 where [reg_masks]: "REG_DEBUG_REGISTER_DESTUFF_COUNT = GENMASK 5 3"
definition REG_DEBUG_REGISTER_PC_ARB :: u32 where [reg_masks]: "REG_DEBUG_REGISTER_PC_ARB = BIT 6"
definition REG_DEBUG_REGISTER_PC_CON :: u32 where [reg_masks]: "REG_DEBUG_REGISTER_PC_CON = BIT 7"
definition REG_DEBUG_REGISTER_PC_DAT :: u32 where [reg_masks]: "REG_DEBUG_REGISTER_PC_DAT = BIT 8"
definition REG_DEBUG_REGISTER_PC_STC :: u32 where [reg_masks]: "REG_DEBUG_REGISTER_PC_STC = BIT 9"
definition REG_DEBUG_REGISTER_PC_CRC :: u32 where [reg_masks]: "REG_DEBUG_REGISTER_PC_CRC = BIT 10"
definition REG_DEBUG_REGISTER_PC_CRCD :: u32 where [reg_masks]: "REG_DEBUG_REGISTER_PC_CRCD = BIT 11"
definition REG_DEBUG_REGISTER_PC_ACK :: u32 where [reg_masks]: "REG_DEBUG_REGISTER_PC_ACK = BIT 12"
definition REG_DEBUG_REGISTER_PC_ACKD :: u32 where [reg_masks]: "REG_DEBUG_REGISTER_PC_ACKD = BIT 13"
definition REG_DEBUG_REGISTER_PC_EOF :: u32 where [reg_masks]: "REG_DEBUG_REGISTER_PC_EOF = BIT 14"
definition REG_DEBUG_REGISTER_PC_INT :: u32 where [reg_masks]: "REG_DEBUG_REGISTER_PC_INT = BIT 15"
definition REG_DEBUG_REGISTER_PC_SUSP :: u32 where [reg_masks]: "REG_DEBUG_REGISTER_PC_SUSP = BIT 16"
definition REG_DEBUG_REGISTER_PC_OVR :: u32 where [reg_masks]: "REG_DEBUG_REGISTER_PC_OVR = BIT 17"
definition REG_DEBUG_REGISTER_PC_SOF :: u32 where [reg_masks]: "REG_DEBUG_REGISTER_PC_SOF = BIT 18"
definition REG_YOLO_REG_YOLO_VAL :: u32 where [reg_masks]: "REG_YOLO_REG_YOLO_VAL = GENMASK 31 0"
definition REG_TIMESTAMP_LOW_TIMESTAMP_LOW :: u32 where [reg_masks]: "REG_TIMESTAMP_LOW_TIMESTAMP_LOW = GENMASK 31 0"
definition REG_TIMESTAMP_HIGH_TIMESTAMP_HIGH :: u32 where [reg_masks]: "REG_TIMESTAMP_HIGH_TIMESTAMP_HIGH = GENMASK 31 0"

section \<open>Frame word fields\<close>

definition REG_FRAME_FORMAT_W_DLC :: u32 where [reg_masks]: "REG_FRAME_FORMAT_W_DLC = GENMASK 3 0"
definition REG_FRAME_FORMAT_W_ERF :: u32 where [reg_masks]: "REG_FRAME_FORMAT_W_ERF = BIT 4"
definition REG_FRAME_FORMAT_W_RTR :: u32 where [reg_masks]: "REG_FRAME_FORMAT_W_RTR = BIT 5"
definition REG_FRAME_FORMAT_W_IDE :: u32 where [reg_masks]: "REG_FRAME_FORMAT_W_IDE = BIT 6"
definition REG_FRAME_FORMAT_W_FDF :: u32 where [reg_masks]: "REG_FRAME_FORMAT_W_FDF = BIT 7"
definition REG_FRAME_FORMAT_W_LBPF :: u32 where [reg_masks]: "REG_FRAME_FORMAT_W_LBPF = BIT 8"
definition REG_FRAME_FORMAT_W_BRS :: u32 where [reg_masks]: "REG_FRAME_FORMAT_W_BRS = BIT 9"
definition REG_FRAME_FORMAT_W_ESI_RSV :: u32 where [reg_masks]: "REG_FRAME_FORMAT_W_ESI_RSV = BIT 10"
definition REG_FRAME_FORMAT_W_RWCNT :: u32 where [reg_masks]: "REG_FRAME_FORMAT_W_RWCNT = GENMASK 15 11"
definition REG_FRAME_FORMAT_W_ERF_POS :: u32 where [reg_masks]: "REG_FRAME_FORMAT_W_ERF_POS = GENMASK 19 16"
definition REG_FRAME_FORMAT_W_ERF_ERP :: u32 where [reg_masks]: "REG_FRAME_FORMAT_W_ERF_ERP = BIT 20"
definition REG_FRAME_FORMAT_W_ERF_TYPE :: u32 where [reg_masks]: "REG_FRAME_FORMAT_W_ERF_TYPE = GENMASK 23 21"
definition REG_FRAME_FORMAT_W_IVLD :: u32 where [reg_masks]: "REG_FRAME_FORMAT_W_IVLD = BIT 24"
definition REG_FRAME_FORMAT_W_LBTBI :: u32 where [reg_masks]: "REG_FRAME_FORMAT_W_LBTBI = GENMASK 27 25"
definition REG_IDENTIFIER_W_IDENTIFIER_EXT :: u32 where [reg_masks]: "REG_IDENTIFIER_W_IDENTIFIER_EXT = GENMASK 17 0"
definition REG_IDENTIFIER_W_IDENTIFIER_BASE :: u32 where [reg_masks]: "REG_IDENTIFIER_W_IDENTIFIER_BASE = GENMASK 28 18"
definition REG_TIMESTAMP_L_W_TIME_STAMP_L_W :: u32 where [reg_masks]: "REG_TIMESTAMP_L_W_TIME_STAMP_L_W = GENMASK 31 0"
definition REG_TIMESTAMP_U_W_TIMESTAMP_U_W :: u32 where [reg_masks]: "REG_TIMESTAMP_U_W_TIMESTAMP_U_W = GENMASK 31 0"
definition REG_DATA_1_4_W_DATA_1 :: u32 where [reg_masks]: "REG_DATA_1_4_W_DATA_1 = GENMASK 7 0"
definition REG_DATA_1_4_W_DATA_2 :: u32 where [reg_masks]: "REG_DATA_1_4_W_DATA_2 = GENMASK 15 8"
definition REG_DATA_1_4_W_DATA_3 :: u32 where [reg_masks]: "REG_DATA_1_4_W_DATA_3 = GENMASK 23 16"
definition REG_DATA_1_4_W_DATA_4 :: u32 where [reg_masks]: "REG_DATA_1_4_W_DATA_4 = GENMASK 31 24"
definition REG_DATA_5_8_W_DATA_5 :: u32 where [reg_masks]: "REG_DATA_5_8_W_DATA_5 = GENMASK 7 0"
definition REG_DATA_5_8_W_DATA_6 :: u32 where [reg_masks]: "REG_DATA_5_8_W_DATA_6 = GENMASK 15 8"
definition REG_DATA_5_8_W_DATA_7 :: u32 where [reg_masks]: "REG_DATA_5_8_W_DATA_7 = GENMASK 23 16"
definition REG_DATA_5_8_W_DATA_8 :: u32 where [reg_masks]: "REG_DATA_5_8_W_DATA_8 = GENMASK 31 24"
definition REG_DATA_9_12_W_DATA_9 :: u32 where [reg_masks]: "REG_DATA_9_12_W_DATA_9 = GENMASK 7 0"
definition REG_DATA_9_12_W_DATA_10 :: u32 where [reg_masks]: "REG_DATA_9_12_W_DATA_10 = GENMASK 15 8"
definition REG_DATA_9_12_W_DATA_11 :: u32 where [reg_masks]: "REG_DATA_9_12_W_DATA_11 = GENMASK 23 16"
definition REG_DATA_9_12_W_DATA_12 :: u32 where [reg_masks]: "REG_DATA_9_12_W_DATA_12 = GENMASK 31 24"
definition REG_DATA_13_16_W_DATA_13 :: u32 where [reg_masks]: "REG_DATA_13_16_W_DATA_13 = GENMASK 7 0"
definition REG_DATA_13_16_W_DATA_14 :: u32 where [reg_masks]: "REG_DATA_13_16_W_DATA_14 = GENMASK 15 8"
definition REG_DATA_13_16_W_DATA_15 :: u32 where [reg_masks]: "REG_DATA_13_16_W_DATA_15 = GENMASK 23 16"
definition REG_DATA_13_16_W_DATA_16 :: u32 where [reg_masks]: "REG_DATA_13_16_W_DATA_16 = GENMASK 31 24"
definition REG_DATA_17_20_W_DATA_17 :: u32 where [reg_masks]: "REG_DATA_17_20_W_DATA_17 = GENMASK 7 0"
definition REG_DATA_17_20_W_DATA_18 :: u32 where [reg_masks]: "REG_DATA_17_20_W_DATA_18 = GENMASK 15 8"
definition REG_DATA_17_20_W_DATA_19 :: u32 where [reg_masks]: "REG_DATA_17_20_W_DATA_19 = GENMASK 23 16"
definition REG_DATA_17_20_W_DATA_20 :: u32 where [reg_masks]: "REG_DATA_17_20_W_DATA_20 = GENMASK 31 24"
definition REG_DATA_21_24_W_DATA_21 :: u32 where [reg_masks]: "REG_DATA_21_24_W_DATA_21 = GENMASK 7 0"
definition REG_DATA_21_24_W_DATA_22 :: u32 where [reg_masks]: "REG_DATA_21_24_W_DATA_22 = GENMASK 15 8"
definition REG_DATA_21_24_W_DATA_23 :: u32 where [reg_masks]: "REG_DATA_21_24_W_DATA_23 = GENMASK 23 16"
definition REG_DATA_21_24_W_DATA_24 :: u32 where [reg_masks]: "REG_DATA_21_24_W_DATA_24 = GENMASK 31 24"
definition REG_DATA_25_28_W_DATA_25 :: u32 where [reg_masks]: "REG_DATA_25_28_W_DATA_25 = GENMASK 7 0"
definition REG_DATA_25_28_W_DATA_26 :: u32 where [reg_masks]: "REG_DATA_25_28_W_DATA_26 = GENMASK 15 8"
definition REG_DATA_25_28_W_DATA_27 :: u32 where [reg_masks]: "REG_DATA_25_28_W_DATA_27 = GENMASK 23 16"
definition REG_DATA_25_28_W_DATA_28 :: u32 where [reg_masks]: "REG_DATA_25_28_W_DATA_28 = GENMASK 31 24"
definition REG_DATA_29_32_W_DATA_29 :: u32 where [reg_masks]: "REG_DATA_29_32_W_DATA_29 = GENMASK 7 0"
definition REG_DATA_29_32_W_DATA_30 :: u32 where [reg_masks]: "REG_DATA_29_32_W_DATA_30 = GENMASK 15 8"
definition REG_DATA_29_32_W_DATA_31 :: u32 where [reg_masks]: "REG_DATA_29_32_W_DATA_31 = GENMASK 23 16"
definition REG_DATA_29_32_W_DATA_32 :: u32 where [reg_masks]: "REG_DATA_29_32_W_DATA_32 = GENMASK 31 24"
definition REG_DATA_33_36_W_DATA_33 :: u32 where [reg_masks]: "REG_DATA_33_36_W_DATA_33 = GENMASK 7 0"
definition REG_DATA_33_36_W_DATA_34 :: u32 where [reg_masks]: "REG_DATA_33_36_W_DATA_34 = GENMASK 15 8"
definition REG_DATA_33_36_W_DATA_35 :: u32 where [reg_masks]: "REG_DATA_33_36_W_DATA_35 = GENMASK 23 16"
definition REG_DATA_33_36_W_DATA_36 :: u32 where [reg_masks]: "REG_DATA_33_36_W_DATA_36 = GENMASK 31 24"
definition REG_DATA_37_40_W_DATA_37 :: u32 where [reg_masks]: "REG_DATA_37_40_W_DATA_37 = GENMASK 7 0"
definition REG_DATA_37_40_W_DATA_38 :: u32 where [reg_masks]: "REG_DATA_37_40_W_DATA_38 = GENMASK 15 8"
definition REG_DATA_37_40_W_DATA_39 :: u32 where [reg_masks]: "REG_DATA_37_40_W_DATA_39 = GENMASK 23 16"
definition REG_DATA_37_40_W_DATA_40 :: u32 where [reg_masks]: "REG_DATA_37_40_W_DATA_40 = GENMASK 31 24"
definition REG_DATA_41_44_W_DATA_41 :: u32 where [reg_masks]: "REG_DATA_41_44_W_DATA_41 = GENMASK 7 0"
definition REG_DATA_41_44_W_DATA_42 :: u32 where [reg_masks]: "REG_DATA_41_44_W_DATA_42 = GENMASK 15 8"
definition REG_DATA_41_44_W_DATA_43 :: u32 where [reg_masks]: "REG_DATA_41_44_W_DATA_43 = GENMASK 23 16"
definition REG_DATA_41_44_W_DATA_44 :: u32 where [reg_masks]: "REG_DATA_41_44_W_DATA_44 = GENMASK 31 24"
definition REG_DATA_45_48_W_DATA_45 :: u32 where [reg_masks]: "REG_DATA_45_48_W_DATA_45 = GENMASK 7 0"
definition REG_DATA_45_48_W_DATA_46 :: u32 where [reg_masks]: "REG_DATA_45_48_W_DATA_46 = GENMASK 15 8"
definition REG_DATA_45_48_W_DATA_47 :: u32 where [reg_masks]: "REG_DATA_45_48_W_DATA_47 = GENMASK 23 16"
definition REG_DATA_45_48_W_DATA_48 :: u32 where [reg_masks]: "REG_DATA_45_48_W_DATA_48 = GENMASK 31 24"
definition REG_DATA_49_52_W_DATA_49 :: u32 where [reg_masks]: "REG_DATA_49_52_W_DATA_49 = GENMASK 7 0"
definition REG_DATA_49_52_W_DATA_50 :: u32 where [reg_masks]: "REG_DATA_49_52_W_DATA_50 = GENMASK 15 8"
definition REG_DATA_49_52_W_DATA_51 :: u32 where [reg_masks]: "REG_DATA_49_52_W_DATA_51 = GENMASK 23 16"
definition REG_DATA_49_52_W_DATA_52 :: u32 where [reg_masks]: "REG_DATA_49_52_W_DATA_52 = GENMASK 31 24"
definition REG_DATA_53_56_W_DATA_53 :: u32 where [reg_masks]: "REG_DATA_53_56_W_DATA_53 = GENMASK 7 0"
definition REG_DATA_53_56_W_DATA_56 :: u32 where [reg_masks]: "REG_DATA_53_56_W_DATA_56 = GENMASK 15 8"
definition REG_DATA_53_56_W_DATA_55 :: u32 where [reg_masks]: "REG_DATA_53_56_W_DATA_55 = GENMASK 23 16"
definition REG_DATA_53_56_W_DATA_54 :: u32 where [reg_masks]: "REG_DATA_53_56_W_DATA_54 = GENMASK 31 24"
definition REG_DATA_57_60_W_DATA_57 :: u32 where [reg_masks]: "REG_DATA_57_60_W_DATA_57 = GENMASK 7 0"
definition REG_DATA_57_60_W_DATA_58 :: u32 where [reg_masks]: "REG_DATA_57_60_W_DATA_58 = GENMASK 15 8"
definition REG_DATA_57_60_W_DATA_59 :: u32 where [reg_masks]: "REG_DATA_57_60_W_DATA_59 = GENMASK 23 16"
definition REG_DATA_57_60_W_DATA_60 :: u32 where [reg_masks]: "REG_DATA_57_60_W_DATA_60 = GENMASK 31 24"
definition REG_DATA_61_64_W_DATA_61 :: u32 where [reg_masks]: "REG_DATA_61_64_W_DATA_61 = GENMASK 7 0"
definition REG_DATA_61_64_W_DATA_62 :: u32 where [reg_masks]: "REG_DATA_61_64_W_DATA_62 = GENMASK 15 8"
definition REG_DATA_61_64_W_DATA_63 :: u32 where [reg_masks]: "REG_DATA_61_64_W_DATA_63 = GENMASK 23 16"
definition REG_DATA_61_64_W_DATA_64 :: u32 where [reg_masks]: "REG_DATA_61_64_W_DATA_64 = GENMASK 31 24"
definition REG_FRAME_TEST_W_FSTC :: u32 where [reg_masks]: "REG_FRAME_TEST_W_FSTC = BIT 0"
definition REG_FRAME_TEST_W_FCRC :: u32 where [reg_masks]: "REG_FRAME_TEST_W_FCRC = BIT 1"
definition REG_FRAME_TEST_W_SDLC :: u32 where [reg_masks]: "REG_FRAME_TEST_W_SDLC = BIT 2"
definition REG_FRAME_TEST_W_TPRM :: u32 where [reg_masks]: "REG_FRAME_TEST_W_TPRM = GENMASK 12 8"

section \<open>The enumerations\<close>

text \<open>The enumerators of the headers by name, in the order of declaration.\<close>

definition kregs_offsets :: "(string \<times> u32) list" where
  "kregs_offsets = [
     (''DEVICE_ID'', CTUCANFD_DEVICE_ID), (''VERSION'', CTUCANFD_VERSION),
     (''MODE'', CTUCANFD_MODE), (''SETTINGS'', CTUCANFD_SETTINGS), (''STATUS'', CTUCANFD_STATUS),
     (''COMMAND'', CTUCANFD_COMMAND), (''INT_STAT'', CTUCANFD_INT_STAT),
     (''INT_ENA_SET'', CTUCANFD_INT_ENA_SET), (''INT_ENA_CLR'', CTUCANFD_INT_ENA_CLR),
     (''INT_MASK_SET'', CTUCANFD_INT_MASK_SET), (''INT_MASK_CLR'', CTUCANFD_INT_MASK_CLR),
     (''BTR'', CTUCANFD_BTR), (''BTR_FD'', CTUCANFD_BTR_FD), (''EWL'', CTUCANFD_EWL),
     (''ERP'', CTUCANFD_ERP), (''FAULT_STATE'', CTUCANFD_FAULT_STATE), (''REC'', CTUCANFD_REC),
     (''TEC'', CTUCANFD_TEC), (''ERR_NORM'', CTUCANFD_ERR_NORM), (''ERR_FD'', CTUCANFD_ERR_FD),
     (''CTR_PRES'', CTUCANFD_CTR_PRES), (''FILTER_A_MASK'', CTUCANFD_FILTER_A_MASK),
     (''FILTER_A_VAL'', CTUCANFD_FILTER_A_VAL), (''FILTER_B_MASK'', CTUCANFD_FILTER_B_MASK),
     (''FILTER_B_VAL'', CTUCANFD_FILTER_B_VAL), (''FILTER_C_MASK'', CTUCANFD_FILTER_C_MASK),
     (''FILTER_C_VAL'', CTUCANFD_FILTER_C_VAL), (''FILTER_RAN_LOW'', CTUCANFD_FILTER_RAN_LOW),
     (''FILTER_RAN_HIGH'', CTUCANFD_FILTER_RAN_HIGH),
     (''FILTER_CONTROL'', CTUCANFD_FILTER_CONTROL), (''FILTER_STATUS'', CTUCANFD_FILTER_STATUS),
     (''RX_MEM_INFO'', CTUCANFD_RX_MEM_INFO), (''RX_POINTERS'', CTUCANFD_RX_POINTERS),
     (''RX_STATUS'', CTUCANFD_RX_STATUS), (''RX_SETTINGS'', CTUCANFD_RX_SETTINGS),
     (''RX_DATA'', CTUCANFD_RX_DATA), (''TX_STATUS'', CTUCANFD_TX_STATUS),
     (''TX_COMMAND'', CTUCANFD_TX_COMMAND), (''TXTB_INFO'', CTUCANFD_TXTB_INFO),
     (''TX_PRIORITY'', CTUCANFD_TX_PRIORITY), (''ERR_CAPT'', CTUCANFD_ERR_CAPT),
     (''RETR_CTR'', CTUCANFD_RETR_CTR), (''ALC'', CTUCANFD_ALC), (''TS_INFO'', CTUCANFD_TS_INFO),
     (''TRV_DELAY'', CTUCANFD_TRV_DELAY), (''SSP_CFG'', CTUCANFD_SSP_CFG),
     (''RX_FR_CTR'', CTUCANFD_RX_FR_CTR), (''TX_FR_CTR'', CTUCANFD_TX_FR_CTR),
     (''DEBUG_REGISTER'', CTUCANFD_DEBUG_REGISTER), (''YOLO_REG'', CTUCANFD_YOLO_REG),
     (''TIMESTAMP_LOW'', CTUCANFD_TIMESTAMP_LOW), (''TIMESTAMP_HIGH'', CTUCANFD_TIMESTAMP_HIGH)]"

definition kregs_test_offsets :: "(string \<times> u32) list" where
  "kregs_test_offsets = [
     (''TST_CONTROL'', CTUCANFD_TST_CONTROL), (''TST_DEST'', CTUCANFD_TST_DEST),
     (''TST_WDATA'', CTUCANFD_TST_WDATA), (''TST_RDATA'', CTUCANFD_TST_RDATA)]"

definition kframe_offsets :: "(string \<times> u32) list" where
  "kframe_offsets = [
     (''FRAME_FORMAT_W'', CTUCANFD_FRAME_FORMAT_W), (''IDENTIFIER_W'', CTUCANFD_IDENTIFIER_W),
     (''TIMESTAMP_L_W'', CTUCANFD_TIMESTAMP_L_W), (''TIMESTAMP_U_W'', CTUCANFD_TIMESTAMP_U_W),
     (''DATA_1_4_W'', CTUCANFD_DATA_1_4_W), (''DATA_5_8_W'', CTUCANFD_DATA_5_8_W),
     (''DATA_9_12_W'', CTUCANFD_DATA_9_12_W), (''DATA_13_16_W'', CTUCANFD_DATA_13_16_W),
     (''DATA_17_20_W'', CTUCANFD_DATA_17_20_W), (''DATA_21_24_W'', CTUCANFD_DATA_21_24_W),
     (''DATA_25_28_W'', CTUCANFD_DATA_25_28_W), (''DATA_29_32_W'', CTUCANFD_DATA_29_32_W),
     (''DATA_33_36_W'', CTUCANFD_DATA_33_36_W), (''DATA_37_40_W'', CTUCANFD_DATA_37_40_W),
     (''DATA_41_44_W'', CTUCANFD_DATA_41_44_W), (''DATA_45_48_W'', CTUCANFD_DATA_45_48_W),
     (''DATA_49_52_W'', CTUCANFD_DATA_49_52_W), (''DATA_53_56_W'', CTUCANFD_DATA_53_56_W),
     (''DATA_57_60_W'', CTUCANFD_DATA_57_60_W), (''DATA_61_64_W'', CTUCANFD_DATA_61_64_W),
     (''FRAME_TEST_W'', CTUCANFD_FRAME_TEST_W)]"

end
