(* ===== verification/Ctu_Linux.thy ===== *)
theory Ctu_Linux
  imports Ctu_Prelude "HOL-Library.Monad_Syntax" "HOL-Library.Signed_Division"
begin

text \<open>
  The declarations the driver shares with the CAN subsystem, as
  \<open>driver/ctucanfd_linux_defs.h\<close> gives them, and the helpers of
  \<open>driver/ctucanfd_linux_defs.c\<close>: the conversion between payload lengths and data
  length codes, and the calculation of bit timings.

  Integers keep their widths. A division traps when its divisor is zero, so a
  definition that divides returns an option and \<open>None\<close> is the trap; in
  \<open>calc_loop\<close>, \<open>None\<close> also stands for a loop that does not end.
\<close>

section \<open>Constants\<close>

definition CAN_EFF_FLAG :: u32 where "CAN_EFF_FLAG = 0x80000000"
definition CAN_RTR_FLAG :: u32 where "CAN_RTR_FLAG = 0x40000000"
definition CAN_ERR_FLAG :: u32 where "CAN_ERR_FLAG = 0x20000000"
definition CAN_SFF_MASK :: u32 where "CAN_SFF_MASK = 0x000007FF"
definition CAN_EFF_MASK :: u32 where "CAN_EFF_MASK = 0x1FFFFFFF"
definition CAN_MAX_DLEN :: nat where "CAN_MAX_DLEN = 8"
definition CANFD_MAX_DLEN :: nat where "CANFD_MAX_DLEN = 64"
definition CANFD_BRS :: u8 where "CANFD_BRS = 0x01"
definition CANFD_ESI :: u8 where "CANFD_ESI = 0x02"

definition CAN_CTRLMODE_LOOPBACK :: u32 where "CAN_CTRLMODE_LOOPBACK = 0x01"
definition CAN_CTRLMODE_LISTENONLY :: u32 where "CAN_CTRLMODE_LISTENONLY = 0x02"
definition CAN_CTRLMODE_3_SAMPLES :: u32 where "CAN_CTRLMODE_3_SAMPLES = 0x04"
definition CAN_CTRLMODE_ONE_SHOT :: u32 where "CAN_CTRLMODE_ONE_SHOT = 0x08"
definition CAN_CTRLMODE_BERR_REPORTING :: u32 where "CAN_CTRLMODE_BERR_REPORTING = 0x10"
definition CAN_CTRLMODE_FD :: u32 where "CAN_CTRLMODE_FD = 0x20"
definition CAN_CTRLMODE_PRESUME_ACK :: u32 where "CAN_CTRLMODE_PRESUME_ACK = 0x40"
definition CAN_CTRLMODE_FD_NON_ISO :: u32 where "CAN_CTRLMODE_FD_NON_ISO = 0x80"

lemmas can_id_consts = CAN_EFF_FLAG_def CAN_RTR_FLAG_def CAN_ERR_FLAG_def CAN_SFF_MASK_def
  CAN_EFF_MASK_def
lemmas ctrlmode_consts = CAN_CTRLMODE_LOOPBACK_def CAN_CTRLMODE_LISTENONLY_def
  CAN_CTRLMODE_3_SAMPLES_def CAN_CTRLMODE_ONE_SHOT_def CAN_CTRLMODE_BERR_REPORTING_def
  CAN_CTRLMODE_FD_def CAN_CTRLMODE_PRESUME_ACK_def CAN_CTRLMODE_FD_NON_ISO_def

text \<open>Error numbers of \<open>errno.h\<close>; a function that fails returns one negated.\<close>

definition EPERM :: int where "EPERM = 1"
definition EIO :: int where "EIO = 5"
definition EAGAIN :: int where "EAGAIN = 11"
definition ENOMEM :: int where "ENOMEM = 12"
definition ENODEV :: int where "ENODEV = 19"
definition EINVAL :: int where "EINVAL = 22"
definition EDOM :: int where "EDOM = 33"
definition ERANGE :: int where "ERANGE = 34"
definition EOPNOTSUPP :: int where "EOPNOTSUPP = 95"
definition ETIMEDOUT :: int where "ETIMEDOUT = 110"

lemmas errno_defs = EPERM_def EIO_def EAGAIN_def ENOMEM_def ENODEV_def EINVAL_def EDOM_def
  ERANGE_def EOPNOTSUPP_def ETIMEDOUT_def

section \<open>Data\<close>

record can_bittiming =
  bitrate :: u32
  sample_point :: u32
  tq :: u32
  prop_seg :: u32
  phase_seg1 :: u32
  phase_seg2 :: u32
  sjw :: u32
  brp :: u32

record can_bittiming_const =
  name :: string
  tseg1_min :: u32
  tseg1_max :: u32
  tseg2_min :: u32
  tseg2_max :: u32
  sjw_max :: u32
  brp_min :: u32
  brp_max :: u32
  brp_inc :: u32

datatype can_state =
    CAN_STATE_ERROR_ACTIVE
  | CAN_STATE_ERROR_WARNING
  | CAN_STATE_ERROR_PASSIVE
  | CAN_STATE_BUS_OFF
  | CAN_STATE_STOPPED
  | CAN_STATE_SLEEPING
  | CAN_STATE_MAX

record can_berr_counter =
  txerr :: u16
  rxerr :: u16

record can_ctrlmode =
  cm_mask :: u32
  cm_flags :: u32

record can_device_stats =
  bus_error :: u32
  error_warning :: u32
  error_passive :: u32
  bus_off :: u32
  arbitration_lost :: u32
  restarts :: u32

text \<open>
  Frames. The payload is a list of bytes; its length is the size of the array the frame
  was allocated with (8 for \<open>struct can_frame\<close>, 64 for \<open>struct canfd_frame\<close>), so that
  an access past the end can be told apart.
\<close>

record can_frame =
  cf_can_id :: u32
  cf_can_dlc :: u8
  cf_data :: "u8 list"

record canfd_frame =
  can_id :: u32
  flen :: u8
  flags :: u8
  data :: "u8 list"

record can_filter =
  filter_can_id :: u32
  filter_can_mask :: u32

section \<open>Data length codes\<close>

definition dlc2len :: "u8 list" where
  "dlc2len = [0, 1, 2, 3, 4, 5, 6, 7, 8, 12, 16, 20, 24, 32, 48, 64]"

definition can_dlc2len :: "u8 \<Rightarrow> u8" where
  "can_dlc2len can_dlc = dlc2len ! unat (can_dlc AND 0x0F)"

definition len2dlc :: "u8 list" where
  "len2dlc =
     [0, 1, 2, 3, 4, 5, 6, 7, 8,
      9, 9, 9, 9,
      10, 10, 10, 10,
      11, 11, 11, 11,
      12, 12, 12, 12,
      13, 13, 13, 13, 13, 13, 13, 13,
      14, 14, 14, 14, 14, 14, 14, 14,
      14, 14, 14, 14, 14, 14, 14, 14,
      15, 15, 15, 15, 15, 15, 15, 15,
      15, 15, 15, 15, 15, 15, 15, 15]"

definition can_len2dlc :: "u8 \<Rightarrow> u8" where
  "can_len2dlc l = (if l > 64 then 0xF else len2dlc ! unat l)"

section \<open>Arithmetic of the bit timing helpers\<close>

definition udiv :: "'a::len word \<Rightarrow> 'a word \<Rightarrow> 'a word option" where
  "udiv a b = (if b = 0 then None else Some (a div b))"

text \<open>The macros \<open>clamp\<close>, \<open>abs\<close> and \<open>do_div\<close> of \<open>ctucanfd_linux_defs.h\<close>.\<close>

definition clamp :: "u32 \<Rightarrow> u32 \<Rightarrow> u32 \<Rightarrow> u32" where
  "clamp val lo hi = (let m = (if val > lo then val else lo) in if m < hi then m else hi)"

definition abs_u32 :: "u32 \<Rightarrow> u32" where
  "abs_u32 x = (if sint x < 0 then - x else x)"

definition do_div :: "u64 \<Rightarrow> u32 \<Rightarrow> u64 option" where
  "do_div n base = udiv n (ucast base)"

definition CAN_CALC_MAX_ERROR :: u32 where "CAN_CALC_MAX_ERROR = 50"
definition CAN_CALC_SYNC_SEG :: u32 where "CAN_CALC_SYNC_SEG = 1"
definition UINT_MAX :: u32 where "UINT_MAX = 0xFFFFFFFF"

text \<open>
  One pass of the loop over \<open>i\<close> in \<open>can_update_sample_point\<close>; the state is
  \<open>(best_sample_point, best_sample_point_error, *tseg1_ptr, *tseg2_ptr)\<close>.
\<close>

definition usp_step ::
  "can_bittiming_const \<Rightarrow> u32 \<Rightarrow> u32 \<Rightarrow> u32 \<Rightarrow> u32 \<times> u32 \<times> u32 \<times> u32
   \<Rightarrow> (u32 \<times> u32 \<times> u32 \<times> u32) option" where
  "usp_step btc sample_point_nominal tseg i =
     (\<lambda>(best_sp, best_err, t1, t2).
       (let tseg2 = tseg + CAN_CALC_SYNC_SEG
              - (sample_point_nominal * (tseg + CAN_CALC_SYNC_SEG)) div 1000 - i;
            tseg2 = clamp tseg2 (tseg2_min btc) (tseg2_max btc);
            tseg1 = tseg - tseg2;
            (tseg1, tseg2) = (if tseg1 > tseg1_max btc
              then (tseg1_max btc, tseg - tseg1_max btc) else (tseg1, tseg2))
        in do {
          sp \<leftarrow> udiv (1000 * (tseg + CAN_CALC_SYNC_SEG - tseg2)) (tseg + CAN_CALC_SYNC_SEG);
          let err = abs_u32 (sample_point_nominal - sp);
          Some (if sp \<le> sample_point_nominal \<and> err < best_err
                then (sp, err, tseg1, tseg2) else (best_sp, best_err, t1, t2))
        }))"

text \<open>
  The result is \<open>(return value, *sample_point_error_ptr, *tseg1_ptr, *tseg2_ptr)\<close>. The
  two segment pointers keep what the caller left in them when no pass improves.
\<close>

definition can_update_sample_point ::
  "can_bittiming_const \<Rightarrow> u32 \<Rightarrow> u32 \<Rightarrow> u32 \<Rightarrow> u32 \<Rightarrow> (u32 \<times> u32 \<times> u32 \<times> u32) option" where
  "can_update_sample_point btc sample_point_nominal tseg tseg1 tseg2 =
     do {
       st \<leftarrow> usp_step btc sample_point_nominal tseg 0 (0, UINT_MAX, tseg1, tseg2);
       usp_step btc sample_point_nominal tseg 1 st
     }"

definition nominal_sample_point :: "can_bittiming \<Rightarrow> u32" where
  "nominal_sample_point bt =
     (if sample_point bt \<noteq> 0 then sample_point bt
      else if bitrate bt > 800000 then 750
      else if bitrate bt > 500000 then 800
      else 875)"

text \<open>The variables the search loop of \<open>can_calc_bittiming\<close> updates.\<close>

record calc_state =
  best_bitrate_error :: u32
  best_sample_point_error :: u32
  best_tseg :: u32
  best_brp :: u32
  cs_tseg1 :: u32
  cs_tseg2 :: u32

text \<open>
  The body of the loop for one \<open>tseg\<close>: the flag is true for \<open>break\<close>, every
  \<open>continue\<close> is a return with the flag false.
\<close>

definition calc_body ::
  "u32 \<Rightarrow> can_bittiming \<Rightarrow> can_bittiming_const \<Rightarrow> u32 \<Rightarrow> u32 \<Rightarrow> calc_state
   \<Rightarrow> (bool \<times> calc_state) option" where
  "calc_body freq bt btc sample_point_nominal tseg c =
     do {
       let tsegall = CAN_CALC_SYNC_SEG + tseg div 2;
       q \<leftarrow> udiv freq (tsegall * bitrate bt);
       let brp0 = q + tseg mod 2;
       k \<leftarrow> udiv brp0 (brp_inc btc);
       let brp0 = k * brp_inc btc;
       if brp0 < brp_min btc \<or> brp0 > brp_max btc then Some (False, c)
       else do {
         rate \<leftarrow> udiv freq (brp0 * tsegall);
         let bitrate_error = abs_u32 (bitrate bt - rate);
         if bitrate_error > best_bitrate_error c then Some (False, c)
         else do {
           let c = (if bitrate_error < best_bitrate_error c
                    then c\<lparr>best_sample_point_error := UINT_MAX\<rparr> else c);
           (_, sample_point_error, t1, t2) \<leftarrow>
             can_update_sample_point btc sample_point_nominal (tseg div 2)
               (cs_tseg1 c) (cs_tseg2 c);
           let c = c\<lparr>cs_tseg1 := t1, cs_tseg2 := t2\<rparr>;
           if sample_point_error > best_sample_point_error c then Some (False, c)
           else do {
             let c = c\<lparr>best_sample_point_error := sample_point_error,
                       best_bitrate_error := bitrate_error,
                       best_tseg := tseg div 2, best_brp := brp0\<rparr>;
             Some (bitrate_error = 0 \<and> sample_point_error = 0, c)
           }
         }
       }
     }"

partial_function (option) calc_loop ::
  "u32 \<Rightarrow> can_bittiming \<Rightarrow> can_bittiming_const \<Rightarrow> u32 \<Rightarrow> u32 \<Rightarrow> calc_state \<Rightarrow> calc_state option"
where
  "calc_loop freq bt btc nominal tseg c =
     (if tseg \<ge> (tseg1_min btc + tseg2_min btc) * 2
      then do {
        (stop, c) \<leftarrow> calc_body freq bt btc nominal tseg c;
        if stop then Some c else calc_loop freq bt btc nominal (tseg - 1) c
      }
      else Some c)"

declare calc_loop.simps [code]

definition calc_init :: calc_state where
  "calc_init = \<lparr>best_bitrate_error = UINT_MAX, best_sample_point_error = UINT_MAX,
     best_tseg = 0, best_brp = 0, cs_tseg1 = 0, cs_tseg2 = 0\<rparr>"

text \<open>What \<open>can_calc_bittiming\<close> does with the result of its search.\<close>

definition calc_finish ::
  "u32 \<Rightarrow> can_bittiming \<Rightarrow> can_bittiming_const \<Rightarrow> u32 \<Rightarrow> calc_state
   \<Rightarrow> (int \<times> can_bittiming) option" where
  "calc_finish freq bt btc nominal c =
     do {
       (sp, _, tseg1, tseg2) \<leftarrow>
         can_update_sample_point btc nominal (best_tseg c) (cs_tseg1 c) (cs_tseg2 c);
       v64 \<leftarrow> do_div (ucast (best_brp c) * 1000 * 1000 * 1000) freq;
       let bt = bt\<lparr>sample_point := sp, tq := ucast v64, prop_seg := tseg1 div 2,
                   phase_seg1 := tseg1 - tseg1 div 2, phase_seg2 := tseg2\<rparr>;
       let bt = (if sjw bt = 0 \<or> sjw_max btc = 0 then bt\<lparr>sjw := 1\<rparr>
                 else let bt = (if sjw bt > sjw_max btc then bt\<lparr>sjw := sjw_max btc\<rparr> else bt)
                      in if tseg2 < sjw bt then bt\<lparr>sjw := tseg2\<rparr> else bt);
       let bt = bt\<lparr>brp := best_brp c\<rparr>;
       r \<leftarrow> udiv freq (brp bt * (CAN_CALC_SYNC_SEG + tseg1 + tseg2));
       Some (0, bt\<lparr>bitrate := r\<rparr>)
     }"

definition can_calc_bittiming ::
  "u32 \<Rightarrow> can_bittiming \<Rightarrow> can_bittiming_const \<Rightarrow> (int \<times> can_bittiming) option" where
  "can_calc_bittiming freq bt btc =
     do {
       let nominal = nominal_sample_point bt;
       c \<leftarrow> calc_loop freq bt btc nominal ((tseg1_max btc + tseg2_max btc) * 2 + 1) calc_init;
       if best_bitrate_error c \<noteq> 0
       then do {
         v64 \<leftarrow> do_div (ucast (best_bitrate_error c) * 1000) (bitrate bt);
         if (ucast v64 :: u32) > CAN_CALC_MAX_ERROR then Some (- EDOM, bt)
         else calc_finish freq bt btc nominal c
       }
       else calc_finish freq bt btc nominal c
     }"

definition can_fixup_bittiming ::
  "u32 \<Rightarrow> can_bittiming \<Rightarrow> can_bittiming_const \<Rightarrow> (int \<times> can_bittiming) option" where
  "can_fixup_bittiming freq bt btc =
     (let tseg1 = prop_seg bt + phase_seg1 bt;
          bt = (if sjw bt = 0 then bt\<lparr>sjw := 1\<rparr> else bt)
      in if sjw bt > sjw_max btc \<or> tseg1 < tseg1_min btc \<or> tseg1 > tseg1_max btc
            \<or> phase_seg2 bt < tseg2_min btc \<or> phase_seg2 bt > tseg2_max btc
         then Some (- ERANGE, bt)
         else do {
           let brp64 = ucast freq * ucast (tq bt);
           brp64 \<leftarrow> (if brp_inc btc > 1 then do_div brp64 (brp_inc btc) else Some brp64);
           brp64 \<leftarrow> do_div (brp64 + (500000000 - 1)) 1000000000;
           let brp64 = (if brp_inc btc > 1 then brp64 * ucast (brp_inc btc) else brp64);
           let bt = bt\<lparr>brp := ucast brp64\<rparr>;
           if brp bt < brp_min btc \<or> brp bt > brp_max btc then Some (- EINVAL, bt)
           else do {
             let alltseg = prop_seg bt + phase_seg1 bt + phase_seg2 bt + 1;
             r \<leftarrow> udiv freq (brp bt * alltseg);
             if alltseg = 0 then None
             else Some (0, bt\<lparr>bitrate := r,
               sample_point := word_of_int (sint ((tseg1 + 1) * 1000) sdiv sint alltseg)\<rparr>)
           }
         })"

text \<open>
  The loop runs over the table the caller passes; the test after it compares with the
  table size stored in the device (\<open>priv->bitrate_const_cnt\<close>, here \<open>priv_cnt\<close>). The
  table is read up to \<open>cnt\<close>: a shorter list would be an access out of bounds.
\<close>

fun find_bitrate :: "u32 \<Rightarrow> u32 list \<Rightarrow> nat \<Rightarrow> nat \<Rightarrow> nat option" where
  "find_bitrate r tab i 0 = Some i"
| "find_bitrate r tab i (Suc n) =
     (if i < length tab
      then if r = tab ! i then Some i else find_bitrate r tab (Suc i) n
      else None)"

definition can_validate_bitrate ::
  "nat \<Rightarrow> can_bittiming \<Rightarrow> u32 list \<Rightarrow> nat \<Rightarrow> int option" where
  "can_validate_bitrate priv_cnt bt bitrate_const bitrate_const_cnt =
     do {
       i \<leftarrow> find_bitrate (bitrate bt) bitrate_const 0 bitrate_const_cnt;
       Some (if i \<ge> priv_cnt then - EINVAL else 0)
     }"

text \<open>A null pointer for \<open>btc\<close> or \<open>bitrate_const\<close> is \<open>None\<close>.\<close>

definition can_get_bittiming ::
  "u32 \<Rightarrow> nat \<Rightarrow> can_bittiming \<Rightarrow> can_bittiming_const option \<Rightarrow> u32 list option \<Rightarrow> nat
   \<Rightarrow> (int \<times> can_bittiming) option" where
  "can_get_bittiming freq priv_cnt bt btc bitrate_const bitrate_const_cnt =
     (case (tq bt = 0, bitrate bt = 0, btc, bitrate_const) of
        (True, False, Some c, _) \<Rightarrow> can_calc_bittiming freq bt c
      | (False, True, Some c, _) \<Rightarrow> can_fixup_bittiming freq bt c
      | (True, False, None, Some tab) \<Rightarrow>
          map_option (\<lambda>e. (e, bt)) (can_validate_bitrate priv_cnt bt tab bitrate_const_cnt)
      | _ \<Rightarrow> Some (- EINVAL, bt))"

section \<open>Properties of the data length codes\<close>

lemma all_below_64: "(\<forall>l < (65::nat). P l) \<longleftrightarrow> list_all P [0..<65]"
  by (auto simp: list_all_iff)

lemma u8_le_64_cases: "(l::u8) \<le> 64 \<Longrightarrow> \<exists>n < 65. l = of_nat n"
  by (intro exI [of _ "unat l"]) (simp add: word_le_nat_alt)

lemma u8_below_16_cases: "(d::u8) < 16 \<Longrightarrow> \<exists>n < 16. d = of_nat n"
  by (intro exI [of _ "unat d"]) (simp add: word_less_nat_alt)

lemma len2dlc_table:
  "list_all (\<lambda>n. can_len2dlc (of_nat n) < 16 \<and> of_nat n \<le> can_dlc2len (can_len2dlc (of_nat n)) \<and>
     list_all (\<lambda>k. of_nat n \<le> can_dlc2len (of_nat k) \<longrightarrow>
       can_dlc2len (can_len2dlc (of_nat n)) \<le> can_dlc2len (of_nat k)) [0..<16]) [0..<65]"
  by code_simp

lemma dlc2len_table: "list_all (\<lambda>k. can_len2dlc (can_dlc2len (of_nat k)) = of_nat k) [0..<16]"
  by code_simp

text \<open>The conversion from a payload length to a data length code picks the shortest payload the
  code can express that is not shorter, and is inverted by the conversion back on every code.\<close>

lemma dlc_conversion:
  assumes "l \<le> 64" "d < 16"
  shows "can_len2dlc l < 16 \<and> l \<le> can_dlc2len (can_len2dlc l) \<and>
    (l \<le> can_dlc2len d \<longrightarrow> can_dlc2len (can_len2dlc l) \<le> can_dlc2len d) \<and>
    can_len2dlc (can_dlc2len d) = d"
proof -
  obtain n k where n: "n < 65" "l = of_nat n" and k: "k < 16" "d = of_nat k"
    using u8_le_64_cases [OF assms(1)] u8_below_16_cases [OF assms(2)] by blast
  then have s: "n \<in> set [0..<65]" "k \<in> set [0..<16]" by simp_all
  show ?thesis
    using bspec [OF len2dlc_table [unfolded list_all_iff] s(1)] bspec [OF dlc2len_table [unfolded list_all_iff] s(2)]
      s(2) unfolding n(2) k(2) by blast
qed

lemma dlc_conversion_witness: "can_dlc2len (can_len2dlc 33) \<le> can_dlc2len 14"
proof -
  have "(33 :: u8) \<le> can_dlc2len 14" by code_simp
  then show ?thesis using dlc_conversion [of 33 14] by simp
qed

section \<open>Properties of the bit timing helpers\<close>

lemma udiv_some: "b \<noteq> 0 \<Longrightarrow> udiv a b = Some (a div b)"
  by (simp add: udiv_def)

text \<open>What the search relies on of the hardware limits: small segments, no overlap with zero, and a
  prescaler without steps.\<close>

definition btc_ok :: "can_bittiming_const \<Rightarrow> bool" where
  "btc_ok btc \<longleftrightarrow> brp_inc btc = 1 \<and> 1 \<le> brp_min btc \<and> brp_max btc \<le> 255 \<and>
     1 \<le> unat (tseg1_min btc) + unat (tseg2_min btc) \<and> unat (tseg1_min btc) + unat (tseg2_min btc) \<le> 255 \<and>
     unat (tseg1_max btc) + unat (tseg2_max btc) \<le> 253"

lemma usp_step_some:
  assumes "tseg + 1 \<noteq> 0"
  shows "\<exists>sp err t1' t2'. usp_step btc n tseg i (sp0, err0, t1, t2) = Some (sp, err, t1', t2') \<and>
    ((t1', t2') = (t1, t2) \<or> t1' + t2' = tseg)"
  using assms by (auto simp: usp_step_def udiv_some CAN_CALC_SYNC_SEG_def Let_def)

lemma update_sample_point_some:
  assumes "tseg + 1 \<noteq> 0"
  shows "\<exists>sp err t1' t2'. can_update_sample_point btc n tseg t1 t2 = Some (sp, err, t1', t2') \<and>
    ((t1', t2') = (t1, t2) \<or> t1' + t2' = tseg)"
proof -
  obtain a b c d where 1: "usp_step btc n tseg 0 (0, UINT_MAX, t1, t2) = Some (a, b, c, d)"
    "(c, d) = (t1, t2) \<or> c + d = tseg"
    using usp_step_some [OF assms] by metis
  obtain a' b' c' d' where 2: "usp_step btc n tseg 1 (a, b, c, d) = Some (a', b', c', d')"
    "(c', d') = (c, d) \<or> c' + d' = tseg"
    using usp_step_some [OF assms] by metis
  show ?thesis using 1 2 by (auto simp: can_update_sample_point_def)
qed

definition calc_inv :: "can_bittiming_const \<Rightarrow> calc_state \<Rightarrow> bool" where
  "calc_inv btc c \<longleftrightarrow>
     (best_brp c = 0 \<and> best_bitrate_error c = UINT_MAX \<or> brp_min btc \<le> best_brp c \<and> best_brp c \<le> brp_max btc) \<and>
     unat (cs_tseg1 c + cs_tseg2 c) \<le> 253 \<and> unat (best_tseg c) \<le> 253"

lemma calc_body_some:
  assumes "btc_ok btc" "calc_inv btc c" "0 < bitrate bt" "unat (bitrate bt) \<le> 16000000" "unat tseg \<le> 507"
  shows "\<exists>stop c'. calc_body freq bt btc n tseg c = Some (stop, c') \<and> calc_inv btc c'"
proof -
  let ?h = "tseg div 2" and ?a = "1 + tseg div 2"
  have h: "unat ?h \<le> 253" using assms(5) by (simp add: unat_div)
  then have a: "unat ?a = Suc (unat ?h)" by (simp add: unat_word_ariths)
  then have a0: "?a \<noteq> 0" "?h + 1 \<noteq> 0" "unat ?a \<le> 254" using h by (auto simp: add.commute)
  have q: "?a * bitrate bt \<noteq> 0"
    by (rule prod_nonzero [OF a0(1) _ a0(3) assms(4)]) (use assms(3) in auto)
  let ?p = "freq div (?a * bitrate bt) + tseg mod 2"
  have r: "?p * ?a \<noteq> 0" if "\<not> ?p < brp_min btc" "\<not> ?p > brp_max btc"
  proof (rule prod_nonzero [OF _ a0(1) _ a0(3)])
    have "1 \<le> ?p" "?p \<le> 255" using that assms(1) by (auto simp: btc_ok_def)
    then show "?p \<noteq> 0" "unat ?p \<le> 255" by (auto simp: word_le_nat_alt)
  qed simp
  obtain sp err t1 t2 where u: "can_update_sample_point btc n ?h (cs_tseg1 c) (cs_tseg2 c) = Some (sp, err, t1, t2)"
    "(t1, t2) = (cs_tseg1 c, cs_tseg2 c) \<or> t1 + t2 = ?h"
    using update_sample_point_some [OF a0(2)] by blast
  then have t: "unat (t1 + t2) \<le> 253" using h assms(2) by (auto simp: calc_inv_def)
  have i: "brp_inc btc = 1" using assms(1) by (simp add: btc_ok_def)
  show ?thesis
  proof (cases "?p < brp_min btc \<or> ?p > brp_max btc")
    case True
    then show ?thesis using q assms(2) i by (auto simp: calc_body_def CAN_CALC_SYNC_SEG_def udiv_some Let_def)
  next
    case False
    then show ?thesis
      using q r u(1) t h assms(2) i
      by (auto simp: calc_body_def CAN_CALC_SYNC_SEG_def udiv_some Let_def calc_inv_def)
  qed
qed

lemma calc_loop_some:
  assumes "btc_ok btc" "calc_inv btc c" "0 < bitrate bt" "unat (bitrate bt) \<le> 16000000" "unat tseg \<le> 507"
  shows "\<exists>c'. calc_loop freq bt btc n tseg c = Some c' \<and> calc_inv btc c'"
  using assms(2,5)
proof (induction "unat tseg" arbitrary: tseg c)
  case 0
  obtain stop c' where b: "calc_body freq bt btc n tseg c = Some (stop, c')" "calc_inv btc c'"
    using calc_body_some [OF assms(1) 0(2) assms(3,4) 0(3)] by blast
  have "(tseg1_min btc + tseg2_min btc) * 2 \<noteq> 0"
  proof -
    have s: "unat (tseg1_min btc + tseg2_min btc) = unat (tseg1_min btc) + unat (tseg2_min btc)"
      using assms(1) by (simp add: btc_ok_def unat_word_ariths)
    then show ?thesis using assms(1) by (intro prod_nonzero [of _ 2 255 2]) (auto simp: btc_ok_def)
  qed
  then have "\<not> tseg \<ge> (tseg1_min btc + tseg2_min btc) * 2" using 0(1) by (simp add: word_le_nat_alt unat_eq_zero)
  then show ?case using 0(2) by (subst calc_loop.simps) simp
next
  case (Suc k)
  obtain stop c' where b: "calc_body freq bt btc n tseg c = Some (stop, c')" "calc_inv btc c'"
    using calc_body_some [OF assms(1) Suc.prems(1) assms(3,4) Suc.prems(2)] by blast
  have "tseg \<noteq> 0" using Suc.hyps(2) by auto
  then have "unat (tseg - 1) = k" using Suc.hyps(2) by (simp add: unat_minus_one)
  then have "\<exists>d. calc_loop freq bt btc n (tseg - 1) c' = Some d \<and> calc_inv btc d"
    using Suc.hyps(1) [of "tseg - 1" c'] b(2) Suc.prems(2) Suc.hyps(2) by simp
  then show ?case using b Suc.prems(1) by (subst calc_loop.simps) auto
qed

lemma calc_finish_some:
  assumes "freq \<noteq> 0" "calc_inv btc c" "best_brp c \<noteq> 0" "brp_max btc \<le> 255"
  shows "\<exists>bt'. calc_finish freq bt btc n c = Some (0, bt') \<and> brp bt' = best_brp c \<and>
    bitrate bt' = freq div (brp bt' * (1 + prop_seg bt' + phase_seg1 bt' + phase_seg2 bt')) \<and>
    (sjw_max btc \<noteq> 0 \<longrightarrow> sjw bt' \<le> sjw_max btc \<and> (sjw bt' \<le> phase_seg2 bt' \<or> sjw bt' = 1))"
proof -
  have "unat (best_tseg c) \<le> 253" "unat (cs_tseg1 c + cs_tseg2 c) \<le> 253" using assms(2) by (simp_all add: calc_inv_def)
  moreover from this have "best_tseg c + 1 \<noteq> 0" by (simp add: word_unat_eq_iff unat_word_ariths)
  ultimately obtain sp err t1 t2 where
    u: "can_update_sample_point btc n (best_tseg c) (cs_tseg1 c) (cs_tseg2 c) = Some (sp, err, t1, t2)"
    and t: "unat (t1 + t2) \<le> 253"
    using update_sample_point_some [of "best_tseg c" btc n "cs_tseg1 c" "cs_tseg2 c"] by auto
  have "unat (1 + (t1 + t2)) = 1 + unat (t1 + t2)" using t by (subst unat_word_ariths) simp
  then have s: "1 + t1 + t2 \<noteq> 0" "unat (1 + t1 + t2) \<le> 254" using t by (auto simp: add.assoc)
  have "best_brp c \<le> 255" using assms(2,3,4) by (auto simp: calc_inv_def)
  then have "unat (best_brp c) \<le> 255" by (simp add: word_le_nat_alt)
  then have p: "best_brp c * (1 + t1 + t2) \<noteq> 0" by (rule prod_nonzero [OF assms(3) s(1) _ s(2)]) simp
  have f: "(ucast freq :: u64) \<noteq> 0" using assms(1) by (simp add: word_unat_eq_iff unat_u32_u64)
  have e: "1 + t1 div 2 + (t1 - t1 div 2) + t2 = 1 + t1 + t2" by simp
  show ?thesis
    using u p f e by (auto simp: calc_finish_def CAN_CALC_SYNC_SEG_def udiv_some do_div_def Let_def not_less word_one_le)
qed

lemma max_error_rejected:
  assumes "1000 \<le> unat (b :: u32)" "unat b \<le> 16000000"
  shows "\<exists>v. do_div (ucast UINT_MAX * 1000) b = Some v \<and> (ucast v :: u32) > CAN_CALC_MAX_ERROR"
proof -
  have u: "unat (ucast UINT_MAX * 1000 :: u64) = 4294967295000" by (simp add: UINT_MAX_def)
  have b: "unat (ucast b :: u64) = unat b" by (rule unat_u32_u64)
  let ?v = "ucast UINT_MAX * 1000 div ucast b :: u64"
  have v: "unat ?v = 4294967295000 div unat b" using u b by (simp add: unat_div)
  have "268435 \<le> unat ?v" "unat ?v < 2 ^ 32"
  proof -
    have "4294967295000 div 16000000 \<le> 4294967295000 div unat b" using assms by (intro div_le_mono2) auto
    then show "268435 \<le> unat ?v" using v by simp
    have "4294967295000 div unat b \<le> 4294967295000 div 1000" using assms by (intro div_le_mono2) auto
    then show "unat ?v < 2 ^ 32" using v by simp
  qed
  then have "unat (ucast ?v :: u32) = unat ?v" by (simp add: unsigned_ucast_eq take_bit_nat_eq_self)
  then have "(ucast ?v :: u32) > CAN_CALC_MAX_ERROR"
    using \<open>268435 \<le> unat ?v\<close> by (simp add: CAN_CALC_MAX_ERROR_def word_less_nat_alt)
  moreover have "(ucast b :: u64) \<noteq> 0" using assms(1) b by auto
  ultimately show ?thesis by (simp add: do_div_def udiv_some)
qed

lemma calc_bittiming_some:
  assumes "btc_ok btc" "freq \<noteq> 0" "1000 \<le> unat (bitrate bt)" "unat (bitrate bt) \<le> 16000000"
  shows "\<exists>r bt'. can_calc_bittiming freq bt btc = Some (r, bt') \<and> (r = 0 \<or> r = - EDOM) \<and>
    (r = 0 \<longrightarrow> brp_min btc \<le> brp bt' \<and> brp bt' \<le> brp_max btc \<and>
      bitrate bt' = freq div (brp bt' * (1 + prop_seg bt' + phase_seg1 bt' + phase_seg2 bt')) \<and>
      (sjw_max btc \<noteq> 0 \<longrightarrow> sjw bt' \<le> sjw_max btc \<and> (sjw bt' \<le> phase_seg2 bt' \<or> sjw bt' = 1)))"
proof -
  let ?n = "nominal_sample_point bt" and ?t = "(tseg1_max btc + tseg2_max btc) * 2 + 1"
  have m: "unat (tseg1_max btc) + unat (tseg2_max btc) \<le> 253" "brp_max btc \<le> 255"
    using assms(1) by (simp_all add: btc_ok_def)
  then have "unat (tseg1_max btc + tseg2_max btc) \<le> 253" by (simp add: unat_add_small)
  then have t: "unat ?t \<le> 507"
    using unat_mult_small [of "tseg1_max btc + tseg2_max btc" 2] by (subst unat_add_small) simp_all
  have b: "0 < bitrate bt" using assms(3) by (simp add: word_less_nat_alt)
  have "calc_inv btc calc_init" by (simp add: calc_inv_def calc_init_def)
  then obtain c where c: "calc_loop freq bt btc ?n ?t calc_init = Some c" "calc_inv btc c"
    using calc_loop_some [OF assms(1) _ b assms(4) t] by blast
  have fin: "best_brp c \<noteq> 0 \<Longrightarrow> brp_min btc \<le> best_brp c \<and> best_brp c \<le> brp_max btc"
    using c(2) by (auto simp: calc_inv_def)
  show ?thesis
  proof (cases "best_brp c = 0")
    case True
    then have "best_bitrate_error c = UINT_MAX"
      using c(2) assms(1) by (auto simp: calc_inv_def btc_ok_def)
    then show ?thesis
      using c(1) max_error_rejected [OF assms(3,4)]
      by (auto simp: can_calc_bittiming_def Let_def UINT_MAX_def EDOM_def)
  next
    case False
    have "(ucast (bitrate bt) :: u64) \<noteq> 0" using assms(3) by (simp add: word_unat_eq_iff unat_u32_u64)
    then show ?thesis
      using c(1) calc_finish_some [OF assms(2) c(2) False m(2), of bt ?n] fin [OF False]
      by (auto simp: can_calc_bittiming_def Let_def do_div_def udiv_some EDOM_def)
  qed
qed

lemma fixup_some:
  assumes "btc_ok btc" "unat (tseg1_max btc) + unat (tseg2_max btc) \<le> 253"
  shows "\<exists>r bt'. can_fixup_bittiming freq bt btc = Some (r, bt') \<and> r \<in> {0, - ERANGE, - EINVAL} \<and>
    prop_seg bt' = prop_seg bt \<and> phase_seg1 bt' = phase_seg1 bt \<and> phase_seg2 bt' = phase_seg2 bt \<and>
    (r = 0 \<longrightarrow> 1 \<le> sjw bt' \<and> sjw bt' \<le> sjw_max btc \<and>
      tseg1_min btc \<le> prop_seg bt + phase_seg1 bt \<and> prop_seg bt + phase_seg1 bt \<le> tseg1_max btc \<and>
      tseg2_min btc \<le> phase_seg2 bt \<and> phase_seg2 bt \<le> tseg2_max btc \<and>
      brp_min btc \<le> brp bt' \<and> brp bt' \<le> brp_max btc \<and>
      bitrate bt' = freq div (brp bt' * (prop_seg bt + phase_seg1 bt + phase_seg2 bt + 1)))"
proof -
  let ?t = "prop_seg bt + phase_seg1 bt"
  define b where "b = (if sjw bt = 0 then bt\<lparr>sjw := 1\<rparr> else bt)"
  have b: "prop_seg b = prop_seg bt" "phase_seg1 b = phase_seg1 bt" "phase_seg2 b = phase_seg2 bt" "tq b = tq bt"
    "1 \<le> sjw b"
    by (simp_all add: b_def word_one_le)
  define bad where "bad \<longleftrightarrow> sjw b > sjw_max btc \<or> ?t < tseg1_min btc \<or> ?t > tseg1_max btc \<or>
    phase_seg2 b < tseg2_min btc \<or> phase_seg2 b > tseg2_max btc"
  have i: "brp_inc btc = 1" "1 \<le> brp_min btc" "brp_max btc \<le> 255" using assms(1) by (simp_all add: btc_ok_def)
  define q where "q = (ucast ((ucast freq * ucast (tq b) + 499999999 :: u64) div 1000000000) :: u32)"
  let ?a = "prop_seg b + phase_seg1 b + phase_seg2 b + 1"
  have e: "can_fixup_bittiming freq bt btc =
    (if bad then Some (- ERANGE, b)
     else if q < brp_min btc \<or> q > brp_max btc then Some (- EINVAL, b\<lparr>brp := q\<rparr>)
     else do {
       r \<leftarrow> udiv freq (q * ?a);
       if ?a = 0 then None
       else Some (0, b\<lparr>brp := q, bitrate := r,
         sample_point := word_of_int (sint ((?t + 1) * 1000) sdiv sint ?a)\<rparr>)})"
    unfolding can_fixup_bittiming_def Let_def b_def [symmetric] bad_def [symmetric]
    by (simp add: q_def i(1) do_div_def udiv_def)
  show ?thesis
  proof (cases "bad \<or> q < brp_min btc \<or> q > brp_max btc")
    case True
    then show ?thesis using b unfolding e by (auto simp: errno_defs)
  next
    case False
    then have r: "tseg1_min btc \<le> ?t" "?t \<le> tseg1_max btc" "tseg2_min btc \<le> phase_seg2 bt"
      "phase_seg2 bt \<le> tseg2_max btc" "sjw b \<le> sjw_max btc" "brp_min btc \<le> q" "q \<le> brp_max btc"
      using b(3) by (auto simp: bad_def not_less)
    have "unat ?t + unat (phase_seg2 bt) \<le> 253" using r(2,4) assms(2) by (auto simp: word_le_nat_alt)
    then have "unat (?t + phase_seg2 bt) \<le> 253" by (subst unat_add_small) simp_all
    then have a: "?t + phase_seg2 bt + 1 \<noteq> 0" "unat (?t + phase_seg2 bt + 1) \<le> 254"
      by (simp_all add: word_unat_eq_iff unat_word_ariths)
    have "1 \<le> q" "q \<le> 255" using r(6,7) i(2,3) by auto
    then have "q \<noteq> 0" "unat q \<le> 255" by (auto simp: word_le_nat_alt)
    then have "q * (?t + phase_seg2 bt + 1) \<noteq> 0" by (rule prod_nonzero [OF _ a(1) _ a(2)]) simp
    then show ?thesis using False a(1) b r unfolding e by (simp add: udiv_some)
  qed
qed

lemma find_bitrate_index:
  assumes "i + n = length tab"
  shows "\<exists>j. find_bitrate r tab i n = Some j \<and> i \<le> j \<and> j \<le> length tab \<and>
    (j < length tab \<longleftrightarrow> r \<in> set (drop i tab))"
  using assms
proof (induction n arbitrary: i)
  case (Suc n)
  then have l: "i < length tab" "drop i tab = tab ! i # drop (Suc i) tab" by (simp_all add: Cons_nth_drop_Suc)
  from Suc.IH [of "Suc i"] Suc.prems l show ?case by (cases "r = tab ! i") auto
qed simp

text \<open>When the stored size of the table is the size of the table passed, \<open>can_validate_bitrate\<close>
  accepts exactly the bit rates in the table; when the stored size is larger, it accepts every
  bit rate that is not in the table.\<close>

lemma validate_bitrate_spec:
  "can_validate_bitrate (length tab) bt tab (length tab) = Some (if bitrate bt \<in> set tab then 0 else - EINVAL) \<and>
   (length tab < cnt \<longrightarrow> can_validate_bitrate cnt bt tab (length tab) = Some 0)"
proof -
  obtain j where "find_bitrate (bitrate bt) tab 0 (length tab) = Some j" "j \<le> length tab"
    "j < length tab \<longleftrightarrow> bitrate bt \<in> set tab"
    using find_bitrate_index [of 0 "length tab" tab "bitrate bt"] by auto
  then show ?thesis by (auto simp: can_validate_bitrate_def)
qed

end
