(* ===== verification/Ctu_Dev.thy ===== *)
theory Ctu_Dev
  imports Ctu_Kregs Ctu_Linux
begin

text \<open>
  The state the kernel driver works on and its access to registers, from
  \<open>driver/ctucanfd.h\<close> and the first part of \<open>driver/ctucanfd_base.c\<close>.

  Three parties take part in a driver call:
  \<^item> the driver's own data, \<open>struct ctucan_priv\<close> and the statistics of the network device;
  \<^item> the device behind the bus: a parameter \<open>B :: 'd bus\<close> whose two operations are a
    32-bit load and a 32-bit store (as little-endian values) on a device state \<open>'d\<close>; a
    load may change the state, so any autonomous behaviour of the hardware is covered;
  \<^item> the kernel: every call into it is appended to a log, newest first, and what it
    answers is given by a parameter \<open>K :: kern\<close> that may depend on the whole log.
  Log messages below the level of \<open>netdev_err\<close> are left out.
\<close>

section \<open>Enumerations and constants\<close>

definition CTUCANFD_ID :: u32 where "CTUCANFD_ID = 0xCAFD"
definition CTUCANFD_FLAG_RX_FFW_BUFFERED :: nat where "CTUCANFD_FLAG_RX_FFW_BUFFERED = 1"

definition TXT_NOT_EXIST :: u32 where "TXT_NOT_EXIST = 0x0"
definition TXT_RDY :: u32 where "TXT_RDY = 0x1"
definition TXT_TRAN :: u32 where "TXT_TRAN = 0x2"
definition TXT_ABTP :: u32 where "TXT_ABTP = 0x3"
definition TXT_TOK :: u32 where "TXT_TOK = 0x4"
definition TXT_ERR :: u32 where "TXT_ERR = 0x6"
definition TXT_ABT :: u32 where "TXT_ABT = 0x7"
definition TXT_ETY :: u32 where "TXT_ETY = 0x8"

definition TXT_CMD_SET_EMPTY :: u32 where "TXT_CMD_SET_EMPTY = 0x01"
definition TXT_CMD_SET_READY :: u32 where "TXT_CMD_SET_READY = 0x02"
definition TXT_CMD_SET_ABORT :: u32 where "TXT_CMD_SET_ABORT = 0x04"

lemmas txt_status_defs = TXT_NOT_EXIST_def TXT_RDY_def TXT_TRAN_def TXT_ABTP_def TXT_TOK_def
  TXT_ERR_def TXT_ABT_def TXT_ETY_def
lemmas txt_cmd_defs = TXT_CMD_SET_EMPTY_def TXT_CMD_SET_READY_def TXT_CMD_SET_ABORT_def

definition ctu_can_fd_bit_timing_max :: can_bittiming_const where
  "ctu_can_fd_bit_timing_max = \<lparr>name = ''ctu_can_fd'', tseg1_min = 2, tseg1_max = 190,
     tseg2_min = 1, tseg2_max = 63, sjw_max = 31, brp_min = 1, brp_max = 8, brp_inc = 1\<rparr>"

definition ctu_can_fd_bit_timing_data_max :: can_bittiming_const where
  "ctu_can_fd_bit_timing_data_max = \<lparr>name = ''ctu_can_fd'', tseg1_min = 2, tseg1_max = 94,
     tseg2_min = 1, tseg2_max = 31, sjw_max = 31, brp_min = 1, brp_max = 2, brp_inc = 1\<rparr>"

section \<open>State\<close>

record can_priv =
  bittiming :: can_bittiming
  data_bittiming :: can_bittiming
  clock_freq :: u32
  state :: can_state
  ctrlmode :: u32
  ctrlmode_supported :: u32
  can_stats :: can_device_stats

text \<open>
  The pointers \<open>read_reg\<close> and \<open>write_reg\<close> of \<open>struct ctucan_priv\<close> are only ever set
  together, to the little-endian or to the big-endian accessors.
\<close>

datatype io_access = IO_LE | IO_BE

text \<open>
  Of the list link \<open>peers_on_pdev\<close> it matters whether the device is in the list of its card.
\<close>

record ctucan_priv =
  can :: can_priv
  mem_base :: iomem
  reg_access :: io_access
  txb_head :: u32
  txb_tail :: u32
  txb_prio :: u32
  ntxbufs :: u32
  irq_flags :: u32
  drv_flags :: u64
  rxfrm_first_word :: u32
  peers_on_pdev :: bool

record net_device_stats =
  rx_packets :: u64
  tx_packets :: u64
  rx_bytes :: u64
  tx_bytes :: u64
  rx_errors :: u64
  tx_dropped :: u64
  rx_over_errors :: u64

record sk_buff =
  skb_is_canfd :: bool
  skb_frame :: canfd_frame

text \<open>Calls into the kernel.\<close>

datatype kcall =
    Netif_stop_queue
  | Netif_wake_queue
  | Netif_start_queue
  | Netif_device_detach
  | Netif_device_attach
  | Netif_running
  | Can_dropped_skb sk_buff
  | Can_put_echo_skb sk_buff u32
  | Can_get_echo_skb u32
  | Can_free_echo_skb u32
  | Kfree_skb sk_buff
  | Alloc_canfd_skb
  | Alloc_can_skb
  | Alloc_can_err_skb
  | Netif_receive_skb bool canfd_frame
  | Netif_rx can_frame
  | Napi_schedule
  | Napi_complete_done int
  | Napi_enable
  | Napi_disable
  | Can_bus_off
  | Net_ratelimit
  | Usleep_range nat nat
  | Spin_lock_irqsave
  | Spin_unlock_irqrestore
  | Netdev_err string
  | Warn string
  | Pm_runtime_get_sync
  | Pm_runtime_put
  | Pm_runtime_put_noidle
  | Open_candev
  | Close_candev
  | Request_irq
  | Free_irq
  | Alloc_candev u32
  | Free_candev
  | Devm_clk_get
  | Clk_get_rate
  | Pm_runtime_enable
  | Pm_runtime_disable
  | Netif_napi_add
  | Register_candev
  | Dev_err string
  | Unregister_candev
  | Netif_napi_del
  | Pci_enable_device
  | Pci_disable_device
  | Pci_request_regions
  | Pci_release_regions
  | Pci_enable_msi
  | Pci_disable_msi
  | Pci_set_master
  | Pci_clear_master
  | Pci_iomap nat
  | Pci_iounmap iomem
  | Pci_set_drvdata
  | Kzalloc
  | Kfree
  | Platform_ioremap_resource
  | Platform_get_irq
  | Platform_set_drvdata

text \<open>The bits of an error message frame, declared in \<open>linux/can/error.h\<close>.\<close>

record can_err_codes =
  CAN_ERR_LOSTARB :: u32
  CAN_ERR_CRTL :: u32
  CAN_ERR_PROT :: u32
  CAN_ERR_BUSOFF :: u32
  CAN_ERR_BUSERROR :: u32
  CAN_ERR_CNT :: u32
  CAN_ERR_LOSTARB_UNSPEC :: u8
  CAN_ERR_CRTL_RX_OVERFLOW :: u8
  CAN_ERR_CRTL_RX_WARNING :: u8
  CAN_ERR_CRTL_TX_WARNING :: u8
  CAN_ERR_CRTL_RX_PASSIVE :: u8
  CAN_ERR_CRTL_TX_PASSIVE :: u8
  CAN_ERR_CRTL_ACTIVE :: u8
  CAN_ERR_PROT_UNSPEC :: u8
  CAN_ERR_PROT_LOC_UNSPEC :: u8

text \<open>What the kernel answers, as functions of the calls made so far.\<close>

record kern =
  k_dropped_skb :: "kcall list \<Rightarrow> sk_buff \<Rightarrow> bool"
  k_alloc_canfd_skb :: "kcall list \<Rightarrow> canfd_frame option"
  k_alloc_can_skb :: "kcall list \<Rightarrow> canfd_frame option"
  k_alloc_can_err_skb :: "kcall list \<Rightarrow> can_frame option"
  k_get_echo_len :: "kcall list \<Rightarrow> u32 \<Rightarrow> u32"
  k_fd_len2dlc :: "u8 \<Rightarrow> u8"
  k_napi_complete_done :: "kcall list \<Rightarrow> int \<Rightarrow> bool"
  k_netif_running :: "kcall list \<Rightarrow> bool"
  k_pm_runtime_get_sync :: "kcall list \<Rightarrow> int"
  k_open_candev :: "kcall list \<Rightarrow> int"
  k_request_irq :: "kcall list \<Rightarrow> int"
  k_alloc_candev :: "kcall list \<Rightarrow> ctucan_priv option"
  k_clk_get :: "kcall list \<Rightarrow> int option"
  k_clk_get_rate :: "kcall list \<Rightarrow> u64"
  k_register_candev :: "kcall list \<Rightarrow> int"
  k_err :: can_err_codes

record 'd bus =
  ld32 :: "'d \<Rightarrow> iomem \<Rightarrow> u32 \<times> 'd"
  st32 :: "'d \<Rightarrow> iomem \<Rightarrow> u32 \<Rightarrow> 'd"

record 'd ndev =
  priv :: ctucan_priv
  stats :: net_device_stats
  klog :: "kcall list"
  hw :: 'd

text \<open>A memory error of the driver is a value, so that it is a branch of the model.\<close>

datatype fault = NullDeref | OutOfBounds | WrongObject

definition kdo :: "kcall \<Rightarrow> 'd ndev \<Rightarrow> 'd ndev" where
  "kdo c s = s\<lparr>klog := c # klog s\<rparr>"

definition upd_priv :: "(ctucan_priv \<Rightarrow> ctucan_priv) \<Rightarrow> 'd ndev \<Rightarrow> 'd ndev" where
  "upd_priv f s = s\<lparr>priv := f (priv s)\<rparr>"

definition upd_can :: "(can_priv \<Rightarrow> can_priv) \<Rightarrow> 'd ndev \<Rightarrow> 'd ndev" where
  "upd_can f = upd_priv (\<lambda>p. p\<lparr>can := f (can p)\<rparr>)"

definition upd_stats :: "(net_device_stats \<Rightarrow> net_device_stats) \<Rightarrow> 'd ndev \<Rightarrow> 'd ndev" where
  "upd_stats f s = s\<lparr>stats := f (stats s)\<rparr>"

section \<open>Register access\<close>

definition bswap32 :: "u32 \<Rightarrow> u32" where
  "bswap32 x = push_bit 24 (x AND 0xFF) OR push_bit 8 (x AND 0xFF00)
     OR (drop_bit 8 x AND 0xFF00) OR drop_bit 24 x"

definition ioread32 :: "'d bus \<Rightarrow> iomem \<Rightarrow> 'd ndev \<Rightarrow> u32 \<times> 'd ndev" where
  "ioread32 B addr s = (let (v, d) = ld32 B (hw s) addr in (v, s\<lparr>hw := d\<rparr>))"

definition ioread32be :: "'d bus \<Rightarrow> iomem \<Rightarrow> 'd ndev \<Rightarrow> u32 \<times> 'd ndev" where
  "ioread32be B addr s = (let (v, s) = ioread32 B addr s in (bswap32 v, s))"

definition iowrite32 :: "'d bus \<Rightarrow> u32 \<Rightarrow> iomem \<Rightarrow> 'd ndev \<Rightarrow> 'd ndev" where
  "iowrite32 B v addr s = s\<lparr>hw := st32 B (hw s) addr v\<rparr>"

definition iowrite32be :: "'d bus \<Rightarrow> u32 \<Rightarrow> iomem \<Rightarrow> 'd ndev \<Rightarrow> 'd ndev" where
  "iowrite32be B v addr s = iowrite32 B (bswap32 v) addr s"

definition ctucan_write32_le :: "'d bus \<Rightarrow> u32 \<Rightarrow> u32 \<Rightarrow> 'd ndev \<Rightarrow> 'd ndev" where
  "ctucan_write32_le B reg val s = iowrite32 B val (mem_base (priv s) + ucast reg) s"

definition ctucan_write32_be :: "'d bus \<Rightarrow> u32 \<Rightarrow> u32 \<Rightarrow> 'd ndev \<Rightarrow> 'd ndev" where
  "ctucan_write32_be B reg val s = iowrite32be B val (mem_base (priv s) + ucast reg) s"

definition ctucan_read32_le :: "'d bus \<Rightarrow> u32 \<Rightarrow> 'd ndev \<Rightarrow> u32 \<times> 'd ndev" where
  "ctucan_read32_le B reg s = ioread32 B (mem_base (priv s) + ucast reg) s"

definition ctucan_read32_be :: "'d bus \<Rightarrow> u32 \<Rightarrow> 'd ndev \<Rightarrow> u32 \<times> 'd ndev" where
  "ctucan_read32_be B reg s = ioread32be B (mem_base (priv s) + ucast reg) s"

definition ctucan_write32 :: "'d bus \<Rightarrow> u32 \<Rightarrow> u32 \<Rightarrow> 'd ndev \<Rightarrow> 'd ndev" where
  "ctucan_write32 B reg val s =
     (case reg_access (priv s) of IO_LE \<Rightarrow> ctucan_write32_le B reg val s
      | IO_BE \<Rightarrow> ctucan_write32_be B reg val s)"

definition ctucan_read32 :: "'d bus \<Rightarrow> u32 \<Rightarrow> 'd ndev \<Rightarrow> u32 \<times> 'd ndev" where
  "ctucan_read32 B reg s =
     (case reg_access (priv s) of IO_LE \<Rightarrow> ctucan_read32_le B reg s
      | IO_BE \<Rightarrow> ctucan_read32_be B reg s)"

definition ctucan_write_txt_buf :: "'d bus \<Rightarrow> u32 \<Rightarrow> u32 \<Rightarrow> u32 \<Rightarrow> 'd ndev \<Rightarrow> 'd ndev" where
  "ctucan_write_txt_buf B buf_base offset val s = ctucan_write32 B (buf_base + offset) val s"

definition CTU_CAN_FD_TXTNF :: "'d bus \<Rightarrow> 'd ndev \<Rightarrow> bool \<times> 'd ndev" where
  "CTU_CAN_FD_TXTNF B s =
     (let (v, s) = ctucan_read32 B CTUCANFD_STATUS s in (FIELD_GET REG_STATUS_TXNF v \<noteq> 0, s))"

definition CTU_CAN_FD_ENABLED :: "'d bus \<Rightarrow> 'd ndev \<Rightarrow> bool \<times> 'd ndev" where
  "CTU_CAN_FD_ENABLED B s =
     (let (v, s) = ctucan_read32 B CTUCANFD_MODE s in (FIELD_GET REG_MODE_ENA v \<noteq> 0, s))"

definition ctucan_state_strings :: "string list" where
  "ctucan_state_strings = [''CAN_STATE_ERROR_ACTIVE'', ''CAN_STATE_ERROR_WARNING'',
     ''CAN_STATE_ERROR_PASSIVE'', ''CAN_STATE_BUS_OFF'', ''CAN_STATE_STOPPED'',
     ''CAN_STATE_SLEEPING'']"

primrec state_code :: "can_state \<Rightarrow> nat" where
  "state_code CAN_STATE_ERROR_ACTIVE = 0"
| "state_code CAN_STATE_ERROR_WARNING = 1"
| "state_code CAN_STATE_ERROR_PASSIVE = 2"
| "state_code CAN_STATE_BUS_OFF = 3"
| "state_code CAN_STATE_STOPPED = 4"
| "state_code CAN_STATE_SLEEPING = 5"
| "state_code CAN_STATE_MAX = 6"

definition ctucan_state_to_str :: "can_state \<Rightarrow> string" where
  "ctucan_state_to_str st =
     (if state_code st < state_code CAN_STATE_MAX then ctucan_state_strings ! state_code st
      else ''UNKNOWN'')"

section \<open>Byte order\<close>

text \<open>The value on the bus for a register value, for either kind of accessor.\<close>

definition bus_order :: "io_access \<Rightarrow> u32 \<Rightarrow> u32" where
  "bus_order acc v = (case acc of IO_LE \<Rightarrow> v | IO_BE \<Rightarrow> bswap32 v)"

lemma bit_bswap32:
  "bit (bswap32 w) i \<longleftrightarrow>
     (if i < 8 then bit w (i + 24) else if i < 16 then bit w (i + 8)
      else if i < 24 then bit w (i - 8) else i < 32 \<and> bit w (i - 24))"
proof -
  have m: "(0xFF :: u32) = mask 8" "(0xFF00 :: u32) = push_bit 8 (mask 8)"
    by (simp_all add: mask_eq_exp_minus_1)
  have "\<not> bit w j" if "32 \<le> j" for j using bit_imp_le_length [of w j] that by auto
  then show ?thesis unfolding bswap32_def m by (auto simp: bit_simps ac_simps)
qed

lemma bswap32_bswap32 [simp]: "bswap32 (bswap32 w) = w"
  by (rule bit_eqI) (auto simp: bit_bswap32 split: if_splits)

lemma bus_order_bus_order [simp]: "bus_order acc (bus_order acc w) = w"
  by (simp add: bus_order_def split: io_access.split)

lemma ctucan_read32_bus:
  "reg_access (priv s) = acc \<Longrightarrow> ctucan_read32 B reg s =
    (let (w, d) = ld32 B (hw s) (mem_base (priv s) + ucast reg)
     in (bus_order acc w, s\<lparr>hw := d\<rparr>))"
  by (auto simp: ctucan_read32_def ctucan_read32_le_def ctucan_read32_be_def ioread32_def
      ioread32be_def bus_order_def Let_def split_def split: io_access.split)

lemma ctucan_write32_bus:
  "reg_access (priv s) = acc \<Longrightarrow> ctucan_write32 B reg w s =
     s\<lparr>hw := st32 B (hw s) (mem_base (priv s) + ucast reg) (bus_order acc w)\<rparr>"
  by (auto simp: ctucan_write32_def ctucan_write32_le_def ctucan_write32_be_def iowrite32_def
      iowrite32be_def bus_order_def split: io_access.split)

section \<open>Concrete instances\<close>

text \<open>
  A device that is a plain file of registers, a kernel that grants every request, and a driver
  as \<open>ctucan_probe_common\<close> leaves it for a controller with four TXT buffers. The properties about
  arbitrary devices and kernels are applied to these.
\<close>

definition regfile :: "(iomem \<Rightarrow> u32) bus" where
  "regfile = \<lparr>ld32 = (\<lambda>m a. (m a, m)), st32 = (\<lambda>m a v. m(a := v))\<rparr>"

text \<open>A device of plain registers that also keeps the writes it has seen, the last one first.\<close>

type_synonym tracedev = "(iomem \<Rightarrow> u32) \<times> (iomem \<times> u32) list"

definition tracefile :: "tracedev bus" where
  "tracefile = \<lparr>ld32 = (\<lambda>d a. (fst d a, d)), st32 = (\<lambda>d a v. ((fst d)(a := v), (a, v) # snd d))\<rparr>"

lemma tracefile_write:
  "ctucan_write32 tracefile reg v s =
     s\<lparr>hw := ((fst (hw s))(mem_base (priv s) + ucast reg := bus_order (reg_access (priv s)) v),
       (mem_base (priv s) + ucast reg, bus_order (reg_access (priv s)) v) # snd (hw s))\<rparr>"
  by (simp add: ctucan_write32_bus tracefile_def)

lemma tracefile_read:
  "ctucan_read32 tracefile reg s =
     (bus_order (reg_access (priv s)) (fst (hw s) (mem_base (priv s) + ucast reg)), s)"
  by (simp add: ctucan_read32_bus tracefile_def)

definition no_timing :: can_bittiming where
  "no_timing = \<lparr>bitrate = 0, sample_point = 0, tq = 0, prop_seg = 0, phase_seg1 = 0, phase_seg2 = 0,
     sjw = 0, brp = 0\<rparr>"

definition demo_can :: can_priv where
  "demo_can = \<lparr>bittiming = no_timing, data_bittiming = no_timing, clock_freq = 100000000,
     state = CAN_STATE_STOPPED, ctrlmode = 0, ctrlmode_supported = 0,
     can_stats = \<lparr>bus_error = 0, error_warning = 0, error_passive = 0, bus_off = 0,
       arbitration_lost = 0, restarts = 0\<rparr>\<rparr>"

definition demo_priv :: ctucan_priv where
  "demo_priv = \<lparr>can = demo_can, mem_base = 0, reg_access = IO_LE, txb_head = 0, txb_tail = 0,
     txb_prio = 0x01234567, ntxbufs = 4, irq_flags = 0, drv_flags = 0, rxfrm_first_word = 0,
     peers_on_pdev = False\<rparr>"

definition zero_frame :: "nat \<Rightarrow> canfd_frame" where
  "zero_frame n = \<lparr>can_id = 0, flen = 0, flags = 0, data = replicate n 0\<rparr>"

definition demo_kern :: kern where
  "demo_kern = \<lparr>k_dropped_skb = (\<lambda>_ _. False), k_alloc_canfd_skb = (\<lambda>_. Some (zero_frame 64)),
     k_alloc_can_skb = (\<lambda>_. Some (zero_frame 8)),
     k_alloc_can_err_skb = (\<lambda>_. Some \<lparr>cf_can_id = CAN_ERR_FLAG, cf_can_dlc = 8, cf_data = replicate 8 0\<rparr>),
     k_get_echo_len = (\<lambda>_ _. 0), k_fd_len2dlc = can_len2dlc, k_napi_complete_done = (\<lambda>_ _. True),
     k_netif_running = (\<lambda>_. True), k_pm_runtime_get_sync = (\<lambda>_. 0), k_open_candev = (\<lambda>_. 0),
     k_request_irq = (\<lambda>_. 0), k_alloc_candev = (\<lambda>_. Some demo_priv), k_clk_get = (\<lambda>_. None),
     k_clk_get_rate = (\<lambda>_. 100000000), k_register_candev = (\<lambda>_. 0),
     k_err = \<lparr>CAN_ERR_LOSTARB = 0x2, CAN_ERR_CRTL = 0x4, CAN_ERR_PROT = 0x8, CAN_ERR_BUSOFF = 0x40,
       CAN_ERR_BUSERROR = 0x80, CAN_ERR_CNT = 0x200, CAN_ERR_LOSTARB_UNSPEC = 0,
       CAN_ERR_CRTL_RX_OVERFLOW = 0x1, CAN_ERR_CRTL_RX_WARNING = 0x4, CAN_ERR_CRTL_TX_WARNING = 0x8,
       CAN_ERR_CRTL_RX_PASSIVE = 0x10, CAN_ERR_CRTL_TX_PASSIVE = 0x20, CAN_ERR_CRTL_ACTIVE = 0x40,
       CAN_ERR_PROT_UNSPEC = 0, CAN_ERR_PROT_LOC_UNSPEC = 0\<rparr>\<rparr>"

definition zero_stats :: net_device_stats where
  "zero_stats = \<lparr>rx_packets = 0, tx_packets = 0, rx_bytes = 0, tx_bytes = 0, rx_errors = 0,
     tx_dropped = 0, rx_over_errors = 0\<rparr>"

definition demo_ndev :: "kcall list \<Rightarrow> 'd \<Rightarrow> 'd ndev" where
  "demo_ndev l d = \<lparr>priv = demo_priv, stats = zero_stats, klog = l, hw = d\<rparr>"

end
