(* ===== verification/Ctu_Tx.thy ===== *)
theory Ctu_Tx
  imports Ctu_Dev
begin

text \<open>
  Transmission, from \<open>driver/ctucanfd_base.c\<close>: insertion of a frame into a TXT buffer,
  \<open>ctucan_start_xmit\<close>, the rotation of buffer priorities and the handler of the
  interrupt that reports finished buffers.

  The two nested loops of \<open>ctucan_tx_interrupt\<close> are the functions \<open>txi_inner\<close> and
  \<open>txi_outer\<close>. Their termination does not depend on the device: every processed buffer
  moves \<open>txb_tail\<close> towards \<open>txb_head\<close>.
\<close>

section \<open>TXT buffers\<close>

definition ctucan_get_tx_status :: "'d bus \<Rightarrow> u8 \<Rightarrow> 'd ndev \<Rightarrow> u32 \<times> 'd ndev" where
  "ctucan_get_tx_status B buf s =
     (let (tx_status, s) = ctucan_read32 B CTUCANFD_TX_STATUS s
      in (drop_bit (unat buf * 4) tx_status AND 0x7, s))"

definition ctucan_is_txt_buf_writable :: "'d bus \<Rightarrow> u8 \<Rightarrow> 'd ndev \<Rightarrow> bool \<times> 'd ndev" where
  "ctucan_is_txt_buf_writable B buf s =
     (let (buf_status, s) = ctucan_get_tx_status B buf s
      in (\<not> (buf_status = TXT_RDY \<or> buf_status = TXT_TRAN \<or> buf_status = TXT_ABTP), s))"

text \<open>The words \<open>ffw\<close> and \<open>idw\<close> that \<open>ctucan_insert_frame\<close> prepares.\<close>

definition tx_ffw :: "kern \<Rightarrow> canfd_frame \<Rightarrow> bool \<Rightarrow> u32" where
  "tx_ffw K cf isfdf =
     (let ffw = 0;
          ffw = (if can_id cf AND CAN_RTR_FLAG \<noteq> 0 then ffw OR REG_FRAME_FORMAT_W_RTR else ffw);
          ffw = (if can_id cf AND CAN_EFF_FLAG \<noteq> 0 then ffw OR REG_FRAME_FORMAT_W_IDE else ffw);
          ffw = (if isfdf
                 then let ffw = ffw OR REG_FRAME_FORMAT_W_FDF
                      in if flags cf AND CANFD_BRS \<noteq> 0 then ffw OR REG_FRAME_FORMAT_W_BRS else ffw
                 else ffw)
      in ffw OR FIELD_PREP REG_FRAME_FORMAT_W_DLC (ucast (k_fd_len2dlc K (flen cf))))"

definition tx_idw :: "canfd_frame \<Rightarrow> u32" where
  "tx_idw cf =
     (if can_id cf AND CAN_EFF_FLAG \<noteq> 0 then can_id cf AND CAN_EFF_MASK
      else FIELD_PREP REG_IDENTIFIER_W_IDENTIFIER_BASE (can_id cf AND CAN_SFF_MASK))"

text \<open>A 32-bit little-endian access to the payload array at byte offset \<open>i\<close>.\<close>

definition get_le32 :: "u8 list \<Rightarrow> nat \<Rightarrow> u32 option" where
  "get_le32 bs i =
     (if i + 3 < length bs
      then Some (ucast (bs ! i) OR push_bit 8 (ucast (bs ! (i + 1)))
        OR push_bit 16 (ucast (bs ! (i + 2))) OR push_bit 24 (ucast (bs ! (i + 3))))
      else None)"

function insert_data ::
  "'d bus \<Rightarrow> u32 \<Rightarrow> canfd_frame \<Rightarrow> nat \<Rightarrow> 'd ndev \<Rightarrow> fault + 'd ndev" where
  "insert_data B buf_base cf i s =
     (if i < unat (flen cf)
      then case get_le32 (data cf) i of
             None \<Rightarrow> Inl OutOfBounds
           | Some w \<Rightarrow> insert_data B buf_base cf (i + 4)
               (ctucan_write_txt_buf B buf_base (CTUCANFD_DATA_1_4_W + of_nat i) w s)
      else Inr s)"
  by pat_completeness auto
termination
  by (relation "measure (\<lambda>(B, b, cf, i, s). unat (flen cf) - i)") auto

declare insert_data.simps [simp del]

definition ctucan_insert_frame ::
  "'d bus \<Rightarrow> kern \<Rightarrow> canfd_frame \<Rightarrow> u8 \<Rightarrow> bool \<Rightarrow> 'd ndev \<Rightarrow> fault + bool \<times> 'd ndev" where
  "ctucan_insert_frame B K cf buf isfdf s =
     (if ucast buf \<ge> ntxbufs (priv s) then Inr (False, s)
      else let (writable, s) = ctucan_is_txt_buf_writable B buf s
      in if \<not> writable then Inr (False, s)
      else if unat (flen cf) > CANFD_MAX_DLEN then Inr (False, s)
      else
        let buf_base = (ucast buf + 1) * 0x100;
            s = ctucan_write_txt_buf B buf_base CTUCANFD_FRAME_FORMAT_W (tx_ffw K cf isfdf) s;
            s = ctucan_write_txt_buf B buf_base CTUCANFD_IDENTIFIER_W (tx_idw cf) s
        in if can_id cf AND CAN_RTR_FLAG = 0
           then case insert_data B buf_base cf 0 s of
                  Inl f \<Rightarrow> Inl f
                | Inr s \<Rightarrow> Inr (True, s)
           else Inr (True, s))"

definition ctucan_give_txtb_cmd :: "'d bus \<Rightarrow> u32 \<Rightarrow> u8 \<Rightarrow> 'd ndev \<Rightarrow> 'd ndev" where
  "ctucan_give_txtb_cmd B cmd buf s =
     ctucan_write32 B CTUCANFD_TX_COMMAND (cmd OR push_bit (unat buf + 8) 1) s"

section \<open>Start of a transmission\<close>

datatype netdev_tx = NETDEV_TX_OK | NETDEV_TX_BUSY

text \<open>
  \<open>ctucan_start_xmit\<close> up to the point where it takes \<open>tx_lock\<close>: it has returned (\<open>Inl\<close>) or goes
  on with the buffer it has filled (\<open>Inr\<close>).
\<close>

definition xmit_prepare ::
  "'d bus \<Rightarrow> kern \<Rightarrow> sk_buff \<Rightarrow> 'd ndev \<Rightarrow> fault + (netdev_tx + u32) \<times> 'd ndev" where
  "xmit_prepare B K skb s =
     (let dropped = k_dropped_skb K (klog s) skb;
          s = kdo (Can_dropped_skb skb) s
      in if dropped then Inr (Inl NETDEV_TX_OK, s)
      else let (txtnf, s) = CTU_CAN_FD_TXTNF B s
      in if \<not> txtnf
         then Inr (Inl NETDEV_TX_BUSY,
                kdo (Netdev_err ''BUG!, no TXB free when queue awake!'') (kdo Netif_stop_queue s))
      else let txtb_id = txb_head (priv s) mod ntxbufs (priv s)
      in case ctucan_insert_frame B K (skb_frame skb) (ucast txtb_id) (skb_is_canfd skb) s of
           Inl f \<Rightarrow> Inl f
         | Inr (ok, s) \<Rightarrow>
             if \<not> ok
             then Inr (Inl NETDEV_TX_OK,
               upd_stats (\<lambda>t. t\<lparr>tx_dropped := tx_dropped t + 1\<rparr>)
                 (kdo (Kfree_skb skb)
                   (kdo (Netdev_err ''BUG! TXNF set but cannot insert frame into TXTB! HW Bug?'') s)))
             else Inr (Inr txtb_id, kdo (Can_put_echo_skb skb txtb_id) s))"

text \<open>The part that runs under \<open>tx_lock\<close>.\<close>

definition xmit_locked :: "'d bus \<Rightarrow> u32 \<Rightarrow> 'd ndev \<Rightarrow> 'd ndev" where
  "xmit_locked B txtb_id s =
     (let s = kdo Spin_lock_irqsave s;
          s = ctucan_give_txtb_cmd B TXT_CMD_SET_READY (ucast txtb_id) s;
          s = upd_priv (\<lambda>p. p\<lparr>txb_head := txb_head p + 1\<rparr>) s;
          (txtnf, s) = CTU_CAN_FD_TXTNF B s;
          s = (if \<not> txtnf then kdo Netif_stop_queue s else s)
      in kdo Spin_unlock_irqrestore s)"

definition ctucan_start_xmit ::
  "'d bus \<Rightarrow> kern \<Rightarrow> sk_buff \<Rightarrow> 'd ndev \<Rightarrow> fault + netdev_tx \<times> 'd ndev" where
  "ctucan_start_xmit B K skb s =
     (case xmit_prepare B K skb s of
        Inl f \<Rightarrow> Inl f
      | Inr (Inl r, s) \<Rightarrow> Inr (r, s)
      | Inr (Inr txtb_id, s) \<Rightarrow> Inr (NETDEV_TX_OK, xmit_locked B txtb_id s))"

section \<open>Priority rotation\<close>

definition rotate_prio :: "u32 \<Rightarrow> u32 \<Rightarrow> u32" where
  "rotate_prio n prio =
     push_bit 4 prio OR (drop_bit (unat ((n - 1) * 4)) prio AND 0xF)"

definition ctucan_rotate_txb_prio :: "'d bus \<Rightarrow> 'd ndev \<Rightarrow> 'd ndev" where
  "ctucan_rotate_txb_prio B s =
     (let prio = rotate_prio (ntxbufs (priv s)) (txb_prio (priv s));
          s = upd_priv (\<lambda>p. p\<lparr>txb_prio := prio\<rparr>) s
      in ctucan_write32 B CTUCANFD_TX_PRIORITY prio s)"

section \<open>Completion interrupt\<close>

text \<open>
  The \<open>switch\<close> on the status of the buffer at the tail; \<open>None\<close> is its \<open>default\<close> branch,
  taken for a buffer that is not finished.
\<close>

definition txi_switch :: "kern \<Rightarrow> u32 \<Rightarrow> u32 \<Rightarrow> 'd ndev \<Rightarrow> 'd ndev option" where
  "txi_switch K txtb_status txtb_id s =
     (if txtb_status = TXT_TOK then
        (let l = k_get_echo_len K (klog s) txtb_id;
             s = kdo (Can_get_echo_skb txtb_id) s;
             s = upd_stats (\<lambda>t. t\<lparr>tx_bytes := tx_bytes t + ucast l\<rparr>) s
         in Some (upd_stats (\<lambda>t. t\<lparr>tx_packets := tx_packets t + 1\<rparr>) s))
      else if txtb_status = TXT_ERR \<or> txtb_status = TXT_ABT then
        Some (upd_stats (\<lambda>t. t\<lparr>tx_dropped := tx_dropped t + 1\<rparr>)
          (kdo (Can_free_echo_skb txtb_id) s))
      else None)"

definition txi_advance :: "'d bus \<Rightarrow> u32 \<Rightarrow> 'd ndev \<Rightarrow> 'd ndev" where
  "txi_advance B txtb_id s =
     (let s = upd_priv (\<lambda>p. p\<lparr>txb_tail := txb_tail p + 1\<rparr>) s;
          s = ctucan_rotate_txb_prio B s
      in ctucan_give_txtb_cmd B TXT_CMD_SET_EMPTY (ucast txtb_id) s)"

definition txb_pending :: "ctucan_priv \<Rightarrow> int" where
  "txb_pending p = sint (txb_head p - txb_tail p)"

lemma read32_frame [simp]:
  "priv (snd (ctucan_read32 B reg s)) = priv s"
  "stats (snd (ctucan_read32 B reg s)) = stats s"
  "klog (snd (ctucan_read32 B reg s)) = klog s"
  by (simp_all add: ctucan_read32_def ctucan_read32_le_def ctucan_read32_be_def ioread32_def
      ioread32be_def Let_def split_def split: io_access.split)

lemma write32_frame [simp]:
  "priv (ctucan_write32 B reg v s) = priv s"
  "stats (ctucan_write32 B reg v s) = stats s"
  "klog (ctucan_write32 B reg v s) = klog s"
  by (simp_all add: ctucan_write32_def ctucan_write32_le_def ctucan_write32_be_def iowrite32_def
      iowrite32be_def Let_def split_def split: io_access.split)

lemma kdo_frame [simp]:
  "priv (kdo c s) = priv s" "stats (kdo c s) = stats s" "klog (kdo c s) = c # klog s"
  "hw (kdo c s) = hw s"
  by (simp_all add: kdo_def)

lemma upd_priv_frame [simp]:
  "priv (upd_priv f s) = f (priv s)" "stats (upd_priv f s) = stats s"
  "klog (upd_priv f s) = klog s" "hw (upd_priv f s) = hw s"
  by (simp_all add: upd_priv_def)

lemma upd_stats_frame [simp]:
  "priv (upd_stats f s) = priv s" "stats (upd_stats f s) = f (stats s)"
  "klog (upd_stats f s) = klog s" "hw (upd_stats f s) = hw s"
  by (simp_all add: upd_stats_def)

lemma get_tx_status_frame [simp]:
  "priv (snd (ctucan_get_tx_status B buf s)) = priv s"
  "stats (snd (ctucan_get_tx_status B buf s)) = stats s"
  "klog (snd (ctucan_get_tx_status B buf s)) = klog s"
  by (simp_all add: ctucan_get_tx_status_def Let_def split_def)

lemma txi_switch_priv: "txi_switch K st i s = Some s' \<Longrightarrow> priv s' = priv s \<and> hw s' = hw s"
  by (auto simp: txi_switch_def Let_def split: if_splits)

lemma txi_advance_priv:
  "priv (txi_advance B i s) = (priv s)\<lparr>txb_tail := txb_tail (priv s) + 1,
     txb_prio := rotate_prio (ntxbufs (priv s)) (txb_prio (priv s))\<rparr>"
  by (simp add: txi_advance_def ctucan_rotate_txb_prio_def ctucan_give_txtb_cmd_def Let_def)

text \<open>
  One pass through the body of the inner loop: \<open>True\<close> when the buffer at the tail was
  finished and has been given back.
\<close>

definition txi_body :: "'d bus \<Rightarrow> kern \<Rightarrow> 'd ndev \<Rightarrow> bool \<times> 'd ndev" where
  "txi_body B K s =
     (let txtb_id = txb_tail (priv s) mod ntxbufs (priv s);
          (txtb_status, s) = ctucan_get_tx_status B (ucast txtb_id) s
      in case txi_switch K txtb_status txtb_id s of
           None \<Rightarrow> (False, s)
         | Some s \<Rightarrow> (True, txi_advance B txtb_id s))"

lemma txi_body_priv:
  "txi_body B K s = (b, s') \<Longrightarrow> priv s' = (if b
     then (priv s)\<lparr>txb_tail := txb_tail (priv s) + 1,
       txb_prio := rotate_prio (ntxbufs (priv s)) (txb_prio (priv s))\<rparr>
     else priv s)"
  by (auto simp: txi_body_def Let_def split_def txi_advance_priv dest!: txi_switch_priv
      split: option.splits)

lemma pending_advance:
  assumes "0 < sint ((h::u32) - t)"
  shows "sint (h - (t + 1)) = sint (h - t) - 1"
proof -
  define x where "x = h - t"
  have "sint x < 2 ^ 31" using sint_lt [of x] by simp
  then have "sint (x - 1) = sint x - 1"
    using assms unfolding x_def [symmetric]
    by (simp add: sint_word_ariths signed_take_bit_int_eq_self)
  moreover have "h - (t + 1) = x - 1" by (simp add: x_def)
  ultimately show ?thesis by (simp only: x_def)
qed

lemma txi_body_pending:
  "txi_body B K s = (True, s') \<Longrightarrow> 0 < txb_pending (priv s) \<Longrightarrow>
   txb_pending (priv s') = txb_pending (priv s) - 1"
  by (auto simp: txb_pending_def pending_advance dest!: txi_body_priv)

function txi_inner ::
  "'d bus \<Rightarrow> kern \<Rightarrow> bool \<Rightarrow> bool \<Rightarrow> 'd ndev \<Rightarrow> bool \<times> bool \<times> bool \<times> 'd ndev" where
  "txi_inner B K first some_processed s =
     (if txb_pending (priv s) > 0
      then case txi_body B K s of
             (True, s) \<Rightarrow> txi_inner B K False True s
           | (False, s) \<Rightarrow>
               if first
               then (True, first, some_processed, kdo Spin_unlock_irqrestore
                 (kdo (Netdev_err ''BUG: TXB#%u not in a finished state (0x%x)!'') s))
               else (False, first, some_processed, s)
      else (False, first, some_processed, s))"
  by pat_completeness auto
termination
  by (relation "measure (\<lambda>(B, K, f, p, s). nat (txb_pending (priv s)))")
    (simp, drule sym, simp add: txi_body_pending)

declare txi_inner.simps [simp del]

lemma txi_inner_pending:
  "txi_inner B K first p s = (ret, first', p', s') \<Longrightarrow>
   nat (txb_pending (priv s')) + (if p' \<and> \<not> p then 1 else 0) \<le> nat (txb_pending (priv s))"
proof (induction B K first p s rule: txi_inner.induct)
  case (1 B K first p s)
  show ?case
  proof (cases "0 < txb_pending (priv s)")
    case True
    obtain b s1 where body: "txi_body B K s = (b, s1)" by (cases "txi_body B K s")
    show ?thesis
      using "1.prems" "1.IH" [OF True body [symmetric]] True body
      by (cases b) (auto simp: txi_inner.simps [of B K first] txi_body_pending split: if_splits
          dest!: txi_body_priv)
  next
    case False
    then show ?thesis using "1.prems" by (simp add: txi_inner.simps)
  qed
qed

function txi_outer :: "'d bus \<Rightarrow> kern \<Rightarrow> bool \<Rightarrow> 'd ndev \<Rightarrow> bool \<times> 'd ndev" where
  "txi_outer B K first s =
     (case txi_inner B K first False (kdo Spin_lock_irqsave s) of
        (True, _, _, s) \<Rightarrow> (True, s)
      | (False, first, True, s) \<Rightarrow>
          txi_outer B K first
            (ctucan_write32 B CTUCANFD_INT_STAT REG_INT_STAT_TXBHCI (kdo Spin_unlock_irqrestore s))
      | (False, first, False, s) \<Rightarrow> (False, kdo Spin_unlock_irqrestore s))"
  by pat_completeness auto
termination
  by (relation "measure (\<lambda>(B, K, f, s). nat (txb_pending (priv s)))")
    (auto dest!: txi_inner_pending [OF sym])

declare txi_outer.simps [simp del]

definition ctucan_tx_interrupt :: "'d bus \<Rightarrow> kern \<Rightarrow> 'd ndev \<Rightarrow> 'd ndev" where
  "ctucan_tx_interrupt B K s =
     (case txi_outer B K True s of
        (True, s) \<Rightarrow> s
      | (False, s) \<Rightarrow>
          let s = kdo Spin_lock_irqsave s;
              (txtnf, s) = CTU_CAN_FD_TXTNF B s;
              s = (if txtnf then kdo Netif_wake_queue s else s)
          in kdo Spin_unlock_irqrestore s)"

section \<open>The handler leaves the head alone\<close>

lemma txi_body_head:
  "txi_body B K s = (b, s') \<Longrightarrow> txb_head (priv s') = txb_head (priv s) \<and> ntxbufs (priv s') = ntxbufs (priv s)"
  by (auto dest!: txi_body_priv split: if_splits)

lemma txi_inner_head:
  "txi_inner B K first p s = (r, f, q, s') \<Longrightarrow>
   txb_head (priv s') = txb_head (priv s) \<and> ntxbufs (priv s') = ntxbufs (priv s)"
proof (induction B K first p s rule: txi_inner.induct)
  case (1 B K first p s)
  obtain b s1 where b: "txi_body B K s = (b, s1)" by (cases "txi_body B K s")
  show ?case
    using "1.prems" "1.IH" [OF _ b [symmetric]] b txi_body_head [OF b]
    by (cases b) (auto simp: txi_inner.simps [of B K first p s] split: if_splits)
qed

lemma txi_outer_head:
  "txi_outer B K first s = (r, s') \<Longrightarrow>
   txb_head (priv s') = txb_head (priv s) \<and> ntxbufs (priv s') = ntxbufs (priv s)"
proof (induction "nat (txb_pending (priv s))" arbitrary: first s rule: less_induct)
  case less
  obtain r1 f q s1 where i: "txi_inner B K first False (kdo Spin_lock_irqsave s) = (r1, f, q, s1)"
    by (cases "txi_inner B K first False (kdo Spin_lock_irqsave s)")
  let ?s2 = "ctucan_write32 B CTUCANFD_INT_STAT REG_INT_STAT_TXBHCI (kdo Spin_unlock_irqrestore s1)"
  have eq: "txi_outer B K first s = (if r1 then (True, s1) else if q then txi_outer B K f ?s2
      else (False, kdo Spin_unlock_irqrestore s1))"
    using i by (simp add: txi_outer.simps [of B K first s] split: bool.split)
  have "nat (txb_pending (priv ?s2)) < nat (txb_pending (priv s))" if q
    using txi_inner_pending [OF i] that by (simp add: Suc_le_eq del: nat_less_eq_zless zless_nat_conj)
  then show ?case
    using less.hyps [of ?s2 f] less.prems eq txi_inner_head [OF i] by (auto split: if_splits)
qed

lemma tx_interrupt_head:
  "txb_head (priv (ctucan_tx_interrupt B K s)) = txb_head (priv s)"
  "ntxbufs (priv (ctucan_tx_interrupt B K s)) = ntxbufs (priv s)"
proof -
  obtain r s1 where o: "txi_outer B K True s = (r, s1)" by (cases "txi_outer B K True s")
  have "txb_head (priv (ctucan_tx_interrupt B K s)) = txb_head (priv s1) \<and>
      ntxbufs (priv (ctucan_tx_interrupt B K s)) = ntxbufs (priv s1)"
    using o by (cases r) (simp_all add: ctucan_tx_interrupt_def CTU_CAN_FD_TXTNF_def Let_def split_def)
  then show "txb_head (priv (ctucan_tx_interrupt B K s)) = txb_head (priv s)"
    "ntxbufs (priv (ctucan_tx_interrupt B K s)) = ntxbufs (priv s)"
    using txi_outer_head [OF o] by simp_all
qed

end
