(* ===== verification/Ctu_Txt_Spec.thy ===== *)
theory Ctu_Txt_Spec
  imports Ctu_Tx
begin

text \<open>
  What the transmit path of the driver relies on: the TXT buffers of the controller seen
  through its registers. A view holds the state of every buffer, the buffer priorities,
  the \<open>TXBHCI\<close> interrupt flag, and whether a finished buffer is signalled by that flag: it is not
  when the interrupt is masked or the mode of the controller lets buffers fail silently. The hardware
  moves it by \<open>hwstep\<close>, the driver by the register writes \<open>TX_COMMAND\<close>, \<open>TX_PRIORITY\<close>, \<open>INT_STAT\<close>
  and \<open>INT_MASK_SET\<close>. The locale \<open>txt_core\<close>
  states that a device behaves like this view. The buffers that are pending form a FIFO
  window (\<open>fifo\<close>), a shape every hardware step keeps.
\<close>

section \<open>The view and its steps\<close>

datatype t_txt_buf_state =
    s_txt_empty
  | s_txt_ready
  | s_txt_tx_prog
  | s_txt_ab_prog
  | s_txt_ok
  | s_txt_failed
  | s_txt_aborted
  | s_txt_parity_err

primrec txtb_state :: "t_txt_buf_state \<Rightarrow> u32" where
  "txtb_state s_txt_ready = 1"
| "txtb_state s_txt_tx_prog = 2"
| "txtb_state s_txt_ab_prog = 3"
| "txtb_state s_txt_ok = 4"
| "txtb_state s_txt_failed = 6"
| "txtb_state s_txt_aborted = 7"
| "txtb_state s_txt_empty = 8"
| "txtb_state s_txt_parity_err = 9"

definition finished :: "t_txt_buf_state \<Rightarrow> bool" where
  "finished b \<longleftrightarrow> b = s_txt_ok \<or> b = s_txt_failed \<or> b = s_txt_aborted"

definition in_progress :: "t_txt_buf_state \<Rightarrow> bool" where
  "in_progress b \<longleftrightarrow> b = s_txt_tx_prog \<or> b = s_txt_ab_prog"

definition transient_state :: "t_txt_buf_state \<Rightarrow> bool" where
  "transient_state b \<longleftrightarrow> b = s_txt_ab_prog \<or> b = s_txt_tx_prog \<or> b = s_txt_ready"

lemmas buf_state_defs = finished_def in_progress_def transient_state_def

record txview =
  sts :: "nat \<Rightarrow> t_txt_buf_state"
  prios :: "nat \<Rightarrow> nat"
  hci :: bool
  signalled :: bool

text \<open>Buffer \<open>j\<close> loses against buffer \<open>k\<close> in the selection for transmission.\<close>

definition loses :: "(nat \<Rightarrow> nat) \<Rightarrow> nat \<Rightarrow> nat \<Rightarrow> bool" where
  "loses p j k \<longleftrightarrow> p j < p k \<or> p j = p k \<and> k < j"

inductive hwstep :: "nat \<Rightarrow> txview \<Rightarrow> txview \<Rightarrow> bool" for n where
  hw_lock: "k < n \<Longrightarrow> sts v k = s_txt_ready \<Longrightarrow> \<forall>j<n. \<not> in_progress (sts v j) \<Longrightarrow>
    \<forall>j<n. j \<noteq> k \<longrightarrow> sts v j = s_txt_ready \<longrightarrow> loses (prios v) j k \<Longrightarrow>
    hwstep n v (v\<lparr>sts := (sts v)(k := s_txt_tx_prog)\<rparr>)"
| hw_unlock: "k < n \<Longrightarrow> sts v k = s_txt_tx_prog \<Longrightarrow>
    hwstep n v (v\<lparr>sts := (sts v)(k := s_txt_ready)\<rparr>)"
| hw_finish: "k < n \<Longrightarrow> in_progress (sts v k) \<Longrightarrow> finished b \<Longrightarrow> (signalled v \<longrightarrow> h) \<Longrightarrow>
    hwstep n v (v\<lparr>sts := (sts v)(k := b), hci := hci v \<or> h\<rparr>)"
| hw_fail_all: "k < n \<Longrightarrow> transient_state (sts v k) \<Longrightarrow> (signalled v \<longrightarrow> h) \<Longrightarrow>
    hwstep n v (v\<lparr>sts := (\<lambda>j. if j < n \<and> transient_state (sts v j) then s_txt_failed
      else sts v j), hci := hci v \<or> h\<rparr>)"

inductive_cases hwstepE: "hwstep n v w"

abbreviation hwsteps :: "nat \<Rightarrow> txview \<Rightarrow> txview \<Rightarrow> bool" where
  "hwsteps n \<equiv> (hwstep n)\<^sup>*\<^sup>*"

text \<open>Effect of a software command on one buffer.\<close>

definition sw_cmd :: "u32 \<Rightarrow> t_txt_buf_state \<Rightarrow> t_txt_buf_state" where
  "sw_cmd w b =
     (if bit w 1 \<and> (b = s_txt_empty \<or> finished b \<or> b = s_txt_parity_err) then s_txt_ready
      else if bit w 0 \<and> (finished b \<or> b = s_txt_parity_err) then s_txt_empty
      else b)"

definition sw_tx_command :: "nat \<Rightarrow> u32 \<Rightarrow> txview \<Rightarrow> txview" where
  "sw_tx_command n w v =
     v\<lparr>sts := (\<lambda>k. if k < n \<and> bit w (8 + k) then sw_cmd w (sts v k) else sts v k)\<rparr>"

definition prio_of :: "u32 \<Rightarrow> nat \<Rightarrow> nat" where
  "prio_of w k = unat (drop_bit (4 * k) w AND 7)"

definition sw_tx_priority :: "u32 \<Rightarrow> txview \<Rightarrow> txview" where
  "sw_tx_priority w v = v\<lparr>prios := prio_of w\<rparr>"

definition sw_int_clear :: "u32 \<Rightarrow> txview \<Rightarrow> txview" where
  "sw_int_clear w v = (if w AND REG_INT_STAT_TXBHCI \<noteq> 0 then v\<lparr>hci := False\<rparr> else v)"

definition sw_int_mask :: "u32 \<Rightarrow> txview \<Rightarrow> txview" where
  "sw_int_mask w v = (if w AND REG_INT_STAT_TXBHCI \<noteq> 0 then v\<lparr>signalled := False\<rparr> else v)"

section \<open>The FIFO window\<close>

text \<open>
  \<open>fifo n t m v\<close>: the \<open>m\<close> buffers from index \<open>t\<close> on, cyclically, are pending. First come
  the finished ones, then at most one in transmission, then those ready for it. All
  other buffers are empty. \<open>falling n t m v\<close>: every buffer of the window that is not
  finished has a higher priority than the ones behind it.
\<close>

definition cell_ok :: "nat \<Rightarrow> nat \<Rightarrow> nat \<Rightarrow> t_txt_buf_state \<Rightarrow> bool" where
  "cell_ok a m j b \<longleftrightarrow>
     (if j < a then finished b
      else if m \<le> j then b = s_txt_empty
      else if j = a then transient_state b
      else b = s_txt_ready)"

definition fifo :: "nat \<Rightarrow> nat \<Rightarrow> nat \<Rightarrow> txview \<Rightarrow> bool" where
  "fifo n t m v \<longleftrightarrow> m \<le> n \<and> (\<exists>a\<le>m. \<forall>j<n. cell_ok a m j (sts v ((t + j) mod n)))"

definition falling :: "nat \<Rightarrow> nat \<Rightarrow> nat \<Rightarrow> txview \<Rightarrow> bool" where
  "falling n t m v \<longleftrightarrow>
     (\<forall>i j. i < j \<and> j < m \<and> \<not> finished (sts v ((t + i) mod n)) \<longrightarrow>
        prios v ((t + j) mod n) < prios v ((t + i) mod n))"

lemma mod_add_inj:
  fixes n :: nat
  assumes "(t + i) mod n = (t + j) mod n" "i < n" "j < n"
  shows "i = j"
proof -
  have "(int t + int i) mod int n = (int t + int j) mod int n"
    using assms(1) by (metis of_nat_add of_nat_mod)
  then have "int i mod int n = int j mod int n"
    by (simp add: mod_eq_dvd_iff)
  then show ?thesis using assms(2,3) by simp
qed

lemma mod_add_surj:
  fixes n :: nat
  assumes "k < n"
  obtains j where "j < n" "k = (t + j) mod n"
proof
  let ?j = "(k + (n - t mod n)) mod n"
  show "?j < n" using assms by simp
  have "t mod n \<le> n" using assms by (simp add: less_imp_le)
  then have "t mod n + (k + (n - t mod n)) = k + n" by simp
  then show "k = (t + ?j) mod n"
    using assms by (metis mod_add_left_eq mod_add_right_eq mod_add_self2 mod_less)
qed

lemma fifoE:
  assumes "fifo n t m v"
  obtains a where "m \<le> n" "a \<le> m" "\<And>j. j < n \<Longrightarrow> cell_ok a m j (sts v ((t + j) mod n))"
  using assms by (auto simp: fifo_def)

lemma fun_upd_window:
  fixes t :: nat
  shows "i < n \<Longrightarrow> j < n \<Longrightarrow>
   (f((t + i) mod n := b)) ((t + j) mod n) = (if i = j then b else f ((t + j) mod n))"
  using mod_add_inj [of t j n i] by auto

lemma fifo_update:
  assumes "a \<le> m" "m \<le> n" "i < n"
    "\<And>j. j < n \<Longrightarrow> cell_ok a m j (sts v ((t + j) mod n))"
    "a' \<le> m'" "m' \<le> n" "cell_ok a' m' i b"
    "\<And>j x. j < n \<Longrightarrow> j \<noteq> i \<Longrightarrow> cell_ok a m j x \<Longrightarrow> cell_ok a' m' j x"
    "sts w = (sts v)((t + i) mod n := b)"
  shows "fifo n t m' w"
proof -
  have "cell_ok a' m' j (sts w ((t + j) mod n))" if "j < n" for j
    using assms that fun_upd_window [OF assms(3) that, of "sts v" t b] by (cases "i = j") simp_all
  then show ?thesis using assms(5,6) by (auto simp: fifo_def)
qed

text \<open>A buffer in transmission is the first one that is not finished.\<close>

lemma cell_in_progress:
  "cell_ok a m j b \<Longrightarrow> in_progress b \<Longrightarrow> j = a \<and> a < m"
  by (auto simp: cell_ok_def buf_state_defs split: if_splits)

lemma cell_ready:
  "cell_ok a m j s_txt_ready \<Longrightarrow> a \<le> j \<and> j < m"
  by (auto simp: cell_ok_def buf_state_defs split: if_splits)

text \<open>With falling priorities the buffer that is locked is the first ready one.\<close>

lemma lock_first:
  assumes "\<And>j. j < n \<Longrightarrow> cell_ok a m j (sts v ((t + j) mod n))" "m \<le> n" "falling n t m v"
    "i < n" "sts v ((t + i) mod n) = s_txt_ready" "\<forall>j<n. \<not> in_progress (sts v j)"
    "\<forall>j<n. j \<noteq> (t + i) mod n \<longrightarrow> sts v j = s_txt_ready \<longrightarrow> loses (prios v) j ((t + i) mod n)"
  shows "i = a" "a < m"
proof -
  have ai: "a \<le> i" "i < m" using assms(1) [of i] assms(4,5) cell_ready by auto
  then have an: "a < n" using assms(2) by simp
  show "a < m" using ai by simp
  show "i = a"
  proof (rule ccontr)
    assume "i \<noteq> a"
    then have "a < i" using ai by simp
    have "sts v ((t + a) mod n) = s_txt_ready"
      using assms(1) [of a] assms(6) an ai by (auto simp: cell_ok_def buf_state_defs)
    moreover have "(t + a) mod n \<noteq> (t + i) mod n"
      using \<open>i \<noteq> a\<close> an assms(4) mod_add_inj by metis
    ultimately have "loses (prios v) ((t + a) mod n) ((t + i) mod n)"
      using assms(7) an by simp
    then show False using assms(3) \<open>a < i\<close> ai
        \<open>sts v ((t + a) mod n) = s_txt_ready\<close>
      by (fastforce simp: falling_def loses_def finished_def)
  qed
qed

lemma fifo_hwstep:
  assumes "hwstep n v w" "fifo n t m v" "falling n t m v"
  shows "fifo n t m w"
proof -
  obtain a where a: "m \<le> n" "a \<le> m"
    and cells: "\<And>j. j < n \<Longrightarrow> cell_ok a m j (sts v ((t + j) mod n))"
    using assms(2) by (rule fifoE) blast
  from assms(1) show ?thesis
  proof (cases rule: hwstep.cases)
    case (hw_lock k)
    obtain i where i: "i < n" "k = (t + i) mod n" using hw_lock(2) by (rule mod_add_surj [of _ _ t])
    have "i = a" "a < m"
      using lock_first [OF cells a(1) assms(3) i(1)] hw_lock i(2) by simp_all
    then show ?thesis
      using hw_lock i a by (intro fifo_update [OF a(2,1) i(1) cells a(2,1)])
        (auto simp: cell_ok_def buf_state_defs)
  next
    case (hw_unlock k)
    obtain i where i: "i < n" "k = (t + i) mod n" using hw_unlock(2) by (rule mod_add_surj [of _ _ t])
    have "i = a \<and> a < m"
      using cell_in_progress [OF cells [OF i(1)]] hw_unlock i(2) by (simp add: in_progress_def)
    then show ?thesis
      using hw_unlock i a by (intro fifo_update [OF a(2,1) i(1) cells a(2,1)])
        (auto simp: cell_ok_def buf_state_defs)
  next
    case (hw_finish k b h)
    obtain i where i: "i < n" "k = (t + i) mod n" using hw_finish(2) by (rule mod_add_surj [of _ _ t])
    have "i = a \<and> a < m"
      using cell_in_progress [OF cells [OF i(1)]] hw_finish i(2) by simp
    then show ?thesis
      using hw_finish i a by (intro fifo_update [OF a(2,1) i(1) cells, of "Suc a" m])
        (auto simp: cell_ok_def buf_state_defs)
  next
    case (hw_fail_all k h)
    have "cell_ok m m j (sts w ((t + j) mod n))" if "j < n" for j
      using cells [OF that] hw_fail_all that a
      by (auto simp: cell_ok_def buf_state_defs split: if_splits)
    then show ?thesis using a(1) by (auto simp: fifo_def)
  qed
qed

section \<open>Interrupt flag and window\<close>

text \<open>
  The flag is \<open>hci_sound\<close> when it is only up with a finished buffer at the tail, and
  \<open>hci_complete\<close> when a finished buffer at the tail has raised it, if such buffers are signalled.
\<close>

definition tail_finished :: "nat \<Rightarrow> nat \<Rightarrow> nat \<Rightarrow> txview \<Rightarrow> bool" where
  "tail_finished n t m v \<longleftrightarrow> 0 < m \<and> finished (sts v (t mod n))"

definition hci_sound :: "nat \<Rightarrow> nat \<Rightarrow> nat \<Rightarrow> txview \<Rightarrow> bool" where
  "hci_sound n t m v \<longleftrightarrow> (hci v \<longrightarrow> tail_finished n t m v)"

definition hci_complete :: "nat \<Rightarrow> nat \<Rightarrow> nat \<Rightarrow> txview \<Rightarrow> bool" where
  "hci_complete n t m v \<longleftrightarrow> (signalled v \<and> tail_finished n t m v \<longrightarrow> hci v)"

definition txwin :: "nat \<Rightarrow> nat \<Rightarrow> nat \<Rightarrow> txview \<Rightarrow> bool" where
  "txwin n t m v \<longleftrightarrow> fifo n t m v \<and> falling n t m v"

lemmas hci_defs = hci_sound_def hci_complete_def tail_finished_def

lemma hwstep_prios: "hwstep n v w \<Longrightarrow> prios w = prios v"
  by (auto elim!: hwstepE)

lemma hwstep_finished: "hwstep n v w \<Longrightarrow> finished (sts v k) \<Longrightarrow> sts w k = sts v k"
  by (auto elim!: hwstepE simp: buf_state_defs)

lemma hwstep_empty: "hwstep n v w \<Longrightarrow> (sts w k = s_txt_empty) = (sts v k = s_txt_empty)"
  by (auto elim!: hwstepE simp: buf_state_defs split: if_splits)

lemma hwstep_hci: "hwstep n v w \<Longrightarrow> hci v \<Longrightarrow> hci w"
  by (auto elim!: hwstepE)

lemma hwstep_signalled: "hwstep n v w \<Longrightarrow> signalled w = signalled v"
  by (auto elim!: hwstepE)

lemma txwin_hwstep: "hwstep n v w \<Longrightarrow> txwin n t m v \<Longrightarrow> txwin n t m w"
  using fifo_hwstep hwstep_finished by (fastforce simp: txwin_def falling_def hwstep_prios)

lemma hwstep_sets_hci:
  "hwstep n v w \<Longrightarrow> signalled v \<Longrightarrow> finished (sts w k) \<Longrightarrow> \<not> finished (sts v k) \<Longrightarrow> hci w"
  by (auto elim!: hwstepE simp: buf_state_defs split: if_splits)

text \<open>A step that raises the flag finishes the first unfinished buffer of the window.\<close>

lemma hwstep_tail_finished:
  assumes "hwstep n v w" "fifo n t m v" "falling n t m v" "hci w" "\<not> hci v"
  shows "tail_finished n t m w"
proof -
  have *: "\<exists>k<n. transient_state (sts v k) \<and> finished (sts w k)"
    using assms(1,4,5) by (auto elim!: hwstepE simp: buf_state_defs)
  then obtain k where k: "k < n" "transient_state (sts v k)" "finished (sts w k)" by blast
  obtain i where i: "i < n" "k = (t + i) mod n" using k(1) by (rule mod_add_surj [of _ _ t])
  obtain a where a: "m \<le> n" "a \<le> m"
    and cells: "\<And>j. j < n \<Longrightarrow> cell_ok a m j (sts w ((t + j) mod n))"
    using fifo_hwstep [OF assms(1-3)] by (rule fifoE) blast
  have "i < a" using cells [OF i(1)] k(3) i(2)
    by (auto simp: cell_ok_def buf_state_defs split: if_splits)
  then show ?thesis using cells [of 0] a by (auto simp: tail_finished_def cell_ok_def)
qed

lemma hci_sound_hwstep:
  "hwstep n v w \<Longrightarrow> txwin n t m v \<Longrightarrow> hci_sound n t m v \<Longrightarrow> hci_sound n t m w"
  using hwstep_tail_finished [of n v w t m] hwstep_finished [of n v w "t mod n"]
  by (auto simp: txwin_def hci_sound_def tail_finished_def)

lemma hci_complete_hwstep:
  "hwstep n v w \<Longrightarrow> hci_complete n t m v \<Longrightarrow> hci_complete n t m w"
  using hwstep_sets_hci [of n v w "t mod n"] hwstep_hci [of n v w] hwstep_signalled [of n v w]
  by (auto simp: hci_complete_def tail_finished_def)

text \<open>The same for any number of hardware steps.\<close>

lemma hwsteps_keep:
  assumes "hwsteps n v w"
  shows "prios w = prios v"
    and "finished (sts v k) \<Longrightarrow> sts w k = sts v k"
    and "(sts w k = s_txt_empty) = (sts v k = s_txt_empty)"
    and "txwin n t m v \<Longrightarrow> txwin n t m w"
    and "txwin n t m v \<Longrightarrow> hci_sound n t m v \<Longrightarrow> hci_sound n t m w"
    and "hci_complete n t m v \<Longrightarrow> hci_complete n t m w"
    and "tail_finished n t m v \<Longrightarrow> tail_finished n t m w"
    and "signalled w = signalled v"
  using assms
proof (induction rule: rtranclp_induct)
  case (step w x)
  { case 1 then show ?case using step by (simp add: hwstep_prios) }
  { case 2 then show ?case using step hwstep_finished [OF step(2)] by simp }
  { case 3 then show ?case using step hwstep_empty [OF step(2)] by simp }
  { case 4 then show ?case using step txwin_hwstep [OF step(2)] by simp }
  { case 5 then show ?case using step hci_sound_hwstep [OF step(2)] by simp }
  { case 6 then show ?case using step hci_complete_hwstep [OF step(2)] by simp }
  { case 7 then show ?case using step hwstep_finished [OF step(2)] by (simp add: tail_finished_def) }
  { case 8 then show ?case using step by (simp add: hwstep_signalled) }
qed simp_all

section \<open>Priorities and the ring\<close>

text \<open>\<open>prio_ring n t w\<close>: in the word \<open>w\<close> the buffer \<open>j\<close> places behind \<open>t\<close> has priority \<open>7 - j\<close>.\<close>

definition prio_ring :: "nat \<Rightarrow> nat \<Rightarrow> u32 \<Rightarrow> bool" where
  "prio_ring n t w \<longleftrightarrow> (\<forall>j<n. prio_of w ((t + j) mod n) = 7 - j)"

lemma mask_4: "(0xF :: u32) = mask 4" and mask_3: "(7 :: u32) = mask 3"
  by (simp_all add: mask_eq_exp_minus_1)

lemma unat_shift_amount:
  "0 < n \<Longrightarrow> n \<le> 8 \<Longrightarrow> unat ((of_nat n - 1 :: u32) * 4) = 4 * (n - 1)"
proof -
  assume n: "0 < n" "n \<le> 8"
  then have "(of_nat n - 1 :: u32) * 4 = of_nat (4 * (n - 1))" by (simp add: of_nat_diff)
  also have "unat \<dots> = 4 * (n - 1)" using n by (subst unat_of_nat) simp
  finally show ?thesis .
qed

lemma prio_of_rotate:
  assumes "0 < n" "n \<le> 8" "k < n"
  shows "prio_of (rotate_prio (of_nat n) w) k = prio_of w (if k = 0 then n - 1 else k - 1)"
proof -
  have "drop_bit (4 * k) (rotate_prio (of_nat n) w) AND 7 =
      drop_bit (4 * (if k = 0 then n - 1 else k - 1)) w AND 7"
    unfolding mask_3 rotate_prio_def mask_4 unat_shift_amount [OF assms(1,2)]
    using assms
    by (intro bit_eqI) (cases k; auto simp: bit_simps ac_simps)
  then show ?thesis by (simp add: prio_of_def)
qed

lemma prio_ring_rotate:
  assumes "0 < n" "n \<le> 8" "prio_ring n t w"
  shows "prio_ring n (Suc t) (rotate_prio (of_nat n) w)"
  unfolding prio_ring_def
proof (intro allI impI)
  fix j assume j: "j < n"
  let ?k = "(Suc t + j) mod n"
  have "prio_of (rotate_prio (of_nat n) w) ?k = prio_of w (if ?k = 0 then n - 1 else ?k - 1)"
    using assms(1,2) by (simp add: prio_of_rotate)
  also have "(if ?k = 0 then n - 1 else ?k - 1) = (t + j) mod n"
    using assms(1) by (auto simp: mod_Suc)
  finally show "prio_of (rotate_prio (of_nat n) w) ?k = 7 - j"
    using assms(3) j by (simp add: prio_ring_def)
qed

lemma prio_ring_init: "n \<le> 8 \<Longrightarrow> prio_ring n 0 0x01234567"
proof -
  have "prio_of 0x01234567 j = 7 - j" if "j < 8" for j
  proof -
    have "j \<in> {0, 1, 2, 3, 4, 5, 6, 7}" using that by auto
    then show ?thesis by (auto simp: prio_of_def)
  qed
  then show "n \<le> 8 \<Longrightarrow> prio_ring n 0 0x01234567" by (auto simp: prio_ring_def)
qed

lemma prio_ring_mod: "prio_ring n (t mod n) w = prio_ring n t w"
  by (simp add: prio_ring_def mod_add_left_eq)

lemma ring_less: "prio_ring n t w \<Longrightarrow> n \<le> 8 \<Longrightarrow> i < j \<Longrightarrow> j < n \<Longrightarrow>
   prio_of w ((t + j) mod n) < prio_of w ((t + i) mod n)"
  by (simp add: prio_ring_def)

section \<open>Driver commands on the window\<close>

lemma txwin_push:
  assumes "txwin n t m v" "m < n" "n \<le> 8" "prios v = prio_of w" "prio_ring n t w"
    "sts v' = (sts v)((t + m) mod n := s_txt_ready)" "prios v' = prios v"
  shows "txwin n t (Suc m) v'"
proof -
  obtain a where a: "m \<le> n" "a \<le> m"
    and cells: "\<And>j. j < n \<Longrightarrow> cell_ok a m j (sts v ((t + j) mod n))"
    using conjunct1 [OF assms(1) [unfolded txwin_def]] by (rule fifoE) blast
  have "fifo n t (Suc m) v'"
    using assms(2) a by (intro fifo_update [OF a(2,1) assms(2) cells, of a "Suc m"])
      (auto simp: assms(6) cell_ok_def buf_state_defs)
  moreover have "falling n t (Suc m) v'"
    using assms(2-5,7) by (auto simp: falling_def intro!: ring_less)
  ultimately show ?thesis by (simp add: txwin_def)
qed

lemma txwin_prio:
  assumes "txwin n t m v" "tail_finished n t m v" "n \<le> 8" "prio_ring n (Suc t) w"
    "sts v' = sts v" "prios v' = prio_of w"
  shows "txwin n t m v'"
proof -
  have "prios v' ((t + j) mod n) < prios v' ((t + i) mod n)"
    if "i < j" "j < m" "\<not> finished (sts v' ((t + i) mod n))" for i j
  proof -
    have "0 < i" using that(3) assms(2,5) by (cases i) (auto simp: tail_finished_def)
    moreover have "m \<le> n" using assms(1) by (simp add: txwin_def fifo_def)
    ultimately show ?thesis
      using ring_less [OF assms(4,3), of "i - 1" "j - 1"] that(1,2) assms(6) by simp
  qed
  then show ?thesis using assms(1,5) by (simp add: txwin_def falling_def fifo_def)
qed

lemma fallingD:
  "falling n t m v \<Longrightarrow> i < j \<Longrightarrow> j < m \<Longrightarrow> \<not> finished (sts v ((t + i) mod n)) \<Longrightarrow>
   prios v ((t + j) mod n) < prios v ((t + i) mod n)"
  by (simp add: falling_def)

lemma txwin_pop:
  assumes "txwin n t m v" "tail_finished n t m v"
    "sts v' = (sts v)(t mod n := s_txt_empty)" "prios v' = prios v"
  shows "txwin n (Suc t) (m - 1) v'"
proof -
  obtain a where a: "m \<le> n" "a \<le> m"
    and cells: "\<And>j. j < n \<Longrightarrow> cell_ok a m j (sts v ((t + j) mod n))"
    using conjunct1 [OF assms(1) [unfolded txwin_def]] by (rule fifoE) blast
  have m: "0 < m" and fin: "finished (sts v (t mod n))" using assms(2) by (auto simp: tail_finished_def)
  have "0 < a" using cells [of 0] a m fin
    by (cases "a = 0") (auto simp: cell_ok_def buf_state_defs)
  have wrap: "Suc (t + j) mod n = t mod n" if "Suc j = n" for j
    using that mod_add_self2 [of t n] by (metis add_Suc_right)
  have shift: "sts v' ((Suc t + j) mod n) =
      (if Suc j = n then s_txt_empty else sts v ((t + Suc j) mod n))" if "j < n" for j
    using that fun_upd_window [of 0 n "Suc j" "sts v" t s_txt_empty] m a wrap [of j]
    by (cases "Suc j = n") (auto simp: assms(3))
  have "cell_ok (a - 1) (m - 1) j (sts v' ((Suc t + j) mod n))" if "j < n" for j
    using cells [of "Suc j"] that shift [OF that] \<open>0 < a\<close> a m
    by (auto simp: cell_ok_def split: if_splits)
  then have "fifo n (Suc t) (m - 1) v'"
    using a unfolding fifo_def by (intro conjI exI [of _ "a - 1"]) auto
  moreover have "falling n (Suc t) (m - 1) v'"
    unfolding falling_def
  proof (intro allI impI)
    fix i j assume h: "i < j \<and> j < m - 1 \<and> \<not> finished (sts v' ((Suc t + i) mod n))"
    then have "i < n" "Suc i \<noteq> n" using a by auto
    then have "\<not> finished (sts v ((t + Suc i) mod n))" using h shift [of i] by simp
    then show "prios v' ((Suc t + j) mod n) < prios v' ((Suc t + i) mod n)"
      using h assms(1,4) fallingD [of n t m v "Suc i" "Suc j"] by (auto simp: txwin_def)
  qed
  ultimately show ?thesis by (simp add: txwin_def)
qed

end
