(* ===== verification/Ctu_TxSys.thy ===== *)
theory Ctu_TxSys
  imports Ctu_Txt_Spec
begin

text \<open>
  The transmit path of the driver together with a device that behaves like the view of
  \<open>Ctu_Txt_Spec\<close>. The locale \<open>txt_core\<close> is the contract of the device at its bus; inside it
  \<open>ctucan_start_xmit\<close> and \<open>ctucan_tx_interrupt\<close> are proved to keep the FIFO window, with
  hardware steps possible at every single register access.
\<close>

section \<open>The contract of the device\<close>

definition attached :: "io_access \<Rightarrow> iomem \<Rightarrow> nat \<Rightarrow> ctucan_priv \<Rightarrow> bool" where
  "attached acc base n p \<longleftrightarrow> reg_access p = acc \<and> mem_base p = base \<and> ntxbufs p = of_nat n"

locale txt_core =
  fixes B :: "'d bus" and acc :: io_access and base :: iomem and n :: nat
    and view :: "'d \<Rightarrow> txview"
  assumes n_dvd: "n dvd 8"
    and ld_view: "hwsteps n (view d) (view (snd (ld32 B d (base + ucast (reg :: u32)))))"
    and ld_tx_status: "ld32 B d (base + ucast CTUCANFD_TX_STATUS) = (w, d') \<Longrightarrow> k < n \<Longrightarrow>
      drop_bit (4 * k) (bus_order acc w) AND 0xF = txtb_state (sts (view d') k)"
    and ld_status: "ld32 B d (base + ucast CTUCANFD_STATUS) = (w, d') \<Longrightarrow>
      FIELD_GET REG_STATUS_TXNF (bus_order acc w) \<noteq> 0 \<longleftrightarrow> (\<exists>k<n. sts (view d') k = s_txt_empty)"
    and ld_int_stat: "ld32 B d (base + ucast CTUCANFD_INT_STAT) = (w, d') \<Longrightarrow>
      FIELD_GET REG_INT_STAT_TXBHCI (bus_order acc w) \<noteq> 0 \<longleftrightarrow> hci (view d')"
    and st_tx_command: "\<forall>k<n. bit w (8 + k) \<longrightarrow> \<not> transient_state (sts (view d) k) \<Longrightarrow>
      \<exists>v. hwsteps n (view d) v \<and> hwsteps n (sw_tx_command n w v)
        (view (st32 B d (base + ucast CTUCANFD_TX_COMMAND) (bus_order acc w)))"
    and st_tx_priority: "\<exists>v. hwsteps n (view d) v \<and> hwsteps n (sw_tx_priority w v)
        (view (st32 B d (base + ucast CTUCANFD_TX_PRIORITY) (bus_order acc w)))"
    and st_int_stat: "\<exists>v. hwsteps n (view d) v \<and> hwsteps n (sw_int_clear w v)
        (view (st32 B d (base + ucast CTUCANFD_INT_STAT) (bus_order acc w)))"
    and st_txt_ram: "0x100 \<le> reg \<Longrightarrow> reg < 0x900 \<Longrightarrow>
      hwsteps n (view d) (view (st32 B d (base + ucast (reg :: u32)) w))"
    and st_int_mask: "\<exists>v. hwsteps n (view d) v \<and> hwsteps n (sw_int_mask w v)
        (view (st32 B d (base + ucast CTUCANFD_INT_MASK_SET) (bus_order acc w)))"
    and st_int_unmask: "w AND REG_INT_STAT_TXBHCI = 0 \<Longrightarrow>
      hwsteps n (view d) (view (st32 B d (base + ucast CTUCANFD_INT_MASK_CLR) (bus_order acc w)))"
    and st_other: "reg \<in> {CTUCANFD_COMMAND, CTUCANFD_INT_ENA_CLR} \<Longrightarrow>
      hwsteps n (view d) (view (st32 B d (base + ucast reg) (bus_order acc w)))"

section \<open>The ring of buffers\<close>

definition tx_t :: "ctucan_priv \<Rightarrow> nat" where "tx_t p = unat (txb_tail p)"

definition tx_m :: "ctucan_priv \<Rightarrow> nat" where "tx_m p = unat (txb_head p - txb_tail p)"

lemma dvd_8_bounds:
  fixes n :: nat
  assumes "n dvd 8"
  shows "0 < n" "n \<le> 8" "n dvd 2 ^ 32" "unat (of_nat n :: u32) = n"
proof -
  show n: "0 < n" "n \<le> 8" using assms dvd_imp_le [OF assms] by (auto intro: Nat.gr0I)
  show "n dvd 2 ^ 32" by (rule dvd_trans [OF assms]) simp
  show "unat (of_nat n :: u32) = n" using n by (simp add: unat_of_nat)
qed

lemma ring_index:
  assumes "n dvd 8"
  shows "unat ((x :: u32) mod of_nat n) = unat x mod n"
  using dvd_8_bounds [OF assms] by (simp add: unat_mod)

lemma ring_add:
  assumes "n dvd 8"
  shows "unat (x + y :: u32) mod n = (unat x + unat y) mod n"
proof -
  have "unat (x + y) = (unat x + unat y) mod 2 ^ 32" by (simp add: unat_word_ariths)
  then show ?thesis using mod_mod_cancel [OF dvd_8_bounds(3) [OF assms]] by metis
qed

lemma tx_head_index:
  "n dvd 8 \<Longrightarrow> unat (txb_head p mod of_nat n) = (tx_t p + tx_m p) mod n"
  using ring_add [of n "txb_tail p" "txb_head p - txb_tail p"]
  by (simp add: tx_t_def tx_m_def ring_index)

lemma tx_tail_index: "n dvd 8 \<Longrightarrow> unat (txb_tail p mod of_nat n) = tx_t p mod n"
  by (simp add: tx_t_def ring_index)

lemma ring_small: "n dvd 8 \<Longrightarrow> unat (ucast ((x :: u32) mod of_nat n) :: u8) = unat x mod n"
  using dvd_8_bounds(1,2) [of n] order_less_le_trans [OF mod_less_divisor [of n "unat x"], of 256]
  by (simp add: unsigned_ucast_eq ring_index take_bit_eq_mod)

section \<open>The invariant of the transmit path\<close>

text \<open>\<open>sg\<close>: whether finished buffers are signalled.\<close>

definition tx_inv :: "io_access \<Rightarrow> iomem \<Rightarrow> nat \<Rightarrow> bool \<Rightarrow> ('d \<Rightarrow> txview) \<Rightarrow> 'd ndev \<Rightarrow> bool" where
  "tx_inv acc base n sg view s \<longleftrightarrow>
     attached acc base n (priv s) \<and>
     txwin n (tx_t (priv s)) (tx_m (priv s)) (view (hw s)) \<and>
     prios (view (hw s)) = prio_of (txb_prio (priv s)) \<and>
     prio_ring n (tx_t (priv s)) (txb_prio (priv s)) \<and> signalled (view (hw s)) = sg"

text \<open>The driver's data is unchanged and the device made hardware steps only.\<close>

definition evolves :: "nat \<Rightarrow> ('d \<Rightarrow> txview) \<Rightarrow> 'd ndev \<Rightarrow> 'd ndev \<Rightarrow> bool" where
  "evolves n view s s' \<longleftrightarrow> priv s' = priv s \<and> hwsteps n (view (hw s)) (view (hw s'))"

lemma evolves_refl [simp]: "evolves n view s s"
  by (simp add: evolves_def)

lemma evolves_trans [trans]:
  "evolves n view s s' \<Longrightarrow> evolves n view s' s'' \<Longrightarrow> evolves n view s s''"
  by (auto simp: evolves_def intro: rtranclp_trans)

lemma evolves_kdo [simp]:
  "evolves n view s (kdo c s') = evolves n view s s'"
  "evolves n view (kdo c s) s' = evolves n view s s'"
  "evolves n view s (upd_stats f s') = evolves n view s s'"
  "evolves n view (upd_stats f s) s' = evolves n view s s'"
  by (simp_all add: evolves_def)

lemma tx_inv_kdo [simp]:
  "tx_inv acc base n sg view (kdo c s) = tx_inv acc base n sg view s"
  "tx_inv acc base n sg view (upd_stats f s) = tx_inv acc base n sg view s"
  by (simp_all add: tx_inv_def)

lemma evolves_keep:
  assumes "evolves n view s s'"
  shows "tx_inv acc base n sg view s \<Longrightarrow> tx_inv acc base n sg view s'"
    and "finished (sts (view (hw s)) k) \<Longrightarrow> sts (view (hw s')) k = sts (view (hw s)) k"
    and "(sts (view (hw s')) k = s_txt_empty) = (sts (view (hw s)) k = s_txt_empty)"
    and "priv s' = priv s"
    and "tail_finished n t m (view (hw s)) \<Longrightarrow> tail_finished n t m (view (hw s'))"
  using hwsteps_keep [of n "view (hw s)" "view (hw s')"] assms
  by (auto simp: evolves_def tx_inv_def)

lemma tx_inv_attached: "tx_inv acc base n sg view s \<Longrightarrow> attached acc base n (priv s)"
  by (simp add: tx_inv_def)

lemma txwin_free:
  assumes "txwin n t m v" "0 < n"
  shows "(\<exists>k<n. sts v k = s_txt_empty) = (m < n)"
proof
  obtain a where a: "m \<le> n" "a \<le> m"
    and cells: "\<And>j. j < n \<Longrightarrow> cell_ok a m j (sts v ((t + j) mod n))"
    using conjunct1 [OF assms(1) [unfolded txwin_def]] by (rule fifoE) blast
  { assume "\<exists>k<n. sts v k = s_txt_empty"
    then obtain k where k: "k < n" "sts v k = s_txt_empty" by blast
    obtain i where i: "i < n" "k = (t + i) mod n" using k(1) by (rule mod_add_surj [of _ _ t])
    have "\<not> i < m" using cells [OF i(1)] k(2) i(2)
      by (auto simp: cell_ok_def buf_state_defs split: if_splits)
    then show "m < n" using i by simp }
  { assume "m < n"
    then have "sts v ((t + m) mod n) = s_txt_empty" using cells [of m] a by (simp add: cell_ok_def)
    then show "\<exists>k<n. sts v k = s_txt_empty" using assms(2) by (intro exI [of _ "(t + m) mod n"]) simp }
qed

lemma txwin_next_empty:
  "txwin n t m v \<Longrightarrow> m < n \<Longrightarrow> sts v ((t + m) mod n) = s_txt_empty"
  by (auto simp: txwin_def fifo_def cell_ok_def)

text \<open>The payload can be read in words: enough bytes, in whole words.\<close>

definition payload_ok :: "canfd_frame \<Rightarrow> bool" where
  "payload_ok cf \<longleftrightarrow> unat (flen cf) \<le> length (data cf) \<and> 4 dvd length (data cf)"

lemma get_le32_Some: "i + 3 < length bs \<Longrightarrow> \<exists>w. get_le32 bs i = Some w"
  by (simp add: get_le32_def)

lemma txt_code:
  "(txtb_state b AND 7 = TXT_TOK) = (b = s_txt_ok)"
  "(txtb_state b AND 7 = TXT_ERR) = (b = s_txt_failed)"
  "(txtb_state b AND 7 = TXT_ABT) = (b = s_txt_aborted)"
  "(txtb_state b AND 7 = TXT_TRAN) = (b = s_txt_tx_prog)"
  "(txtb_state b AND 7 = TXT_ABTP) = (b = s_txt_ab_prog)"
  "(txtb_state b AND 7 = TXT_RDY) = (b = s_txt_ready \<or> b = s_txt_parity_err)"
  by (cases b; simp add: txt_status_defs)+

context txt_core
begin

lemmas n_bounds = dvd_8_bounds [OF n_dvd]

lemma read_evolves:
  "attached acc base n (priv s) \<Longrightarrow> evolves n view s (snd (ctucan_read32 B reg s))"
  using ld_view [of "hw s" reg]
  by (auto simp: attached_def ctucan_read32_bus Let_def split_def evolves_def)

lemma txtnf:
  assumes "attached acc base n (priv s)" "CTU_CAN_FD_TXTNF B s = (b, s')"
  shows "evolves n view s s'" "b = (\<exists>k<n. sts (view (hw s')) k = s_txt_empty)"
  using assms read_evolves [of s CTUCANFD_STATUS] ld_status [of "hw s", OF prod.collapse [symmetric]]
  by (auto simp: CTU_CAN_FD_TXTNF_def attached_def ctucan_read32_bus Let_def split_def)

lemma txtnf_inv:
  assumes "tx_inv acc base n sg view s" "CTU_CAN_FD_TXTNF B s = (b, s')"
  shows "evolves n view s s'" "tx_inv acc base n sg view s'" "b = (tx_m (priv s) < n)"
proof -
  show e: "evolves n view s s'" using txtnf(1) [OF _ assms(2)] assms(1) by (simp add: tx_inv_def)
  then show i: "tx_inv acc base n sg view s'" using assms(1) evolves_keep(1) by blast
  show "b = (tx_m (priv s) < n)"
    using txtnf(2) [OF _ assms(2)] assms(1) i txwin_free [OF _ n_bounds(1)] evolves_keep(4) [OF e]
    by (auto simp: tx_inv_def)
qed

lemma tx_status:
  assumes "attached acc base n (priv s)" "ctucan_get_tx_status B buf s = (st, s')" "unat buf < n"
  shows "evolves n view s s'" "st = txtb_state (sts (view (hw s')) (unat buf)) AND 7"
proof -
  obtain w d where ld: "ld32 B (hw s) (base + ucast CTUCANFD_TX_STATUS) = (w, d)"
    by (cases "ld32 B (hw s) (base + ucast CTUCANFD_TX_STATUS)")
  have s': "s' = s\<lparr>hw := d\<rparr>" "st = drop_bit (4 * unat buf) (bus_order acc w) AND 7"
    using assms(1,2) ld
    by (auto simp: ctucan_get_tx_status_def attached_def ctucan_read32_bus ac_simps)
  show "evolves n view s s'"
    using ld_view [of "hw s" CTUCANFD_TX_STATUS] ld s'(1) by (simp add: evolves_def)
  have "x AND 7 = (x AND 0xF) AND 7" for x :: u32
    by (simp add: and.assoc)
  from this [of "drop_bit (4 * unat buf) (bus_order acc w)"]
  show "st = txtb_state (sts (view (hw s')) (unat buf)) AND 7"
    unfolding s' ld_tx_status [OF ld assms(3)] by simp
qed

end

lemma txt_window_addr:
  fixes buf :: u8 and off :: u32
  assumes "unat buf < 8" "unat off < 0x100"
  shows "0x100 \<le> (ucast buf + 1) * 0x100 + off" "(ucast buf + 1) * 0x100 + off < (0x900 :: u32)"
proof -
  have "unat ((ucast buf + 1) * 0x100 + off) = (unat buf + 1) * 0x100 + unat off"
    using assms by (simp add: unat_word_ariths unat_u8_u32)
  then show "0x100 \<le> (ucast buf + 1) * 0x100 + off" "(ucast buf + 1) * 0x100 + off < (0x900 :: u32)"
    using assms by (auto simp: word_le_nat_alt word_less_nat_alt)
qed

lemma insert_data_total:
  "payload_ok cf \<Longrightarrow> 4 dvd i \<Longrightarrow> \<exists>s'. insert_data B b cf i s = Inr s'"
proof (induction B b cf i s rule: insert_data.induct)
  case (1 B b cf i s)
  show ?case
  proof (cases "i < unat (flen cf)")
    case True
    then have "i < length (data cf)" using "1.prems" by (simp add: payload_ok_def)
    then have "i + 3 < length (data cf)"
      using "1.prems" by (auto simp: payload_ok_def elim!: dvdE)
    then obtain w where w: "get_le32 (data cf) i = Some w" using get_le32_Some by blast
    have "4 dvd i + 4" using "1.prems"(2) by simp
    from "1.IH" [OF True w "1.prems"(1) this] show ?thesis
      using True w by (simp add: insert_data.simps [of B b cf i])
  next
    case False
    then show ?thesis by (simp add: insert_data.simps)
  qed
qed

context txt_core
begin

lemma write_txt_buf_evolves:
  assumes "attached acc base n (priv s)" "unat buf < 8" "unat off < 0x100"
  shows "evolves n view s (ctucan_write_txt_buf B ((ucast (buf :: u8) + 1) * 0x100) off w s)"
  using assms st_txt_ram [OF txt_window_addr [OF assms(2,3)], of "hw s"]
  by (auto simp: attached_def ctucan_write_txt_buf_def ctucan_write32_bus evolves_def)

lemma insert_data_evolves:
  assumes "insert_data B b cf i s = Inr s'" "b = (ucast (buf :: u8) + 1) * 0x100"
    "attached acc base n (priv s)" "unat buf < 8" "unat (flen cf) \<le> 64"
  shows "evolves n view s s'"
  using assms
proof (induction "unat (flen cf) - i" arbitrary: i s rule: less_induct)
  case less
  show ?case
  proof (cases "i < unat (flen cf)")
    case True
    then obtain w where w: "get_le32 (data cf) i = Some w"
      using less.prems(1) by (cases "get_le32 (data cf) i") (auto simp: insert_data.simps)
    let ?s = "ctucan_write_txt_buf B b (CTUCANFD_DATA_1_4_W + of_nat i) w s"
    have "unat (CTUCANFD_DATA_1_4_W + of_nat i) < 0x100"
      using True less.prems(5) by (simp add: reg_addrs unat_word_ariths unat_of_nat)
    then have e: "evolves n view s ?s" using write_txt_buf_evolves less.prems(2-4) by blast
    have "insert_data B b cf (i + 4) ?s = Inr s'"
      using less.prems(1) True w by (simp add: insert_data.simps [of B b cf i])
    then have "evolves n view ?s s'"
      using less.hyps [of "i + 4" ?s] True less.prems evolves_keep(4) [OF e] by simp
    then show ?thesis using e evolves_trans by blast
  next
    case False
    then show ?thesis using less.prems by (simp add: insert_data.simps)
  qed
qed

lemma insert_frame_evolves:
  assumes "ctucan_insert_frame B K cf buf fd s = Inr (ok, s')" "attached acc base n (priv s)"
  shows "evolves n view s s'"
proof (cases "ucast buf \<ge> ntxbufs (priv s)")
  case True
  then show ?thesis using assms by (simp add: ctucan_insert_frame_def)
next
  case False
  have buf: "unat buf < n"
    using False assms(2) n_bounds(4) by (simp add: attached_def word_le_nat_alt unat_u8_u32)
  then have buf8: "unat buf < 8" using n_bounds(2) by simp
  obtain st s1 where st: "ctucan_get_tx_status B buf s = (st, s1)"
    by (cases "ctucan_get_tx_status B buf s")
  have e1: "evolves n view s s1" using tx_status(1) [OF assms(2) st buf] .
  then have at: "attached acc base n (priv s1)" using assms(2) by (simp add: evolves_def)
  define s2 where "s2 = ctucan_write_txt_buf B ((ucast buf + 1) * 0x100) CTUCANFD_FRAME_FORMAT_W
    (tx_ffw K cf fd) s1"
  define s3 where "s3 = ctucan_write_txt_buf B ((ucast buf + 1) * 0x100) CTUCANFD_IDENTIFIER_W
    (tx_idw cf) s2"
  have e2: "evolves n view s1 s2"
    unfolding s2_def by (rule write_txt_buf_evolves [OF at buf8]) (simp add: reg_addrs)
  have at2: "attached acc base n (priv s2)" using at e2 by (simp add: evolves_def)
  have e3: "evolves n view s2 s3"
    unfolding s3_def by (rule write_txt_buf_evolves [OF at2 buf8]) (simp add: reg_addrs)
  have at3: "attached acc base n (priv s3)" using at2 e3 by (simp add: evolves_def)
  have "s' = s1 \<or> s' = s3 \<or> unat (flen cf) \<le> 64 \<and>
      insert_data B ((ucast buf + 1) * 0x100) cf 0 s3 = Inr s'"
    using assms(1) False st
    by (auto simp: ctucan_insert_frame_def ctucan_is_txt_buf_writable_def Let_def split_def
        s2_def s3_def CANFD_MAX_DLEN_def split: if_splits sum.splits)
  moreover have "evolves n view s3 s'"
    if "unat (flen cf) \<le> 64" "insert_data B ((ucast buf + 1) * 0x100) cf 0 s3 = Inr s'"
    using insert_data_evolves [OF that(2) refl at3 buf8 that(1)] .
  ultimately show ?thesis using e1 e2 e3 evolves_trans by metis
qed

lemma insert_frame_ok:
  assumes "attached acc base n (priv s)" "unat buf < n" "payload_ok cf" "unat (flen cf) \<le> 64"
    "sts (view (hw s)) (unat buf) = s_txt_empty"
  shows "\<exists>s'. ctucan_insert_frame B K cf buf fd s = Inr (True, s')"
proof -
  obtain st s1 where st: "ctucan_get_tx_status B buf s = (st, s1)"
    by (cases "ctucan_get_tx_status B buf s")
  have "sts (view (hw s1)) (unat buf) = s_txt_empty"
    using evolves_keep(3) [OF tx_status(1) [OF assms(1) st assms(2)]] assms(5) by simp
  then have "st = 0" using tx_status(2) [OF assms(1) st assms(2)] by simp
  moreover have "\<not> ntxbufs (priv s) \<le> ucast buf"
    using assms(1,2) n_bounds(4) by (simp add: attached_def word_le_nat_alt unat_u8_u32)
  moreover obtain s' where "insert_data B ((ucast buf + 1) * 0x100) cf 0 
     (ctucan_write_txt_buf B ((ucast buf + 1) * 0x100) CTUCANFD_IDENTIFIER_W (tx_idw cf)
       (ctucan_write_txt_buf B ((ucast buf + 1) * 0x100) CTUCANFD_FRAME_FORMAT_W
         (tx_ffw K cf fd) s1)) = Inr s'"
    using insert_data_total [OF assms(3), of 0] by fastforce
  ultimately show ?thesis
    using st assms(4)
    by (auto simp: ctucan_insert_frame_def ctucan_is_txt_buf_writable_def Let_def split_def
        CANFD_MAX_DLEN_def txt_status_defs)
qed

end

section \<open>Steps of the driver\<close>

lemma window_cong:
  assumes "t mod n = t' mod n"
  shows "txwin n t m v = txwin n t' m v" "prio_ring n t w = prio_ring n t' w"
    "tail_finished n t m v = tail_finished n t' m v"
    "hci_sound n t m v = hci_sound n t' m v" "hci_complete n t m v = hci_complete n t' m v"
proof -
  have "(t + j) mod n = (t' + j) mod n" for j using assms by (metis mod_add_left_eq)
  then show "txwin n t m v = txwin n t' m v" "prio_ring n t w = prio_ring n t' w"
    by (simp_all add: txwin_def fifo_def falling_def prio_ring_def)
  show "tail_finished n t m v = tail_finished n t' m v"
    "hci_sound n t m v = hci_sound n t' m v" "hci_complete n t m v = hci_complete n t' m v"
    using assms by (simp_all add: hci_defs)
qed

lemma unat_succ_small: "unat (x :: u32) < 8 \<Longrightarrow> unat (1 + x) = Suc (unat x)"
  by (simp add: unat_word_ariths)

lemma unat_pred: "0 < unat (x :: u32) \<Longrightarrow> unat (x - 1) = unat x - 1"
  by (simp add: unat_sub word_le_nat_alt)

lemma tx_m_push: "tx_m p < 8 \<Longrightarrow> tx_m (p\<lparr>txb_head := txb_head p + 1\<rparr>) = Suc (tx_m p)"
  using unat_succ_small [of "txb_head p - txb_tail p"] by (simp add: tx_m_def algebra_simps)

lemma tx_m_pop: "0 < tx_m p \<Longrightarrow> tx_m (p\<lparr>txb_tail := txb_tail p + 1\<rparr>) = tx_m p - 1"
  using unat_pred [of "txb_head p - txb_tail p"] by (simp add: tx_m_def algebra_simps)

lemma tx_t_pop: "n dvd 8 \<Longrightarrow> tx_t (p\<lparr>txb_tail := txb_tail p + 1\<rparr>) mod n = Suc (tx_t p) mod n"
  using ring_add [of n "txb_tail p" 1] by (simp add: tx_t_def)

lemma pending_tx_m: "tx_m p \<le> 8 \<Longrightarrow> txb_pending p = int (tx_m p)"
proof -
  assume m: "tx_m p \<le> 8"
  have "sint x = int (unat x)" if "unat x \<le> 8" for x :: u32
  proof -
    have "uint x \<le> 8" using that by (metis of_nat_le_iff of_nat_numeral of_nat_unat)
    moreover have "- (2 ^ 31) \<le> uint x" by (rule order_trans [of _ 0]) simp_all
    ultimately have "signed_take_bit 31 (uint x) = uint x"
      by (intro signed_take_bit_int_eq_self) simp_all
    then show ?thesis by (simp add: sint_uint)
  qed
  then show ?thesis using m by (simp add: txb_pending_def tx_m_def)
qed

lemma sw_command_one:
  assumes "k < n" "n \<le> 8" "cmd \<in> {1, 2}"
  shows "sw_tx_command n (cmd OR push_bit (k + 8) 1) v = v\<lparr>sts := (sts v)(k := sw_cmd cmd (sts v k))\<rparr>"
proof -
  let ?w = "cmd OR push_bit (k + 8) 1 :: u32"
  have w: "bit ?w (8 + j) = (j = k)" if "j < n" for j
    using assms that by (auto simp: bit_simps bit_numeral_rec(1) bit_1_iff)
  have "bit ?w 0 = bit cmd 0" "bit ?w 1 = bit cmd 1"
    using assms(3) by (auto simp: bit_simps)
  then have "sw_cmd ?w b = sw_cmd cmd b" for b unfolding sw_cmd_def by (simp only:)
  then have "(\<lambda>j. if j < n \<and> bit ?w (8 + j) then sw_cmd ?w (sts v j) else sts v j) =
      (sts v)(k := sw_cmd cmd (sts v k))"
    using w assms(1) by (intro ext) (auto simp: fun_upd_def)
  then show ?thesis by (simp only: sw_tx_command_def)
qed

lemma sw_cmd_simps:
  "sw_cmd 2 s_txt_empty = s_txt_ready" "finished b \<Longrightarrow> sw_cmd 1 b = s_txt_empty"
  by (simp_all add: sw_cmd_def)

lemma hci_push:
  assumes "m < n" "sts v' = (sts v)((t + m) mod n := s_txt_ready)" "hci v' = hci v" "signalled v' = signalled v"
  shows "hci_sound n t m v \<Longrightarrow> hci_sound n t (Suc m) v'"
    and "hci_complete n t m v \<Longrightarrow> hci_complete n t (Suc m) v'"
  using assms mod_add_inj [of t m n 0]
  by (cases "m = 0"; auto simp: hci_defs finished_def)+

lemma attached_upd [simp]:
  "attached acc base n (p\<lparr>txb_head := h\<rparr>) = attached acc base n p"
  "attached acc base n (p\<lparr>txb_tail := h\<rparr>) = attached acc base n p"
  "attached acc base n (p\<lparr>txb_prio := h\<rparr>) = attached acc base n p"
  by (simp_all add: attached_def)

lemma tx_m_upd [simp]: "tx_m (p\<lparr>txb_prio := h\<rparr>) = tx_m p" "tx_t (p\<lparr>txb_prio := h\<rparr>) = tx_t p"
  "tx_t (p\<lparr>txb_head := h\<rparr>) = tx_t p"
  by (simp_all add: tx_m_def tx_t_def)

text \<open>No error message among the calls made between two states.\<close>

definition is_err :: "kcall \<Rightarrow> bool" where
  "is_err c = (case c of Netdev_err m \<Rightarrow> True | _ \<Rightarrow> False)"

definition quiet :: "'d ndev \<Rightarrow> 'd ndev \<Rightarrow> bool" where
  "quiet s s' \<longleftrightarrow> (\<exists>l. klog s' = l @ klog s \<and> \<not> list_ex is_err l)"

lemma quiet_refl [simp]: "klog s' = klog s \<Longrightarrow> quiet s s'"
  by (simp add: quiet_def)

lemma quiet_trans [trans]: "quiet s s' \<Longrightarrow> quiet s' s'' \<Longrightarrow> quiet s s''"
  by (auto simp: quiet_def)

lemma quiet_kdo: "\<not> is_err c \<Longrightarrow> quiet s s' \<Longrightarrow> quiet s (kdo c s')"
  unfolding quiet_def by (elim exE) (rule_tac x = "c # l" in exI, simp)

lemma quiet_cong: "klog s1' = klog s1 \<Longrightarrow> klog s2' = klog s2 \<Longrightarrow> quiet s1' s2' = quiet s1 s2"
  by (simp add: quiet_def)

context txt_core
begin

lemma give_cmd:
  assumes "attached acc base n (priv s)" "unat buf < n" "cmd \<in> {1, 2}"
    "\<not> transient_state (sts (view (hw s)) (unat buf))"
  obtains v where "hwsteps n (view (hw s)) v"
    "hwsteps n (v\<lparr>sts := (sts v)(unat buf := sw_cmd cmd (sts v (unat buf)))\<rparr>)
      (view (hw (ctucan_give_txtb_cmd B cmd buf s)))"
proof -
  let ?w = "cmd OR push_bit (unat buf + 8) 1 :: u32"
  have "\<forall>k<n. bit ?w (8 + k) \<longrightarrow> \<not> transient_state (sts (view (hw s)) k)"
  proof (intro allI impI)
    fix k assume k: "k < n" "bit ?w (8 + k)"
    have "k = unat buf" using k assms(2,3) n_bounds(2) by (auto simp: bit_simps bit_1_iff)
    then show "\<not> transient_state (sts (view (hw s)) k)" using assms(4) by simp
  qed
  from st_tx_command [OF this] obtain v where v: "hwsteps n (view (hw s)) v"
    "hwsteps n (sw_tx_command n ?w v)
      (view (st32 B (hw s) (base + ucast CTUCANFD_TX_COMMAND) (bus_order acc ?w)))" by blast
  moreover have "hw (ctucan_give_txtb_cmd B cmd buf s) =
      st32 B (hw s) (base + ucast CTUCANFD_TX_COMMAND) (bus_order acc ?w)"
    using assms(1) by (auto simp: attached_def ctucan_give_txtb_cmd_def ctucan_write32_bus)
  ultimately show ?thesis
    using that [of v] sw_command_one [OF assms(2) n_bounds(2) assms(3), of v] by simp
qed

lemma set_ready:
  assumes "tx_inv acc base n sg view s" "tx_m (priv s) < n"
    "s' = upd_priv (\<lambda>p. p\<lparr>txb_head := txb_head p + 1\<rparr>)
      (ctucan_give_txtb_cmd B TXT_CMD_SET_READY (ucast (txb_head (priv s) mod of_nat n)) s)"
  shows "tx_inv acc base n sg view s'"
    and "tx_t (priv s') = tx_t (priv s)" and "tx_m (priv s') = Suc (tx_m (priv s))"
    and "hci_sound n (tx_t (priv s)) (tx_m (priv s)) (view (hw s)) \<Longrightarrow>
      hci_sound n (tx_t (priv s')) (tx_m (priv s')) (view (hw s'))"
    and "hci_complete n (tx_t (priv s)) (tx_m (priv s)) (view (hw s)) \<Longrightarrow>
      hci_complete n (tx_t (priv s')) (tx_m (priv s')) (view (hw s'))"
proof -
  let ?t = "tx_t (priv s)" and ?m = "tx_m (priv s)"
  let ?k = "(?t + ?m) mod n"
  let ?buf = "ucast (txb_head (priv s) mod of_nat n) :: u8"
  have win: "txwin n ?t ?m (view (hw s))" "prios (view (hw s)) = prio_of (txb_prio (priv s))"
    "prio_ring n ?t (txb_prio (priv s))" "attached acc base n (priv s)" "signalled (view (hw s)) = sg"
    using assms(1) by (auto simp: tx_inv_def)
  have k: "unat ?buf = ?k"
    using tx_head_index [OF n_dvd, of "priv s"] ring_small [OF n_dvd] ring_index [OF n_dvd] by simp
  have emp: "sts (view (hw s)) ?k = s_txt_empty" using txwin_next_empty [OF win(1) assms(2)] .
  obtain v where v: "hwsteps n (view (hw s)) v"
    "hwsteps n (v\<lparr>sts := (sts v)(?k := sw_cmd 2 (sts v ?k))\<rparr>)
      (view (hw (ctucan_give_txtb_cmd B 2 ?buf s)))"
    using give_cmd [OF win(4), of ?buf 2] k emp n_bounds(1) by (auto simp: transient_state_def)
  let ?v = "v\<lparr>sts := (sts v)(?k := s_txt_ready)\<rparr>"
  have kv: "sts v ?k = s_txt_empty" using hwsteps_keep(3) [OF v(1)] emp by simp
  have hw': "hwsteps n ?v (view (hw s'))"
    using v(2) kv assms(3) by (simp add: sw_cmd_simps TXT_CMD_SET_READY_def)
  show m': "tx_m (priv s') = Suc ?m"
    using assms(2,3) n_bounds(2) by (simp add: tx_m_push ctucan_give_txtb_cmd_def)
  show t': "tx_t (priv s') = ?t" using assms(3) by (simp add: ctucan_give_txtb_cmd_def)
  have "txwin n ?t (Suc ?m) ?v"
    using txwin_push [OF hwsteps_keep(4) [OF v(1) win(1)] assms(2) n_bounds(2) _ win(3)]
      hwsteps_keep(1) [OF v(1)] win(2) by simp
  then have w': "txwin n ?t (Suc ?m) (view (hw s'))" by (rule hwsteps_keep(4) [OF hw'])
  then show "tx_inv acc base n sg view s'"
    using win m' t' hwsteps_keep(1,8) [OF hw'] hwsteps_keep(1,8) [OF v(1)] assms(3)
    by (simp add: tx_inv_def ctucan_give_txtb_cmd_def)
  show "hci_sound n (tx_t (priv s')) (tx_m (priv s')) (view (hw s'))"
    if "hci_sound n ?t ?m (view (hw s))"
    using hwsteps_keep(5) [OF hw' \<open>txwin n ?t (Suc ?m) ?v\<close>] hwsteps_keep(5) [OF v(1) win(1) that]
      hci_push(1) [OF assms(2), of ?v v ?t] m' t' by simp
  show "hci_complete n (tx_t (priv s')) (tx_m (priv s')) (view (hw s'))"
    if "hci_complete n ?t ?m (view (hw s))"
    using hwsteps_keep(6) [OF hw'] hwsteps_keep(6) [OF v(1) that]
      hci_push(2) [OF assms(2), of ?v v ?t] m' t' by simp
qed

end

text \<open>The window is kept, and with it the meaning of the interrupt flag.\<close>

definition tx_sync :: "io_access \<Rightarrow> iomem \<Rightarrow> nat \<Rightarrow> bool \<Rightarrow> ('d \<Rightarrow> txview) \<Rightarrow> 'd ndev \<Rightarrow> bool" where
  "tx_sync acc base n sg view s \<longleftrightarrow> tx_inv acc base n sg view s \<and>
     hci_sound n (tx_t (priv s)) (tx_m (priv s)) (view (hw s)) \<and>
     hci_complete n (tx_t (priv s)) (tx_m (priv s)) (view (hw s))"

lemma tx_sync_kdo [simp]:
  "tx_sync acc base n sg view (kdo c s) = tx_sync acc base n sg view s"
  "tx_sync acc base n sg view (upd_stats f s) = tx_sync acc base n sg view s"
  by (simp_all add: tx_sync_def)

lemma evolves_sync: "evolves n view s s' \<Longrightarrow> tx_sync acc base n sg view s \<Longrightarrow> tx_sync acc base n sg view s'"
  using evolves_keep(1) [of n view s s'] hwsteps_keep(5,6) [of n "view (hw s)" "view (hw s')"]
  by (auto simp: tx_sync_def tx_inv_def evolves_def)

lemma TXTNF_frame:
  "CTU_CAN_FD_TXTNF B s = (b, s') \<Longrightarrow> priv s' = priv s \<and> klog s' = klog s \<and> stats s' = stats s"
  by (auto simp: CTU_CAN_FD_TXTNF_def Let_def split_def)

lemma insert_data_frame:
  "insert_data B b cf i s = Inr s' \<Longrightarrow> priv s' = priv s \<and> klog s' = klog s \<and> stats s' = stats s"
proof (induction B b cf i s rule: insert_data.induct)
  case (1 B b cf i s)
  show ?case
    using "1.prems" "1.IH"
    by (auto simp: insert_data.simps [of B b cf i] ctucan_write_txt_buf_def
        split: if_splits option.splits)
qed

lemma insert_frame_frame:
  "ctucan_insert_frame B K cf buf fd s = Inr (ok, s') \<Longrightarrow>
   priv s' = priv s \<and> klog s' = klog s \<and> stats s' = stats s"
  by (auto simp: ctucan_insert_frame_def ctucan_is_txt_buf_writable_def Let_def split_def
      ctucan_write_txt_buf_def dest!: insert_data_frame split: if_splits sum.splits)

context txt_core
begin

lemma xmit_locked_sync:
  assumes "tx_sync acc base n sg view s" "tx_m (priv s) < n"
  defines "s' \<equiv> xmit_locked B (txb_head (priv s) mod ntxbufs (priv s)) s"
  shows "tx_sync acc base n sg view s'"
    and "tx_t (priv s') = tx_t (priv s)" and "tx_m (priv s') = Suc (tx_m (priv s))"
    and "klog s' = Spin_unlock_irqrestore # (if Suc (tx_m (priv s)) < n then [] else [Netif_stop_queue])
      @ Spin_lock_irqsave # klog s"
    and "stats s' = stats s"
proof -
  let ?s0 = "kdo Spin_lock_irqsave s"
  have nt: "ntxbufs (priv s) = of_nat n" using assms(1) by (simp add: tx_sync_def tx_inv_def attached_def)
  define s1 where "s1 = upd_priv (\<lambda>p. p\<lparr>txb_head := txb_head p + 1\<rparr>)
      (ctucan_give_txtb_cmd B TXT_CMD_SET_READY (ucast (txb_head (priv ?s0) mod of_nat n)) ?s0)"
  have inv0: "tx_inv acc base n sg view ?s0" "tx_m (priv ?s0) < n"
    using assms(1,2) by (simp_all add: tx_sync_def)
  have s1: "tx_sync acc base n sg view s1" "tx_t (priv s1) = tx_t (priv s)"
    "tx_m (priv s1) = Suc (tx_m (priv s))"
    using set_ready [OF inv0 s1_def] assms(1) by (simp_all add: tx_sync_def)
  obtain b s2 where s2: "CTU_CAN_FD_TXTNF B s1 = (b, s2)" by (cases "CTU_CAN_FD_TXTNF B s1")
  have e: "evolves n view s1 s2" "b = (Suc (tx_m (priv s)) < n)"
    using txtnf_inv [where sg = sg, OF _ s2] s1 by (simp_all add: tx_sync_def)
  have s': "s' = kdo Spin_unlock_irqrestore (if \<not> b then kdo Netif_stop_queue s2 else s2)"
    unfolding s'_def xmit_locked_def using s2 nt by (simp add: s1_def Let_def)
  show "tx_sync acc base n sg view s'" using evolves_sync [OF e(1) s1(1)] s' by simp
  show "tx_t (priv s') = tx_t (priv s)" "tx_m (priv s') = Suc (tx_m (priv s))"
    using evolves_keep(4) [OF e(1)] s1 s' by simp_all
  show "klog s' = Spin_unlock_irqrestore # (if Suc (tx_m (priv s)) < n then [] else [Netif_stop_queue])
      @ Spin_lock_irqsave # klog s" "stats s' = stats s"
    using TXTNF_frame [OF s2] s' e(2) by (simp_all add: s1_def ctucan_give_txtb_cmd_def)
qed

lemma xmit_prepare_accepts:
  assumes "tx_sync acc base n sg view s" "tx_m (priv s) < n"
    "payload_ok (skb_frame skb)" "unat (flen (skb_frame skb)) \<le> 64"
    "\<not> k_dropped_skb K (klog s) skb"
  shows "\<exists>s'. xmit_prepare B K skb s = Inr (Inr (txb_head (priv s) mod of_nat n), s') \<and>
    tx_sync acc base n sg view s' \<and> priv s' = priv s \<and> stats s' = stats s \<and>
    klog s' = Can_put_echo_skb skb (txb_head (priv s) mod of_nat n) # Can_dropped_skb skb # klog s"
proof -
  let ?s0 = "kdo (Can_dropped_skb skb) s"
  let ?id = "txb_head (priv s) mod of_nat n :: u32"
  have nt: "ntxbufs (priv s) = of_nat n" using assms(1) by (simp add: tx_sync_def tx_inv_def attached_def)
  obtain b s1 where s1: "CTU_CAN_FD_TXTNF B ?s0 = (b, s1)" by (cases "CTU_CAN_FD_TXTNF B ?s0")
  have e1: "evolves n view ?s0 s1" "b"
    using txtnf_inv [where sg = sg, OF _ s1] assms(1,2) by (simp_all add: tx_sync_def)
  have sync1: "tx_sync acc base n sg view s1" using evolves_sync [OF e1(1)] assms(1) by simp
  then have at: "attached acc base n (priv s1)" by (simp add: tx_sync_def tx_inv_def)
  have p1: "priv s1 = priv s" "klog s1 = Can_dropped_skb skb # klog s" "stats s1 = stats s"
    using TXTNF_frame [OF s1] by simp_all
  have buf: "unat (ucast ?id :: u8) = (tx_t (priv s) + tx_m (priv s)) mod n"
    using tx_head_index [OF n_dvd, of "priv s"] ring_small [OF n_dvd] ring_index [OF n_dvd] by simp
  have "sts (view (hw s1)) (unat (ucast ?id :: u8)) = s_txt_empty"
    using txwin_next_empty [of n "tx_t (priv s1)" "tx_m (priv s1)"] sync1 assms(2) p1(1) buf
    by (simp add: tx_sync_def tx_inv_def)
  then obtain s2 where s2: "ctucan_insert_frame B K (skb_frame skb) (ucast ?id) (skb_is_canfd skb) s1
      = Inr (True, s2)"
    using insert_frame_ok [OF at _ assms(3,4)] buf n_bounds(1) by fastforce
  have p2: "priv s2 = priv s" "klog s2 = Can_dropped_skb skb # klog s" "stats s2 = stats s"
    using insert_frame_frame [OF s2] p1 by simp_all
  have "tx_sync acc base n sg view s2"
    using evolves_sync [OF insert_frame_evolves [OF s2 at] sync1] .
  moreover have "xmit_prepare B K skb s = Inr (Inr ?id, kdo (Can_put_echo_skb skb ?id) s2)"
    using assms(5) s1 e1(2) s2 nt p1(1) by (simp add: xmit_prepare_def Let_def)
  ultimately show ?thesis using p2 by simp
qed

lemma start_xmit_accepts:
  assumes "tx_sync acc base n sg view s" "tx_m (priv s) < n"
    "payload_ok (skb_frame skb)" "unat (flen (skb_frame skb)) \<le> 64"
    "\<not> k_dropped_skb K (klog s) skb"
  shows "\<exists>s'. ctucan_start_xmit B K skb s = Inr (NETDEV_TX_OK, s') \<and>
    tx_sync acc base n sg view s' \<and> tx_t (priv s') = tx_t (priv s) \<and>
    tx_m (priv s') = Suc (tx_m (priv s)) \<and> stats s' = stats s \<and>
    klog s' = Spin_unlock_irqrestore #
      (if Suc (tx_m (priv s)) < n then [] else [Netif_stop_queue]) @
      [Spin_lock_irqsave, Can_put_echo_skb skb (txb_head (priv s) mod of_nat n),
       Can_dropped_skb skb] @ klog s"
proof -
  let ?id = "txb_head (priv s) mod of_nat n :: u32"
  obtain s1 where s1: "xmit_prepare B K skb s = Inr (Inr ?id, s1)" "tx_sync acc base n sg view s1"
    "priv s1 = priv s" "stats s1 = stats s"
    "klog s1 = Can_put_echo_skb skb ?id # Can_dropped_skb skb # klog s"
    using xmit_prepare_accepts [OF assms] by blast
  have "ntxbufs (priv s) = of_nat n"
    using assms(1) by (simp add: tx_sync_def tx_inv_def attached_def)
  then show ?thesis
    using xmit_locked_sync [OF s1(2)] s1 assms(2) by (simp add: ctucan_start_xmit_def)
qed

end

context txt_core
begin

lemma advance:
  assumes "tx_inv acc base n sg view s" "tail_finished n (tx_t (priv s)) (tx_m (priv s)) (view (hw s))"
    "s' = txi_advance B (txb_tail (priv s) mod of_nat n) s"
  shows "tx_inv acc base n sg view s'" and "tx_m (priv s') = tx_m (priv s) - 1"
    and "tx_t (priv s') mod n = Suc (tx_t (priv s)) mod n"
proof -
  let ?t = "tx_t (priv s)" and ?m = "tx_m (priv s)"
  let ?buf = "ucast (txb_tail (priv s) mod of_nat n) :: u8"
  let ?w = "rotate_prio (of_nat n) (txb_prio (priv s))"
  let ?p = "(priv s)\<lparr>txb_tail := txb_tail (priv s) + 1\<rparr>"
  have win: "txwin n ?t ?m (view (hw s))" "prio_ring n ?t (txb_prio (priv s))"
    "attached acc base n (priv s)" "signalled (view (hw s)) = sg" and nt: "ntxbufs (priv s) = of_nat n"
    using assms(1) by (auto simp: tx_inv_def attached_def)
  have k: "unat ?buf = ?t mod n"
    using tx_tail_index [OF n_dvd, of "priv s"] ring_small [OF n_dvd] ring_index [OF n_dvd] by simp
  have ring: "prio_ring n (Suc ?t) ?w" using prio_ring_rotate [OF n_bounds(1,2) win(2)] .
  define s1 where "s1 = ctucan_rotate_txb_prio B (upd_priv (\<lambda>p. p\<lparr>txb_tail := txb_tail p + 1\<rparr>) s)"
  have s': "s' = ctucan_give_txtb_cmd B 1 ?buf s1"
    using assms(3) by (simp add: txi_advance_def s1_def TXT_CMD_SET_EMPTY_def)
  have p1: "priv s1 = ?p\<lparr>txb_prio := ?w\<rparr>" "priv s' = ?p\<lparr>txb_prio := ?w\<rparr>"
    using nt by (simp_all add: s1_def s' ctucan_rotate_txb_prio_def ctucan_give_txtb_cmd_def Let_def)
  show m': "tx_m (priv s') = ?m - 1"
    using assms(2) by (simp add: p1 tx_m_pop tail_finished_def)
  show t': "tx_t (priv s') mod n = Suc ?t mod n"
    using tx_t_pop [OF n_dvd, of "priv s"] by (simp add: p1)
  obtain v where v: "hwsteps n (view (hw s)) v" "hwsteps n (sw_tx_priority ?w v) (view (hw s1))"
    using st_tx_priority [of "hw s" ?w] win(3) nt
    by (auto simp: s1_def ctucan_rotate_txb_prio_def ctucan_write32_bus attached_def Let_def)
  have "txwin n ?t ?m (sw_tx_priority ?w v)"
    by (rule txwin_prio [OF hwsteps_keep(4) [OF v(1) win(1)] hwsteps_keep(7) [OF v(1) assms(2)]
        n_bounds(2) ring]) (simp_all add: sw_tx_priority_def)
  then have w1: "txwin n ?t ?m (view (hw s1))" by (rule hwsteps_keep(4) [OF v(2)])
  have f1: "tail_finished n ?t ?m (view (hw s1))"
    using hwsteps_keep(7) [OF v(2)] hwsteps_keep(7) [OF v(1) assms(2)]
    by (simp add: sw_tx_priority_def tail_finished_def)
  then have fin: "finished (sts (view (hw s1)) (?t mod n))" by (simp add: tail_finished_def)
  have at1: "attached acc base n (priv s1)" using win(3) p1 by simp
  have nt1: "\<not> transient_state (sts (view (hw s1)) (unat ?buf))"
    using fin k by (auto simp: transient_state_def finished_def)
  obtain u where u: "hwsteps n (view (hw s1)) u"
    "hwsteps n (u\<lparr>sts := (sts u)(?t mod n := sw_cmd 1 (sts u (?t mod n)))\<rparr>) (view (hw s'))"
    using give_cmd [OF at1 _ _ nt1, of 1] k n_bounds(1) s' by auto
  let ?u = "u\<lparr>sts := (sts u)(?t mod n := s_txt_empty)\<rparr>"
  have hw': "hwsteps n ?u (view (hw s'))"
    using u(2) hwsteps_keep(2) [OF u(1) fin] fin by (simp add: sw_cmd_simps)
  have "txwin n (Suc ?t) (?m - 1) ?u"
    by (rule txwin_pop [OF hwsteps_keep(4) [OF u(1) w1] hwsteps_keep(7) [OF u(1) f1]]) simp_all
  then have "txwin n (Suc ?t) (?m - 1) (view (hw s'))" by (rule hwsteps_keep(4) [OF hw'])
  moreover have "prios (view (hw s')) = prio_of ?w"
    using hwsteps_keep(1) [OF hw'] hwsteps_keep(1) [OF u(1)] hwsteps_keep(1) [OF v(2)]
    by (simp add: sw_tx_priority_def)
  moreover have "signalled (view (hw s')) = sg"
    using hwsteps_keep(8) [OF hw'] hwsteps_keep(8) [OF u(1)] hwsteps_keep(8) [OF v(2)] hwsteps_keep(8) [OF v(1)] win(4)
    by (simp add: sw_tx_priority_def)
  ultimately show "tx_inv acc base n sg view s'"
    using m' ring win(3) window_cong(1,2) [OF t'] by (simp add: tx_inv_def p1(2))
qed

lemma txi_body_step:
  assumes "tx_inv acc base n sg view s" "0 < tx_m (priv s)" "txi_body B K s = (b, s')"
  shows "tx_inv acc base n sg view s'"
    and "b \<Longrightarrow> tx_m (priv s') = tx_m (priv s) - 1"
    and "b \<Longrightarrow> tx_t (priv s') mod n = Suc (tx_t (priv s)) mod n"
    and "b \<Longrightarrow> \<exists>c. klog s' = c # klog s \<and> (c = Can_get_echo_skb (txb_tail (priv s) mod of_nat n) \<or>
      c = Can_free_echo_skb (txb_tail (priv s) mod of_nat n))"
    and "\<not> b \<Longrightarrow> evolves n view s s' \<and> klog s' = klog s \<and>
      \<not> tail_finished n (tx_t (priv s')) (tx_m (priv s')) (view (hw s'))"
    and "tail_finished n (tx_t (priv s)) (tx_m (priv s)) (view (hw s)) \<Longrightarrow> b"
proof -
  let ?id = "txb_tail (priv s) mod of_nat n :: u32"
  have at: "attached acc base n (priv s)" "ntxbufs (priv s) = of_nat n"
    using assms(1) by (auto simp: tx_inv_def attached_def)
  have k: "unat (ucast ?id :: u8) = tx_t (priv s) mod n"
    using tx_tail_index [OF n_dvd, of "priv s"] ring_small [OF n_dvd] ring_index [OF n_dvd] by simp
  obtain st s1 where st: "ctucan_get_tx_status B (ucast ?id) s = (st, s1)"
    by (cases "ctucan_get_tx_status B (ucast ?id) s")
  have e: "evolves n view s s1" "st = txtb_state (sts (view (hw s1)) (tx_t (priv s) mod n)) AND 7"
    using tx_status [OF at(1) st] k n_bounds(1) by simp_all
  have p1: "priv s1 = priv s" "klog s1 = klog s" "tx_inv acc base n sg view s1"
    using get_tx_status_frame [of B "ucast ?id" s] st evolves_keep(1) [OF e(1) assms(1)] by simp_all
  have sw: "(txi_switch K st ?id s1 = None) =
      (\<not> tail_finished n (tx_t (priv s)) (tx_m (priv s)) (view (hw s1)))"
    using assms(2) e(2)
    by (auto simp: txi_switch_def txt_code tail_finished_def finished_def Let_def)
  have cases: "(\<not> b \<and> s' = s1 \<and> txi_switch K st ?id s1 = None) \<or>
      (b \<and> (\<exists>s2. txi_switch K st ?id s1 = Some s2 \<and> s' = txi_advance B ?id s2))"
    using assms(3) st at(2) by (auto simp: txi_body_def Let_def split: option.splits)
  have adv: "tx_inv acc base n sg view s' \<and> tx_m (priv s') = tx_m (priv s) - 1 \<and>
      tx_t (priv s') mod n = Suc (tx_t (priv s)) mod n \<and>
      (\<exists>c. klog s' = c # klog s \<and> (c = Can_get_echo_skb ?id \<or> c = Can_free_echo_skb ?id))" if b
  proof -
    obtain s2 where s2: "txi_switch K st ?id s1 = Some s2" "s' = txi_advance B ?id s2"
      using cases \<open>b\<close> by blast
    have "priv s2 = priv s" "hw s2 = hw s1" using txi_switch_priv [OF s2(1)] p1 by simp_all
    moreover have "\<exists>c. klog s2 = c # klog s \<and> (c = Can_get_echo_skb ?id \<or> c = Can_free_echo_skb ?id)"
      using s2(1) p1 by (auto simp: txi_switch_def Let_def split: if_splits)
    moreover have "klog s' = klog s2"
      using s2(2) by (simp add: txi_advance_def ctucan_rotate_txb_prio_def ctucan_give_txtb_cmd_def Let_def)
    ultimately show ?thesis
      using advance [of sg s2 s'] s2 sw p1 by (simp add: tx_inv_def)
  qed
  show "tx_inv acc base n sg view s'" using cases adv p1(3) by blast
  show "tx_m (priv s') = tx_m (priv s) - 1" "tx_t (priv s') mod n = Suc (tx_t (priv s)) mod n"
    "\<exists>c. klog s' = c # klog s \<and> (c = Can_get_echo_skb ?id \<or> c = Can_free_echo_skb ?id)" if b
    using adv that by blast+
  show "evolves n view s s' \<and> klog s' = klog s \<and>
      \<not> tail_finished n (tx_t (priv s')) (tx_m (priv s')) (view (hw s'))" if "\<not> b"
    using cases that e(1) sw p1 by auto
  show b if "tail_finished n (tx_t (priv s)) (tx_m (priv s)) (view (hw s))"
    using cases sw evolves_keep(5) [OF e(1) that] by auto
qed

end

section \<open>Echo slots\<close>

text \<open>
  The socket buffers the kernel keeps for the echo, replayed from the calls. A slot may only
  be filled when it is free, and only be emptied when it is occupied.
\<close>

fun echo_of :: "kcall list \<Rightarrow> u32 \<Rightarrow> sk_buff option" where
  "echo_of (Can_put_echo_skb skb i # l) = (echo_of l)(i \<mapsto> skb)"
| "echo_of (Can_get_echo_skb i # l) = (echo_of l)(i := None)"
| "echo_of (Can_free_echo_skb i # l) = (echo_of l)(i := None)"
| "echo_of (_ # l) = echo_of l"
| "echo_of [] = (\<lambda>i. None)"

fun echo_ok :: "kcall list \<Rightarrow> bool" where
  "echo_ok (Can_put_echo_skb skb i # l) = (echo_of l i = None \<and> echo_ok l)"
| "echo_ok (Can_get_echo_skb i # l) = (echo_of l i \<noteq> None \<and> echo_ok l)"
| "echo_ok (Can_free_echo_skb i # l) = (echo_of l i \<noteq> None \<and> echo_ok l)"
| "echo_ok (_ # l) = echo_ok l"
| "echo_ok [] = True"

text \<open>
  \<open>echo_win n e p l\<close>: the occupied slots are those of the window and of \<open>e\<close> buffers behind it,
  filled by a \<open>ctucan_start_xmit\<close> that has not yet moved \<open>txb_head\<close>.
\<close>

definition echo_win :: "nat \<Rightarrow> nat \<Rightarrow> ctucan_priv \<Rightarrow> kcall list \<Rightarrow> bool" where
  "echo_win n e p l \<longleftrightarrow> echo_ok l \<and>
     (\<forall>k. echo_of l k \<noteq> None \<longleftrightarrow> (\<exists>j<tx_m p + e. unat k = (tx_t p + j) mod n))"

lemma echo_push:
  assumes "n dvd 8" "echo_win n 0 p l" "tx_m p < n"
  shows "echo_win n 1 p (Can_put_echo_skb skb (txb_head p mod of_nat n) # l)"
proof -
  let ?i = "txb_head p mod of_nat n :: u32"
  have i: "unat ?i = (tx_t p + tx_m p) mod n" using tx_head_index [OF assms(1)] .
  have "echo_of l ?i = None"
  proof (rule ccontr)
    assume "echo_of l ?i \<noteq> None"
    then obtain j where "j < tx_m p" "unat ?i = (tx_t p + j) mod n"
      using assms(2) unfolding echo_win_def by auto
    then show False using i assms(3) mod_add_inj [of "tx_t p" "tx_m p" n j] by simp
  qed
  moreover have "(k = ?i \<or> echo_of l k \<noteq> None) = (\<exists>j<tx_m p + 1. unat k = (tx_t p + j) mod n)" for k
    using assms(2) i by (auto simp: echo_win_def less_Suc_eq word_unat_eq_iff)
  ultimately show ?thesis using assms(2) by (auto simp: echo_win_def)
qed

lemma echo_commit:
  "tx_m p' = Suc (tx_m p) \<Longrightarrow> tx_t p' = tx_t p \<Longrightarrow> echo_win n 0 p' l = echo_win n 1 p l"
  by (simp add: echo_win_def)

lemma window_drop_first:
  fixes t :: nat
  assumes "0 < m" "m \<le> n"
  shows "(x \<noteq> t mod n \<and> (\<exists>j<m. x = (t + j) mod n)) = (\<exists>j<m - 1. x = (t + Suc j) mod n)"
    (is "?L = ?R")
proof
  assume ?L
  then obtain j where j: "j < m" "x = (t + j) mod n" "x \<noteq> t mod n" by blast
  then obtain i where "j = Suc i" by (cases j) auto
  then show ?R using j by (intro exI [of _ i]) auto
next
  assume ?R
  then obtain j where j: "j < m - 1" "x = (t + Suc j) mod n" by blast
  have "x \<noteq> t mod n"
  proof
    assume "x = t mod n"
    then have "(t + Suc j) mod n = (t + 0) mod n" using j by simp
    moreover have "Suc j < n" "0 < n" using j assms by simp_all
    ultimately show False using mod_add_inj by blast
  qed
  then show ?L using j assms by (intro conjI exI [of _ "Suc j"]) auto
qed

lemma echo_pop:
  assumes "n dvd 8" "echo_win n e p l" "0 < tx_m p" "tx_m p + e \<le> n" "tx_m p' = tx_m p - 1"
    "tx_t p' mod n = Suc (tx_t p) mod n"
    "c = Can_get_echo_skb (txb_tail p mod of_nat n) \<or> c = Can_free_echo_skb (txb_tail p mod of_nat n)"
  shows "echo_win n e p' (c # l)"
proof -
  let ?i = "txb_tail p mod of_nat n :: u32"
  have i: "unat ?i = tx_t p mod n" using tx_tail_index [OF assms(1)] .
  have sh: "(tx_t p' + j) mod n = (tx_t p + Suc j) mod n" for j
    using assms(6) by (metis add_Suc_right add_Suc_shift mod_add_left_eq)
  have dr: "(k \<noteq> ?i \<and> (\<exists>j<tx_m p + e. unat k = (tx_t p + j) mod n)) =
      (\<exists>j<tx_m p + e - 1. unat k = (tx_t p + Suc j) mod n)" for k
    using window_drop_first [OF _ assms(4), of "unat k" "tx_t p"] i assms(3) by (simp add: word_unat_eq_iff)
  have occ: "echo_of l ?i \<noteq> None"
    using assms(2,3) i unfolding echo_win_def by (metis add_0_right add_gr_0)
  have "echo_ok (c # l)" using occ assms(2,7) by (auto simp: echo_win_def)
  moreover have "(echo_of (c # l) k \<noteq> None) = (k \<noteq> ?i \<and> echo_of l k \<noteq> None)" for k
    using assms(7) by (auto split: if_splits)
  ultimately show ?thesis
    using assms(2,3) unfolding echo_win_def assms(5) sh by (simp only: dr simp_thms add_diff_assoc2)
qed

section \<open>The completion handler\<close>

lemma echo_win_neutral [simp]:
  "echo_win n e p (Spin_lock_irqsave # l) = echo_win n e p l"
  "echo_win n e p (Spin_unlock_irqrestore # l) = echo_win n e p l"
  "echo_win n e p (Netif_wake_queue # l) = echo_win n e p l"
  "echo_win n e p (Netif_stop_queue # l) = echo_win n e p l"
  "echo_win n e p (Netif_start_queue # l) = echo_win n e p l"
  "echo_win n e p (Can_dropped_skb skb # l) = echo_win n e p l"
  by (simp_all add: echo_win_def)

abbreviation tail_fin :: "nat \<Rightarrow> ('d \<Rightarrow> txview) \<Rightarrow> 'd ndev \<Rightarrow> bool" where
  "tail_fin n view s \<equiv> tail_finished n (tx_t (priv s)) (tx_m (priv s)) (view (hw s))"

lemma quiet_echo: "klog s' = c # klog s \<Longrightarrow> c = Can_get_echo_skb i \<or> c = Can_free_echo_skb i \<Longrightarrow> quiet s s'"
  unfolding quiet_def by (rule exI [of _ "[c]"]) (auto simp: is_err_def)

context txt_core
begin

lemma tx_inv_m: "tx_inv acc base n sg view s \<Longrightarrow> tx_m (priv s) \<le> n"
  by (simp add: tx_inv_def txwin_def fifo_def)

lemma pending_m: "tx_inv acc base n sg view s \<Longrightarrow> txb_pending (priv s) = int (tx_m (priv s))"
  using tx_inv_m n_bounds(2) by (intro pending_tx_m) (metis order_trans)

lemma inner_loop:
  assumes "txi_inner B K first p s = (ret, first', p', s')" "tx_inv acc base n sg view s"
    "echo_win n e (priv s) (klog s)" "first \<Longrightarrow> tail_fin n view s" "tx_m (priv s) + e \<le> n"
  shows "\<not> ret \<and> \<not> first' \<and> tx_inv acc base n sg view s' \<and> echo_win n e (priv s') (klog s') \<and>
    \<not> tail_fin n view s' \<and> quiet s s' \<and> tx_m (priv s') \<le> tx_m (priv s) \<and>
    (p' \<longleftrightarrow> p \<or> tx_m (priv s') < tx_m (priv s)) \<and>
    (first \<longrightarrow> tx_m (priv s') < tx_m (priv s)) \<and>
    (tx_m (priv s') = tx_m (priv s) \<longrightarrow> evolves n view s s')"
  using assms
proof (induction "tx_m (priv s)" arbitrary: first p s rule: less_induct)
  case less
  note inv = less.prems(2)
  show ?case
  proof (cases "tx_m (priv s) = 0")
    case True
    then show ?thesis using less.prems pending_m [OF inv]
      by (auto simp: txi_inner.simps tail_finished_def)
  next
    case False
    then have m: "0 < tx_m (priv s)" by simp
    obtain b s1 where b: "txi_body B K s = (b, s1)" by (cases "txi_body B K s")
    note st = txi_body_step [OF inv m b]
    have pend: "0 < txb_pending (priv s)" using pending_m [OF inv] m by simp
    show ?thesis
    proof (cases b)
      case True
      obtain c where c: "klog s1 = c # klog s" "c = Can_get_echo_skb (txb_tail (priv s) mod of_nat n) \<or>
          c = Can_free_echo_skb (txb_tail (priv s) mod of_nat n)" using st(4) [OF True] by blast
      have q: "quiet s s1" using quiet_echo [OF c] .
      have lt: "tx_m (priv s1) < tx_m (priv s)" using st(2) [OF True] m by simp
      have e: "echo_win n e (priv s1) (klog s1)"
        using echo_pop [OF n_dvd less.prems(3) m less.prems(5) st(2,3) [OF True] c(2)] c(1) by simp
      have "txi_inner B K False True s1 = (ret, first', p', s')"
        using less.prems(1) b True pend by (simp add: txi_inner.simps [of B K first])
      from less.hyps [OF lt this st(1) e] lt less.prems(5) show ?thesis
        using lt quiet_trans [OF q] by auto
    next
      case False
      then have nf: "\<not> first" using st(6) less.prems(4) by blast
      then have "ret = False" "first' = False" "p' = p" "s' = s1"
        using less.prems(1) b False pend by (auto simp: txi_inner.simps [of B K _ p s])
      then show ?thesis
        using st(1,5) False nf less.prems(3) evolves_keep(4) [of n view s s1] by auto
    qed
  qed
qed

lemma clear_hci:
  assumes "tx_inv acc base n sg view s"
    "s' = ctucan_write32 B CTUCANFD_INT_STAT REG_INT_STAT_TXBHCI s"
  shows "tx_inv acc base n sg view s'"
    and "hci_sound n (tx_t (priv s')) (tx_m (priv s')) (view (hw s'))"
    and "tail_fin n view s \<Longrightarrow> tail_fin n view s'"
proof -
  have at: "attached acc base n (priv s)" and win: "txwin n (tx_t (priv s)) (tx_m (priv s)) (view (hw s))"
    using assms(1) by (simp_all add: tx_inv_def)
  obtain v where v: "hwsteps n (view (hw s)) v"
    "hwsteps n (sw_int_clear REG_INT_STAT_TXBHCI v) (view (hw s'))"
    using st_int_stat [of "hw s" REG_INT_STAT_TXBHCI] at assms(2)
    by (auto simp: attached_def ctucan_write32_bus)
  let ?v = "sw_int_clear REG_INT_STAT_TXBHCI v"
  have cl: "?v = v\<lparr>hci := False\<rparr>" by (simp add: sw_int_clear_def reg_masks BIT_def)
  have p: "priv s' = priv s" using assms(2) by simp
  have w: "txwin n (tx_t (priv s)) (tx_m (priv s)) ?v"
    using hwsteps_keep(4) [OF v(1) win] by (simp add: cl txwin_def fifo_def falling_def)
  show "tx_inv acc base n sg view s'"
    using assms(1) hwsteps_keep(4) [OF v(2) w] hwsteps_keep(1,8) [OF v(1)] hwsteps_keep(1,8) [OF v(2)] p cl
    by (simp add: tx_inv_def)
  show "hci_sound n (tx_t (priv s')) (tx_m (priv s')) (view (hw s'))"
    using hwsteps_keep(5) [OF v(2) w] p by (simp add: cl hci_sound_def)
  show "tail_fin n view s'" if "tail_fin n view s"
    using hwsteps_keep(7) [OF v(2)] hwsteps_keep(7) [OF v(1) that] p
    by (simp add: cl tail_finished_def)
qed

end

context txt_core
begin

lemma outer_loop:
  assumes "txi_outer B K first s = (ret, s')" "tx_inv acc base n sg view s"
    "echo_win n e (priv s) (klog s)" "first \<Longrightarrow> tail_fin n view s"
    "\<not> first \<Longrightarrow> hci_sound n (tx_t (priv s)) (tx_m (priv s)) (view (hw s))"
    "tx_m (priv s) + e \<le> n"
  shows "\<not> ret \<and> tx_sync acc base n sg view s' \<and> echo_win n e (priv s') (klog s') \<and> quiet s s' \<and>
    \<not> tail_fin n view s' \<and> tx_m (priv s') \<le> tx_m (priv s) \<and>
    (first \<longrightarrow> tx_m (priv s') < tx_m (priv s))"
  using assms
proof (induction "tx_m (priv s)" arbitrary: first s rule: less_induct)
  case less
  let ?s0 = "kdo Spin_lock_irqsave s"
  obtain r f p s1 where i: "txi_inner B K first False ?s0 = (r, f, p, s1)"
    by (cases "txi_inner B K first False ?s0")
  have "tx_inv acc base n sg view ?s0" "echo_win n e (priv ?s0) (klog ?s0)"
    "first \<Longrightarrow> tail_fin n view ?s0" "tx_m (priv ?s0) + e \<le> n" using less.prems by simp_all
  note in1 = inner_loop [OF i this]
  have inv1: "tx_inv acc base n sg view s1" and e1: "echo_win n e (priv s1) (klog s1)"
    and nf1: "\<not> tail_fin n view s1" and rf: "\<not> r" "\<not> f" and q: "quiet s s1"
    and le1: "tx_m (priv s1) \<le> tx_m (priv s)" and p: "p = (tx_m (priv s1) < tx_m (priv s))"
    and lt1: "first \<Longrightarrow> tx_m (priv s1) < tx_m (priv s)"
    and ev: "\<not> p \<Longrightarrow> evolves n view s s1"
    using in1 quiet_trans [of s ?s0 s1] quiet_kdo [of Spin_lock_irqsave s s] by (auto simp: is_err_def)
  let ?u = "kdo Spin_unlock_irqrestore s1"
  have qu: "quiet s ?u" using quiet_kdo [OF _ q] by (simp add: is_err_def)
  show ?case
  proof (cases p)
    case True
    let ?s2 = "ctucan_write32 B CTUCANFD_INT_STAT REG_INT_STAT_TXBHCI ?u"
    have "tx_inv acc base n sg view ?u" using inv1 by simp
    note cl = clear_hci [OF this refl]
    have lt: "tx_m (priv ?s2) < tx_m (priv s)" using p True by simp
    have "txi_outer B K False ?s2 = (ret, s')"
      using less.prems(1) i rf True by (simp add: txi_outer.simps [of B K first s])
    from less.hyps [OF lt this cl(1)] show ?thesis
      using cl(2) e1 lt less.prems(6) quiet_trans [of s ?s2 s'] qu by (auto simp: quiet_cong [of s s ?s2 ?u])
  next
    case False
    then have s': "ret = False" "s' = ?u" and "\<not> first"
      using less.prems(1) i rf lt1 p by (auto simp: txi_outer.simps [of B K first s])
    have "hci_sound n (tx_t (priv s1)) (tx_m (priv s1)) (view (hw s1))"
      using hwsteps_keep(5) [of n "view (hw s)" "view (hw s1)"] ev [OF False]
        less.prems(2,5) \<open>\<not> first\<close> by (simp add: evolves_def tx_inv_def)
    then have "tx_sync acc base n sg view s1" using inv1 nf1 by (simp add: tx_sync_def hci_complete_def)
    then show ?thesis using s' e1 nf1 qu le1 \<open>\<not> first\<close> by simp
  qed
qed

text \<open>
  Called with a finished buffer at the tail, the handler releases at least that buffer and
  ends with a flag that is up exactly when the buffer now at the tail is finished.
\<close>

lemma tx_interrupt_sync:
  assumes "tx_inv acc base n sg view s" "echo_win n e (priv s) (klog s)" "tail_fin n view s"
    "tx_m (priv s) + e \<le> n"
  shows "tx_sync acc base n sg view (ctucan_tx_interrupt B K s)"
    and "echo_win n e (priv (ctucan_tx_interrupt B K s)) (klog (ctucan_tx_interrupt B K s))"
    and "quiet s (ctucan_tx_interrupt B K s)"
    and "tx_m (priv (ctucan_tx_interrupt B K s)) < tx_m (priv s)"
    and "\<exists>l. klog (ctucan_tx_interrupt B K s) =
      Spin_unlock_irqrestore # Netif_wake_queue # Spin_lock_irqsave # l"
proof -
  obtain r s1 where o: "txi_outer B K True s = (r, s1)" by (cases "txi_outer B K True s")
  have out: "\<not> r" "tx_sync acc base n sg view s1" "echo_win n e (priv s1) (klog s1)" "quiet s s1"
    "tx_m (priv s1) < tx_m (priv s)"
    using outer_loop [OF o assms(1,2)] assms(3,4) by auto
  let ?s1 = "kdo Spin_lock_irqsave s1"
  obtain b s2 where b: "CTU_CAN_FD_TXTNF B ?s1 = (b, s2)" by (cases "CTU_CAN_FD_TXTNF B ?s1")
  have "tx_m (priv s1) < n" using out(5) tx_inv_m [OF assms(1)] by simp
  then have nf: "evolves n view ?s1 s2" "b"
    using txtnf_inv [where sg = sg, OF _ b] out(2) by (simp_all add: tx_sync_def)
  have s': "ctucan_tx_interrupt B K s = kdo Spin_unlock_irqrestore (kdo Netif_wake_queue s2)"
    using o out(1) b nf(2) by (simp add: ctucan_tx_interrupt_def Let_def)
  have fr: "priv s2 = priv s1" "klog s2 = Spin_lock_irqsave # klog s1" using TXTNF_frame [OF b] by simp_all
  show "tx_sync acc base n sg view (ctucan_tx_interrupt B K s)"
    using evolves_sync [OF nf(1)] out(2) s' by simp
  show "echo_win n e (priv (ctucan_tx_interrupt B K s)) (klog (ctucan_tx_interrupt B K s))"
    using out(3) fr s' by simp
  show "tx_m (priv (ctucan_tx_interrupt B K s)) < tx_m (priv s)" using out(5) fr s' by simp
  show "\<exists>l. klog (ctucan_tx_interrupt B K s) =
      Spin_unlock_irqrestore # Netif_wake_queue # Spin_lock_irqsave # l" using fr s' by simp
  have "quiet s (kdo Spin_lock_irqsave s1)" by (rule quiet_kdo [OF _ out(4)]) (simp add: is_err_def)
  then have "quiet s s2" using quiet_cong [of s s s2 ?s1] fr by simp
  then show "quiet s (ctucan_tx_interrupt B K s)"
    unfolding s' by (intro quiet_kdo) (simp_all add: is_err_def)
qed

end

end
