(* ===== verification/Ctu_Core.thy ===== *)
theory Ctu_Core
  imports Ctu_TxSys
begin

text \<open>
  The transmit side of the controller itself, from the VHDL under \<open>src/\<close>: the state machine of a
  TXT buffer (\<open>txt_buffer_fsm.vhd\<close>), the priority decoder of the TX arbitrator
  (\<open>priority_decoder.vhd\<close>), the interrupt status, mask and enable registers (\<open>int_module.vhd\<close>) and the
  registers \<open>TX_STATUS\<close>, \<open>TX_COMMAND\<close>, \<open>TX_PRIORITY\<close>, \<open>STATUS\<close>, \<open>INT_STAT\<close>, \<open>INT_MASK\<close> and \<open>INT_ENA\<close>
  (\<open>memory_registers.vhd\<close>).
  These make a device (\<open>core_bus\<close>) that is proved to satisfy the contract \<open>txt_core\<close>.

  What the CAN core does to the buffers is an input: any number of clock cycles with any
  action of the protocol controller may pass before every bus access, and the access itself
  coincides with one more action. The bits \<open>BMM\<close> (set by the driver for listen-only mode) and \<open>ROM\<close> of
  \<open>MODE\<close> are part of the configuration, which stays as it is while the controller is enabled. Test modes, the
  TXT buffer backup mode and parity checking are off, as after the reset of the controller. A write of \<open>TX_COMMAND\<close> acts in its own cycle: the
  register stage in front of the command inputs of the state machine only delays it by one cycle.
\<close>

section \<open>TXT buffer state machine\<close>

record t_txtb_hw_cmd =
  cmd_lock :: bool
  cmd_valid :: bool
  cmd_err :: bool
  cmd_arbl :: bool
  cmd_failed :: bool

record txtb_in =
  mr_mode_bmm :: bool
  mr_mode_rom :: bool
  mr_settings_tbfbo :: bool
  mr_tx_command_txce :: bool
  mr_tx_command_txcr :: bool
  mr_tx_command_txca :: bool
  mr_tx_command_txbi :: bool
  txtb_is_bb :: bool
  txtb_hw_cmd :: t_txtb_hw_cmd
  txtb_hw_cmd_cs :: bool
  is_bus_off :: bool
  txtb_parity_error_valid :: bool

definition tx_command_txce_valid :: "txtb_in \<Rightarrow> bool" where
  "tx_command_txce_valid i \<longleftrightarrow> mr_tx_command_txce i \<and> mr_tx_command_txbi i"

definition tx_command_txcr_valid :: "txtb_in \<Rightarrow> bool" where
  "tx_command_txcr_valid i \<longleftrightarrow> mr_tx_command_txcr i \<and> mr_tx_command_txbi i"

definition abort_applied :: "txtb_in \<Rightarrow> bool" where
  "abort_applied i \<longleftrightarrow> mr_tx_command_txca i \<and> mr_tx_command_txbi i"

definition buffer_skipped :: "txtb_in \<Rightarrow> bool" where
  "buffer_skipped i \<longleftrightarrow> (cmd_failed (txtb_hw_cmd i) \<or> cmd_valid (txtb_hw_cmd i)) \<and> txtb_is_bb i"

definition go_to_failed :: "txtb_in \<Rightarrow> bool" where
  "go_to_failed i \<longleftrightarrow>
     is_bus_off i \<and> mr_settings_tbfbo i \<or> mr_mode_bmm i \<or> mr_mode_rom i"

definition no_hw_cmd :: t_txtb_hw_cmd where
  "no_hw_cmd = \<lparr>cmd_lock = False, cmd_valid = False, cmd_err = False, cmd_arbl = False,
     cmd_failed = False\<rparr>"

definition txtb_hw_cmd_i :: "txtb_in \<Rightarrow> t_txtb_hw_cmd" where
  "txtb_hw_cmd_i i = (if txtb_hw_cmd_cs i then txtb_hw_cmd i else no_hw_cmd)"

definition arbl_or_err :: "txtb_in \<Rightarrow> bool" where
  "arbl_or_err i \<longleftrightarrow> cmd_err (txtb_hw_cmd_i i) \<or> cmd_arbl (txtb_hw_cmd_i i)"

text \<open>The states that software may leave by a \<open>Set ready\<close> or \<open>Set empty\<close> command.\<close>

definition next_done :: "txtb_in \<Rightarrow> t_txt_buf_state \<Rightarrow> t_txt_buf_state" where
  "next_done i curr_state =
     (if tx_command_txcr_valid i then s_txt_ready
      else if tx_command_txce_valid i then s_txt_empty
      else curr_state)"

primrec next_state :: "txtb_in \<Rightarrow> t_txt_buf_state \<Rightarrow> t_txt_buf_state" where
  "next_state i s_txt_empty = (if tx_command_txcr_valid i then s_txt_ready else s_txt_empty)"
| "next_state i s_txt_ready =
     (if go_to_failed i then s_txt_failed
      else if txtb_parity_error_valid i then s_txt_parity_err
      else if cmd_lock (txtb_hw_cmd_i i) then
        (if abort_applied i then s_txt_ab_prog else s_txt_tx_prog)
      else if abort_applied i \<or> buffer_skipped i then s_txt_aborted
      else s_txt_ready)"
| "next_state i s_txt_tx_prog =
     (if go_to_failed i then s_txt_failed
      else if txtb_parity_error_valid i then s_txt_parity_err
      else if cmd_failed (txtb_hw_cmd_i i) then s_txt_failed
      else if cmd_valid (txtb_hw_cmd_i i) then s_txt_ok
      else if arbl_or_err i then (if abort_applied i then s_txt_aborted else s_txt_ready)
      else if abort_applied i then s_txt_ab_prog
      else s_txt_tx_prog)"
| "next_state i s_txt_ab_prog =
     (if go_to_failed i then s_txt_failed
      else if txtb_parity_error_valid i then s_txt_parity_err
      else if cmd_failed (txtb_hw_cmd_i i) then s_txt_failed
      else if cmd_valid (txtb_hw_cmd_i i) then s_txt_ok
      else if arbl_or_err i then s_txt_aborted
      else s_txt_ab_prog)"
| "next_state i s_txt_failed = next_done i s_txt_failed"
| "next_state i s_txt_aborted = next_done i s_txt_aborted"
| "next_state i s_txt_ok = next_done i s_txt_ok"
| "next_state i s_txt_parity_err = next_done i s_txt_parity_err"

definition txtb_user_accessible :: "t_txt_buf_state \<Rightarrow> bool" where
  "txtb_user_accessible curr_state \<longleftrightarrow>
     \<not> (curr_state = s_txt_ready \<or> curr_state = s_txt_tx_prog \<or> curr_state = s_txt_ab_prog)"

definition txtb_hw_cmd_int :: "txtb_in \<Rightarrow> t_txt_buf_state \<Rightarrow> bool" where
  "txtb_hw_cmd_int i curr_state \<longleftrightarrow>
     cmd_failed (txtb_hw_cmd_i i) \<or> cmd_valid (txtb_hw_cmd_i i) \<or>
     (cmd_arbl (txtb_hw_cmd_i i) \<or> cmd_err (txtb_hw_cmd_i i)) \<and> curr_state = s_txt_ab_prog \<or>
     is_bus_off i \<and> next_state i curr_state = s_txt_failed \<and> transient_state curr_state"

definition txtb_available :: "txtb_in \<Rightarrow> t_txt_buf_state \<Rightarrow> bool" where
  "txtb_available i curr_state \<longleftrightarrow> curr_state = s_txt_ready \<and> \<not> abort_applied i"

lemmas fsm_defs = tx_command_txce_valid_def tx_command_txcr_valid_def abort_applied_def
  buffer_skipped_def go_to_failed_def txtb_hw_cmd_i_def arbl_or_err_def next_done_def

section \<open>Priority decoder\<close>

text \<open>One comparator: validity and priority of the winner, and whether it is the upper one.\<close>

fun prio_dec :: "bool \<times> nat \<Rightarrow> bool \<times> nat \<Rightarrow> (bool \<times> nat) \<times> bool" where
  "prio_dec (v0, p0) (v1, p1) =
     (if v0 \<and> \<not> v1 then ((True, p0), False)
      else if \<not> v0 \<and> v1 then ((True, p1), True)
      else if v0 \<and> v1 then
        (if p1 > p0 then ((True, p1), True) else ((True, p0), False))
      else ((False, p1), True))"

definition l0_input :: "nat \<Rightarrow> (nat \<Rightarrow> nat) \<Rightarrow> (nat \<Rightarrow> bool) \<Rightarrow> nat \<Rightarrow> bool \<times> nat" where
  "l0_input n prio prio_valid i = (if i < n then (prio_valid i, prio i) else (False, 0))"

definition l1_prio_dec ::
  "nat \<Rightarrow> (nat \<Rightarrow> nat) \<Rightarrow> (nat \<Rightarrow> bool) \<Rightarrow> nat \<Rightarrow> (bool \<times> nat) \<times> bool" where
  "l1_prio_dec n prio prio_valid i =
     prio_dec (l0_input n prio prio_valid (2 * i)) (l0_input n prio prio_valid (2 * i + 1))"

definition l2_prio_dec ::
  "nat \<Rightarrow> (nat \<Rightarrow> nat) \<Rightarrow> (nat \<Rightarrow> bool) \<Rightarrow> nat \<Rightarrow> (bool \<times> nat) \<times> bool" where
  "l2_prio_dec n prio prio_valid i =
     prio_dec (fst (l1_prio_dec n prio prio_valid (2 * i)))
       (fst (l1_prio_dec n prio prio_valid (2 * i + 1)))"

definition l3_winner :: "bool \<times> nat \<Rightarrow> bool \<times> nat \<Rightarrow> bool" where
  "l3_winner r0 r1 =
     (if fst r0 \<and> \<not> fst r1 then False
      else if \<not> fst r0 \<and> fst r1 then True
      else fst r0 \<and> fst r1 \<and> snd r1 > snd r0)"

definition priority_decoder :: "nat \<Rightarrow> (nat \<Rightarrow> nat) \<Rightarrow> (nat \<Rightarrow> bool) \<Rightarrow> bool \<times> nat" where
  "priority_decoder n prio prio_valid =
     (let l1 = l1_prio_dec n prio prio_valid;
          l2 = l2_prio_dec n prio prio_valid;
          l3_valid = (fst (fst (l2 0)) \<or> fst (fst (l2 1)));
          output_index =
            (if \<not> l3_winner (fst (l2 0)) (fst (l2 1)) then
               (if \<not> snd (l2 0) then (if \<not> snd (l1 0) then 0 else 1)
                else (if \<not> snd (l1 1) then 2 mod n else 3 mod n))
             else
               (if \<not> snd (l2 1) then (if \<not> snd (l1 2) then 4 mod n else 5 mod n)
                else (if \<not> snd (l1 3) then 6 mod n else 7 mod n)))
      in (l3_valid, output_index))"

text \<open>A node of the tree over the inputs \<open>S\<close> whose winner is input \<open>i\<close>.\<close>

definition node :: "(nat \<Rightarrow> nat) \<Rightarrow> (nat \<Rightarrow> bool) \<Rightarrow> nat set \<Rightarrow> bool \<times> nat \<Rightarrow> nat \<Rightarrow> bool" where
  "node p V S r i \<longleftrightarrow> fst r = (\<exists>k\<in>S. V k) \<and>
     (fst r \<longrightarrow> i \<in> S \<and> V i \<and> snd r = p i \<and> (\<forall>j\<in>S. j \<noteq> i \<longrightarrow> V j \<longrightarrow> loses p j i))"

lemma node_prio_dec:
  assumes "node p V S r i" "node p V T q j" "\<forall>x\<in>S. \<forall>y\<in>T. x < y"
  shows "node p V (S \<union> T) (fst (prio_dec r q)) (if snd (prio_dec r q) then j else i)"
proof -
  obtain v0 p0 v1 p1 where rq: "r = (v0, p0)" "q = (v1, p1)" by (cases r; cases q)
  have S: "v0 = (\<exists>k\<in>S. V k)" "v0 \<Longrightarrow> i \<in> S \<and> V i \<and> p0 = p i"
    "v0 \<Longrightarrow> x \<in> S \<Longrightarrow> x \<noteq> i \<Longrightarrow> V x \<Longrightarrow> loses p x i" for x
    using assms(1) by (auto simp: node_def rq)
  have T: "v1 = (\<exists>k\<in>T. V k)" "v1 \<Longrightarrow> j \<in> T \<and> V j \<and> p1 = p j"
    "v1 \<Longrightarrow> x \<in> T \<Longrightarrow> x \<noteq> j \<Longrightarrow> V x \<Longrightarrow> loses p x j" for x
    using assms(2) by (auto simp: node_def rq)
  show ?thesis
  proof (cases "v0 \<and> v1")
    case True
    have le: "x \<in> S \<Longrightarrow> V x \<Longrightarrow> p x \<le> p i" "x \<in> T \<Longrightarrow> V x \<Longrightarrow> p x \<le> p j" for x
      using S(3) [of x] T(3) [of x] True by (cases "x = i"; cases "x = j"; auto simp: loses_def)+
    have up: "loses p x j" if "p j > p i" "x \<in> S" "V x" for x
      using le(1) [OF that(2,3)] that(1) by (simp add: loses_def)
    have lo: "loses p x i" if "\<not> p j > p i" "x \<in> T" "V x" for x
      using le(2) [OF that(2,3)] that(1) assms(3) that(2) S(2) True by (auto simp: loses_def)
    show ?thesis using True S T up lo by (auto simp: node_def rq)
  next
    case False
    then consider "v0" "\<not> v1" | "\<not> v0" "v1" | "\<not> v0" "\<not> v1" by blast
    then show ?thesis
    proof cases
      case 1
      then have "\<forall>x\<in>T. \<not> V x" using T(1) by simp
      then show ?thesis using 1 S(2,3) by (auto simp: node_def rq)
    next
      case 2
      then have "\<forall>x\<in>S. \<not> V x" using S(1) by simp
      then show ?thesis using 2 T(2,3) by (auto simp: node_def rq)
    next
      case 3
      then have "\<forall>x\<in>S \<union> T. \<not> V x" using S(1) T(1) by auto
      then show ?thesis using 3 by (auto simp: node_def rq)
    qed
  qed
qed

lemma node_ivl:
  assumes "node p V {a..<b} r i" "node p V {b..<c} q j" "a \<le> b" "b \<le> c"
  shows "node p V {a..<c} (fst (prio_dec r q)) (if snd (prio_dec r q) then j else i)"
  using node_prio_dec [OF assms(1,2)] ivl_disj_un_two(3) [OF assms(3,4)] by simp

text \<open>
  The tree selects the valid buffer of the highest priority, the one of the lower index when
  priorities are equal.
\<close>

lemma priority_decoder_correct:
  assumes "2 \<le> n" "n \<le> 8" "priority_decoder n p V = (v, i)"
  shows "v = (\<exists>k<n. V k)"
    and "v \<Longrightarrow> i < n \<and> V i \<and> (\<forall>j<n. j \<noteq> i \<longrightarrow> V j \<longrightarrow> loses p j i)"
proof -
  define W where "W = (\<lambda>k. k < n \<and> V k)"
  define P where "P = (\<lambda>k. if k < n then p k else 0)"
  let ?l0 = "l0_input n p V" and ?l1 = "l1_prio_dec n p V" and ?l2 = "l2_prio_dec n p V"
  define l3 where "l3 = prio_dec (fst (?l2 0)) (fst (?l2 1))"
  define i1 where "i1 = (\<lambda>k. if snd (?l1 k) then 2 * k + 1 else 2 * k)"
  define i2 where "i2 = (\<lambda>k. if snd (?l2 k) then i1 (2 * k + 1) else i1 (2 * k))"
  define i3 where "i3 = (if snd l3 then i2 1 else i2 0)"
  have n0: "node P W {k..<Suc k} (?l0 k) k" for k
    by (auto simp: node_def l0_input_def W_def P_def)
  have n1: "node P W {2 * k..<2 * k + 2} (fst (?l1 k)) (i1 k)" for k
    using node_ivl [OF n0 [of "2 * k"] n0 [of "Suc (2 * k)"]]
    by (auto simp: l1_prio_dec_def i1_def split: if_splits)
  have n2: "node P W {4 * k..<4 * k + 4} (fst (?l2 k)) (i2 k)" for k
  proof -
    have "node P W {4 * k..<4 * k + 2} (fst (?l1 (2 * k))) (i1 (2 * k))" using n1 [of "2 * k"] by simp
    moreover have "node P W {4 * k + 2..<4 * k + 4} (fst (?l1 (2 * k + 1))) (i1 (2 * k + 1))"
      using n1 [of "2 * k + 1"] by (simp add: algebra_simps eval_nat_numeral)
    ultimately show ?thesis unfolding l2_prio_dec_def i2_def by (rule node_ivl) simp_all
  qed
  have n3: "node P W {0..<8} (fst l3) i3"
  proof -
    have "node P W {0..<4} (fst (?l2 0)) (i2 0)" "node P W {4..<8} (fst (?l2 1)) (i2 1)"
      using n2 [of 0] n2 [of 1] by simp_all
    then show ?thesis unfolding l3_def i3_def by (rule node_ivl) simp_all
  qed
  have dec: "fst (prio_dec r q) = (fst r \<or> fst q, if l3_winner r q then snd q else snd r) \<and>
      snd (prio_dec r q) = l3_winner r q" if "fst r \<or> fst q" for r q
    using that by (cases r; cases q) (auto simp: l3_winner_def)
  have v: "v = (fst (fst (?l2 0)) \<or> fst (fst (?l2 1)))"
    using assms(3) by (auto simp: priority_decoder_def Let_def)
  have "fst (fst l3) = v"
    unfolding v l3_def by (cases "fst (?l2 0)"; cases "fst (?l2 1)") auto
  moreover have "v \<Longrightarrow> i = i3 mod n"
    using dec [of "fst (?l2 0)" "fst (?l2 1)"] v assms(1,3)
    by (auto simp: priority_decoder_def Let_def i3_def i2_def i1_def l3_def)
  moreover have "(\<exists>k\<in>{0..<8}. W k) = (\<exists>k<n. V k)"
    using assms(2) by (auto simp: W_def intro: order_less_le_trans)
  moreover have "i3 < n \<and> V i3 \<and> (\<forall>j<n. j \<noteq> i3 \<longrightarrow> V j \<longrightarrow> loses p j i3)" if "fst (fst l3)"
  proof -
    have "W i3" "\<And>j. j < 8 \<Longrightarrow> j \<noteq> i3 \<Longrightarrow> W j \<Longrightarrow> loses P j i3"
      using n3 that by (auto simp: node_def)
    then show ?thesis using assms(2) by (auto simp: W_def P_def loses_def)
  qed
  ultimately show "v = (\<exists>k<n. V k)"
    and "v \<Longrightarrow> i < n \<and> V i \<and> (\<forall>j<n. j \<noteq> i \<longrightarrow> V j \<longrightarrow> loses p j i)"
    using n3 by (auto simp: node_def)
qed

section \<open>The device\<close>

text \<open>What the CAN core does in one clock cycle, and the other interrupt sources it raises.\<close>

datatype can_core_cmd =
    Core_idle
  | Core_lock
  | Core_valid
  | Core_err
  | Core_arbl
  | Core_failed
  | Core_bus_off

record core_act =
  core_cmd :: can_core_cmd
  other_ints :: u32

text \<open>
  One bus access of the environment: cycles before it, the action in the cycle of the access,
  and what registers outside this model read as.
\<close>

record core_access =
  cycles :: "core_act list"
  access_act :: core_act
  rdata :: u32

record core =
  txtb :: "nat \<Rightarrow> t_txt_buf_state"
  curr_txtb_index :: nat
  tx_priority :: u32
  int_status :: u32
  int_mask :: u32
  int_ena :: u32
  txt_ram :: "nat \<Rightarrow> nat \<Rightarrow> u32"
  env :: "core_access list"

text \<open>Configuration that stays as it is while the controller is enabled.\<close>

record core_cfg =
  txt_buffer_count :: nat
  settings_tbfbo :: bool
  mode_bmm :: bool
  mode_rom :: bool

text \<open>
  The command of the CAN core and the buffer it selects. The core locks the buffer that the
  arbitrator offers, and gives the other commands only to the buffer it has locked.
\<close>

definition hw_select :: "core_cfg \<Rightarrow> can_core_cmd \<Rightarrow> core \<Rightarrow> t_txtb_hw_cmd \<times> nat option" where
  "hw_select C a d =
     (let n = txt_buffer_count C;
          locked = (\<exists>k<n. in_progress (txtb d k));
          (offered, k) = priority_decoder n (prio_of (tx_priority d)) (\<lambda>k. txtb d k = s_txt_ready);
          curr = curr_txtb_index d;
          to_curr = (if curr < n \<and> in_progress (txtb d curr) then Some curr else None)
      in case a of
           Core_lock \<Rightarrow> (no_hw_cmd\<lparr>cmd_lock := True\<rparr>, if \<not> locked \<and> offered then Some k else None)
         | Core_valid \<Rightarrow> (no_hw_cmd\<lparr>cmd_valid := True\<rparr>, to_curr)
         | Core_err \<Rightarrow> (no_hw_cmd\<lparr>cmd_err := True\<rparr>, to_curr)
         | Core_arbl \<Rightarrow> (no_hw_cmd\<lparr>cmd_arbl := True\<rparr>, to_curr)
         | Core_failed \<Rightarrow> (no_hw_cmd\<lparr>cmd_failed := True\<rparr>, to_curr)
         | _ \<Rightarrow> (no_hw_cmd, None))"

definition buf_in :: "core_cfg \<Rightarrow> can_core_cmd \<Rightarrow> u32 \<Rightarrow> core \<Rightarrow> nat \<Rightarrow> txtb_in" where
  "buf_in C a w d k =
     \<lparr>mr_mode_bmm = mode_bmm C, mr_mode_rom = mode_rom C, mr_settings_tbfbo = settings_tbfbo C,
      mr_tx_command_txce = bit w 0, mr_tx_command_txcr = bit w 1, mr_tx_command_txca = bit w 2,
      mr_tx_command_txbi = bit w (8 + k), txtb_is_bb = False,
      txtb_hw_cmd = fst (hw_select C a d), txtb_hw_cmd_cs = (snd (hw_select C a d) = Some k),
      is_bus_off = (a = Core_bus_off), txtb_parity_error_valid = False\<rparr>"

text \<open>One clock cycle with the software command \<open>w\<close> and the interrupt flags \<open>clr\<close> to clear.\<close>

definition int_module :: "u32 \<Rightarrow> u32 \<Rightarrow> u32 \<Rightarrow> u32 \<Rightarrow> u32" where
  "int_module imask active clr status = (status AND NOT clr) OR (active AND NOT imask)"

definition core_cycle :: "core_cfg \<Rightarrow> u32 \<Rightarrow> u32 \<Rightarrow> core_act \<Rightarrow> core \<Rightarrow> core" where
  "core_cycle C w clr act d =
     (let n = txt_buffer_count C;
          i = buf_in C (core_cmd act) w d;
          hci = (\<exists>k<n. txtb_hw_cmd_int (i k) (txtb d k));
          active = (other_ints act AND NOT REG_INT_STAT_TXBHCI) OR
                   (if hci then REG_INT_STAT_TXBHCI else 0)
      in d\<lparr>txtb := (\<lambda>k. if k < n then next_state (i k) (txtb d k) else txtb d k),
           curr_txtb_index := (case (core_cmd act, snd (hw_select C (core_cmd act) d)) of
               (Core_lock, Some k) \<Rightarrow> k | _ \<Rightarrow> curr_txtb_index d),
           int_status := int_module (int_mask d) active clr (int_status d)\<rparr>)"

text \<open>Registers.\<close>

definition padded_state :: "nat \<Rightarrow> (nat \<Rightarrow> t_txt_buf_state) \<Rightarrow> nat \<Rightarrow> u32" where
  "padded_state n st k = (if k < n then txtb_state (st k) else 0)"

definition tx_status_reg :: "nat \<Rightarrow> (nat \<Rightarrow> t_txt_buf_state) \<Rightarrow> u32" where
  "tx_status_reg n st = foldr (\<lambda>k w. push_bit (4 * k) (padded_state n st k) OR w) [0..<8] 0"

definition status_txnf :: "nat \<Rightarrow> (nat \<Rightarrow> t_txt_buf_state) \<Rightarrow> bool" where
  "status_txnf n st \<longleftrightarrow> list_ex (\<lambda>k. txtb_state (st k) = TXT_ETY) [0..<n]"

definition status_reg :: "nat \<Rightarrow> (nat \<Rightarrow> t_txt_buf_state) \<Rightarrow> u32 \<Rightarrow> u32" where
  "status_reg n st rest =
     (rest AND NOT REG_STATUS_TXNF) OR (if status_txnf n st then REG_STATUS_TXNF else 0)"

definition idle_access :: core_access where
  "idle_access = \<lparr>cycles = [], access_act = \<lparr>core_cmd = Core_idle, other_ints = 0\<rparr>, rdata = 0\<rparr>"

definition next_access :: "core_cfg \<Rightarrow> core \<Rightarrow> core_access \<times> core" where
  "next_access C d =
     (let (x, e) = (case env d of [] \<Rightarrow> (idle_access, []) | x # e \<Rightarrow> (x, e))
      in (x, foldl (\<lambda>d a. core_cycle C 0 0 a d) (d\<lparr>env := e\<rparr>) (cycles x)))"

definition core_ld :: "core_cfg \<Rightarrow> io_access \<Rightarrow> iomem \<Rightarrow> core \<Rightarrow> iomem \<Rightarrow> u32 \<times> core" where
  "core_ld C acc base d addr =
     (let (x, d) = next_access C d;
          d = core_cycle C 0 0 (access_act x) d;
          n = txt_buffer_count C;
          off = addr - base;
          v = (if off = ucast CTUCANFD_TX_STATUS then tx_status_reg n (txtb d)
               else if off = ucast CTUCANFD_STATUS then status_reg n (txtb d) (rdata x)
               else if off = ucast CTUCANFD_INT_STAT then int_status d
               else rdata x)
      in (bus_order acc v, d))"

definition ram_write :: "core_cfg \<Rightarrow> iomem \<Rightarrow> u32 \<Rightarrow> core \<Rightarrow> core" where
  "ram_write C off w d =
     (let k = unat (off div 0x100) - 1; i = unat (off mod 0x100) div 4
      in if 0x100 \<le> off \<and> k < txt_buffer_count C \<and> txtb_user_accessible (txtb d k)
         then d\<lparr>txt_ram := (txt_ram d)(k := (txt_ram d k)(i := w))\<rparr>
         else d)"

definition core_st :: "core_cfg \<Rightarrow> io_access \<Rightarrow> iomem \<Rightarrow> core \<Rightarrow> iomem \<Rightarrow> u32 \<Rightarrow> core" where
  "core_st C acc base d addr v =
     (let (x, d) = next_access C d;
          w = bus_order acc v;
          off = addr - base
      in if off = ucast CTUCANFD_TX_COMMAND then core_cycle C w 0 (access_act x) d
         else if off = ucast CTUCANFD_INT_STAT then core_cycle C 0 w (access_act x) d
         else if off = ucast CTUCANFD_TX_PRIORITY
           then (core_cycle C 0 0 (access_act x) d)\<lparr>tx_priority := w\<rparr>
         else if off = ucast CTUCANFD_INT_MASK_SET
           then (core_cycle C 0 0 (access_act x) d)\<lparr>int_mask := int_mask d OR w\<rparr>
         else if off = ucast CTUCANFD_INT_MASK_CLR
           then (core_cycle C 0 0 (access_act x) d)\<lparr>int_mask := int_mask d AND NOT w\<rparr>
         else if off = ucast CTUCANFD_INT_ENA_SET
           then (core_cycle C 0 0 (access_act x) d)\<lparr>int_ena := int_ena d OR w\<rparr>
         else if off = ucast CTUCANFD_INT_ENA_CLR
           then (core_cycle C 0 0 (access_act x) d)\<lparr>int_ena := int_ena d AND NOT w\<rparr>
         else ram_write C off w (core_cycle C 0 0 (access_act x) d))"

definition core_bus :: "core_cfg \<Rightarrow> io_access \<Rightarrow> iomem \<Rightarrow> core bus" where
  "core_bus C acc base = \<lparr>ld32 = core_ld C acc base, st32 = core_st C acc base\<rparr>"

text \<open>In these modes every buffer that becomes ready fails, and no interrupt reports it.\<close>

definition core_silent :: "core_cfg \<Rightarrow> bool" where
  "core_silent C \<longleftrightarrow> mode_bmm C \<or> mode_rom C"

definition core_view :: "core_cfg \<Rightarrow> core \<Rightarrow> txview" where
  "core_view C d = \<lparr>sts = txtb d, prios = prio_of (tx_priority d),
     hci = (int_status d AND REG_INT_STAT_TXBHCI \<noteq> 0),
     signalled = (int_mask d AND REG_INT_STAT_TXBHCI = 0 \<and> \<not> core_silent C)\<rparr>"

section \<open>The device satisfies the contract\<close>

definition core_ok :: "core_cfg \<Rightarrow> bool" where
  "core_ok C \<longleftrightarrow> txt_buffer_count C dvd 8 \<and> 2 \<le> txt_buffer_count C"

lemma txbhci_bit: "(x AND REG_INT_STAT_TXBHCI \<noteq> 0) = bit x 11"
  using and_exp_eq_0_iff_not_bit [of x 11] by (simp add: REG_INT_STAT_TXBHCI_def BIT_def)

lemma txbhci_clear: "(x AND REG_INT_STAT_TXBHCI = 0) = (\<not> bit x 11)"
  using txbhci_bit [of x] by blast

lemma bit_txbhci: "bit REG_INT_STAT_TXBHCI j = (j = 11)"
  unfolding REG_INT_STAT_TXBHCI_def by (auto simp: bit_BIT)

lemma hci_cycle:
  "hci (core_view C (core_cycle C w clr act d)) \<longleftrightarrow>
     bit (int_status d) 11 \<and> \<not> bit clr 11 \<or> \<not> bit (int_mask d) 11 \<and>
     (\<exists>k<txt_buffer_count C. txtb_hw_cmd_int (buf_in C (core_cmd act) w d k) (txtb d k))"
  by (auto simp: core_view_def core_cycle_def Let_def int_module_def txbhci_bit bit_simps bit_txbhci)

lemma sts_cycle:
  "sts (core_view C (core_cycle C w clr act d)) =
     (\<lambda>k. if k < txt_buffer_count C then next_state (buf_in C (core_cmd act) w d k) (txtb d k)
          else txtb d k)"
  "prios (core_view C (core_cycle C w clr act d)) = prios (core_view C d)"
  "signalled (core_view C (core_cycle C w clr act d)) = signalled (core_view C d)"
  by (simp_all add: core_view_def core_cycle_def Let_def)

lemma view_at:
  "sts (core_view C d) = txtb d" "hci (core_view C d) = bit (int_status d) 11"
  "prios (core_view C d) = prio_of (tx_priority d)"
  "signalled (core_view C d) = (\<not> bit (int_mask d) 11 \<and> \<not> core_silent C)"
  by (simp_all add: core_view_def txbhci_bit txbhci_clear)

lemma txview_eqI:
  "sts v = sts v' \<Longrightarrow> prios v = prios v' \<Longrightarrow> hci v = hci v' \<Longrightarrow> signalled v = signalled v' \<Longrightarrow> v = (v' :: txview)"
  by simp

lemma next_idle:
  "\<not> core_silent C \<Longrightarrow> snd (hw_select C a d) \<noteq> Some k \<Longrightarrow> a \<noteq> Core_bus_off \<Longrightarrow>
   next_state (buf_in C a 0 d k) b = b \<and> \<not> txtb_hw_cmd_int (buf_in C a 0 d k) b"
  by (cases b) (simp_all add: buf_in_def fsm_defs txtb_hw_cmd_int_def no_hw_cmd_def transient_state_def core_silent_def)

lemma next_bus_off:
  assumes "\<not> core_silent C"
  shows "next_state (buf_in C Core_bus_off 0 d k) b =
     (if settings_tbfbo C \<and> transient_state b then s_txt_failed else b)"
    "txtb_hw_cmd_int (buf_in C Core_bus_off 0 d k) b \<longleftrightarrow> settings_tbfbo C \<and> transient_state b"
  using assms
  by (cases b; simp add: buf_in_def fsm_defs txtb_hw_cmd_int_def no_hw_cmd_def hw_select_def
      transient_state_def Let_def split_def core_silent_def)+

lemma next_silent:
  assumes "core_silent C"
  shows "next_state (buf_in C a 0 d k) b = (if transient_state b then s_txt_failed else b)"
  using assms by (cases b) (auto simp: buf_in_def fsm_defs transient_state_def core_silent_def)

lemma cycle_one:
  assumes "\<not> core_silent C" "core_cmd act \<noteq> Core_bus_off" "snd (hw_select C (core_cmd act) d) = Some k"
    "k < txt_buffer_count C"
  defines "h \<equiv> \<not> bit (int_mask d) 11 \<and> txtb_hw_cmd_int (buf_in C (core_cmd act) 0 d k) (txtb d k)"
  shows "core_view C (core_cycle C 0 0 act d) = (core_view C d)\<lparr>
    sts := (sts (core_view C d))(k := next_state (buf_in C (core_cmd act) 0 d k) (txtb d k)),
    hci := hci (core_view C d) \<or> h\<rparr>"
proof (rule txview_eqI)
  have other: "next_state (buf_in C (core_cmd act) 0 d j) b = b \<and>
      \<not> txtb_hw_cmd_int (buf_in C (core_cmd act) 0 d j) b" if "j \<noteq> k" for j b
    using next_idle [of C "core_cmd act" d j b] assms(1-3) that by simp
  have ex: "(\<exists>j<txt_buffer_count C. txtb_hw_cmd_int (buf_in C (core_cmd act) 0 d j) (txtb d j)) =
      txtb_hw_cmd_int (buf_in C (core_cmd act) 0 d k) (txtb d k)"
    using assms(4) other by metis
  show "hci (core_view C (core_cycle C 0 0 act d)) = hci ((core_view C d)\<lparr>
    sts := (sts (core_view C d))(k := next_state (buf_in C (core_cmd act) 0 d k) (txtb d k)),
    hci := hci (core_view C d) \<or> h\<rparr>)"
    using ex by (simp add: hci_cycle view_at [of C d] h_def)
  show "sts (core_view C (core_cycle C 0 0 act d)) = sts ((core_view C d)\<lparr>
    sts := (sts (core_view C d))(k := next_state (buf_in C (core_cmd act) 0 d k) (txtb d k)),
    hci := hci (core_view C d) \<or> h\<rparr>)"
    using assms(4) other by (intro ext) (simp add: sts_cycle view_at [of C d])
qed (simp_all add: sts_cycle)

lemma cycle_none:
  assumes "\<not> core_silent C" "core_cmd act \<noteq> Core_bus_off" "snd (hw_select C (core_cmd act) d) = None"
  shows "core_view C (core_cycle C 0 0 act d) = core_view C d"
  using next_idle [OF assms(1) _ assms(2)] assms(3)
  by (intro txview_eqI) (auto simp: hci_cycle sts_cycle view_at [of C d])

lemma select_lock:
  assumes "core_ok C" "snd (hw_select C Core_lock d) = Some k"
  shows "k < txt_buffer_count C" "txtb d k = s_txt_ready"
    "\<forall>j<txt_buffer_count C. \<not> in_progress (txtb d j)"
    "\<forall>j<txt_buffer_count C. j \<noteq> k \<longrightarrow> txtb d j = s_txt_ready \<longrightarrow> loses (prio_of (tx_priority d)) j k"
proof -
  let ?n = "txt_buffer_count C"
  obtain v i where dec: "priority_decoder ?n (prio_of (tx_priority d)) (\<lambda>k. txtb d k = s_txt_ready) = (v, i)"
    by (cases "priority_decoder ?n (prio_of (tx_priority d)) (\<lambda>k. txtb d k = s_txt_ready)")
  have n: "2 \<le> ?n" "?n \<le> 8" using assms(1) dvd_8_bounds(2) by (auto simp: core_ok_def)
  have "v" "i = k" and free: "\<forall>j<?n. \<not> in_progress (txtb d j)"
    using assms(2) dec by (auto simp: hw_select_def split: if_splits)
  then show "k < ?n" "txtb d k = s_txt_ready" "\<forall>j<?n. \<not> in_progress (txtb d j)"
    "\<forall>j<?n. j \<noteq> k \<longrightarrow> txtb d j = s_txt_ready \<longrightarrow> loses (prio_of (tx_priority d)) j k"
    using priority_decoder_correct [OF n dec] by auto
qed

lemma select_curr:
  assumes "snd (hw_select C a d) = Some k" "a \<noteq> Core_lock"
  shows "k < txt_buffer_count C" "in_progress (txtb d k)" "a \<in> {Core_valid, Core_err, Core_arbl, Core_failed}"
  using assms by (auto simp: hw_select_def Let_def split_def split: can_core_cmd.splits if_splits)

lemma select_cmd:
  "fst (hw_select C a d) = no_hw_cmd\<lparr>cmd_lock := (a = Core_lock), cmd_valid := (a = Core_valid),
     cmd_err := (a = Core_err), cmd_arbl := (a = Core_arbl), cmd_failed := (a = Core_failed)\<rparr>"
  by (cases a) (simp_all add: hw_select_def Let_def split_def no_hw_cmd_def)

lemma view_upd_hci: "(core_view C d)\<lparr>sts := x, hci := bit (int_status d) 11\<rparr> = (core_view C d)\<lparr>sts := x\<rparr>"
  by (rule txview_eqI) (simp_all add: view_at)

lemma select_transient:
  assumes "core_ok C" "snd (hw_select C a d) = Some k"
  shows "k < txt_buffer_count C" "transient_state (txtb d k)"
  using select_lock(1,2) [OF assms(1), of d k] select_curr(1,2) [OF assms(2)] assms(2)
  by (cases "a = Core_lock"; auto simp: transient_state_def in_progress_def)+

lemma cmd_int_transient:
  assumes "core_ok C" "k < txt_buffer_count C" "txtb_hw_cmd_int (buf_in C a 0 d k) (txtb d k)"
  shows "transient_state (txtb d k)"
proof (cases "snd (hw_select C a d) = Some k")
  case True
  then show ?thesis using select_transient(2) [OF assms(1)] by simp
next
  case False
  then show ?thesis
    using assms(3) by (simp add: txtb_hw_cmd_int_def buf_in_def txtb_hw_cmd_i_def no_hw_cmd_def)
qed

text \<open>All buffers that wait or are in transmission fail together.\<close>

lemma cycle_fail_all:
  assumes "core_ok C" "\<And>k. next_state (buf_in C (core_cmd act) 0 d k) (txtb d k) =
      (if transient_state (txtb d k) then s_txt_failed else txtb d k)"
    "\<And>k. \<not> core_silent C \<Longrightarrow> transient_state (txtb d k) \<Longrightarrow> txtb_hw_cmd_int (buf_in C (core_cmd act) 0 d k) (txtb d k)"
  shows "hwsteps (txt_buffer_count C) (core_view C d) (core_view C (core_cycle C 0 0 act d))"
proof -
  let ?n = "txt_buffer_count C" and ?v = "core_view C d"
  define h where "h \<longleftrightarrow> \<not> bit (int_mask d) 11 \<and>
    (\<exists>k<?n. txtb_hw_cmd_int (buf_in C (core_cmd act) 0 d k) (txtb d k))"
  have v: "core_view C (core_cycle C 0 0 act d) = ?v\<lparr>sts := (\<lambda>j. if j < ?n \<and> transient_state (sts ?v j) then s_txt_failed
      else sts ?v j), hci := hci ?v \<or> h\<rparr>"
    by (intro txview_eqI ext) (simp_all add: hci_cycle sts_cycle view_at [of C d] assms(2) h_def)
  show ?thesis
  proof (cases "\<exists>k<?n. transient_state (txtb d k)")
    case True
    then obtain k where k: "k < ?n" "transient_state (txtb d k)" by blast
    have "signalled ?v \<longrightarrow> h" using assms(3) [OF _ k(2)] k(1) by (auto simp: view_at h_def)
    then show ?thesis unfolding v using hw_fail_all [of k ?n ?v h] k by (simp add: view_at [of C d])
  next
    case False
    then have "\<not> h" using cmd_int_transient [OF assms(1), of _ "core_cmd act" d] by (auto simp: h_def)
    then have "core_view C (core_cycle C 0 0 act d) = ?v"
      unfolding v using False by (intro txview_eqI ext) (auto simp: view_at(1) [of C d])
    then show ?thesis by simp
  qed
qed

lemma cycle_selected:
  assumes "core_ok C" "\<not> core_silent C" "core_cmd act \<noteq> Core_bus_off" "snd (hw_select C (core_cmd act) d) = Some k"
  shows "hwstep (txt_buffer_count C) (core_view C d) (core_view C (core_cycle C 0 0 act d))"
proof (cases "core_cmd act = Core_lock")
  case True
  note sel = select_lock [OF assms(1) assms(4) [unfolded True]]
  have "next_state (buf_in C (core_cmd act) 0 d k) (txtb d k) = s_txt_tx_prog"
    "\<not> txtb_hw_cmd_int (buf_in C (core_cmd act) 0 d k) (txtb d k)"
    using assms(2,4) True sel(2)
    by (simp_all add: buf_in_def fsm_defs select_cmd no_hw_cmd_def txtb_hw_cmd_int_def core_silent_def)
  then show ?thesis
    unfolding cycle_one [OF assms(2-4) sel(1)]
    using hw_lock [of k "txt_buffer_count C" "core_view C d"] sel by (simp add: view_at [of C d] view_upd_hci)
next
  case False
  let ?b = "next_state (buf_in C (core_cmd act) 0 d k) (txtb d k)"
  let ?i = "txtb_hw_cmd_int (buf_in C (core_cmd act) 0 d k) (txtb d k)" and ?v = "core_view C d"
  note sel = select_curr [OF assms(4) False]
  have "txtb d k = s_txt_tx_prog \<or> txtb d k = s_txt_ab_prog" using sel(2) by (simp add: in_progress_def)
  then consider "finished ?b" ?i | "txtb d k = s_txt_tx_prog" "?b = s_txt_ready" "\<not> ?i"
    using sel(3) assms(2,4)
    by (auto simp: buf_in_def fsm_defs select_cmd no_hw_cmd_def txtb_hw_cmd_int_def finished_def core_silent_def)
  then show ?thesis
  proof cases
    case 1
    then show ?thesis
      unfolding cycle_one [OF assms(2-4) sel(1)]
      using hw_finish [of k "txt_buffer_count C" ?v ?b "\<not> bit (int_mask d) 11"] sel(1,2) by (simp add: view_at [of C d])
  next
    case 2
    then show ?thesis
      unfolding cycle_one [OF assms(2-4) sel(1)]
      using hw_unlock [of k "txt_buffer_count C" ?v] sel(1) by (simp add: view_at [of C d] view_upd_hci)
  qed
qed

lemma cycle_hwsteps:
  assumes "core_ok C"
  shows "hwsteps (txt_buffer_count C) (core_view C d) (core_view C (core_cycle C 0 0 act d))"
proof -
  consider "core_silent C" | "\<not> core_silent C" "core_cmd act = Core_bus_off" "settings_tbfbo C"
    | "\<not> core_silent C" "core_cmd act = Core_bus_off" "\<not> settings_tbfbo C"
    | "\<not> core_silent C" "core_cmd act \<noteq> Core_bus_off" by blast
  then show ?thesis
  proof cases
    case 1
    then show ?thesis by (intro cycle_fail_all [OF assms]) (simp_all add: next_silent)
  next
    case 2
    then show ?thesis by (intro cycle_fail_all [OF assms]) (simp_all add: next_bus_off)
  next
    case 3
    then have "core_view C (core_cycle C 0 0 act d) = core_view C d"
      by (intro txview_eqI) (auto simp: hci_cycle sts_cycle view_at [of C d] next_bus_off)
    then show ?thesis by simp
  next
    case 4
    then show ?thesis
      using cycle_none [OF 4] cycle_selected [OF assms 4] by (cases "snd (hw_select C (core_cmd act) d)") auto
  qed
qed

text \<open>A software command in the same cycle only moves the buffers it selects.\<close>

lemma next_state_sw:
  assumes "bit w (8 + k) \<Longrightarrow> \<not> transient_state b" "in_progress b \<or> b = s_txt_ready \<or>
    snd (hw_select C a d) \<noteq> Some k"
  shows "next_state (buf_in C a w d k) b =
      (if bit w (8 + k) then sw_cmd w (next_state (buf_in C a 0 d k) b)
       else next_state (buf_in C a 0 d k) b)"
    and "txtb_hw_cmd_int (buf_in C a w d k) b = txtb_hw_cmd_int (buf_in C a 0 d k) b"
  using assms
  by (cases b; auto simp: buf_in_def fsm_defs transient_state_def in_progress_def sw_cmd_def
      finished_def txtb_hw_cmd_int_def no_hw_cmd_def)+

lemma cycle_command:
  assumes "core_ok C"
    "\<forall>k<txt_buffer_count C. bit w (8 + k) \<longrightarrow> \<not> transient_state (txtb d k)"
  shows "core_view C (core_cycle C w 0 act d) =
    sw_tx_command (txt_buffer_count C) w (core_view C (core_cycle C 0 0 act d))"
proof -
  have sel: "in_progress (txtb d k) \<or> txtb d k = s_txt_ready \<or>
      snd (hw_select C (core_cmd act) d) \<noteq> Some k" for k
    using select_transient(2) [OF assms(1)] by (auto simp: transient_state_def in_progress_def)
  have ns: "next_state (buf_in C (core_cmd act) w d k) (txtb d k) =
        (if bit w (8 + k) then sw_cmd w (next_state (buf_in C (core_cmd act) 0 d k) (txtb d k))
         else next_state (buf_in C (core_cmd act) 0 d k) (txtb d k))"
      "txtb_hw_cmd_int (buf_in C (core_cmd act) w d k) (txtb d k) =
        txtb_hw_cmd_int (buf_in C (core_cmd act) 0 d k) (txtb d k)"
    if "k < txt_buffer_count C" for k
    using next_state_sw [OF _ sel [of k]] assms(2) that by blast+
  show ?thesis
    by (intro txview_eqI)
      (simp_all add: sw_tx_command_def hci_cycle sts_cycle ns fun_eq_iff
        cong: conj_cong)
qed

lemma cycle_clear:
  assumes "core_ok C"
  defines "d' \<equiv> \<lambda>d clr. d\<lparr>int_status := int_status d AND NOT clr\<rparr>"
  shows "core_view C (core_cycle C 0 clr act d) = core_view C (core_cycle C 0 0 act (d' d clr))"
    and "core_view C (d' d clr) = sw_int_clear clr (core_view C d)"
proof -
  have "buf_in C a 0 (d' d clr) k = buf_in C a 0 d k" for a k
    by (simp add: buf_in_def hw_select_def d'_def)
  then show "core_view C (core_cycle C 0 clr act d) = core_view C (core_cycle C 0 0 act (d' d clr))"
    by (intro txview_eqI)
      (auto simp: hci_cycle sts_cycle d'_def bit_simps view_at(3,4) [of C d]
        view_at(3,4) [of C "d\<lparr>int_status := int_status d AND NOT clr\<rparr>"])
  show "core_view C (d' d clr) = sw_int_clear clr (core_view C d)"
    by (rule txview_eqI) (auto simp: sw_int_clear_def txbhci_bit d'_def view_at bit_simps)
qed

lemma foldl_cycles:
  "core_ok C \<Longrightarrow> hwsteps (txt_buffer_count C) (core_view C d)
     (core_view C (foldl (\<lambda>d a. core_cycle C 0 0 a d) d as))"
  by (induction as arbitrary: d) (auto intro: rtranclp_trans cycle_hwsteps)

lemma next_access_hwsteps:
  "core_ok C \<Longrightarrow> next_access C d = (x, d') \<Longrightarrow>
   hwsteps (txt_buffer_count C) (core_view C d) (core_view C d')"
  using foldl_cycles [of C "d\<lparr>env := e\<rparr>" for e]
  by (auto simp: next_access_def core_view_def split: list.splits)

lemma hwsteps_nontransient:
  "hwsteps n v w \<Longrightarrow> \<not> transient_state (sts v k) \<Longrightarrow> sts w k = sts v k"
proof (induction rule: rtranclp_induct)
  case (step w x)
  then have "\<not> transient_state (sts w k)" by simp
  with step(2) have "sts x k = sts w k"
    by (auto elim!: hwstepE simp: buf_state_defs)
  then show ?case using step by simp
qed simp

text \<open>Register contents.\<close>

lemma bit_foldr_or:
  "bit (foldr (\<lambda>k w. push_bit (4 * k) (f k) OR w) ks (0 :: u32)) j \<longleftrightarrow>
     (\<exists>k\<in>set ks. bit (push_bit (4 * k) (f k)) j)"
  by (induction ks) (auto simp: bit_or_iff)

lemma padded_bits: "bit (padded_state n st k) j \<Longrightarrow> j < 4"
proof -
  assume a: "bit (padded_state n st k) j"
  have "take_bit 4 (padded_state n st k) = padded_state n st k"
    by (cases "st k") (simp_all add: padded_state_def)
  then show "j < 4" using a by (metis bit_take_bit_iff)
qed

lemma tx_status_field:
  assumes "k < n" "n \<le> 8"
  shows "drop_bit (4 * k) (tx_status_reg n st) AND 0xF = txtb_state (st k)"
proof -
  have "drop_bit (4 * k) (tx_status_reg n st) AND 0xF = padded_state n st k"
  proof (rule bit_eqI)
    fix j
    have one: "i = k" if "bit (push_bit (4 * i) (padded_state n st i)) (4 * k + j)" "j < 4" for i
      using padded_bits [of n st i "4 * k + j - 4 * i"] that by (auto simp: bit_simps)
    have "bit (push_bit (4 * k) (padded_state n st k)) (4 * k + j) = bit (padded_state n st k) j"
      if "j < 4" using assms that by (simp add: bit_simps)
    then show "bit (drop_bit (4 * k) (tx_status_reg n st) AND 0xF) j = bit (padded_state n st k) j"
      using one padded_bits [of n st k j] assms
      unfolding mask_4 tx_status_reg_def bit_and_iff bit_drop_bit_eq comp_def bit_foldr_or
      by (auto simp: bit_mask_iff)
  qed
  then show ?thesis using assms by (simp add: padded_state_def)
qed

lemma status_txnf_field:
  "FIELD_GET REG_STATUS_TXNF (status_reg n st rest) \<noteq> 0 \<longleftrightarrow> (\<exists>k<n. st k = s_txt_empty)"
proof -
  have "(txtb_state b = TXT_ETY) = (b = s_txt_empty)" for b
    by (cases b) (simp_all add: TXT_ETY_def)
  then show ?thesis
    by (auto simp: REG_STATUS_TXNF_def FIELD_GET_BIT status_reg_def bit_simps bit_BIT status_txnf_def
        list_ex_iff)
qed

lemma core_ld_eq:
  assumes "core_ld C acc base d (base + ucast reg) = (v, d')"
  obtains x d1 where "next_access C d = (x, d1)" "d' = core_cycle C 0 0 (access_act x) d1"
    "bus_order acc v = (if reg = CTUCANFD_TX_STATUS then tx_status_reg (txt_buffer_count C) (txtb d')
       else if reg = CTUCANFD_STATUS then status_reg (txt_buffer_count C) (txtb d') (rdata x)
       else if reg = CTUCANFD_INT_STAT then int_status d' else rdata x)"
proof -
  obtain x d1 where n: "next_access C d = (x, d1)" by (cases "next_access C d")
  show ?thesis using that [OF n] assms n by (auto simp: core_ld_def Let_def ucast_u32_eq)
qed

lemma core_txt_core:
  assumes "core_ok C"
  shows "txt_core (core_bus C acc base) acc base (txt_buffer_count C) (core_view C)"
proof
  let ?n = "txt_buffer_count C" and ?v = "core_view C"
  have n8: "?n \<le> 8" using assms dvd_8_bounds(2) by (auto simp: core_ok_def)
  show "?n dvd 8" using assms by (simp add: core_ok_def)
  have ram_view: "?v (ram_write C off w e) = ?v e" for off w e
    by (rule txview_eqI) (auto simp: view_at ram_write_def Let_def)
  note acc_steps = next_access_hwsteps [OF assms] and cyc = cycle_hwsteps [OF assms]
  { fix d and reg :: u32
    show "hwsteps ?n (?v d) (?v (snd (ld32 (core_bus C acc base) d (base + ucast reg))))"
      using rtranclp_trans [OF acc_steps cyc] by (simp add: core_bus_def core_ld_def Let_def split: prod.split) }
  { fix d w d' k
    assume "ld32 (core_bus C acc base) d (base + ucast CTUCANFD_TX_STATUS) = (w, d')" "k < ?n"
    then have "core_ld C acc base d (base + ucast CTUCANFD_TX_STATUS) = (w, d')"
      by (simp add: core_bus_def)
    then show "drop_bit (4 * k) (bus_order acc w) AND 0xF = txtb_state (sts (?v d') k)"
      by (rule core_ld_eq) (simp add: tx_status_field [OF \<open>k < ?n\<close> n8] view_at) }
  { fix d w d'
    assume "ld32 (core_bus C acc base) d (base + ucast CTUCANFD_STATUS) = (w, d')"
    then have "core_ld C acc base d (base + ucast CTUCANFD_STATUS) = (w, d')"
      by (simp add: core_bus_def)
    then show "FIELD_GET REG_STATUS_TXNF (bus_order acc w) \<noteq> 0 \<longleftrightarrow> (\<exists>k<?n. sts (?v d') k = s_txt_empty)"
      by (rule core_ld_eq) (simp add: status_txnf_field [simplified] view_at reg_addrs) }
  { fix d w d'
    assume "ld32 (core_bus C acc base) d (base + ucast CTUCANFD_INT_STAT) = (w, d')"
    then have "core_ld C acc base d (base + ucast CTUCANFD_INT_STAT) = (w, d')"
      by (simp add: core_bus_def)
    then show "FIELD_GET REG_INT_STAT_TXBHCI (bus_order acc w) \<noteq> 0 \<longleftrightarrow> hci (?v d')"
      by (rule core_ld_eq) (simp add: view_at reg_addrs REG_INT_STAT_TXBHCI_def FIELD_GET_BIT) }
  { fix d and w :: u32
    assume sel: "\<forall>k<?n. bit w (8 + k) \<longrightarrow> \<not> transient_state (sts (?v d) k)"
    obtain x d1 where n: "next_access C d = (x, d1)" by (cases "next_access C d")
    have "\<forall>k<?n. bit w (8 + k) \<longrightarrow> \<not> transient_state (txtb d1 k)"
      using sel hwsteps_nontransient [OF acc_steps [OF n]] by (metis view_at(1))
    from cycle_command [OF assms this]
    show "\<exists>v. hwsteps ?n (?v d) v \<and> hwsteps ?n (sw_tx_command ?n w v)
        (?v (st32 (core_bus C acc base) d (base + ucast CTUCANFD_TX_COMMAND) (bus_order acc w)))"
      using rtranclp_trans [OF acc_steps [OF n] cyc] n
      by (auto simp: core_bus_def core_st_def intro!: exI [of _ "?v (core_cycle C 0 0 (access_act x) d1)"]) }
  { fix d and w :: u32
    obtain x d1 where n: "next_access C d = (x, d1)" by (cases "next_access C d")
    have "?v ((core_cycle C 0 0 (access_act x) d1)\<lparr>tx_priority := w\<rparr>) =
        sw_tx_priority w (?v (core_cycle C 0 0 (access_act x) d1))"
      by (rule txview_eqI) (simp_all add: view_at sw_tx_priority_def)
    then show "\<exists>v. hwsteps ?n (?v d) v \<and> hwsteps ?n (sw_tx_priority w v)
        (?v (st32 (core_bus C acc base) d (base + ucast CTUCANFD_TX_PRIORITY) (bus_order acc w)))"
      using rtranclp_trans [OF acc_steps [OF n] cyc] n
      by (auto simp: core_bus_def core_st_def reg_addrs
          intro!: exI [of _ "?v (core_cycle C 0 0 (access_act x) d1)"]) }
  { fix d and w :: u32
    obtain x d1 where n: "next_access C d = (x, d1)" by (cases "next_access C d")
    show "\<exists>v. hwsteps ?n (?v d) v \<and> hwsteps ?n (sw_int_clear w v)
        (?v (st32 (core_bus C acc base) d (base + ucast CTUCANFD_INT_STAT) (bus_order acc w)))"
      using acc_steps [OF n] cyc [of "d1\<lparr>int_status := int_status d1 AND NOT w\<rparr>"] n
        cycle_clear(1) [OF assms, where clr = w and act = "access_act x" and d = d1]
        cycle_clear(2) [OF assms, where clr = w and d = d1]
      by (auto simp: core_bus_def core_st_def reg_addrs intro!: exI [of _ "?v d1"]) }
  have off: "reg \<noteq> CTUCANFD_TX_COMMAND \<and> reg \<noteq> CTUCANFD_INT_STAT \<and> reg \<noteq> CTUCANFD_TX_PRIORITY \<and>
      reg \<noteq> CTUCANFD_INT_MASK_SET \<and> reg \<noteq> CTUCANFD_INT_MASK_CLR \<and> reg \<noteq> CTUCANFD_INT_ENA_SET \<and>
      reg \<noteq> CTUCANFD_INT_ENA_CLR" if "0x100 \<le> reg \<or> reg = CTUCANFD_COMMAND" for reg
    using that by (auto simp: reg_addrs)
  have plain: "hwsteps ?n (?v d) (?v (core_st C acc base d (base + ucast reg) w))"
    if "0x100 \<le> reg \<or> reg = CTUCANFD_COMMAND" for d w and reg :: u32
    using off [OF that] rtranclp_trans [OF acc_steps cyc] ram_view
    by (simp add: core_st_def ucast_u32_eq Let_def split: prod.split)
  { fix d w and reg :: u32
    assume "0x100 \<le> reg" "reg < 0x900"
    then show "hwsteps ?n (?v d) (?v (st32 (core_bus C acc base) d (base + ucast reg) w))"
      using plain by (simp add: core_bus_def) }
  { fix d and w :: u32
    obtain x d1 where n: "next_access C d = (x, d1)" by (cases "next_access C d")
    let ?d = "core_cycle C 0 0 (access_act x) d1"
    have "?v (?d\<lparr>int_mask := int_mask d1 OR w\<rparr>) = sw_int_mask w (?v ?d)"
      by (rule txview_eqI) (auto simp: view_at sw_int_mask_def txbhci_bit bit_simps core_cycle_def Let_def)
    then show "\<exists>v. hwsteps ?n (?v d) v \<and> hwsteps ?n (sw_int_mask w v)
        (?v (st32 (core_bus C acc base) d (base + ucast CTUCANFD_INT_MASK_SET) (bus_order acc w)))"
      using rtranclp_trans [OF acc_steps [OF n] cyc] n
      by (auto simp: core_bus_def core_st_def reg_addrs intro!: exI [of _ "?v ?d"]) }
  { fix d and w :: u32
    assume "w AND REG_INT_STAT_TXBHCI = 0"
    then have w: "\<not> bit w 11" by (simp add: txbhci_clear)
    obtain x d1 where n: "next_access C d = (x, d1)" by (cases "next_access C d")
    let ?d = "core_cycle C 0 0 (access_act x) d1"
    have "?v (?d\<lparr>int_mask := int_mask d1 AND NOT w\<rparr>) = ?v ?d"
      by (rule txview_eqI) (use w in \<open>auto simp: view_at bit_simps core_cycle_def Let_def\<close>)
    then show "hwsteps ?n (?v d)
        (?v (st32 (core_bus C acc base) d (base + ucast CTUCANFD_INT_MASK_CLR) (bus_order acc w)))"
      using rtranclp_trans [OF acc_steps [OF n] cyc] n by (auto simp: core_bus_def core_st_def reg_addrs) }
  { fix d w and reg :: u32
    assume r: "reg \<in> {CTUCANFD_COMMAND, CTUCANFD_INT_ENA_CLR}"
    obtain x d1 where n: "next_access C d = (x, d1)" by (cases "next_access C d")
    have "?v (e\<lparr>int_ena := m\<rparr>) = ?v e" for e m by (rule txview_eqI) (simp_all add: view_at)
    then have "hwsteps ?n (?v d) (?v (core_st C acc base d (base + ucast CTUCANFD_INT_ENA_CLR) (bus_order acc w)))"
      using rtranclp_trans [OF acc_steps [OF n] cyc] n by (auto simp: core_st_def reg_addrs)
    then show "hwsteps ?n (?v d) (?v (st32 (core_bus C acc base) d (base + ucast reg) (bus_order acc w)))"
      using r plain [of CTUCANFD_COMMAND d "bus_order acc w"] by (auto simp: core_bus_def) }
qed

text \<open>The controller as the driver's probe functions expect it: four TXT buffers.\<close>

definition run_cfg :: "bool \<Rightarrow> bool \<Rightarrow> core_cfg" where
  "run_cfg tbfbo bmm = \<lparr>txt_buffer_count = 4, settings_tbfbo = tbfbo, mode_bmm = bmm, mode_rom = False\<rparr>"

lemma run_cfg_ok: "core_ok (run_cfg tbfbo bmm)" "txt_buffer_count (run_cfg tbfbo bmm) = 4"
  by (simp_all add: core_ok_def run_cfg_def)

interpretation core4: txt_core "core_bus (run_cfg tbfbo bmm) acc base" acc base 4
  "core_view (run_cfg tbfbo bmm)" for tbfbo bmm acc base
  using core_txt_core [OF run_cfg_ok(1), unfolded run_cfg_ok(2)] .

end
