(* ===== verification/Ctu_Rx.thy ===== *)
theory Ctu_Rx
  imports Ctu_Tx
begin

text \<open>
  Reception, from \<open>driver/ctucanfd_base.c\<close>: a frame read word by word from the RX FIFO
  (\<open>ctucan_read_rx_frame\<close>), the handling of one frame with the buffered first word
  (\<open>ctucan_rx\<close>) and the NAPI poll routine (\<open>ctucan_rx_poll\<close>).

  A store outside the payload array of the frame is the fault \<open>OutOfBounds\<close>.
\<close>

section \<open>Reading a frame\<close>

definition put_le32 :: "u8 list \<Rightarrow> nat \<Rightarrow> u32 \<Rightarrow> u8 list option" where
  "put_le32 bs i w =
     (if i + 3 < length bs
      then Some (bs[i := ucast w, i + 1 := ucast (drop_bit 8 w),
        i + 2 := ucast (drop_bit 16 w), i + 3 := ucast (drop_bit 24 w)])
      else None)"

definition rx_can_id :: "u32 \<Rightarrow> u32 \<Rightarrow> u32" where
  "rx_can_id ffw idw =
     (let can_id = (if FIELD_GET REG_FRAME_FORMAT_W_IDE ffw \<noteq> 0
                    then (idw AND CAN_EFF_MASK) OR CAN_EFF_FLAG
                    else drop_bit 18 idw AND CAN_SFF_MASK)
      in if FIELD_GET REG_FRAME_FORMAT_W_FDF ffw = 0 \<and> FIELD_GET REG_FRAME_FORMAT_W_RTR ffw \<noteq> 0
         then can_id OR CAN_RTR_FLAG else can_id)"

definition rx_flags :: "u32 \<Rightarrow> u8" where
  "rx_flags ffw =
     (if FIELD_GET REG_FRAME_FORMAT_W_FDF ffw \<noteq> 0
      then let flags = 0;
               flags = (if FIELD_GET REG_FRAME_FORMAT_W_BRS ffw \<noteq> 0 then flags OR CANFD_BRS else flags)
           in if FIELD_GET REG_FRAME_FORMAT_W_ESI_RSV ffw \<noteq> 0 then flags OR CANFD_ESI else flags
      else 0)"

definition rx_wc :: "u32 \<Rightarrow> u32" where
  "rx_wc ffw = FIELD_GET REG_FRAME_FORMAT_W_RWCNT ffw - 3"

definition rx_len :: "u32 \<Rightarrow> u32" where
  "rx_len ffw =
     (if FIELD_GET REG_FRAME_FORMAT_W_DLC ffw \<le> 8 then FIELD_GET REG_FRAME_FORMAT_W_DLC ffw
      else if FIELD_GET REG_FRAME_FORMAT_W_FDF ffw \<noteq> 0 then push_bit 2 (rx_wc ffw)
      else 8)"

text \<open>The loop that copies the payload; it returns the final value of \<open>i\<close>.\<close>

function rx_data_loop ::
  "'d bus \<Rightarrow> u32 \<Rightarrow> nat \<Rightarrow> u8 list \<Rightarrow> 'd ndev \<Rightarrow> fault + nat \<times> u8 list \<times> 'd ndev" where
  "rx_data_loop B len i bs s =
     (if i < unat len
      then let (w, s) = ctucan_read32 B CTUCANFD_RX_DATA s
           in case put_le32 bs i w of
                None \<Rightarrow> Inl OutOfBounds
              | Some bs \<Rightarrow> rx_data_loop B len (i + 4) bs s
      else Inr (i, bs, s))"
  by pat_completeness auto
termination
  by (relation "measure (\<lambda>(B, len, i, bs, s). unat len - i)") auto

declare rx_data_loop.simps [simp del]

text \<open>The loop that throws the rest of the frame away.\<close>

function rx_skip_loop :: "'d bus \<Rightarrow> nat \<Rightarrow> nat \<Rightarrow> 'd ndev \<Rightarrow> 'd ndev" where
  "rx_skip_loop B i bytes s =
     (if i < bytes
      then let (w, s) = ctucan_read32 B CTUCANFD_RX_DATA s in rx_skip_loop B (i + 4) bytes s
      else s)"
  by pat_completeness auto
termination
  by (relation "measure (\<lambda>(B, i, bytes, s). bytes - i)") auto

declare rx_skip_loop.simps [simp del]

definition ctucan_read_rx_frame ::
  "'d bus \<Rightarrow> canfd_frame \<Rightarrow> u32 \<Rightarrow> 'd ndev \<Rightarrow> fault + canfd_frame \<times> 'd ndev" where
  "ctucan_read_rx_frame B cf ffw s =
     (let (idw, s) = ctucan_read32 B CTUCANFD_RX_DATA s;
          wc = rx_wc ffw;
          cf = cf\<lparr>can_id := rx_can_id ffw idw, flags := rx_flags ffw, flen := ucast (rx_len ffw)\<rparr>;
          len = (if rx_len ffw > wc * 4 then wc * 4 else rx_len ffw);
          (_, s) = ctucan_read32 B CTUCANFD_RX_DATA s;
          (_, s) = ctucan_read32 B CTUCANFD_RX_DATA s
      in case rx_data_loop B len 0 (data cf) s of
           Inl f \<Rightarrow> Inl f
         | Inr (i, bs, s) \<Rightarrow> Inr (cf\<lparr>data := bs\<rparr>, rx_skip_loop B i (unat (wc * 4)) s))"

section \<open>One frame\<close>

definition ffw_buffered :: "ctucan_priv \<Rightarrow> bool" where
  "ffw_buffered p = bit (drv_flags p) CTUCANFD_FLAG_RX_FFW_BUFFERED"

text \<open>The first word of the frame: the one kept from an earlier attempt, or the next of the FIFO.\<close>

definition rx_first_word :: "'d bus \<Rightarrow> 'd ndev \<Rightarrow> u32 \<times> 'd ndev" where
  "rx_first_word B s =
     (if ffw_buffered (priv s)
      then (rxfrm_first_word (priv s),
        upd_priv (\<lambda>p. p\<lparr>drv_flags := unset_bit CTUCANFD_FLAG_RX_FFW_BUFFERED (drv_flags p)\<rparr>) s)
      else ctucan_read32 B CTUCANFD_RX_DATA s)"

definition rx_alloc :: "kern \<Rightarrow> bool \<Rightarrow> 'd ndev \<Rightarrow> canfd_frame option \<times> 'd ndev" where
  "rx_alloc K isfdf s =
     (if isfdf then (k_alloc_canfd_skb K (klog s), kdo Alloc_canfd_skb s)
      else (k_alloc_can_skb K (klog s), kdo Alloc_can_skb s))"

definition rx_keep_ffw :: "u32 \<Rightarrow> 'd ndev \<Rightarrow> 'd ndev" where
  "rx_keep_ffw ffw s =
     upd_priv (\<lambda>p. p\<lparr>rxfrm_first_word := ffw,
       drv_flags := set_bit CTUCANFD_FLAG_RX_FFW_BUFFERED (drv_flags p)\<rparr>) s"

definition rx_deliver :: "bool \<Rightarrow> canfd_frame \<Rightarrow> 'd ndev \<Rightarrow> 'd ndev" where
  "rx_deliver isfdf cf s =
     kdo (Netif_receive_skb isfdf cf)
       (upd_stats (\<lambda>t. t\<lparr>rx_bytes := rx_bytes t + ucast (flen cf), rx_packets := rx_packets t + 1\<rparr>) s)"

definition ctucan_rx :: "'d bus \<Rightarrow> kern \<Rightarrow> 'd ndev \<Rightarrow> fault + int \<times> 'd ndev" where
  "ctucan_rx B K s =
     (let (ffw, s) = rx_first_word B s
      in if FIELD_GET REG_FRAME_FORMAT_W_RWCNT ffw = 0 then Inr (- EAGAIN, s)
      else
        let isfdf = (FIELD_GET REG_FRAME_FORMAT_W_FDF ffw \<noteq> 0)
        in case rx_alloc K isfdf s of
             (None, s) \<Rightarrow> Inr (0, rx_keep_ffw ffw s)
           | (Some cf, s) \<Rightarrow>
               (case ctucan_read_rx_frame B cf ffw s of
                  Inl f \<Rightarrow> Inl f
                | Inr (cf, s) \<Rightarrow> Inr (1, rx_deliver isfdf cf s)))"

section \<open>Poll\<close>

definition rx_framecnt :: "'d bus \<Rightarrow> 'd ndev \<Rightarrow> u32 \<times> 'd ndev" where
  "rx_framecnt B s =
     (let (v, s) = ctucan_read32 B CTUCANFD_RX_STATUS s in (FIELD_GET REG_RX_STATUS_RXFRC v, s))"

function rx_poll_loop ::
  "'d bus \<Rightarrow> kern \<Rightarrow> int \<Rightarrow> u32 \<Rightarrow> int \<Rightarrow> int \<Rightarrow> 'd ndev \<Rightarrow> fault + u32 \<times> int \<times> int \<times> 'd ndev" where
  "rx_poll_loop B K quota framecnt work_done res s =
     (if framecnt \<noteq> 0 \<and> work_done < quota \<and> res > 0
      then case ctucan_rx B K s of
             Inl f \<Rightarrow> Inl f
           | Inr (res, s) \<Rightarrow>
               let (framecnt, s) = rx_framecnt B s
               in rx_poll_loop B K quota framecnt (work_done + 1) res s
      else Inr (framecnt, work_done, res, s))"
  by pat_completeness auto
termination
  by (relation "measure (\<lambda>(B, K, quota, framecnt, work_done, res, s). nat (quota - work_done))") auto

declare rx_poll_loop.simps [simp del]

text \<open>The report of an overrun of the RX FIFO.\<close>

definition rx_overrun :: "'d bus \<Rightarrow> kern \<Rightarrow> 'd ndev \<Rightarrow> 'd ndev" where
  "rx_overrun B K s =
     (let s = upd_stats (\<lambda>t. t\<lparr>rx_over_errors := rx_over_errors t + 1, rx_errors := rx_errors t + 1\<rparr>) s;
          skb = k_alloc_can_err_skb K (klog s);
          s = kdo Alloc_can_err_skb s;
          s = (case skb of
                 None \<Rightarrow> s
               | Some cf \<Rightarrow>
                   let cf = cf\<lparr>cf_can_id := cf_can_id cf OR CAN_ERR_CRTL (k_err K),
                         cf_data := (cf_data cf)[1 := cf_data cf ! 1 OR CAN_ERR_CRTL_RX_OVERFLOW (k_err K)]\<rparr>
                   in kdo (Netif_rx cf) (upd_stats (\<lambda>t. t\<lparr>rx_packets := rx_packets t + 1,
                        rx_bytes := rx_bytes t + ucast (cf_can_dlc cf)\<rparr>) s))
      in ctucan_write32 B CTUCANFD_COMMAND REG_COMMAND_CDO s)"

definition ctucan_rx_poll :: "'d bus \<Rightarrow> kern \<Rightarrow> int \<Rightarrow> 'd ndev \<Rightarrow> fault + int \<times> 'd ndev" where
  "ctucan_rx_poll B K quota s =
     (let (framecnt, s) = rx_framecnt B s
      in case rx_poll_loop B K quota framecnt 0 1 s of
           Inl f \<Rightarrow> Inl f
         | Inr (framecnt, work_done, res, s) \<Rightarrow>
             let (status, s) = ctucan_read32 B CTUCANFD_STATUS s;
                 s = (if FIELD_GET REG_STATUS_DOR status \<noteq> 0 then rx_overrun B K s else s)
             in if framecnt = 0 \<and> res \<noteq> 0
                then let done = k_napi_complete_done K (klog s) work_done;
                         s = kdo (Napi_complete_done work_done) s
                     in if done
                        then Inr (work_done,
                          ctucan_write32 B CTUCANFD_INT_MASK_CLR REG_INT_STAT_RBNEI
                            (ctucan_write32 B CTUCANFD_INT_STAT REG_INT_STAT_RBNEI s))
                        else Inr (work_done, s)
                else Inr (work_done, s))"

end
