(* ===== verification/Ctu_Config.thy ===== *)
theory Ctu_Config
  imports Ctu_Tx
begin

text \<open>
  Reset and configuration of the controller, from \<open>driver/ctucanfd_base.c\<close>: software reset
  with its timeout, bit timing registers, secondary sample point, mode register, the start
  sequence \<open>ctucan_chip_start\<close> and its counterpart \<open>ctucan_chip_stop\<close>.
\<close>

section \<open>Reset\<close>

primrec reset_loop :: "'d bus \<Rightarrow> nat \<Rightarrow> 'd ndev \<Rightarrow> int \<times> 'd ndev" where
  "reset_loop B 0 s =
     (let (v, s) = ctucan_read32 B CTUCANFD_DEVICE_ID s;
          device_id = (ucast (FIELD_GET REG_DEVICE_ID_DEVICE_ID v) :: u16)
      in if device_id = 0xCAFD then (0, s) else (- ETIMEDOUT, s))"
| "reset_loop B (Suc i) s =
     (let (v, s) = ctucan_read32 B CTUCANFD_DEVICE_ID s;
          device_id = (ucast (FIELD_GET REG_DEVICE_ID_DEVICE_ID v) :: u16)
      in if device_id = 0xCAFD then (0, s)
         else reset_loop B i (kdo (Usleep_range 100 200) s))"

definition ctucan_reset :: "'d bus \<Rightarrow> 'd ndev \<Rightarrow> int \<times> 'd ndev" where
  "ctucan_reset B s =
     (let s = ctucan_write32 B CTUCANFD_MODE REG_MODE_RST s;
          s = upd_priv (\<lambda>p. p\<lparr>drv_flags := unset_bit CTUCANFD_FLAG_RX_FFW_BUFFERED (drv_flags p)\<rparr>) s
      in reset_loop B 100 s)"

section \<open>Bit timing\<close>

text \<open>The part of \<open>tseg1\<close> that does not fit into \<open>PH1\<close> is moved to \<open>PROP\<close>.\<close>

definition btr_split :: "bool \<Rightarrow> can_bittiming \<Rightarrow> can_bittiming" where
  "btr_split nominal bt =
     (let max_ph1_len = (if nominal then 63 else 31)
      in if phase_seg1 bt > max_ph1_len
         then bt\<lparr>prop_seg := prop_seg bt + (phase_seg1 bt - max_ph1_len), phase_seg1 := max_ph1_len\<rparr>
         else bt)"

definition btr_word :: "bool \<Rightarrow> can_bittiming \<Rightarrow> u32" where
  "btr_word nominal bt =
     (if nominal
      then FIELD_PREP REG_BTR_PROP (prop_seg bt)
        OR FIELD_PREP REG_BTR_PH1 (phase_seg1 bt)
        OR FIELD_PREP REG_BTR_PH2 (phase_seg2 bt)
        OR FIELD_PREP REG_BTR_BRP (brp bt)
        OR FIELD_PREP REG_BTR_SJW (sjw bt)
      else FIELD_PREP REG_BTR_FD_PROP_FD (prop_seg bt)
        OR FIELD_PREP REG_BTR_FD_PH1_FD (phase_seg1 bt)
        OR FIELD_PREP REG_BTR_FD_PH2_FD (phase_seg2 bt)
        OR FIELD_PREP REG_BTR_FD_BRP_FD (brp bt)
        OR FIELD_PREP REG_BTR_FD_SJW_FD (sjw bt))"

definition ctucan_set_btr ::
  "'d bus \<Rightarrow> can_bittiming \<Rightarrow> bool \<Rightarrow> 'd ndev \<Rightarrow> int \<times> can_bittiming \<times> 'd ndev" where
  "ctucan_set_btr B bt nominal s =
     (let (enabled, s) = CTU_CAN_FD_ENABLED B s
      in if enabled
         then (- EPERM, bt, kdo (Netdev_err ''BUG! Cannot set bittiming - CAN is enabled'') s)
         else let bt = btr_split nominal bt
              in (0, bt, ctucan_write32 B (if nominal then CTUCANFD_BTR else CTUCANFD_BTR_FD)
                   (btr_word nominal bt) s))"

definition ctucan_set_bittiming :: "'d bus \<Rightarrow> 'd ndev \<Rightarrow> int \<times> 'd ndev" where
  "ctucan_set_bittiming B s =
     (let (ret, bt, s) = ctucan_set_btr B (bittiming (can (priv s))) True s
      in (ret, upd_can (\<lambda>c. c\<lparr>bittiming := bt\<rparr>) s))"

definition ctucan_set_data_bittiming :: "'d bus \<Rightarrow> 'd ndev \<Rightarrow> int \<times> 'd ndev" where
  "ctucan_set_data_bittiming B s =
     (let (ret, dbt, s) = ctucan_set_btr B (data_bittiming (can (priv s))) False s
      in (ret, upd_can (\<lambda>c. c\<lparr>data_bittiming := dbt\<rparr>) s))"

definition ssp_cfg_word :: "u32 \<Rightarrow> u32 \<Rightarrow> u32" where
  "ssp_cfg_word freq dbitrate =
     (if dbitrate > 1000000
      then let ssp_offset = freq div dbitrate div 2;
               ssp_offset = (if ssp_offset > 127 then 127 else ssp_offset)
           in FIELD_PREP REG_TRV_DELAY_SSP_OFFSET ssp_offset OR FIELD_PREP REG_TRV_DELAY_SSP_SRC 0
      else 0x01000000)"

definition ctucan_set_secondary_sample_point :: "'d bus \<Rightarrow> 'd ndev \<Rightarrow> int \<times> 'd ndev" where
  "ctucan_set_secondary_sample_point B s =
     (let (enabled, s) = CTU_CAN_FD_ENABLED B s
      in if enabled
         then (- EPERM, kdo (Netdev_err ''BUG! Cannot set SSP - CAN is enabled'') s)
         else (0, ctucan_write32 B CTUCANFD_TRV_DELAY
                (ssp_cfg_word (clock_freq (can (priv s))) (bitrate (data_bittiming (can (priv s))))) s))"

section \<open>Modes\<close>

definition mode_bit :: "u32 \<Rightarrow> u32 \<Rightarrow> u32 \<Rightarrow> u32 \<Rightarrow> u32" where
  "mode_bit flgs ctrlmode_bit m mode_reg =
     (if flgs AND ctrlmode_bit \<noteq> 0 then mode_reg OR m else mode_reg AND NOT m)"

definition mode_word :: "u32 \<Rightarrow> u32 \<Rightarrow> u32" where
  "mode_word flgs mode_reg =
     (let mode_reg = mode_bit flgs CAN_CTRLMODE_LOOPBACK REG_MODE_ILBP mode_reg;
          mode_reg = mode_bit flgs CAN_CTRLMODE_LISTENONLY REG_MODE_BMM mode_reg;
          mode_reg = mode_bit flgs CAN_CTRLMODE_FD REG_MODE_FDE mode_reg;
          mode_reg = mode_bit flgs CAN_CTRLMODE_PRESUME_ACK REG_MODE_ACF mode_reg;
          mode_reg = mode_bit flgs CAN_CTRLMODE_FD_NON_ISO REG_MODE_NISOFD mode_reg;
          mode_reg = mode_reg AND NOT (FIELD_PREP REG_MODE_RTRTH 0xF);
          mode_reg = mode_bit flgs CAN_CTRLMODE_ONE_SHOT REG_MODE_RTRLE mode_reg
      in mode_reg AND NOT REG_MODE_TSTM)"

definition ctucan_set_mode :: "'d bus \<Rightarrow> can_ctrlmode \<Rightarrow> 'd ndev \<Rightarrow> 'd ndev" where
  "ctucan_set_mode B mode s =
     (let (mode_reg, s) = ctucan_read32 B CTUCANFD_MODE s
      in ctucan_write32 B CTUCANFD_MODE (mode_word (cm_flags mode) mode_reg) s)"

section \<open>Start and stop\<close>

definition int_ena_word :: "u32 \<Rightarrow> u32" where
  "int_ena_word mode =
     (let int_ena = REG_INT_STAT_RBNEI OR REG_INT_STAT_TXBHCI OR REG_INT_STAT_EWLI OR REG_INT_STAT_FCSI
      in if mode AND CAN_CTRLMODE_BERR_REPORTING \<noteq> 0
         then int_ena OR (REG_INT_STAT_ALI OR REG_INT_STAT_BEI) else int_ena)"

definition ctucan_chip_start :: "'d bus \<Rightarrow> 'd ndev \<Rightarrow> int \<times> 'd ndev" where
  "ctucan_chip_start B s =
     (let s = upd_priv (\<lambda>p. p\<lparr>txb_prio := 0x01234567, txb_head := 0, txb_tail := 0\<rparr>) s;
          s = ctucan_write32 B CTUCANFD_TX_PRIORITY (txb_prio (priv s)) s;
          (err, s) = ctucan_set_bittiming B s
      in if err < 0 then (err, s)
      else let (err, s) = ctucan_set_data_bittiming B s
      in if err < 0 then (err, s)
      else let (err, s) = ctucan_set_secondary_sample_point B s
      in if err < 0 then (err, s)
      else
        let mode = ctrlmode (can (priv s));
            s = ctucan_set_mode B \<lparr>cm_mask = 0xFFFFFFFF, cm_flags = mode\<rparr> s;
            int_ena = int_ena_word mode;
            int_msk = NOT int_ena;
            s = ctucan_write32 B CTUCANFD_INT_MASK_SET int_msk s;
            s = ctucan_write32 B CTUCANFD_INT_ENA_SET int_ena s;
            s = upd_can (\<lambda>c. c\<lparr>state := CAN_STATE_STOPPED\<rparr>) s;
            (mode_reg, s) = ctucan_read32 B CTUCANFD_MODE s;
            s = ctucan_write32 B CTUCANFD_MODE (mode_reg OR REG_MODE_ENA) s
        in (0, s))"

datatype can_mode = CAN_MODE_STOP | CAN_MODE_START | CAN_MODE_SLEEP

definition ctucan_do_set_mode :: "'d bus \<Rightarrow> can_mode \<Rightarrow> 'd ndev \<Rightarrow> int \<times> 'd ndev" where
  "ctucan_do_set_mode B mode s =
     (case mode of
        CAN_MODE_START \<Rightarrow>
          (let (ret, s) = ctucan_reset B s
           in if ret < 0 then (ret, s)
           else let (ret, s) = ctucan_chip_start B s
           in if ret < 0 then (ret, kdo (Netdev_err ''ctucan_chip_start failed!'') s)
           else (ret, kdo Netif_wake_queue s))
      | _ \<Rightarrow> (- EOPNOTSUPP, s))"

definition ctucan_chip_stop :: "'d bus \<Rightarrow> 'd ndev \<Rightarrow> 'd ndev" where
  "ctucan_chip_stop B s =
     (let m = 0xFFFFFFFF;
          s = ctucan_write32 B CTUCANFD_INT_ENA_CLR m s;
          s = ctucan_write32 B CTUCANFD_INT_MASK_SET m s;
          (mode, s) = ctucan_read32 B CTUCANFD_MODE s;
          s = ctucan_write32 B CTUCANFD_MODE (mode AND NOT REG_MODE_ENA) s
      in upd_can (\<lambda>c. c\<lparr>state := CAN_STATE_STOPPED\<rparr>) s)"

section \<open>Properties\<close>

lemma btr_split_bitrate [simp]: "bitrate (btr_split nominal bt) = bitrate bt"
  by (simp add: btr_split_def Let_def)

text \<open>C37: On a controller that is not enabled, \<open>ctucan_chip_start\<close> succeeds with exactly eight writes:
  priorities, nominal and data bit timing, secondary sample point, mode, interrupt mask and
  enable, and only then, as the last one, the mode with the enable bit.\<close>

theorem chip_start_sequence:
  assumes "FIELD_GET REG_MODE_ENA (bus_order (reg_access (priv s)) (fst (hw s) (mem_base (priv s) + ucast CTUCANFD_MODE))) = 0"
    "ctucan_chip_start tracefile s = (r, s')"
  defines "c \<equiv> can (priv s)" and "m \<equiv> mode_word (ctrlmode (can (priv s)))
    (bus_order (reg_access (priv s)) (fst (hw s) (mem_base (priv s) + ucast CTUCANFD_MODE)))"
  shows "r = 0 \<and> snd (hw s') = map (\<lambda>(reg, v). (mem_base (priv s) + ucast reg, bus_order (reg_access (priv s)) v))
    [(CTUCANFD_MODE, m OR REG_MODE_ENA), (CTUCANFD_INT_ENA_SET, int_ena_word (ctrlmode c)),
     (CTUCANFD_INT_MASK_SET, NOT (int_ena_word (ctrlmode c))), (CTUCANFD_MODE, m),
     (CTUCANFD_TRV_DELAY, ssp_cfg_word (clock_freq c) (bitrate (data_bittiming c))),
     (CTUCANFD_BTR_FD, btr_word False (btr_split False (data_bittiming c))),
     (CTUCANFD_BTR, btr_word True (btr_split True (bittiming c))),
     (CTUCANFD_TX_PRIORITY, 0x01234567)] @ snd (hw s)"
  using assms
  by (auto simp: ctucan_chip_start_def Let_def ctucan_set_bittiming_def ctucan_set_data_bittiming_def
      ctucan_set_secondary_sample_point_def ctucan_set_mode_def ctucan_set_btr_def CTU_CAN_FD_ENABLED_def
      tracefile_write tracefile_read upd_priv_def upd_can_def ucast_u32_eq reg_addrs split_def)

theorem chip_start_sequence_witness:
  "fst (ctucan_chip_start tracefile (demo_ndev [] (\<lambda>_. 0, []))) = 0 \<and>
   fst (hd (snd (hw (snd (ctucan_chip_start tracefile (demo_ndev [] (\<lambda>_. 0, []))))))) = 4"
  using chip_start_sequence [of "demo_ndev [] (\<lambda>_. 0, [])", OF _ prod.collapse [symmetric]]
  by (simp add: demo_ndev_def demo_priv_def bus_order_def FIELD_GET_def reg_addrs)

definition btr_in_range :: "bool \<Rightarrow> can_bittiming \<Rightarrow> bool" where
  "btr_in_range nominal bt \<longleftrightarrow>
     (let btc = (if nominal then ctu_can_fd_bit_timing_max else ctu_can_fd_bit_timing_data_max)
      in unat (prop_seg bt) + unat (phase_seg1 bt) \<le> unat (tseg1_max btc) \<and>
         prop_seg bt \<le> (if nominal then 127 else 63) \<and> phase_seg2 bt \<le> tseg2_max btc \<and>
         brp bt \<le> brp_max btc \<and> sjw bt \<le> sjw_max btc)"

lemmas btr_masks = REG_BTR_PROP_def REG_BTR_PH1_def REG_BTR_PH2_def REG_BTR_BRP_def REG_BTR_SJW_def
  REG_BTR_FD_PROP_FD_def REG_BTR_FD_PH1_FD_def REG_BTR_FD_PH2_FD_def REG_BTR_FD_BRP_FD_def
  REG_BTR_FD_SJW_FD_def

lemma btr_word_fields:
  "FIELD_GET REG_BTR_PROP (btr_word True bt) = take_bit 7 (prop_seg bt)"
  "FIELD_GET REG_BTR_PH1 (btr_word True bt) = take_bit 6 (phase_seg1 bt)"
  "FIELD_GET REG_BTR_PH2 (btr_word True bt) = take_bit 6 (phase_seg2 bt)"
  "FIELD_GET REG_BTR_BRP (btr_word True bt) = take_bit 8 (brp bt)"
  "FIELD_GET REG_BTR_SJW (btr_word True bt) = take_bit 5 (sjw bt)"
  "FIELD_GET REG_BTR_FD_PROP_FD (btr_word False bt) = take_bit 6 (prop_seg bt)"
  "FIELD_GET REG_BTR_FD_PH1_FD (btr_word False bt) = take_bit 5 (phase_seg1 bt)"
  "FIELD_GET REG_BTR_FD_PH2_FD (btr_word False bt) = take_bit 5 (phase_seg2 bt)"
  "FIELD_GET REG_BTR_FD_BRP_FD (btr_word False bt) = take_bit 8 (brp bt)"
  "FIELD_GET REG_BTR_FD_SJW_FD (btr_word False bt) = take_bit 5 (sjw bt)"
  by (simp_all add: btr_word_def btr_masks FIELD_GET_or FIELD_GET_PREP_same FIELD_GET_PREP_disjoint)

lemma btr_split_in_range:
  assumes "btr_in_range nominal bt"
  shows "prop_seg (btr_split nominal bt) + phase_seg1 (btr_split nominal bt) = prop_seg bt + phase_seg1 bt"
    "unat (phase_seg1 (btr_split nominal bt)) \<le> (if nominal then 63 else 31)"
    "unat (prop_seg (btr_split nominal bt)) \<le> (if nominal then 127 else 63)"
proof -
  let ?M = "if nominal then 63 else 31 :: u32" and ?p = "prop_seg bt" and ?q = "phase_seg1 bt"
  have r: "unat ?p + unat ?q \<le> (if nominal then 190 else 94)" "unat ?p \<le> (if nominal then 127 else 63)"
    using assms by (auto simp: btr_in_range_def ctu_can_fd_bit_timing_max_def
        ctu_can_fd_bit_timing_data_max_def word_le_nat_alt split: if_splits)
  have m: "unat ?M = (if nominal then 63 else 31)" by simp
  show "prop_seg (btr_split nominal bt) + phase_seg1 (btr_split nominal bt) = ?p + ?q"
    "unat (phase_seg1 (btr_split nominal bt)) \<le> (if nominal then 63 else 31)"
    by (simp_all add: btr_split_def Let_def word_less_nat_alt split del: if_split) (simp_all add: not_less split: if_split)
  show "unat (prop_seg (btr_split nominal bt)) \<le> (if nominal then 127 else 63)"
  proof (cases "?q > ?M")
    case True
    then have d: "unat (?q - ?M) = unat ?q - unat ?M" "unat ?M \<le> unat ?q"
      by (simp_all add: unat_sub word_less_nat_alt word_le_nat_alt)
    then have "unat (?p + (?q - ?M)) = unat ?p + (unat ?q - unat ?M)"
      using r(1) by (subst unat_add_small) (auto split: if_splits)
    then show ?thesis using True d(2) r(1) m by (simp add: btr_split_def Let_def split: if_splits)
  next
    case False
    then show ?thesis using r(2) by (simp add: btr_split_def Let_def)
  qed
qed



definition long_prop :: can_bittiming where
  "long_prop = \<lparr>bitrate = 0, sample_point = 0, tq = 10, prop_seg = 180, phase_seg1 = 10, phase_seg2 = 9,
     sjw = 1, brp = 0\<rparr>"

text \<open>A propagation segment within the announced limits but too long for its field is accepted by
  \<open>can_fixup_bittiming\<close> and programmed with its upper bits lost.\<close>

lemma set_btr_truncates:
  "(case can_fixup_bittiming 100000000 long_prop ctu_can_fd_bit_timing_max of
      Some (r, bt) \<Rightarrow> r = 0 \<and> bitrate bt = 500000 \<and>
        FIELD_GET REG_BTR_PROP (btr_word True (btr_split True bt)) = 52
    | None \<Rightarrow> False)"
  by code_simp

lemma mode_bit_bit:
  assumes "k < 32"
  shows "bit (mode_bit flgs c (BIT k) r) j = (if j = k then flgs AND c \<noteq> 0 else bit r j)"
  using assms by (auto simp: mode_bit_def bit_simps bit_BIT dest: bit_imp_le_length)

text \<open>The mode register after \<open>ctucan_set_mode\<close>, bit by bit: each mode the CAN subsystem controls
  has the value requested, retransmission is limited exactly in one-shot mode and then to no
  retransmission at all, test mode is off, and every other bit keeps its value.\<close>

lemma set_mode_bits:
  "bit (mode_word flgs r) j =
     (if j = 21 then flgs AND CAN_CTRLMODE_LOOPBACK \<noteq> 0
      else if j = 1 then flgs AND CAN_CTRLMODE_LISTENONLY \<noteq> 0
      else if j = 4 then flgs AND CAN_CTRLMODE_FD \<noteq> 0
      else if j = 7 then flgs AND CAN_CTRLMODE_PRESUME_ACK \<noteq> 0
      else if j = 23 then flgs AND CAN_CTRLMODE_FD_NON_ISO \<noteq> 0
      else if j = 16 then flgs AND CAN_CTRLMODE_ONE_SHOT \<noteq> 0
      else if j \<in> {8, 17, 18, 19, 20} then False
      else bit r j)"
proof -
  have rt: "bit (FIELD_PREP REG_MODE_RTRTH 0xF) j \<longleftrightarrow> j \<in> {17, 18, 19, 20}" for j
  proof -
    have "FIELD_PREP REG_MODE_RTRTH 0xF = push_bit 17 (mask 4)"
      by (simp add: REG_MODE_RTRTH_def FIELD_PREP_GENMASK mask_eq_exp_minus_1)
    then show ?thesis by (auto simp: bit_push_bit_iff bit_mask_iff)
  qed
  show ?thesis
    unfolding mode_word_def Let_def REG_MODE_ILBP_def REG_MODE_BMM_def REG_MODE_FDE_def REG_MODE_ACF_def
      REG_MODE_NISOFD_def REG_MODE_RTRLE_def REG_MODE_TSTM_def
    by (auto simp: mode_bit_bit bit_simps bit_BIT rt dest: bit_imp_le_length)
qed

lemma reset_loop_log:
  "reset_loop B n s = (r, s') \<Longrightarrow>
   \<exists>k\<le>n. klog s' = replicate k (Usleep_range 100 200) @ klog s \<and> (r = 0 \<or> r = - ETIMEDOUT \<and> k = n)"
proof (induction n arbitrary: s)
  case 0
  then show ?case by (auto simp: Let_def split_def split: if_splits)
next
  case (Suc n)
  obtain v s1 where rd: "ctucan_read32 B CTUCANFD_DEVICE_ID s = (v, s1)" by fastforce
  have k1: "klog s1 = klog s" using rd read32_frame(3) [of B CTUCANFD_DEVICE_ID s] by simp
  show ?case
  proof (cases "(ucast (FIELD_GET REG_DEVICE_ID_DEVICE_ID v) :: u16) = 0xCAFD")
    case True
    then show ?thesis using Suc.prems rd k1 by (auto simp: Let_def intro!: exI [of _ 0])
  next
    case False
    then have "reset_loop B n (kdo (Usleep_range 100 200) s1) = (r, s')" using Suc.prems rd by (simp add: Let_def)
    from Suc.IH [OF this] obtain k where "k \<le> n" "klog s' = replicate k (Usleep_range 100 200) @
        Usleep_range 100 200 # klog s" "r = 0 \<or> r = - ETIMEDOUT \<and> k = n"
      using k1 by auto
    then show ?thesis by (intro exI [of _ "Suc k"]) (auto simp: replicate_app_Cons_same)
  qed
qed

text \<open>A software reset ends: it reads the identification register at most 101 times with a sleep
  between the reads, and reports success, or a timeout after 100 sleeps.\<close>

lemma reset_bounded:
  assumes "ctucan_reset B s = (r, s')"
  shows "\<exists>k\<le>100. klog s' = replicate k (Usleep_range 100 200) @ klog s \<and>
    (r = 0 \<or> r = - ETIMEDOUT \<and> k = 100)"
  using assms reset_loop_log [of B 100 _ r s'] write32_frame(3) [of B CTUCANFD_MODE REG_MODE_RST s]
  by (fastforce simp: ctucan_reset_def Let_def)

lemma reset_bounded_witness:
  "\<exists>k\<le>100. klog (snd (ctucan_reset regfile (demo_ndev [] (\<lambda>_. 0)))) = replicate k (Usleep_range 100 200)"
  using reset_bounded [OF prod.collapse [symmetric], of regfile "demo_ndev [] (\<lambda>_. 0)"]
  by (auto simp: demo_ndev_def)

text \<open>Above 1 Mbit/s the offset of the secondary sample point is half a data bit in clock cycles,
  limited to 127, and reads back as such; at or below, the secondary sample point is disabled.\<close>

lemma ssp_offset_bounded:
  "FIELD_GET REG_TRV_DELAY_SSP_OFFSET (ssp_cfg_word freq dbitrate) =
     (if dbitrate > 1000000 then min 127 (freq div dbitrate div 2) else 0) \<and>
   FIELD_GET REG_TRV_DELAY_SSP_SRC (ssp_cfg_word freq dbitrate) = (if dbitrate > 1000000 then 0 else 1)"
proof -
  have d: "FIELD_GET REG_TRV_DELAY_SSP_OFFSET 0x01000000 = 0" "FIELD_GET REG_TRV_DELAY_SSP_SRC 0x01000000 = 1"
    by (simp_all add: REG_TRV_DELAY_SSP_OFFSET_def REG_TRV_DELAY_SSP_SRC_def FIELD_GET_GENMASK take_bit_eq_mod drop_bit_eq_div)
  have m: "take_bit 8 (if x > 127 then 127 else x) = min 127 x" for x :: u32
  proof -
    have "take_bit 8 (if x > 127 then 127 else x) = (if x > 127 then 127 else x)"
      by (rule take_bit_less) (auto simp: word_less_nat_alt)
    then show ?thesis by (auto simp: min_def)
  qed
  show ?thesis
    using d by (simp add: ssp_cfg_word_def Let_def FIELD_GET_or REG_TRV_DELAY_SSP_OFFSET_def REG_TRV_DELAY_SSP_SRC_def
        FIELD_GET_PREP_same FIELD_GET_PREP_disjoint m del: take_bit_numeral_minus_numeral_word)
qed

section \<open>Bit timing within the limits of the controller\<close>

lemma driver_btc_ok: "btc_ok ctu_can_fd_bit_timing_max" "btc_ok ctu_can_fd_bit_timing_data_max"
  by (simp_all add: btc_ok_def ctu_can_fd_bit_timing_max_def ctu_can_fd_bit_timing_data_max_def)



text \<open>With the limits of the controller, \<open>can_fixup_bittiming\<close> always returns; it accepts only
  segments, jump width and prescaler within the limits, leaves the segments as they are, and reports the
  bit rate they produce.\<close>

lemma fixup_bittiming_total:
  assumes "btc \<in> {ctu_can_fd_bit_timing_max, ctu_can_fd_bit_timing_data_max}"
  shows "\<exists>r bt'. can_fixup_bittiming freq bt btc = Some (r, bt') \<and> r \<in> {0, - ERANGE, - EINVAL} \<and>
    prop_seg bt' = prop_seg bt \<and> phase_seg1 bt' = phase_seg1 bt \<and> phase_seg2 bt' = phase_seg2 bt \<and>
    (r = 0 \<longrightarrow> 1 \<le> sjw bt' \<and> sjw bt' \<le> sjw_max btc \<and>
      tseg1_min btc \<le> prop_seg bt + phase_seg1 bt \<and> prop_seg bt + phase_seg1 bt \<le> tseg1_max btc \<and>
      tseg2_min btc \<le> phase_seg2 bt \<and> phase_seg2 bt \<le> tseg2_max btc \<and>
      brp_min btc \<le> brp bt' \<and> brp bt' \<le> brp_max btc \<and>
      bitrate bt' = freq div (brp bt' * (prop_seg bt + phase_seg1 bt + phase_seg2 bt + 1)))"
proof -
  have "btc_ok btc" using assms driver_btc_ok by blast
  then show ?thesis by (intro fixup_some) (auto simp: btc_ok_def)
qed

lemma fixup_bittiming_total_witness:
  "\<exists>r bt'. can_fixup_bittiming 0 long_prop ctu_can_fd_bit_timing_data_max = Some (r, bt')"
  using fixup_bittiming_total [of ctu_can_fd_bit_timing_data_max 0 long_prop] by auto

text \<open>The bit timing calculated may be far from the one asked for although success is reported:
  with a clock of 101 MHz, 1 Mbit/s and a sample point of 50 percent, no split of the 100 quanta is
  admissible, \<open>can_update_sample_point\<close> leaves the segments as it found them, and the
  result is a bit of one quantum, 101 Mbit/s.\<close>

lemma calc_bittiming_stale:
  "map_option (\<lambda>(r, bt). (r, bitrate bt, prop_seg bt, phase_seg1 bt, phase_seg2 bt))
     (can_calc_bittiming 101000000 (no_timing\<lparr>bitrate := 1000000, sample_point := 500\<rparr>)
       ctu_can_fd_bit_timing_data_max) = Some (0, 101000000, 0, 0, 0)"
  by code_simp

end
