(* ===== verification/Ctu_Irq.thy ===== *)
theory Ctu_Irq
  imports Ctu_Rx Ctu_Config
begin

text \<open>
  The interrupt service routine and the handling of error states, from
  \<open>driver/ctucanfd_base.c\<close>. The loop of \<open>ctucan_interrupt\<close> is the recursion \<open>irq_loop\<close> on the
  number of passes left. An access through the null pointer is the fault \<open>NullDeref\<close>.
\<close>

section \<open>Error state\<close>

definition fault_state :: "u32 \<Rightarrow> u32 \<Rightarrow> can_state option" where
  "fault_state fs rec_tec =
     (let ewl = FIELD_GET REG_EWL_EW_LIMIT fs
      in if FIELD_GET REG_EWL_ERA fs \<noteq> 0
         then if ewl > FIELD_GET REG_REC_REC_VAL rec_tec \<and> ewl > FIELD_GET REG_REC_TEC_VAL rec_tec
              then Some CAN_STATE_ERROR_ACTIVE else Some CAN_STATE_ERROR_WARNING
         else if FIELD_GET REG_EWL_ERP fs \<noteq> 0 then Some CAN_STATE_ERROR_PASSIVE
         else if FIELD_GET REG_EWL_BOF fs \<noteq> 0 then Some CAN_STATE_BUS_OFF
         else None)"

definition ctucan_read_fault_state :: "'d bus \<Rightarrow> 'd ndev \<Rightarrow> can_state \<times> 'd ndev" where
  "ctucan_read_fault_state B s =
     (let (fs, s) = ctucan_read32 B CTUCANFD_EWL s;
          (rec_tec, s) = ctucan_read32 B CTUCANFD_REC s
      in case fault_state fs rec_tec of
           Some st \<Rightarrow> (st, s)
         | None \<Rightarrow> (CAN_STATE_ERROR_PASSIVE, kdo (Warn ''Invalid error state'') s))"

definition ctucan_get_rec_tec :: "'d bus \<Rightarrow> 'd ndev \<Rightarrow> can_berr_counter \<times> 'd ndev" where
  "ctucan_get_rec_tec B s =
     (let (err_ctrs, s) = ctucan_read32 B CTUCANFD_REC s
      in (\<lparr>txerr = ucast (FIELD_GET REG_REC_TEC_VAL err_ctrs),
           rxerr = ucast (FIELD_GET REG_REC_REC_VAL err_ctrs)\<rparr>, s))"

section \<open>Error interrupt\<close>

definition upd_can_stats :: "(can_device_stats \<Rightarrow> can_device_stats) \<Rightarrow> 'd ndev \<Rightarrow> 'd ndev" where
  "upd_can_stats f = upd_can (\<lambda>c. c\<lparr>can_stats := f (can_stats c)\<rparr>)"

definition cf_or_id :: "u32 \<Rightarrow> can_frame \<Rightarrow> can_frame" where
  "cf_or_id bits cf = cf\<lparr>cf_can_id := cf_can_id cf OR bits\<rparr>"

definition cf_set :: "nat \<Rightarrow> u8 \<Rightarrow> can_frame \<Rightarrow> can_frame" where
  "cf_set i v cf = cf\<lparr>cf_data := (cf_data cf)[i := v]\<rparr>"

definition cf_counters :: "can_berr_counter \<Rightarrow> can_frame \<Rightarrow> can_frame" where
  "cf_counters bec cf = cf_set 7 (ucast (rxerr bec)) (cf_set 6 (ucast (txerr bec)) cf)"

text \<open>
  The \<open>switch\<close> on the new state. The frame is \<open>None\<close> when no socket buffer could be
  allocated; the case \<open>CAN_STATE_ERROR_ACTIVE\<close> writes to it without a check.
\<close>

definition err_switch ::
  "kern \<Rightarrow> can_berr_counter \<Rightarrow> can_state \<Rightarrow> can_frame option \<Rightarrow> 'd ndev \<Rightarrow> fault + can_frame option \<times> 'd ndev" where
  "err_switch K bec st cf s =
     (let E = k_err K
      in case st of
           CAN_STATE_BUS_OFF \<Rightarrow>
             Inr (map_option (cf_or_id (CAN_ERR_BUSOFF E)) cf,
               kdo Can_bus_off (upd_can_stats (\<lambda>c. c\<lparr>bus_off := bus_off c + 1\<rparr>) s))
         | CAN_STATE_ERROR_PASSIVE \<Rightarrow>
             Inr (map_option (\<lambda>f. cf_counters bec (cf_set 1
                   (if rxerr bec > 127 then CAN_ERR_CRTL_RX_PASSIVE E else CAN_ERR_CRTL_TX_PASSIVE E)
                   (cf_or_id (CAN_ERR_CRTL E OR CAN_ERR_CNT E) f))) cf,
               upd_can_stats (\<lambda>c. c\<lparr>error_passive := error_passive c + 1\<rparr>) s)
         | CAN_STATE_ERROR_WARNING \<Rightarrow>
             Inr (map_option (\<lambda>f. cf_counters bec (cf_set 1 (cf_data f ! 1 OR
                   (if txerr bec > rxerr bec then CAN_ERR_CRTL_TX_WARNING E else CAN_ERR_CRTL_RX_WARNING E))
                   (cf_or_id (CAN_ERR_CRTL E OR CAN_ERR_CNT E) f))) cf,
               upd_can_stats (\<lambda>c. c\<lparr>error_warning := error_warning c + 1\<rparr>) s)
         | CAN_STATE_ERROR_ACTIVE \<Rightarrow>
             (case cf of
                None \<Rightarrow> Inl NullDeref
              | Some f \<Rightarrow> Inr (Some (cf_counters bec (cf_set 1 (CAN_ERR_CRTL_ACTIVE E)
                  (cf_or_id (CAN_ERR_CNT E) f))), s))
         | _ \<Rightarrow> Inr (cf, s))"

definition err_state_change ::
  "kern \<Rightarrow> u32 \<Rightarrow> can_berr_counter \<Rightarrow> can_state \<Rightarrow> can_frame option \<Rightarrow> 'd ndev
    \<Rightarrow> fault + can_frame option \<times> 'd ndev" where
  "err_state_change K isr bec st cf s =
     (if FIELD_GET REG_INT_STAT_FCSI isr \<noteq> 0 \<or> FIELD_GET REG_INT_STAT_EWLI isr \<noteq> 0
      then err_switch K bec st cf (upd_can (\<lambda>c. c\<lparr>state := st\<rparr>) s)
      else Inr (cf, s))"

definition err_arb_lost :: "kern \<Rightarrow> u32 \<Rightarrow> can_frame option \<times> 'd ndev \<Rightarrow> can_frame option \<times> 'd ndev" where
  "err_arb_lost K isr = (\<lambda>(cf, s).
     if FIELD_GET REG_INT_STAT_ALI isr \<noteq> 0
     then (map_option (\<lambda>f. cf_set 0 (CAN_ERR_LOSTARB_UNSPEC (k_err K))
             (cf_or_id (CAN_ERR_LOSTARB (k_err K)) f)) cf,
           upd_can_stats (\<lambda>c. c\<lparr>arbitration_lost := arbitration_lost c + 1\<rparr>) s)
     else (cf, s))"

definition err_bus_error :: "kern \<Rightarrow> u32 \<Rightarrow> can_frame option \<times> 'd ndev \<Rightarrow> can_frame option \<times> 'd ndev" where
  "err_bus_error K isr = (\<lambda>(cf, s).
     if FIELD_GET REG_INT_STAT_BEI isr \<noteq> 0
     then (map_option (\<lambda>f. cf_set 3 (CAN_ERR_PROT_LOC_UNSPEC (k_err K))
             (cf_set 2 (CAN_ERR_PROT_UNSPEC (k_err K))
               (cf_or_id (CAN_ERR_PROT (k_err K) OR CAN_ERR_BUSERROR (k_err K)) f))) cf,
           upd_stats (\<lambda>t. t\<lparr>rx_errors := rx_errors t + 1\<rparr>)
             (upd_can_stats (\<lambda>c. c\<lparr>bus_error := bus_error c + 1\<rparr>) s))
     else (cf, s))"

definition err_deliver :: "can_frame option \<times> 'd ndev \<Rightarrow> 'd ndev" where
  "err_deliver = (\<lambda>(cf, s). case cf of
       None \<Rightarrow> s
     | Some f \<Rightarrow> kdo (Netif_rx f) (upd_stats (\<lambda>t. t\<lparr>rx_packets := rx_packets t + 1,
         rx_bytes := rx_bytes t + ucast (cf_can_dlc f)\<rparr>) s))"

definition ctucan_err_interrupt :: "'d bus \<Rightarrow> kern \<Rightarrow> u32 \<Rightarrow> 'd ndev \<Rightarrow> fault + 'd ndev" where
  "ctucan_err_interrupt B K isr s =
     (let s = kdo Net_ratelimit s;
          (bec, s) = ctucan_get_rec_tec B s;
          (st, s) = ctucan_read_fault_state B s;
          (err_capt_alc, s) = ctucan_read32 B CTUCANFD_ERR_CAPT s;
          cf = k_alloc_can_err_skb K (klog s);
          s = kdo Alloc_can_err_skb s
      in case err_state_change K isr bec st cf s of
           Inl f \<Rightarrow> Inl f
         | Inr x \<Rightarrow> Inr (err_deliver (err_bus_error K isr (err_arb_lost K isr x))))"

section \<open>Interrupt service routine\<close>

datatype irqreturn = IRQ_NONE | IRQ_HANDLED

definition irq_rx :: "'d bus \<Rightarrow> u32 \<Rightarrow> 'd ndev \<Rightarrow> 'd ndev" where
  "irq_rx B isr s =
     (if FIELD_GET REG_INT_STAT_RBNEI isr \<noteq> 0
      then kdo Napi_schedule (ctucan_write32 B CTUCANFD_INT_STAT REG_INT_STAT_RBNEI
        (ctucan_write32 B CTUCANFD_INT_MASK_SET REG_INT_STAT_RBNEI s))
      else s)"

definition irq_tx :: "'d bus \<Rightarrow> kern \<Rightarrow> u32 \<Rightarrow> 'd ndev \<Rightarrow> 'd ndev" where
  "irq_tx B K isr s =
     (if FIELD_GET REG_INT_STAT_TXBHCI isr \<noteq> 0 then ctucan_tx_interrupt B K s else s)"

definition irq_err :: "'d bus \<Rightarrow> kern \<Rightarrow> u32 \<Rightarrow> 'd ndev \<Rightarrow> fault + 'd ndev" where
  "irq_err B K isr s =
     (if FIELD_GET REG_INT_STAT_EWLI isr \<noteq> 0 \<or> FIELD_GET REG_INT_STAT_FCSI isr \<noteq> 0
         \<or> FIELD_GET REG_INT_STAT_ALI isr \<noteq> 0
      then let icr = isr AND (REG_INT_STAT_EWLI OR REG_INT_STAT_FCSI OR REG_INT_STAT_ALI)
           in ctucan_err_interrupt B K isr (ctucan_write32 B CTUCANFD_INT_STAT icr s)
      else Inr s)"

text \<open>
  \<open>Inr (Inl r, s)\<close>: returned \<open>r\<close> from inside the loop; \<open>Inr (Inr isr, s)\<close>: the loop ran out
  of passes with this last status.
\<close>

primrec irq_loop ::
  "'d bus \<Rightarrow> kern \<Rightarrow> nat \<Rightarrow> bool \<Rightarrow> u32 \<Rightarrow> 'd ndev \<Rightarrow> fault + (irqreturn + u32) \<times> 'd ndev" where
  "irq_loop B K 0 looped isr s = Inr (Inr isr, s)"
| "irq_loop B K (Suc left) looped isr s =
     (let (isr, s) = ctucan_read32 B CTUCANFD_INT_STAT s
      in if isr = 0 then Inr (Inl (if looped then IRQ_HANDLED else IRQ_NONE), s)
      else case irq_err B K isr (irq_tx B K isr (irq_rx B isr s)) of
             Inl f \<Rightarrow> Inl f
           | Inr s \<Rightarrow> irq_loop B K left True isr s)"

definition irq_dump_txb :: "'d bus \<Rightarrow> 'd ndev \<Rightarrow> 'd ndev" where
  "irq_dump_txb B s =
     foldl (\<lambda>s i. let (status, s) = ctucan_get_tx_status B (of_nat i) s
                  in kdo (Netdev_err ''txb[%d] txb status=0x%08x'') s)
       (kdo (Netdev_err ''txb_head=0x%08x txb_tail=0x%08x'') s) [0..<unat (ntxbufs (priv s))]"

definition irq_stuck :: "'d bus \<Rightarrow> u32 \<Rightarrow> 'd ndev \<Rightarrow> 'd ndev" where
  "irq_stuck B isr s =
     (let s = kdo (Netdev_err ''stuck interrupt (isr=0x%08x), stopping'') s;
          s = (if FIELD_GET REG_INT_STAT_TXBHCI isr \<noteq> 0 then irq_dump_txb B s else s);
          imask = 0xFFFFFFFF;
          s = ctucan_write32 B CTUCANFD_INT_ENA_CLR imask s
      in ctucan_write32 B CTUCANFD_INT_MASK_SET imask s)"

definition ctucan_interrupt :: "'d bus \<Rightarrow> kern \<Rightarrow> 'd ndev \<Rightarrow> fault + irqreturn \<times> 'd ndev" where
  "ctucan_interrupt B K s =
     (case irq_loop B K 10000 False 0 s of
        Inl f \<Rightarrow> Inl f
      | Inr (Inl r, s) \<Rightarrow> Inr (r, s)
      | Inr (Inr isr, s) \<Rightarrow> Inr (IRQ_HANDLED, irq_stuck B isr s))"

section \<open>Properties\<close>

lemma irq_loop_handled: "irq_loop B K n True isr s \<noteq> Inr (Inl IRQ_NONE, s')"
  by (induction n arbitrary: isr s) (auto simp: Let_def split: prod.split sum.split)

text \<open>The interrupt service routine disowns an interrupt exactly when the status register reads as
  zero at once, and then it has done nothing but this read.\<close>

lemma irq_none_iff:
  "ctucan_interrupt B K s = Inr (IRQ_NONE, s') \<longleftrightarrow> ctucan_read32 B CTUCANFD_INT_STAT s = (0, s')"
proof -
  obtain v s1 where rd: "ctucan_read32 B CTUCANFD_INT_STAT s = (v, s1)" by fastforce
  have l: "irq_loop B K 10000 False 0 s = (if v = 0 then Inr (Inl IRQ_NONE, s1)
      else case irq_err B K v (irq_tx B K v (irq_rx B v s1)) of Inl f \<Rightarrow> Inl f
        | Inr s \<Rightarrow> irq_loop B K 9999 True v s)"
    using irq_loop.simps(2) [of B K 9999 False 0 s] rd by (simp add: Let_def)
  have "irq_loop B K 9999 True v x \<noteq> Inr (Inl IRQ_NONE, y)" for x y by (rule irq_loop_handled)
  then show ?thesis using rd unfolding ctucan_interrupt_def l
    by (cases "v = 0") (auto split: sum.splits irqreturn.splits)
qed

text \<open>C39: The error interrupt dereferences a null pointer exactly when it reports a change of state,
  the state read is error-active and no socket buffer could be allocated; it has no other fault.\<close>

theorem err_interrupt_fault_iff:
  assumes "ctucan_get_rec_tec B (kdo Net_ratelimit s) = (bec, s1)" "ctucan_read_fault_state B s1 = (st, s2)"
    "ctucan_read32 B CTUCANFD_ERR_CAPT s2 = (capt, s3)"
  shows "ctucan_err_interrupt B K isr s = Inl f \<longleftrightarrow>
    f = NullDeref \<and> (FIELD_GET REG_INT_STAT_FCSI isr \<noteq> 0 \<or> FIELD_GET REG_INT_STAT_EWLI isr \<noteq> 0) \<and>
    st = CAN_STATE_ERROR_ACTIVE \<and> k_alloc_can_err_skb K (klog s3) = None"
  using assms
  by (cases st) (auto simp: ctucan_err_interrupt_def err_state_change_def err_switch_def Let_def
      split: option.splits if_splits)

definition era_regs :: "iomem \<Rightarrow> u32" where
  "era_regs = (\<lambda>_. 0)(ucast CTUCANFD_EWL := 0x10060)"

theorem err_interrupt_fault_iff_witness:
  "ctucan_err_interrupt regfile (demo_kern\<lparr>k_alloc_can_err_skb := \<lambda>_. None\<rparr>) REG_INT_STAT_FCSI
     (demo_ndev [] era_regs) = Inl NullDeref"
proof -
  have r: "ctucan_get_rec_tec regfile (kdo Net_ratelimit (demo_ndev [] era_regs)) =
      (\<lparr>txerr = 0, rxerr = 0\<rparr>, kdo Net_ratelimit (demo_ndev [] era_regs))"
    "ctucan_read_fault_state regfile (kdo Net_ratelimit (demo_ndev [] era_regs)) =
      (CAN_STATE_ERROR_ACTIVE, kdo Net_ratelimit (demo_ndev [] era_regs))"
    "ctucan_read32 regfile CTUCANFD_ERR_CAPT (kdo Net_ratelimit (demo_ndev [] era_regs)) =
      (0, kdo Net_ratelimit (demo_ndev [] era_regs))"
    by (simp_all add: ctucan_get_rec_tec_def ctucan_read_fault_state_def fault_state_def ctucan_read32_bus
        regfile_def demo_ndev_def demo_priv_def era_regs_def kdo_def reg_addrs reg_masks FIELD_GET_GENMASK
        FIELD_GET_BIT bus_order_def take_bit_eq_mod drop_bit_eq_div Let_def)
  have "FIELD_GET REG_INT_STAT_FCSI REG_INT_STAT_FCSI \<noteq> 0"
    by (simp add: REG_INT_STAT_FCSI_def FIELD_GET_BIT bit_BIT)
  then show ?thesis by (subst err_interrupt_fault_iff [OF r]) simp
qed

lemma interrupt_bei:
  assumes "ctucan_read32 B CTUCANFD_INT_STAT s = (REG_INT_STAT_BEI, s)"
  shows "ctucan_interrupt B K s = Inr (IRQ_HANDLED, irq_stuck B REG_INT_STAT_BEI s)"
proof -
  have z: "FIELD_GET REG_INT_STAT_RBNEI REG_INT_STAT_BEI = 0" "FIELD_GET REG_INT_STAT_TXBHCI REG_INT_STAT_BEI = 0"
    "FIELD_GET REG_INT_STAT_EWLI REG_INT_STAT_BEI = 0" "FIELD_GET REG_INT_STAT_FCSI REG_INT_STAT_BEI = 0"
    "FIELD_GET REG_INT_STAT_ALI REG_INT_STAT_BEI = 0" "REG_INT_STAT_BEI \<noteq> 0"
    by (simp_all add: reg_masks FIELD_GET_BIT bit_BIT) (simp add: BIT_def)
  have "irq_loop B K n l isr s = Inr (Inr (if n = 0 then isr else REG_INT_STAT_BEI), s)" for n l isr
    by (induction n arbitrary: l isr) (use assms z in \<open>simp_all add: irq_rx_def irq_tx_def irq_err_def\<close>)
  then show ?thesis by (simp add: ctucan_interrupt_def)
qed

text \<open>C40: A bus error interrupt on its own is never acknowledged: while the status register keeps
  showing it, the routine runs through all its 10000 passes and then switches every interrupt
  of the controller off.\<close>

theorem irq_bus_error_stuck:
  assumes "ctucan_read32 B CTUCANFD_INT_STAT s = (REG_INT_STAT_BEI, s)"
  shows "ctucan_interrupt B K s = Inr (IRQ_HANDLED, irq_stuck B REG_INT_STAT_BEI s)"
  by (rule interrupt_bei [OF assms])

definition bei_regs :: "iomem \<Rightarrow> u32" where
  "bei_regs = (\<lambda>_. 0)(ucast CTUCANFD_INT_STAT := REG_INT_STAT_BEI)"

theorem irq_bus_error_stuck_witness:
  "ctucan_interrupt regfile demo_kern (demo_ndev [] bei_regs) =
     Inr (IRQ_HANDLED, irq_stuck regfile REG_INT_STAT_BEI (demo_ndev [] bei_regs))"
  by (rule irq_bus_error_stuck) (simp add: ctucan_read32_bus regfile_def demo_ndev_def demo_priv_def
      bei_regs_def bus_order_def)

end
