(* ===== verification/Ctu_System.thy ===== *)
theory Ctu_System
  imports Ctu_Core Ctu_Irq
begin

text \<open>
  The running driver on the running controller: transmissions requested by the network layer,
  interrupts, polls and clock cycles of the hardware in any order. The step relation
  \<open>sys_step\<close> runs the driver's entry points on the device of \<open>Ctu_Core\<close>; the invariant
  \<open>sys_inv\<close> of its reachable states is proved once for every device that meets \<open>txt_core\<close>.
\<close>

section \<open>Steps that leave transmission alone\<close>

text \<open>The state of the transmit queue, replayed from the calls of the driver.\<close>

fun queue_awake :: "kcall list \<Rightarrow> bool" where
  "queue_awake (Netif_stop_queue # l) = False"
| "queue_awake (Netif_wake_queue # l) = True"
| "queue_awake (Netif_start_queue # l) = True"
| "queue_awake (_ # l) = queue_awake l"
| "queue_awake [] = False"

text \<open>
  The messages of the interrupt routine when it gives up; every other error message of the running driver
  reports a bug.
\<close>

definition stuck_report :: kcall where
  "stuck_report = Netdev_err ''stuck interrupt (isr=0x%08x), stopping''"

definition dump_reports :: "kcall list" where
  "dump_reports = [Netdev_err ''txb_head=0x%08x txb_tail=0x%08x'', Netdev_err ''txb[%d] txb status=0x%08x'']"

definition is_bug :: "kcall \<Rightarrow> bool" where
  "is_bug c \<longleftrightarrow> is_err c \<and> c \<noteq> stuck_report \<and> c \<notin> set dump_reports"

definition given_up :: "kcall list \<Rightarrow> bool" where
  "given_up l \<longleftrightarrow> stuck_report \<in> set l"

fun tx_neutral :: "kcall \<Rightarrow> bool" where
  "tx_neutral Netif_stop_queue = False"
| "tx_neutral Netif_wake_queue = False"
| "tx_neutral Netif_start_queue = False"
| "tx_neutral (Can_put_echo_skb _ _) = False"
| "tx_neutral (Can_get_echo_skb _) = False"
| "tx_neutral (Can_free_echo_skb _) = False"
| "tx_neutral (Netdev_err m) = (Netdev_err m \<in> set dump_reports)"
| "tx_neutral _ = True"

definition same_tx :: "ctucan_priv \<Rightarrow> ctucan_priv \<Rightarrow> bool" where
  "same_tx p q \<longleftrightarrow> reg_access q = reg_access p \<and> mem_base q = mem_base p \<and> ntxbufs q = ntxbufs p \<and>
     txb_head q = txb_head p \<and> txb_tail q = txb_tail p \<and> txb_prio q = txb_prio p"

definition drift :: "nat \<Rightarrow> ('d \<Rightarrow> txview) \<Rightarrow> 'd ndev \<Rightarrow> 'd ndev \<Rightarrow> bool" where
  "drift n view s s' \<longleftrightarrow> same_tx (priv s) (priv s') \<and> hwsteps n (view (hw s)) (view (hw s')) \<and>
     (\<exists>l. klog s' = l @ klog s \<and> list_all tx_neutral l)"

lemma drift_refl [simp]: "drift n view s s"
  by (simp add: drift_def same_tx_def)

lemma drift_trans [trans]: "drift n view s s' \<Longrightarrow> drift n view s' s'' \<Longrightarrow> drift n view s s''"
  unfolding drift_def same_tx_def by (auto intro: rtranclp_trans)

lemma drift_kdo: "drift n view s s' \<Longrightarrow> tx_neutral c \<Longrightarrow> drift n view s (kdo c s')"
  unfolding drift_def by auto

lemma drift_upd:
  "drift n view s (upd_stats f s') = drift n view s s'"
  "drift n view s (upd_can g s') = drift n view s s'"
  "drift n view s (upd_can_stats h s') = drift n view s s'"
  by (simp_all add: drift_def same_tx_def upd_can_def upd_can_stats_def)

lemma drift_upd_rx:
  "drift n view s (upd_priv (\<lambda>p. p\<lparr>drv_flags := a p\<rparr>) s') = drift n view s s'"
  "drift n view s (upd_priv (\<lambda>p. p\<lparr>rxfrm_first_word := b p, drv_flags := a p\<rparr>) s') = drift n view s s'"
  by (simp_all add: drift_def same_tx_def)

lemma same_tx_fields: "same_tx p q \<Longrightarrow> tx_t q = tx_t p \<and> tx_m q = tx_m p \<and>
   attached acc base n q = attached acc base n p"
  by (simp add: same_tx_def tx_t_def tx_m_def attached_def)

lemma drift_sync: "drift n view s s' \<Longrightarrow> tx_sync acc base n sg view s \<Longrightarrow> tx_sync acc base n sg view s'"
  using hwsteps_keep [of n "view (hw s)" "view (hw s')"] same_tx_fields [of "priv s" "priv s'" acc base n]
  by (auto simp: drift_def tx_sync_def tx_inv_def same_tx_def)

lemma drift_tail: "drift n view s s' \<Longrightarrow> tail_fin n view s \<Longrightarrow> tail_fin n view s'"
  using hwsteps_keep(7) [of n "view (hw s)" "view (hw s')"] same_tx_fields [of "priv s" "priv s'"]
  by (auto simp: drift_def)

lemma neutral_log:
  assumes "list_all tx_neutral l"
  shows "queue_awake (l @ l') = queue_awake l'" "echo_of (l @ l') = echo_of l'"
    "echo_ok (l @ l') = echo_ok l'" "\<not> list_ex is_bug l" "given_up (l @ l') = given_up l'"
proof -
  have "stuck_report \<notin> set dump_reports" by (simp add: stuck_report_def dump_reports_def)
  then have n: "\<not> is_bug c \<and> c \<noteq> stuck_report" if "tx_neutral c" for c
    using that by (cases c) (auto simp: is_bug_def is_err_def stuck_report_def)
  have "queue_awake (l @ l') = queue_awake l' \<and> echo_of (l @ l') = echo_of l' \<and> echo_ok (l @ l') = echo_ok l'"
    using assms
  proof (induction l)
    case (Cons c l)
    then show ?case by (cases c) simp_all
  qed simp
  moreover have "\<not> list_ex is_bug l" "stuck_report \<notin> set l"
    using n assms by (auto simp: list_ex_iff list_all_iff)
  ultimately show "queue_awake (l @ l') = queue_awake l'" "echo_of (l @ l') = echo_of l'"
    "echo_ok (l @ l') = echo_ok l'" "\<not> list_ex is_bug l" "given_up (l @ l') = given_up l'"
    by (simp_all add: given_up_def)
qed

lemma quiet_log:
  assumes "quiet s s'"
  shows "list_ex is_bug (klog s') = list_ex is_bug (klog s) \<and> given_up (klog s') = given_up (klog s)"
proof -
  have "is_err stuck_report" by (simp add: is_err_def stuck_report_def)
  then show ?thesis using assms by (auto simp: quiet_def is_bug_def given_up_def list_ex_iff)
qed

lemma log_simps [simp]:
  "\<not> is_err c \<Longrightarrow> given_up (c # l) = given_up l" "\<not> is_err c \<Longrightarrow> \<not> is_bug c"
  "\<not> is_err (Can_put_echo_skb b i)" "\<not> is_err (Can_dropped_skb b)" "\<not> is_err Spin_lock_irqsave"
  "\<not> is_err Spin_unlock_irqrestore" "\<not> is_err Netif_stop_queue" "\<not> is_err Netif_start_queue"
  by (auto simp: given_up_def is_bug_def is_err_def stuck_report_def)

section \<open>Invariant\<close>

text \<open>
  \<open>e\<close> is the number of buffers filled but not yet handed over, at most one; \<open>on\<close> says whether the mode of the
  controller lets it signal finished buffers, which it then does until the interrupt routine gives up.
\<close>

definition sys_inv :: "io_access \<Rightarrow> iomem \<Rightarrow> nat \<Rightarrow> bool \<Rightarrow> ('d \<Rightarrow> txview) \<Rightarrow> nat \<Rightarrow> 'd ndev \<Rightarrow> bool" where
  "sys_inv acc base n on view e s \<longleftrightarrow> tx_sync acc base n (on \<and> \<not> given_up (klog s)) view s \<and>
     echo_win n e (priv s) (klog s) \<and> tx_m (priv s) + e \<le> n \<and> (queue_awake (klog s) \<longleftrightarrow> tx_m (priv s) < n) \<and>
     \<not> list_ex is_bug (klog s)"

lemma drift_sys_inv: "drift n view s s' \<Longrightarrow> sys_inv acc base n on view e s \<Longrightarrow> sys_inv acc base n on view e s'"
  using drift_sync [of n view s s' acc base] same_tx_fields [of "priv s" "priv s'"]
  by (auto simp: sys_inv_def drift_def echo_win_def neutral_log)

context txt_core
begin

lemma drift_read:
  assumes "drift n view s0 s" "attached acc base n (priv s0)"
  shows "drift n view s0 (snd (ctucan_read32 B reg s))"
proof -
  have "attached acc base n (priv s)"
    using assms same_tx_fields [of "priv s0" "priv s"] by (auto simp: drift_def)
  from read_evolves [OF this, of reg] have "drift n view s (snd (ctucan_read32 B reg s))"
    by (simp add: drift_def evolves_def same_tx_def)
  then show ?thesis using assms(1) drift_trans by blast
qed

lemma drift_write:
  assumes "drift n view s0 s" "attached acc base n (priv s0)"
    "reg \<in> {CTUCANFD_COMMAND, CTUCANFD_INT_MASK_SET, CTUCANFD_INT_MASK_CLR, CTUCANFD_INT_STAT}"
    "w AND REG_INT_STAT_TXBHCI = 0"
  shows "drift n view s0 (ctucan_write32 B reg w s)"
proof -
  have at: "attached acc base n (priv s)"
    using assms same_tx_fields [of "priv s0" "priv s"] by (auto simp: drift_def)
  have "hwsteps n (view (hw s)) (view (hw (ctucan_write32 B reg w s)))"
    using st_int_stat [of "hw s" w] st_int_mask [of "hw s" w] st_int_unmask [OF assms(4), of "hw s"]
      st_other [of CTUCANFD_COMMAND "hw s" w] at assms(3,4)
    by (auto simp: attached_def ctucan_write32_bus sw_int_clear_def sw_int_mask_def intro: rtranclp_trans)
  then have "drift n view s (ctucan_write32 B reg w s)" by (simp add: drift_def same_tx_def)
  then show ?thesis using assms(1) drift_trans by blast
qed

end

lemma neutral_masks:
  "REG_INT_STAT_RBNEI AND REG_INT_STAT_TXBHCI = 0" "REG_COMMAND_CDO AND REG_INT_STAT_TXBHCI = 0"
  "(isr AND (REG_INT_STAT_EWLI OR REG_INT_STAT_FCSI OR REG_INT_STAT_ALI)) AND REG_INT_STAT_TXBHCI = 0"
  by (auto intro!: bit_eqI simp: reg_masks bit_simps bit_BIT)

context txt_core
begin

lemma rx_data_loop_drift:
  assumes "rx_data_loop B len i bs s = Inr (j, bs', s')" "drift n view s0 s" "attached acc base n (priv s0)"
  shows "drift n view s0 s'"
  using assms(1,2)
proof (induction "unat len - i" arbitrary: i bs s rule: less_induct)
  case less
  show ?case
    using less.hyps [of "i + 4" _ "snd (ctucan_read32 B CTUCANFD_RX_DATA s)"] less.prems
      drift_read [OF less.prems(2) assms(3)]
    by (auto simp: rx_data_loop.simps [of B len i] Let_def split_def split: if_splits option.splits)
qed

lemma rx_skip_loop_drift:
  assumes "drift n view s0 s" "attached acc base n (priv s0)"
  shows "drift n view s0 (rx_skip_loop B i bytes s)"
  using assms(1)
proof (induction "bytes - i" arbitrary: i s rule: less_induct)
  case less
  show ?case
    using less.hyps [of "i + 4" "snd (ctucan_read32 B CTUCANFD_RX_DATA s)"] less.prems
      drift_read [OF less.prems assms(2)]
    by (auto simp: rx_skip_loop.simps [of B i] Let_def split_def)
qed

lemma read_rx_frame_drift:
  assumes "ctucan_read_rx_frame B cf ffw s = Inr (cf', s')" "drift n view s0 s" "attached acc base n (priv s0)"
  shows "drift n view s0 s'"
proof -
  note rd = drift_read [OF _ assms(3)]
  let ?s3 = "snd (ctucan_read32 B CTUCANFD_RX_DATA (snd (ctucan_read32 B CTUCANFD_RX_DATA
    (snd (ctucan_read32 B CTUCANFD_RX_DATA s)))))"
  have "drift n view s0 ?s3" by (intro rd assms(2))
  then show ?thesis
    using assms(1) rx_data_loop_drift [OF _ _ assms(3)] rx_skip_loop_drift [OF _ assms(3)]
    by (auto simp: ctucan_read_rx_frame_def Let_def split_def split: sum.splits)
qed

lemma rx_drift:
  assumes "ctucan_rx B K s = Inr (r, s')" "drift n view s0 s" "attached acc base n (priv s0)"
  shows "drift n view s0 s'"
proof -
  obtain ffw s1 where w: "rx_first_word B s = (ffw, s1)" by (cases "rx_first_word B s")
  have d1: "drift n view s0 s1"
    using w assms(2) drift_read [OF assms(2,3), of CTUCANFD_RX_DATA]
    by (auto simp: rx_first_word_def drift_upd_rx split: if_splits)
  obtain cf s2 where a: "rx_alloc K (FIELD_GET REG_FRAME_FORMAT_W_FDF ffw \<noteq> 0) s1 = (cf, s2)"
    by (cases "rx_alloc K (FIELD_GET REG_FRAME_FORMAT_W_FDF ffw \<noteq> 0) s1")
  have d2: "drift n view s0 s2"
    using a d1 by (auto simp: rx_alloc_def intro!: drift_kdo split: if_splits)
  have "drift n view s0 (rx_keep_ffw ffw s2)"
    using d2 by (simp add: rx_keep_ffw_def drift_upd_rx)
  moreover have "drift n view s0 (rx_deliver fd cf' s3)"
    if "ctucan_read_rx_frame B x ffw s2 = Inr (cf', s3)" for fd x cf' s3
    unfolding rx_deliver_def
    by (rule drift_kdo) (simp_all add: drift_upd read_rx_frame_drift [OF that d2 assms(3)])
  ultimately show ?thesis
    using assms(1) w a d1 by (auto simp: ctucan_rx_def split: if_splits option.splits sum.splits)
qed

lemma rx_framecnt_drift:
  "drift n view s0 s \<Longrightarrow> attached acc base n (priv s0) \<Longrightarrow> drift n view s0 (snd (rx_framecnt B s))"
  using drift_read by (simp add: rx_framecnt_def Let_def split_def)

lemma rx_poll_loop_drift:
  assumes "rx_poll_loop B K quota fc wd res s = Inr (fc', wd', res', s')" "drift n view s0 s"
    "attached acc base n (priv s0)"
  shows "drift n view s0 s'"
  using assms(1,2)
proof (induction "nat (quota - wd)" arbitrary: fc wd res s rule: less_induct)
  case less
  show ?case
  proof (cases "fc \<noteq> 0 \<and> wd < quota \<and> res > 0")
    case True
    then obtain r s1 where rx: "ctucan_rx B K s = Inr (r, s1)"
      and rest: "rx_poll_loop B K quota (fst (rx_framecnt B s1)) (wd + 1) r (snd (rx_framecnt B s1)) =
        Inr (fc', wd', res', s')"
      using less.prems(1) by (auto simp: rx_poll_loop.simps [of B K quota fc] Let_def split_def split: sum.splits)
    have "drift n view s0 (snd (rx_framecnt B s1))"
      by (rule rx_framecnt_drift [OF rx_drift [OF rx less.prems(2) assms(3)] assms(3)])
    from less.hyps [OF _ rest this] show ?thesis using True by simp
  next
    case False
    then show ?thesis using less.prems by (auto simp: rx_poll_loop.simps [of B K quota fc])
  qed
qed

lemma rx_overrun_drift:
  assumes "drift n view s0 s" "attached acc base n (priv s0)"
  shows "drift n view s0 (rx_overrun B K s)"
  unfolding rx_overrun_def Let_def
  using assms neutral_masks
  by (intro drift_write) (auto simp: drift_upd intro!: drift_kdo split: option.split)

lemma rx_poll_drift:
  assumes "ctucan_rx_poll B K quota s = Inr (r, s')" "attached acc base n (priv s)"
  shows "drift n view s s'"
proof -
  obtain fc s1 where f: "rx_framecnt B s = (fc, s1)" by (cases "rx_framecnt B s")
  then obtain fc' wd res s2 where l: "rx_poll_loop B K quota fc 0 1 s1 = Inr (fc', wd, res, s2)"
    using assms(1) by (auto simp: ctucan_rx_poll_def split: sum.splits)
  have "drift n view s s1" using rx_framecnt_drift [of s s] f assms(2) by simp
  then have d2: "drift n view s s2" by (rule rx_poll_loop_drift [OF l _ assms(2)])
  have d3: "drift n view s (snd (ctucan_read32 B CTUCANFD_STATUS s2))" by (rule drift_read [OF d2 assms(2)])
  show ?thesis
    using assms(1) f l d3 rx_overrun_drift [OF d3 assms(2)] neutral_masks assms(2)
    by (auto simp: ctucan_rx_poll_def Let_def split_def intro!: drift_kdo drift_write split: if_splits)
qed

end

lemma err_switch_drift:
  "err_switch K bec st cf s = Inr (cf', s') \<Longrightarrow> drift n view s0 s \<Longrightarrow> drift n view s0 s'"
  by (auto simp: err_switch_def Let_def drift_upd intro!: drift_kdo split: can_state.splits option.splits)

lemma err_state_change_drift:
  "err_state_change K isr bec st cf s = Inr (cf', s') \<Longrightarrow> drift n view s0 s \<Longrightarrow> drift n view s0 s'"
  by (auto simp: err_state_change_def drift_upd split: if_splits intro: err_switch_drift)

lemma err_tail_drift:
  "drift n view s0 s \<Longrightarrow> drift n view s0 (err_deliver (err_bus_error K isr (err_arb_lost K isr (cf, s))))"
  by (auto simp: err_deliver_def err_bus_error_def err_arb_lost_def drift_upd intro!: drift_kdo
      split: option.split)

context txt_core
begin

lemma err_interrupt_drift:
  assumes "ctucan_err_interrupt B K isr s = Inr s'" "drift n view s0 s" "attached acc base n (priv s0)"
  shows "drift n view s0 s'"
proof -
  note rd = drift_read [OF _ assms(3)]
  obtain bec s1 where r: "ctucan_get_rec_tec B (kdo Net_ratelimit s) = (bec, s1)"
    by (cases "ctucan_get_rec_tec B (kdo Net_ratelimit s)")
  obtain st s2 where f: "ctucan_read_fault_state B s1 = (st, s2)"
    by (cases "ctucan_read_fault_state B s1")
  obtain w s3 where e: "ctucan_read32 B CTUCANFD_ERR_CAPT s2 = (w, s3)"
    by (cases "ctucan_read32 B CTUCANFD_ERR_CAPT s2")
  have "drift n view s0 (kdo Net_ratelimit s)" using assms(2) by (rule drift_kdo) simp
  from rd [OF this, of CTUCANFD_REC] have d1: "drift n view s0 s1"
    using r by (auto simp: ctucan_get_rec_tec_def Let_def split_def)
  have d2: "drift n view s0 s2"
    using f rd [OF rd [OF d1, of CTUCANFD_EWL], of CTUCANFD_REC]
    by (auto simp: ctucan_read_fault_state_def Let_def split_def intro!: drift_kdo split: option.splits)
  have "drift n view s0 s3" using rd [OF d2, of CTUCANFD_ERR_CAPT] e by simp
  then have d3: "drift n view s0 (kdo Alloc_can_err_skb s3)" by (rule drift_kdo) simp
  obtain cf s4 where c: "err_state_change K isr bec st (k_alloc_can_err_skb K (klog s3))
      (kdo Alloc_can_err_skb s3) = Inr (cf, s4)"
    and s': "s' = err_deliver (err_bus_error K isr (err_arb_lost K isr (cf, s4)))"
    using assms(1) r f e by (auto simp: ctucan_err_interrupt_def Let_def split: sum.splits)
  show ?thesis unfolding s' by (rule err_tail_drift [OF err_state_change_drift [OF c d3]])
qed

lemma irq_rx_drift:
  assumes "drift n view s0 s" "attached acc base n (priv s0)"
  shows "drift n view s0 (irq_rx B isr s)"
  using assms neutral_masks by (auto simp: irq_rx_def intro!: drift_kdo drift_write)

lemma irq_err_drift:
  assumes "irq_err B K isr s = Inr s'" "attached acc base n (priv s)"
  shows "drift n view s s'"
proof -
  have "drift n view s (ctucan_write32 B CTUCANFD_INT_STAT
      (isr AND (REG_INT_STAT_EWLI OR REG_INT_STAT_FCSI OR REG_INT_STAT_ALI)) s)"
    by (rule drift_write [OF drift_refl assms(2)]) (simp_all add: neutral_masks)
  then show ?thesis
    using assms err_interrupt_drift by (auto simp: irq_err_def Let_def split: if_splits)
qed

lemma sys_inv_attached: "sys_inv acc base n on view e s \<Longrightarrow> attached acc base n (priv s)"
  by (simp add: sys_inv_def tx_sync_def tx_inv_def)

lemma queue_after_wake: "queue_awake (Spin_unlock_irqrestore # Netif_wake_queue # l)"
  by simp

lemma tx_interrupt_sys_inv:
  assumes "sys_inv acc base n on view e s" "tail_fin n view s"
  shows "sys_inv acc base n on view e (ctucan_tx_interrupt B K s)"
    and "tx_m (priv (ctucan_tx_interrupt B K s)) < tx_m (priv s)"
    and "queue_awake (klog (ctucan_tx_interrupt B K s))"
proof -
  let ?s = "ctucan_tx_interrupt B K s"
  have i: "tx_inv acc base n (on \<and> \<not> given_up (klog s)) view s" "echo_win n e (priv s) (klog s)" "tx_m (priv s) + e \<le> n"
    using assms(1) by (simp_all add: sys_inv_def tx_sync_def)
  note t = tx_interrupt_sync [OF i(1,2) assms(2) i(3), of K]
  show aw: "queue_awake (klog ?s)" using t(5) by auto
  show lt: "tx_m (priv ?s) < tx_m (priv s)" using t(4) .
  have "\<not> list_ex is_bug (klog ?s)" "given_up (klog ?s) = given_up (klog s)"
    using quiet_log [OF t(3)] assms(1) by (auto simp: sys_inv_def)
  moreover have "tx_m (priv ?s) < n" using lt tx_inv_m [OF i(1)] by simp
  ultimately show "sys_inv acc base n on view e ?s" using t(1,2) aw lt i(3) by (simp add: sys_inv_def)
qed

lemma irq_tx_sys_inv:
  assumes "sys_inv acc base n on view e s" "ctucan_read32 B CTUCANFD_INT_STAT s = (isr, s1)"
    "drift n view s1 s2"
  shows "sys_inv acc base n on view e (irq_tx B K isr s2)"
proof -
  have at: "attached acc base n (priv s)" using assms(1) by (rule sys_inv_attached)
  have d1: "drift n view s s1" using drift_read [OF drift_refl at, of CTUCANFD_INT_STAT] assms(2) by simp
  then have i2: "sys_inv acc base n on view e s2" using drift_sys_inv [OF drift_trans [OF d1 assms(3)] assms(1)] by simp
  have "tail_fin n view s2" if "FIELD_GET REG_INT_STAT_TXBHCI isr \<noteq> 0"
  proof -
    have "hci (view (hw s1))"
      using that ld_int_stat [of "hw s", OF prod.collapse [symmetric]] assms(2) at
      by (auto simp: attached_def ctucan_read32_bus Let_def split_def)
    moreover have "sys_inv acc base n on view e s1" using drift_sys_inv [OF d1 assms(1)] .
    ultimately have "tail_fin n view s1" by (simp add: sys_inv_def tx_sync_def hci_sound_def)
    then show ?thesis using drift_tail [OF assms(3)] by simp
  qed
  then show ?thesis using i2 tx_interrupt_sys_inv(1) by (simp add: irq_tx_def)
qed

lemma irq_loop_sys_inv:
  assumes "irq_loop B K left looped isr s = Inr (r, s')" "sys_inv acc base n on view e s"
  shows "sys_inv acc base n on view e s'"
  using assms
proof (induction left arbitrary: looped isr s)
  case (Suc left)
  obtain w s1 where w: "ctucan_read32 B CTUCANFD_INT_STAT s = (w, s1)"
    by (cases "ctucan_read32 B CTUCANFD_INT_STAT s")
  have d1: "drift n view s s1"
    using drift_read [OF drift_refl sys_inv_attached [OF Suc.prems(2)], of CTUCANFD_INT_STAT] w by simp
  then have i1: "sys_inv acc base n on view e s1" using Suc.prems(2) by (rule drift_sys_inv)
  show ?case
  proof (cases "w = 0")
    case True
    then show ?thesis using Suc.prems(1) w i1 by simp
  next
    case False
    have d2: "drift n view s1 (irq_rx B w s1)"
      by (rule irq_rx_drift [OF drift_refl sys_inv_attached [OF i1]])
    have i2: "sys_inv acc base n on view e (irq_tx B K w (irq_rx B w s1))"
      by (rule irq_tx_sys_inv [OF Suc.prems(2) w d2])
    obtain s2 where e: "irq_err B K w (irq_tx B K w (irq_rx B w s1)) = Inr s2"
      and rest: "irq_loop B K left True w s2 = Inr (r, s')"
      using Suc.prems(1) w False by (auto split: sum.splits)
    have "sys_inv acc base n on view e s2"
      using drift_sys_inv [OF irq_err_drift [OF e sys_inv_attached [OF i2]] i2] .
    then show ?thesis using Suc.IH [OF rest] by simp
  qed
qed simp

lemma irq_loop_head:
  assumes "irq_loop B K left looped isr s = Inr (r, s')" "sys_inv acc base n on view e s"
  shows "txb_head (priv s') = txb_head (priv s) \<and> ntxbufs (priv s') = ntxbufs (priv s)"
  using assms
proof (induction left arbitrary: looped isr s)
  case (Suc left)
  obtain w s1 where w: "ctucan_read32 B CTUCANFD_INT_STAT s = (w, s1)"
    by (cases "ctucan_read32 B CTUCANFD_INT_STAT s")
  have at: "attached acc base n (priv s)" using Suc.prems(2) by (rule sys_inv_attached)
  have d1: "drift n view s s1" using drift_read [OF drift_refl at, of CTUCANFD_INT_STAT] w by simp
  then have i1: "sys_inv acc base n on view e s1" using Suc.prems(2) by (rule drift_sys_inv)
  show ?case
  proof (cases "w = 0")
    case True
    then show ?thesis using Suc.prems(1) w d1 by (auto simp: drift_def same_tx_def)
  next
    case False
    have d2: "drift n view s1 (irq_rx B w s1)"
      by (rule irq_rx_drift [OF drift_refl sys_inv_attached [OF i1]])
    have i2: "sys_inv acc base n on view e (irq_tx B K w (irq_rx B w s1))"
      by (rule irq_tx_sys_inv [OF Suc.prems(2) w d2])
    obtain s2 where e: "irq_err B K w (irq_tx B K w (irq_rx B w s1)) = Inr s2"
      and rest: "irq_loop B K left True w s2 = Inr (r, s')"
      using Suc.prems(1) w False by (auto split: sum.splits)
    have d3: "drift n view (irq_tx B K w (irq_rx B w s1)) s2"
      using irq_err_drift [OF e sys_inv_attached [OF i2]] .
    show ?thesis
      using Suc.IH [OF rest drift_sys_inv [OF d3 i2]] d1 d2 d3
        tx_interrupt_head [of B K "irq_rx B w s1"]
      by (auto simp: drift_def same_tx_def irq_tx_def split: if_splits)
  qed
qed simp

text \<open>The routine gives up: it reports the buffers and switches all interrupts off.\<close>

lemma masked_sync:
  assumes "tx_sync acc base n sg view s" "same_tx (priv s) (priv s')" "hwsteps n (view (hw s)) v"
    "hwsteps n (v\<lparr>signalled := False\<rparr>) (view (hw s'))"
  shows "tx_sync acc base n False view s'"
proof -
  let ?t = "tx_t (priv s)" and ?m = "tx_m (priv s)" and ?v = "v\<lparr>signalled := False\<rparr>"
  have i: "txwin n ?t ?m (view (hw s))" "hci_sound n ?t ?m (view (hw s))" "attached acc base n (priv s)"
    "prios (view (hw s)) = prio_of (txb_prio (priv s))" "prio_ring n ?t (txb_prio (priv s))"
    using assms(1) by (auto simp: tx_sync_def tx_inv_def)
  have "txwin n ?t ?m ?v" "hci_sound n ?t ?m ?v"
    using hwsteps_keep(4) [OF assms(3) i(1)] hwsteps_keep(5) [OF assms(3) i(1,2)]
    by (simp_all add: txwin_def fifo_def falling_def hci_sound_def tail_finished_def)
  then have "txwin n ?t ?m (view (hw s'))" "hci_sound n ?t ?m (view (hw s'))"
    using hwsteps_keep(4,5) [OF assms(4)] by blast+
  then show ?thesis
    using i(3-5) same_tx_fields [OF assms(2)] hwsteps_keep(1) [OF assms(3)] hwsteps_keep(1,8) [OF assms(4)] assms(2)
    by (simp add: tx_sync_def tx_inv_def hci_complete_def same_tx_def)
qed

lemma irq_dump_drift:
  assumes "drift n view s0 s" "attached acc base n (priv s0)"
  shows "drift n view s0 (irq_dump_txb B s)"
proof -
  have d: "drift n view s0 (foldl (\<lambda>s i. let (status, s) = ctucan_get_tx_status B (of_nat i) s
      in kdo (Netdev_err ''txb[%d] txb status=0x%08x'') s) s is)" if "drift n view s0 s" for s "is"
    using that
  proof (induction "is" arbitrary: s)
    case (Cons i "is")
    then show ?case
      using drift_read [OF Cons.prems assms(2), of CTUCANFD_TX_STATUS]
      by (simp add: ctucan_get_tx_status_def Let_def split_def drift_kdo dump_reports_def)
  qed simp
  show ?thesis unfolding irq_dump_txb_def by (intro d drift_kdo assms(1)) (simp add: dump_reports_def)
qed

lemma irq_stuck_sys_inv:
  fixes isr :: u32
  assumes "sys_inv acc base n on view e s"
  defines "s' \<equiv> irq_stuck B isr s"
  shows "sys_inv acc base n on view e s'" "same_tx (priv s) (priv s')" "given_up (klog s')"
proof -
  let ?s1 = "kdo stuck_report s"
  define s2 where "s2 = (if FIELD_GET REG_INT_STAT_TXBHCI isr \<noteq> 0 then irq_dump_txb B ?s1 else ?s1)"
  define s3 where "s3 = ctucan_write32 B CTUCANFD_INT_ENA_CLR 0xFFFFFFFF s2"
  have s': "s' = ctucan_write32 B CTUCANFD_INT_MASK_SET 0xFFFFFFFF s3"
    by (simp add: s'_def s3_def s2_def irq_stuck_def stuck_report_def)
  have at: "attached acc base n (priv ?s1)" using sys_inv_attached [OF assms(1)] by simp
  have d2: "drift n view ?s1 s2" unfolding s2_def using irq_dump_drift [OF drift_refl at] by simp
  have at2: "attached acc base n (priv s2)" using d2 at same_tx_fields [of "priv ?s1" "priv s2"] by (auto simp: drift_def)
  have "drift n view s2 s3"
    using st_other [of CTUCANFD_INT_ENA_CLR "hw s2" "0xFFFFFFFF"] at2
    by (simp add: s3_def drift_def same_tx_def attached_def ctucan_write32_bus)
  then have d3: "drift n view ?s1 s3" using d2 drift_trans by blast
  obtain l where l: "klog s' = l @ stuck_report # klog s" "list_all tx_neutral l"
    using d3 by (auto simp: s' drift_def)
  have same: "same_tx (priv s) (priv s')" using d3 by (simp add: s' drift_def)
  then show "same_tx (priv s) (priv s')" .
  show gu: "given_up (klog s')" by (simp add: l(1) given_up_def)
  have at3: "attached acc base n (priv s3)" using d3 at same_tx_fields [of "priv ?s1" "priv s3"] by (auto simp: drift_def)
  obtain v where v: "hwsteps n (view (hw s3)) v" "hwsteps n (v\<lparr>signalled := False\<rparr>) (view (hw s'))"
    using st_int_mask [of "hw s3" "0xFFFFFFFF"] at3
    by (auto simp: s' attached_def ctucan_write32_bus sw_int_mask_def reg_masks BIT_def)
  have "hwsteps n (view (hw s)) (view (hw s3))" using d3 by (simp add: drift_def)
  then have "hwsteps n (view (hw s)) v" using v(1) by (rule rtranclp_trans)
  then have "tx_sync acc base n False view s'"
    using masked_sync [OF _ same _ v(2)] assms(1) by (auto simp: sys_inv_def)
  moreover have q: "queue_awake (klog s') = queue_awake (klog s)" "echo_of (klog s') = echo_of (klog s)"
    "echo_ok (klog s') = echo_ok (klog s)" "\<not> list_ex is_bug (klog s')"
    using neutral_log(1-3) [OF l(2), of "stuck_report # klog s"] neutral_log(4) [OF l(2)] l(1) assms(1)
    by (auto simp: stuck_report_def is_bug_def sys_inv_def)
  ultimately show "sys_inv acc base n on view e s'"
    using assms(1) gu same_tx_fields [OF same] same by (simp add: sys_inv_def echo_win_def same_tx_def)
qed

lemma interrupt_sys_inv:
  assumes "ctucan_interrupt B K s = Inr (r, s')" "sys_inv acc base n on view e s"
  shows "sys_inv acc base n on view e s'" "txb_head (priv s') = txb_head (priv s)" "ntxbufs (priv s') = ntxbufs (priv s)"
proof -
  obtain x s1 where l: "irq_loop B K 10000 False 0 s = Inr (x, s1)"
    "s' = (case x of Inl _ \<Rightarrow> s1 | Inr isr \<Rightarrow> irq_stuck B isr s1)"
    using assms(1) by (auto simp: ctucan_interrupt_def split: sum.splits)
  note i = irq_loop_sys_inv [OF l(1) assms(2)] and h = irq_loop_head [OF l(1) assms(2)]
  show "sys_inv acc base n on view e s'" "txb_head (priv s') = txb_head (priv s)" "ntxbufs (priv s') = ntxbufs (priv s)"
    using i h irq_stuck_sys_inv(1,2) [OF i] l(2) by (auto simp: same_tx_def split: sum.splits)
qed

lemma xmit_prepare_sys_inv:
  assumes "sys_inv acc base n on view 0 s" "queue_awake (klog s)"
    "payload_ok (skb_frame skb)" "unat (flen (skb_frame skb)) \<le> 64"
  shows "\<exists>s'. xmit_prepare B K skb s =
      Inr (if k_dropped_skb K (klog s) skb then Inl NETDEV_TX_OK
           else Inr (txb_head (priv s) mod ntxbufs (priv s)), s') \<and>
    priv s' = priv s \<and> sys_inv acc base n on view (if k_dropped_skb K (klog s) skb then 0 else 1) s'"
proof (cases "k_dropped_skb K (klog s) skb")
  case True
  then show ?thesis
    using assms(1) by (auto simp: xmit_prepare_def Let_def sys_inv_def)
next
  case False
  let ?g = "on \<and> \<not> given_up (klog s)"
  have m: "tx_m (priv s) < n" and sync: "tx_sync acc base n ?g view s"
    and echo: "echo_win n 0 (priv s) (klog s)" using assms(1,2) by (simp_all add: sys_inv_def)
  have nt: "ntxbufs (priv s) = of_nat n"
    using sync by (simp add: tx_sync_def tx_inv_def attached_def)
  obtain s1 where s1: "xmit_prepare B K skb s = Inr (Inr (txb_head (priv s) mod of_nat n), s1)"
    "tx_sync acc base n ?g view s1" "priv s1 = priv s"
    "klog s1 = Can_put_echo_skb skb (txb_head (priv s) mod of_nat n) # Can_dropped_skb skb # klog s"
    using xmit_prepare_accepts [OF sync m assms(3,4) False] by blast
  have "echo_win n 1 (priv s1) (klog s1)"
    using echo_push [OF n_dvd _ m, of "Can_dropped_skb skb # klog s"] echo s1(3,4) by simp
  then show ?thesis using s1 assms(1,2) m nt False by (simp add: sys_inv_def)
qed

lemma xmit_locked_sys_inv:
  assumes "sys_inv acc base n on view 1 s"
  shows "sys_inv acc base n on view 0 (xmit_locked B (txb_head (priv s) mod ntxbufs (priv s)) s)"
proof -
  let ?s = "xmit_locked B (txb_head (priv s) mod ntxbufs (priv s)) s"
  have m: "tx_m (priv s) < n" "tx_sync acc base n (on \<and> \<not> given_up (klog s)) view s" "echo_win n 1 (priv s) (klog s)"
    "queue_awake (klog s)" "\<not> list_ex is_bug (klog s)"
    using assms by (auto simp: sys_inv_def)
  note l = xmit_locked_sync [OF m(2,1)]
  have "echo_win n 0 (priv ?s) (klog ?s)"
    using m(3) echo_commit [OF l(3,2), of n] by (simp add: l(4))
  then show ?thesis using l(1,3) m by (simp add: sys_inv_def l(4))
qed

end

section \<open>The system\<close>

text \<open>
  A state is the network device with the controller behind it and, while
  \<open>ctucan_start_xmit\<close> has filled a buffer and not yet taken \<open>tx_lock\<close>, the index of that
  buffer: an interrupt may come in between. The network layer calls the driver only with the
  queue awake and with frames of valid length. The interrupt routine runs as a whole, with the exit for a
  stuck interrupt, and also when no interrupt is pending, since its line may be shared.
\<close>

inductive sys_step ::
  "core_cfg \<Rightarrow> io_access \<Rightarrow> iomem \<Rightarrow> kern \<Rightarrow> core ndev \<times> u32 option \<Rightarrow> core ndev \<times> u32 option \<Rightarrow> bool"
  for C acc base K where
  sys_prepare: "queue_awake (klog s) \<Longrightarrow> payload_ok (skb_frame skb) \<Longrightarrow> unat (flen (skb_frame skb)) \<le> 64 \<Longrightarrow>
    xmit_prepare (core_bus C acc base) K skb s = Inr (r, s') \<Longrightarrow>
    sys_step C acc base K (s, None) (s', case r of Inl _ \<Rightarrow> None | Inr i \<Rightarrow> Some i)"
| sys_commit: "sys_step C acc base K (s, Some i) (xmit_locked (core_bus C acc base) i s, None)"
| sys_irq: "ctucan_interrupt (core_bus C acc base) K s = Inr (r, s') \<Longrightarrow>
    sys_step C acc base K (s, q) (s', q)"
| sys_poll: "ctucan_rx_poll (core_bus C acc base) K quota s = Inr (r, s') \<Longrightarrow>
    sys_step C acc base K (s, q) (s', q)"
| sys_cycle: "sys_step C acc base K (s, q) (s\<lparr>hw := core_cycle C 0 0 act (hw s)\<rparr>, q)"

inductive_cases sys_stepE: "sys_step C acc base K x y"

text \<open>
  The state \<open>ctucan_open\<close> leaves: an empty ring, priorities in place, the queue started, the interrupt of the
  TXT buffers not masked.
\<close>

definition sys_init :: "core_cfg \<Rightarrow> io_access \<Rightarrow> iomem \<Rightarrow> core ndev \<Rightarrow> bool" where
  "sys_init C acc base s \<longleftrightarrow> attached acc base (txt_buffer_count C) (priv s) \<and>
     txb_head (priv s) = 0 \<and> txb_tail (priv s) = 0 \<and> txb_prio (priv s) = 0x01234567 \<and>
     tx_priority (hw s) = 0x01234567 \<and> list_all (\<lambda>k. txtb (hw s) k = s_txt_empty) [0..<txt_buffer_count C] \<and>
     \<not> bit (int_status (hw s)) 11 \<and> \<not> bit (int_mask (hw s)) 11 \<and> klog s = [Netif_start_queue]"

definition sys_reach :: "core_cfg \<Rightarrow> io_access \<Rightarrow> iomem \<Rightarrow> kern \<Rightarrow> core ndev \<times> u32 option \<Rightarrow> bool" where
  "sys_reach C acc base K x \<longleftrightarrow>
     (\<exists>s. sys_init C acc base s \<and> (sys_step C acc base K)\<^sup>*\<^sup>* (s, None) x)"

definition sys_ok :: "core_cfg \<Rightarrow> io_access \<Rightarrow> iomem \<Rightarrow> core ndev \<times> u32 option \<Rightarrow> bool" where
  "sys_ok C acc base = (\<lambda>(s, q).
     sys_inv acc base (txt_buffer_count C) (\<not> core_silent C) (core_view C) (if q = None then 0 else 1) s \<and>
     (q = None \<or> q = Some (txb_head (priv s) mod ntxbufs (priv s))))"

lemma sys_init_ok:
  assumes "core_ok C" "sys_init C acc base s"
  shows "sys_ok C acc base (s, None)"
proof -
  let ?n = "txt_buffer_count C" and ?v = "core_view C (hw s)"
  have n: "?n dvd 8" "?n \<le> 8" using assms(1) dvd_8_bounds(2) by (auto simp: core_ok_def)
  have z: "tx_t (priv s) = 0" "tx_m (priv s) = 0" using assms(2) by (simp_all add: sys_init_def tx_t_def tx_m_def)
  have "fifo ?n 0 0 ?v"
    using assms(2) by (auto simp: fifo_def cell_ok_def sys_init_def list_all_iff view_at)
  then have "txwin ?n 0 0 ?v" by (simp add: txwin_def falling_def)
  moreover have "2 \<le> ?n" using assms(1) by (simp add: core_ok_def)
  ultimately show ?thesis
    using assms(2) n prio_ring_init [OF n(2)] z
    by (auto simp: sys_ok_def sys_inv_def tx_sync_def tx_inv_def sys_init_def hci_defs echo_win_def
        view_at given_up_def stuck_report_def is_bug_def is_err_def)
qed

lemma sys_step_ok:
  assumes "core_ok C" "sys_step C acc base K x y" "sys_ok C acc base x"
  shows "sys_ok C acc base y"
proof -
  let ?n = "txt_buffer_count C" and ?v = "core_view C" and ?B = "core_bus C acc base"
  note T = core_txt_core [OF assms(1), of acc base]
  from assms(2) show ?thesis
  proof (cases rule: sys_step.cases)
    case (sys_prepare s skb r s')
    have "sys_inv acc base ?n (\<not> core_silent C) ?v 0 s" using assms(3) sys_prepare by (simp add: sys_ok_def)
    from txt_core.xmit_prepare_sys_inv [OF T this sys_prepare(3-5), of K]
    show ?thesis using sys_prepare by (auto simp: sys_ok_def split: if_splits)
  next
    case (sys_commit s i)
    then show ?thesis
      using assms(3) txt_core.xmit_locked_sys_inv [OF T, of "\<not> core_silent C" s] by (auto simp: sys_ok_def)
  next
    case (sys_irq s r s' q)
    then show ?thesis
      using assms(3) txt_core.interrupt_sys_inv [OF T sys_irq(3)] by (auto simp: sys_ok_def)
  next
    case (sys_poll quota s r s' q)
    have at: "attached acc base ?n (priv s)"
      using assms(3) sys_poll by (auto simp: sys_ok_def sys_inv_def tx_sync_def tx_inv_def)
    have d: "drift ?n ?v s s'" using txt_core.rx_poll_drift [OF T sys_poll(3) at] .
    then have "txb_head (priv s') = txb_head (priv s)" "ntxbufs (priv s') = ntxbufs (priv s)"
      by (simp_all add: drift_def same_tx_def)
    then show ?thesis
      using assms(3) sys_poll(1,2) drift_sys_inv [OF d] by (simp add: sys_ok_def)
  next
    case (sys_cycle s q act)
    have d: "drift ?n ?v s (s\<lparr>hw := core_cycle C 0 0 act (hw s)\<rparr>)"
      using cycle_hwsteps [OF assms(1)] by (simp add: drift_def same_tx_def)
    then show ?thesis using assms(3) sys_cycle drift_sys_inv [OF d] by (simp add: sys_ok_def)
  qed
qed

lemma sys_reach_ok:
  assumes "core_ok C" "sys_reach C acc base K x"
  shows "sys_ok C acc base x"
proof -
  obtain s where s: "sys_init C acc base s" "(sys_step C acc base K)\<^sup>*\<^sup>* (s, None) x"
    using assms(2) by (auto simp: sys_reach_def)
  from s(2) show ?thesis
    by (induction rule: rtranclp_induct) (use sys_init_ok sys_step_ok assms(1) s(1) in blast)+
qed

section \<open>Runs\<close>

lemma sys_reach_step: "sys_reach C acc base K x \<Longrightarrow> sys_step C acc base K x y \<Longrightarrow> sys_reach C acc base K y"
  unfolding sys_reach_def by (meson rtranclp.rtrancl_into_rtrancl)

lemma sys_reach_init: "sys_init C acc base s \<Longrightarrow> sys_reach C acc base K (s, None)"
  unfolding sys_reach_def by blast

text \<open>A frame offered with the queue awake is accepted, and the system goes on.\<close>

lemma sys_start_xmit:
  assumes "core_ok C" "sys_reach C acc base K (s, None)" "queue_awake (klog s)"
    "payload_ok (skb_frame skb)" "unat (flen (skb_frame skb)) \<le> 64" "\<not> k_dropped_skb K (klog s) skb"
  shows "\<exists>s'. ctucan_start_xmit (core_bus C acc base) K skb s = Inr (NETDEV_TX_OK, s') \<and>
    sys_reach C acc base K (s', None) \<and> tx_t (priv s') = tx_t (priv s) \<and>
    tx_m (priv s') = Suc (tx_m (priv s)) \<and> stats s' = stats s \<and>
    Can_put_echo_skb skb (txb_head (priv s) mod ntxbufs (priv s)) \<in> set (klog s')"
proof -
  let ?B = "core_bus C acc base" and ?n = "txt_buffer_count C" and ?v = "core_view C"
  note T = core_txt_core [OF assms(1), of acc base]
  have inv: "tx_sync acc base ?n (\<not> core_silent C \<and> \<not> given_up (klog s)) ?v s" "tx_m (priv s) < ?n"
    using sys_reach_ok [OF assms(1,2)] assms(3) by (auto simp: sys_ok_def sys_inv_def)
  then have nt: "ntxbufs (priv s) = of_nat ?n" by (simp add: tx_sync_def tx_inv_def attached_def)
  obtain s' where s': "ctucan_start_xmit ?B K skb s = Inr (NETDEV_TX_OK, s')"
    "tx_t (priv s') = tx_t (priv s)" "tx_m (priv s') = Suc (tx_m (priv s))" "stats s' = stats s"
    "Can_put_echo_skb skb (txb_head (priv s) mod of_nat ?n) \<in> set (klog s')"
    using txt_core.start_xmit_accepts [OF T inv assms(4-6)] by auto
  obtain s1 where s1: "xmit_prepare ?B K skb s = Inr (Inr (txb_head (priv s) mod of_nat ?n), s1)"
    using txt_core.xmit_prepare_accepts [OF T inv assms(4-6)] by blast
  have "sys_reach C acc base K (s1, Some (txb_head (priv s) mod of_nat ?n))"
    using sys_reach_step [OF assms(2) sys_prepare [OF assms(3-5) s1]] by simp
  from sys_reach_step [OF this sys_commit]
  have "sys_reach C acc base K (xmit_locked ?B (txb_head (priv s) mod of_nat ?n) s1, None)" .
  then show ?thesis using s' s1 nt by (auto simp: ctucan_start_xmit_def)
qed

text \<open>The protocol can always bring the buffer at the tail to an end, if only by going bus-off.\<close>

lemma sys_finish:
  assumes "core_ok C" "settings_tbfbo C" "sys_reach C acc base K (s, q)" "0 < tx_m (priv s)"
  shows "\<exists>s'. sys_reach C acc base K (s', q) \<and> priv s' = priv s \<and> klog s' = klog s \<and>
    tail_fin (txt_buffer_count C) (core_view C) s'"
proof -
  let ?n = "txt_buffer_count C" and ?v = "core_view C"
  define d where "d = core_cycle C 0 0 \<lparr>core_cmd = Core_bus_off, other_ints = 0\<rparr> (hw s)"
  have r: "sys_reach C acc base K (s\<lparr>hw := d\<rparr>, q)"
    unfolding d_def by (rule sys_reach_step [OF assms(3) sys_cycle])
  have inv: "fifo ?n (tx_t (priv s)) (tx_m (priv s)) (?v (hw s))"
    using sys_reach_ok [OF assms(1,3)] by (auto simp: sys_ok_def sys_inv_def tx_sync_def tx_inv_def txwin_def)
  have n: "0 < ?n" using assms(1) by (simp add: core_ok_def)
  have "transient_state (txtb (hw s) (tx_t (priv s) mod ?n)) \<or> finished (txtb (hw s) (tx_t (priv s) mod ?n))"
    using inv by (rule fifoE) (use assms(4) n in \<open>force simp: cell_ok_def view_at split: if_splits\<close>)
  then have "finished (txtb d (tx_t (priv s) mod ?n))"
    using assms(2) n
    by (cases "core_silent C")
      (auto simp: d_def core_cycle_def Let_def finished_def transient_state_def next_bus_off next_silent)
  then show ?thesis
    using r assms(4) by (intro exI [of _ "s\<lparr>hw := d\<rparr>"]) (simp add: tail_finished_def view_at)
qed

section \<open>A concrete run\<close>

definition demo_core :: core where
  "demo_core = \<lparr>txtb = (\<lambda>_. s_txt_empty), curr_txtb_index = 0, tx_priority = 0x01234567,
     int_status = 0, int_mask = 0, int_ena = 0xFFF, txt_ram = (\<lambda>_ _. 0), env = []\<rparr>"

definition demo_skb :: sk_buff where
  "demo_skb = \<lparr>skb_is_canfd = False, skb_frame = \<lparr>can_id = 0x123, flen = 5, flags = 0,
     data = [1, 2, 3, 4, 5, 0, 0, 0]\<rparr>\<rparr>"

lemma demo_reach:
  "sys_reach (run_cfg True False) IO_LE 0 demo_kern (demo_ndev [Netif_start_queue] demo_core, None)"
  by (rule sys_reach_init) (simp add: sys_init_def attached_def run_cfg_def demo_ndev_def demo_priv_def
      demo_core_def list_all_iff)

lemma idle_cycle:
  assumes "\<not> core_silent C"
  shows "core_cycle C 0 0 (access_act idle_access) d = d"
proof -
  have sl: "snd (hw_select C Core_idle d) = None" by (simp add: hw_select_def Let_def split_def)
  have n: "next_state (buf_in C Core_idle 0 d k) x = x" "\<not> txtb_hw_cmd_int (buf_in C Core_idle 0 d k) x" for k x
    using next_idle [OF assms, of Core_idle d k x] sl by simp_all
  show ?thesis
    by (rule core.equality) (simp_all add: core_cycle_def Let_def idle_access_def int_module_def n fun_eq_iff)
qed

text \<open>With a bus error pending the interrupt routine gives up.\<close>

definition demo_stuck :: "core ndev" where
  "demo_stuck = demo_ndev [Netif_start_queue] (demo_core\<lparr>int_status := REG_INT_STAT_BEI\<rparr>)"

lemma demo_given_up:
  "\<exists>s. sys_reach (run_cfg True False) IO_LE 0 demo_kern (s, None) \<and> given_up (klog s)"
proof -
  let ?C = "run_cfg True False" and ?d = "demo_core\<lparr>int_status := REG_INT_STAT_BEI\<rparr>"
  let ?B = "core_bus ?C IO_LE 0"
  have b: "\<not> bit REG_INT_STAT_BEI 11" by (simp add: REG_INT_STAT_BEI_def bit_BIT)
  have r: "sys_reach ?C IO_LE 0 demo_kern (demo_stuck, None)"
    by (rule sys_reach_init) (simp add: sys_init_def attached_def run_cfg_def demo_ndev_def demo_priv_def
      demo_core_def demo_stuck_def list_all_iff b)
  have "core_cycle ?C 0 0 (access_act idle_access) ?d = ?d"
    by (rule idle_cycle) (simp add: core_silent_def run_cfg_def)
  then have "ctucan_read32 ?B CTUCANFD_INT_STAT demo_stuck = (REG_INT_STAT_BEI, demo_stuck)"
    by (simp add: ctucan_read32_bus core_bus_def core_ld_def next_access_def demo_stuck_def demo_ndev_def demo_priv_def
      demo_core_def reg_addrs bus_order_def Let_def idle_access_def)
  from sys_reach_step [OF r sys_irq [OF interrupt_bei [OF this]]]
  have r': "sys_reach ?C IO_LE 0 demo_kern (irq_stuck ?B REG_INT_STAT_BEI demo_stuck, None)" .
  have "sys_inv IO_LE 0 4 True (core_view ?C) 0 demo_stuck"
    using sys_reach_ok [OF run_cfg_ok(1) r] by (simp add: sys_ok_def run_cfg_ok(2) core_silent_def run_cfg_def)
  from core4.irq_stuck_sys_inv(3) [OF this] r' show ?thesis by blast
qed

lemma demo_skb_ok: "payload_ok (skb_frame demo_skb)" "unat (flen (skb_frame demo_skb)) \<le> 64"
  "\<not> k_dropped_skb demo_kern l demo_skb"
  by (simp_all add: demo_skb_def payload_ok_def demo_kern_def) presburger

lemma demo_sent:
  "\<exists>s. sys_reach (run_cfg True False) IO_LE 0 demo_kern (s, None) \<and> tx_m (priv s) = 1"
  using sys_start_xmit [OF run_cfg_ok(1) demo_reach _ demo_skb_ok]
  by (fastforce simp: demo_ndev_def demo_priv_def tx_m_def)

lemma demo_finished:
  "\<exists>s. sys_reach (run_cfg True False) IO_LE 0 demo_kern (s, None) \<and> tx_m (priv s) = 1 \<and>
     tail_fin 4 (core_view (run_cfg True False)) s"
proof -
  obtain s where s: "sys_reach (run_cfg True False) IO_LE 0 demo_kern (s, None)" "tx_m (priv s) = 1"
    using demo_sent by blast
  have "settings_tbfbo (run_cfg True False)" by (simp add: run_cfg_def)
  from sys_finish [OF run_cfg_ok(1) this s(1)] s(2) show ?thesis
    by (auto simp: run_cfg_ok(2))
qed

lemma cycle_locks:
  assumes "k < txt_buffer_count C" "txtb d k = s_txt_ready"
  shows "txtb (core_cycle C 0 0 act d) k = s_txt_tx_prog \<longleftrightarrow>
    \<not> core_silent C \<and> core_cmd act = Core_lock \<and> snd (hw_select C Core_lock d) = Some k"
proof -
  have "txtb (core_cycle C 0 0 act d) k = next_state (buf_in C (core_cmd act) 0 d k) s_txt_ready"
    using assms by (simp add: core_cycle_def Let_def)
  moreover have "next_state (buf_in C a 0 d k) s_txt_ready = s_txt_tx_prog \<longleftrightarrow>
      \<not> core_silent C \<and> a = Core_lock \<and> snd (hw_select C Core_lock d) = Some k" for a
    by (cases a) (simp_all add: buf_in_def fsm_defs select_cmd no_hw_cmd_def core_silent_def)
  ultimately show ?thesis by simp
qed

text \<open>One frame waiting in buffer 0 for the bus to become idle.\<close>

definition demo_ready :: "core ndev" where
  "demo_ready = \<lparr>priv = demo_priv\<lparr>txb_head := 1\<rparr>, stats = zero_stats,
     klog = [Can_put_echo_skb demo_skb 0, Netif_start_queue],
     hw = demo_core\<lparr>txtb := (\<lambda>_. s_txt_empty)(0 := s_txt_ready)\<rparr>\<rparr>"

lemma demo_ready_ok:
  "sys_ok (run_cfg True False) IO_LE 0 (demo_ready, None)"
  "txtb (hw demo_ready) 0 = s_txt_ready"
  "txtb (core_cycle (run_cfg True False) 0 0 \<lparr>core_cmd = Core_lock, other_ints = 0\<rparr> (hw demo_ready)) 0 = s_txt_tx_prog"
  "tx_m (priv demo_ready) = 1"
proof -
  have z: "tx_t (priv demo_ready) = 0" "tx_m (priv demo_ready) = 1"
    by (simp_all add: demo_ready_def demo_priv_def tx_t_def tx_m_def)
  have "fifo 4 0 1 (core_view (run_cfg True False) (hw demo_ready))"
    unfolding fifo_def by (rule conjI, simp, rule exI [of _ 0])
      (auto simp: cell_ok_def demo_ready_def view_at buf_state_defs demo_core_def)
  moreover have "prio_ring 4 0 (txb_prio (priv demo_ready))"
    using prio_ring_init [of 4] by (simp add: demo_ready_def demo_priv_def)
  ultimately show "sys_ok (run_cfg True False) IO_LE 0 (demo_ready, None)"
    using z by (auto simp: sys_ok_def sys_inv_def tx_sync_def tx_inv_def hci_defs echo_win_def run_cfg_ok(2)
        view_at txwin_def falling_def demo_ready_def demo_priv_def demo_core_def is_bug_def is_err_def given_up_def stuck_report_def
        run_cfg_def core_silent_def attached_def buf_state_defs unat_gt_0)
  show "tx_m (priv demo_ready) = 1" by (fact z)
  obtain v i where pd: "priority_decoder 4 (prio_of (tx_priority (hw demo_ready)))
      (\<lambda>k. txtb (hw demo_ready) k = s_txt_ready) = (v, i)" by fastforce
  have r: "txtb (hw demo_ready) k = s_txt_ready \<longleftrightarrow> k = 0" "\<not> in_progress (txtb (hw demo_ready) k)" for k
    by (simp_all add: demo_ready_def in_progress_def)
  have "v" "i = 0" using priority_decoder_correct [OF _ _ pd] by (auto simp: r)
  then have sel: "snd (hw_select (run_cfg True False) Core_lock (hw demo_ready)) = Some 0"
    using pd r(2) by (simp add: hw_select_def run_cfg_ok(2) Let_def)
  show "txtb (hw demo_ready) 0 = s_txt_ready" by (simp add: demo_ready_def)
  show "txtb (core_cycle (run_cfg True False) 0 0 \<lparr>core_cmd = Core_lock, other_ints = 0\<rparr> (hw demo_ready)) 0 = s_txt_tx_prog"
    using sel by (subst cycle_locks) (simp_all add: demo_ready_def run_cfg_ok(2) core_silent_def run_cfg_def)
qed

end
