(* ===== verification/Ctu_RxBuf.thy ===== *)
theory Ctu_RxBuf
  imports Ctu_TxSys
begin

text \<open>
  The RX buffer of the controller, from \<open>src/rx_buffer/rx_buffer.vhd\<close> and
  \<open>rx_buffer_pointers.vhd\<close>: a ring of words with a read pointer, a committed and a raw write
  pointer, the counter of stored frames and the counter of the words left in the frame being read.
  \<open>rx_rel\<close> relates it to a queue of frames, and every clock cycle is shown to refine the queue.

  The two timestamp words are stored here with their final value, and the register between
  \<open>commit_intent\<close> and \<open>commit_rx_frame\<close> is taken together with the commit itself; \<open>Ctu_RxFsm\<close> adds the second
  write of the timestamps and this register. The release command \<open>RRB\<close> is not part of the model.
\<close>

section \<open>The ring\<close>

record rxbuf =
  rx_ram :: "nat \<Rightarrow> u32"
  read_pointer :: nat
  write_pointer :: nat
  write_pointer_raw :: nat
  rx_mem_free :: nat
  rx_mem_free_raw :: nat
  read_counter :: nat
  frame_count :: nat
  data_overrun_i :: bool
  data_overrun_flg :: bool

definition rxbuf_init :: "nat \<Rightarrow> rxbuf" where
  "rxbuf_init sz = \<lparr>rx_ram = (\<lambda>_. 0), read_pointer = 0, write_pointer = 0, write_pointer_raw = 0,
     rx_mem_free = sz, rx_mem_free_raw = sz, read_counter = 0, frame_count = 0,
     data_overrun_i = False, data_overrun_flg = False\<rparr>"

text \<open>What the CAN core does to the buffer in one cycle.\<close>

datatype rx_op = Rx_none | Rx_word u32 | Rx_commit | Rx_abort

definition rx_empty :: "rxbuf \<Rightarrow> bool" where
  "rx_empty b \<longleftrightarrow> frame_count b = 0"

definition rx_data_out :: "rxbuf \<Rightarrow> u32" where
  "rx_data_out b = (if \<not> rx_empty b then rx_ram b (read_pointer b) else 0)"

definition read_increment :: "bool \<Rightarrow> rxbuf \<Rightarrow> bool" where
  "read_increment read_attempt b \<longleftrightarrow> read_attempt \<and> \<not> rx_empty b"

definition is_free_word :: "rxbuf \<Rightarrow> bool" where
  "is_free_word b \<longleftrightarrow> \<not> (read_pointer b = write_pointer_raw b \<and> frame_count b > 0)"

definition write_raw_intent :: "rx_op \<Rightarrow> bool" where
  "write_raw_intent wr \<longleftrightarrow> (case wr of Rx_word _ \<Rightarrow> True | _ \<Rightarrow> False)"

definition overrun_condition :: "rx_op \<Rightarrow> rxbuf \<Rightarrow> bool" where
  "overrun_condition wr b \<longleftrightarrow> write_raw_intent wr \<and> \<not> is_free_word b"

definition write_raw_OK :: "rx_op \<Rightarrow> rxbuf \<Rightarrow> bool" where
  "write_raw_OK wr b \<longleftrightarrow> write_raw_intent wr \<and> \<not> overrun_condition wr b \<and> \<not> data_overrun_i b"

definition commit_rx_frame :: "rx_op \<Rightarrow> rxbuf \<Rightarrow> bool" where
  "commit_rx_frame wr b \<longleftrightarrow> wr = Rx_commit \<and> \<not> data_overrun_i b"

definition rx_abort_applied :: "rx_op \<Rightarrow> rxbuf \<Rightarrow> bool" where
  "rx_abort_applied wr b \<longleftrightarrow> wr = Rx_abort \<or> wr = Rx_commit \<and> data_overrun_i b"

definition rwcnt_of :: "u32 \<Rightarrow> nat" where
  "rwcnt_of w = unat (FIELD_GET REG_FRAME_FORMAT_W_RWCNT w)"

definition next_mem_free_raw :: "bool \<Rightarrow> rx_op \<Rightarrow> rxbuf \<Rightarrow> nat" where
  "next_mem_free_raw rd wr b =
     (if read_increment rd b
      then if rx_abort_applied wr b then rx_mem_free b + 1
           else if \<not> write_raw_OK wr b then rx_mem_free_raw b + 1 else rx_mem_free_raw b
      else if rx_abort_applied wr b then rx_mem_free b
           else if write_raw_OK wr b then rx_mem_free_raw b - 1 else rx_mem_free_raw b)"

definition next_mem_free :: "bool \<Rightarrow> rx_op \<Rightarrow> rxbuf \<Rightarrow> nat" where
  "next_mem_free rd wr b =
     (if read_increment rd b
      then if commit_rx_frame wr b then rx_mem_free_raw b + 1 else rx_mem_free b + 1
      else if commit_rx_frame wr b then rx_mem_free_raw b else rx_mem_free b)"

definition next_read_counter :: "bool \<Rightarrow> rxbuf \<Rightarrow> nat" where
  "next_read_counter rd b =
     (if read_increment rd b
      then if read_counter b > 0 then read_counter b - 1
           else rwcnt_of (rx_ram b (read_pointer b))
      else read_counter b)"

definition next_frame_count :: "bool \<Rightarrow> rx_op \<Rightarrow> rxbuf \<Rightarrow> nat" where
  "next_frame_count rd wr b =
     (if read_increment rd b \<and> read_counter b = 1
      then if \<not> commit_rx_frame wr b then frame_count b - 1 else frame_count b
      else if commit_rx_frame wr b then frame_count b + 1 else frame_count b)"

text \<open>
  One clock cycle of a buffer of \<open>sz\<close> words, with a read of \<open>RX_DATA\<close> (\<open>rd\<close>), an operation of
  the CAN core and the command that clears the overrun flag.
\<close>

definition rx_cycle :: "nat \<Rightarrow> bool \<Rightarrow> rx_op \<Rightarrow> bool \<Rightarrow> rxbuf \<Rightarrow> rxbuf" where
  "rx_cycle sz rd wr cdo b =
     \<lparr>rx_ram = (case wr of
          Rx_word w \<Rightarrow> if write_raw_OK wr b then (rx_ram b)(write_pointer_raw b := w) else rx_ram b
        | _ \<Rightarrow> rx_ram b),
      read_pointer = (if read_increment rd b then (read_pointer b + 1) mod sz else read_pointer b),
      write_pointer = (if commit_rx_frame wr b then write_pointer_raw b else write_pointer b),
      write_pointer_raw =
        (if write_raw_OK wr b then (write_pointer_raw b + 1) mod sz
         else if rx_abort_applied wr b then write_pointer b else write_pointer_raw b),
      rx_mem_free = next_mem_free rd wr b,
      rx_mem_free_raw = next_mem_free_raw rd wr b,
      read_counter = next_read_counter rd b,
      frame_count = next_frame_count rd wr b,
      data_overrun_i =
        (if overrun_condition wr b then True
         else if wr = Rx_commit \<or> wr = Rx_abort then False else data_overrun_i b),
      data_overrun_flg =
        (if cdo then False else if overrun_condition wr b then True else data_overrun_flg b)\<rparr>"

lemmas rx_signals = read_increment_def rx_empty_def is_free_word_def write_raw_intent_def
  overrun_condition_def write_raw_OK_def commit_rx_frame_def rx_abort_applied_def

section \<open>The queue of frames\<close>

text \<open>
  The specification: the stored frames, the first without the words already read, and the words of
  the frame being received.
\<close>

record rxq =
  rxq_frames :: "u32 list list"
  rxq_raw :: "u32 list"

text \<open>
  A stored frame has as many words after the first as its field \<open>RWCNT\<close> says: the identifier, the
  two timestamp words and up to 16 words of data.
\<close>

definition wf_frame :: "u32 list \<Rightarrow> bool" where
  "wf_frame f \<longleftrightarrow> f \<noteq> [] \<and> 3 \<le> rwcnt_of (hd f) \<and> rwcnt_of (hd f) \<le> 19 \<and> length f = Suc (rwcnt_of (hd f))"

definition rxq_words :: "rxq \<Rightarrow> u32 list" where
  "rxq_words q = concat (rxq_frames q)"

text \<open>Reading a word takes it from the first frame, and the frame from the queue when it was the last.\<close>

fun frames_pop :: "u32 list list \<Rightarrow> u32 list list" where
  "frames_pop [] = []"
| "frames_pop (f # fs) = (if length f \<le> 1 then fs else tl f # fs)"

definition rxq_read :: "rxq \<Rightarrow> rxq" where
  "rxq_read q = q\<lparr>rxq_frames := frames_pop (rxq_frames q)\<rparr>"

definition rxq_op :: "rx_op \<Rightarrow> bool \<Rightarrow> rxq \<Rightarrow> rxq" where
  "rxq_op wr overrun q =
     (case wr of
        Rx_none \<Rightarrow> q
      | Rx_word w \<Rightarrow> if overrun then q else q\<lparr>rxq_raw := rxq_raw q @ [w]\<rparr>
      | Rx_commit \<Rightarrow>
          if overrun then q\<lparr>rxq_raw := []\<rparr>
          else q\<lparr>rxq_frames := rxq_frames q @ [rxq_raw q], rxq_raw := []\<rparr>
      | Rx_abort \<Rightarrow> q\<lparr>rxq_raw := []\<rparr>)"

text \<open>
  The representation: the words of the queue lie in the ring from the read pointer on, the pointers
  and the two counters of free words agree with their number, and the read counter says how many
  words of the first frame are left.
\<close>

definition ring_holds :: "nat \<Rightarrow> (nat \<Rightarrow> u32) \<Rightarrow> nat \<Rightarrow> u32 list \<Rightarrow> bool" where
  "ring_holds sz ram p ws \<longleftrightarrow> (\<forall>i<length ws. ram ((p + i) mod sz) = ws ! i)"

definition frames_rel :: "nat \<Rightarrow> u32 list list \<Rightarrow> bool" where
  "frames_rel rc fs \<longleftrightarrow>
     (if rc = 0 then list_all wf_frame fs
      else fs \<noteq> [] \<and> length (hd fs) = rc \<and> list_all wf_frame (tl fs))"

definition rx_rel :: "nat \<Rightarrow> rxbuf \<Rightarrow> rxq \<Rightarrow> bool" where
  "rx_rel sz b q \<longleftrightarrow>
     read_pointer b < sz \<and>
     ring_holds sz (rx_ram b) (read_pointer b) (rxq_words q @ rxq_raw q) \<and>
     write_pointer b = (read_pointer b + length (rxq_words q)) mod sz \<and>
     write_pointer_raw b = (read_pointer b + length (rxq_words q @ rxq_raw q)) mod sz \<and>
     length (rxq_words q) + rx_mem_free b = sz \<and>
     length (rxq_words q @ rxq_raw q) + rx_mem_free_raw b = sz \<and>
     frame_count b = length (rxq_frames q) \<and>
     frames_rel (read_counter b) (rxq_frames q) \<and>
     length (rxq_raw q) < sz"


section \<open>Refinement\<close>

lemma ring_holds_snoc:
  assumes "ring_holds sz ram p ws" "length ws < sz"
  shows "ring_holds sz (ram((p + length ws) mod sz := w)) p (ws @ [w])"
proof -
  have "(p + i) mod sz \<noteq> (p + length ws) mod sz" if "i < length ws" for i
    using mod_add_inj [of p i sz "length ws"] that assms(2) by auto
  then show ?thesis using assms by (auto simp: ring_holds_def nth_append less_Suc_eq)
qed

lemma ring_holds_tl:
  "ring_holds sz ram p ws \<Longrightarrow> ring_holds sz ram ((p + 1) mod sz) (tl ws)"
  unfolding ring_holds_def
proof (intro allI impI)
  fix i assume a: "\<forall>i<length ws. ram ((p + i) mod sz) = ws ! i" "i < length (tl ws)"
  have "Suc i < length ws" using a(2) by simp
  then have "ram ((p + Suc i) mod sz) = ws ! Suc i" using a(1) by blast
  then show "ram (((p + 1) mod sz + i) mod sz) = tl ws ! i"
    using a(2) by (simp add: nth_tl mod_add_left_eq)
qed

lemma ring_holds_butR: "ring_holds sz ram p (ws @ rs) \<Longrightarrow> ring_holds sz ram p ws"
  by (auto simp: ring_holds_def nth_append)

lemma ring_ptr_tl:
  "ws \<noteq> [] \<Longrightarrow> ((p + 1) mod sz + length (tl ws)) mod sz = (p + length ws) mod sz"
  by (cases ws) (simp_all add: mod_add_left_eq)

lemma frames_nonempty: "frames_rel rc fs \<Longrightarrow> f \<in> set fs \<Longrightarrow> f \<noteq> []"
  by (cases fs) (auto simp: frames_rel_def list_all_iff wf_frame_def split: if_splits)

lemma frames_words: "frames_rel rc fs \<Longrightarrow> concat fs = [] \<longleftrightarrow> fs = []"
  using frames_nonempty [of rc fs] by (cases fs) auto

lemma frames_pop_words: "frames_rel rc fs \<Longrightarrow> concat (frames_pop fs) = tl (concat fs)"
  using frames_nonempty [of rc fs] by (cases fs; cases "hd fs"; force)

lemma frames_rel_pop:
  assumes "frames_rel rc fs" "fs \<noteq> []"
  shows "frames_rel (if rc > 0 then rc - 1 else rwcnt_of (hd (concat fs))) (frames_pop fs)"
    and "length (frames_pop fs) = (if rc = 1 then length fs - 1 else length fs)"
  using assms
  by (cases fs; cases "hd fs"; force simp: frames_rel_def wf_frame_def split: if_splits)+

lemma rx_rel_out:
  assumes "rx_rel sz b q"
  shows "rx_data_out b = (case rxq_words q of [] \<Rightarrow> 0 | w # _ \<Rightarrow> w)"
    and "rx_empty b \<longleftrightarrow> rxq_words q = []"
proof -
  have "rx_empty b \<longleftrightarrow> rxq_frames q = []" "rxq_frames q = [] \<longleftrightarrow> rxq_words q = []"
    using assms frames_words [of "read_counter b" "rxq_frames q"]
    by (auto simp: rx_rel_def rx_empty_def rxq_words_def)
  moreover have "rxq_words q \<noteq> [] \<Longrightarrow> rx_ram b (read_pointer b) = hd (rxq_words q)"
    using assms unfolding rx_rel_def ring_holds_def
    by (cases "rxq_words q") (auto dest: spec [of _ 0])
  ultimately show "rx_data_out b = (case rxq_words q of [] \<Rightarrow> 0 | w # _ \<Rightarrow> w)"
    "rx_empty b \<longleftrightarrow> rxq_words q = []"
    by (auto simp: rx_data_out_def split: list.split)
qed

text \<open>The pointers detect exactly that no word is free.\<close>

lemma rx_rel_free:
  assumes "rx_rel sz b q"
  shows "is_free_word b \<longleftrightarrow> rx_mem_free_raw b > 0"
proof -
  let ?l = "length (rxq_words q @ rxq_raw q)"
  have R: "read_pointer b < sz" "write_pointer_raw b = (read_pointer b + ?l) mod sz"
    "?l + rx_mem_free_raw b = sz" "length (rxq_raw q) < sz" "frame_count b = length (rxq_frames q)"
    using assms by (auto simp: rx_rel_def)
  have eq: "read_pointer b = write_pointer_raw b \<longleftrightarrow> ?l = 0 \<or> ?l = sz"
    using R(1-3) mod_add_inj [of "read_pointer b" 0 sz ?l] by (cases "?l = sz") (auto simp del: length_append length_greater_0_conv length_0_conv)
  show ?thesis
    using eq R(3,4,5) rx_rel_out(2) [OF assms] by (auto simp: is_free_word_def rx_empty_def)
qed

text \<open>
  What the CAN core keeps to: it commits complete frames only, and it stores no frame longer than
  the ring.
\<close>

definition rx_op_ok :: "nat \<Rightarrow> rx_op \<Rightarrow> rxbuf \<Rightarrow> rxq \<Rightarrow> bool" where
  "rx_op_ok sz wr b q \<longleftrightarrow>
     (case wr of
        Rx_word _ \<Rightarrow> Suc (length (rxq_raw q)) < sz
      | Rx_commit \<Rightarrow> \<not> data_overrun_i b \<longrightarrow> wf_frame (rxq_raw q)
      | _ \<Rightarrow> True)"

definition rx_overruns :: "rx_op \<Rightarrow> rxbuf \<Rightarrow> bool" where
  "rx_overruns wr b \<longleftrightarrow> data_overrun_i b \<or> overrun_condition wr b"

definition rxq_cycle :: "bool \<Rightarrow> rx_op \<Rightarrow> bool \<Rightarrow> rxq \<Rightarrow> rxq" where
  "rxq_cycle rd wr overrun q =
     (let q' = rxq_op wr overrun q in if rd \<and> rxq_frames q \<noteq> [] then rxq_read q' else q')"

lemma frames_rel_snoc:
  "frames_rel rc fs \<Longrightarrow> wf_frame f \<Longrightarrow> frames_rel rc (fs @ [f])"
  by (cases fs) (auto simp: frames_rel_def)

lemma rx_idle [simp]:
  "\<not> write_raw_OK Rx_none b" "\<not> commit_rx_frame Rx_none b" "\<not> rx_abort_applied Rx_none b"
  "\<not> overrun_condition Rx_none b" "\<not> read_increment False b"
  by (simp_all add: rx_signals)

lemmas rx_cycle_sel = rx_cycle_def rxbuf.select_convs

lemma rx_rel_op:
  assumes "rx_rel sz b q" "rx_op_ok sz wr b q"
  shows "rx_rel sz (rx_cycle sz False wr cdo b) (rxq_op wr (rx_overruns wr b) q)"
proof (cases wr)
  case (Rx_word w)
  show ?thesis
  proof (cases "rx_overruns wr b")
    case False
    then have "rx_mem_free_raw b > 0"
      using rx_rel_free [OF assms(1)] Rx_word
      by (auto simp: rx_overruns_def overrun_condition_def write_raw_intent_def)
    moreover from this have "ring_holds sz ((rx_ram b)(write_pointer_raw b := w)) (read_pointer b)
        ((rxq_words q @ rxq_raw q) @ [w])"
      using assms(1) ring_holds_snoc [of sz "rx_ram b" "read_pointer b" "rxq_words q @ rxq_raw q" w]
      by (auto simp: rx_rel_def simp del: append_assoc)
    ultimately show ?thesis
      using assms False Rx_word
      by (auto simp: rx_rel_def rx_cycle_def rxq_op_def rx_op_ok_def rx_overruns_def rx_signals
          next_mem_free_def next_mem_free_raw_def next_read_counter_def next_frame_count_def
          rxq_words_def mod_Suc_eq)
  qed (use assms Rx_word in \<open>auto simp: rx_rel_def rx_cycle_def rxq_op_def rx_overruns_def rx_signals
      next_mem_free_def next_mem_free_raw_def next_read_counter_def next_frame_count_def\<close>)
next
  case Rx_commit
  then show ?thesis
    using assms ring_holds_butR [of sz "rx_ram b" "read_pointer b" "rxq_words q" "rxq_raw q"]
    by (auto simp: rx_rel_def rx_cycle_def rxq_op_def rx_op_ok_def rx_overruns_def rx_signals
        next_mem_free_def next_mem_free_raw_def next_read_counter_def next_frame_count_def
        rxq_words_def frames_rel_snoc)
next
  case Rx_abort
  then show ?thesis
    using assms ring_holds_butR [of sz "rx_ram b" "read_pointer b" "rxq_words q" "rxq_raw q"]
    by (auto simp: rx_rel_def rx_cycle_def rxq_op_def rx_signals
        next_mem_free_def next_mem_free_raw_def next_read_counter_def next_frame_count_def
        rxq_words_def)
qed (use assms in \<open>auto simp: rx_rel_def rx_cycle_def rxq_op_def rx_signals
    next_mem_free_def next_mem_free_raw_def next_read_counter_def next_frame_count_def\<close>)

lemma rx_rel_read:
  assumes "rx_rel sz b q" "rxq_frames q \<noteq> []"
  shows "rx_rel sz (rx_cycle sz True Rx_none cdo b) (rxq_read q)"
proof -
  let ?W = "rxq_words q" and ?R = "rxq_raw q" and ?p = "read_pointer b"
  have fr: "frames_rel (read_counter b) (rxq_frames q)" using assms(1) by (simp add: rx_rel_def)
  have W: "?W \<noteq> []" "rxq_words (rxq_read q) = tl ?W" "rxq_raw (rxq_read q) = ?R" "\<not> rx_empty b"
    using assms frames_words [OF fr] frames_pop_words [OF fr] rx_rel_out(2) [OF assms(1)]
    by (auto simp: rxq_words_def rxq_read_def)
  have hd: "rx_ram b ?p = hd (concat (rxq_frames q))"
    using rx_rel_out(1) [OF assms(1)] W(1,4)
    by (cases ?W) (auto simp: rx_data_out_def rxq_words_def)
  have ring: "ring_holds sz (rx_ram b) ((?p + 1) mod sz) (tl (?W @ ?R))"
    using assms(1) ring_holds_tl by (simp add: rx_rel_def)
  have ptr: "((?p + 1) mod sz + length (tl ?W)) mod sz = (?p + length ?W) mod sz"
    "((?p + 1) mod sz + length (tl (?W @ ?R))) mod sz = (?p + length (?W @ ?R)) mod sz"
    using ring_ptr_tl [of ?W ?p sz] ring_ptr_tl [of "?W @ ?R" ?p sz] W(1) by blast+
  have len: "length (tl ?W) + 1 = length ?W" using W(1) by (cases ?W) simp_all
  have rel: "length ?W + rx_mem_free b = sz" "length (?W @ ?R) + rx_mem_free_raw b = sz"
    "write_pointer b = (?p + length ?W) mod sz" "write_pointer_raw b = (?p + length (?W @ ?R)) mod sz"
    "frame_count b = length (rxq_frames q)" "length ?R < sz"
    using assms(1) by (simp_all add: rx_rel_def)
  have "rxq_frames (rxq_read q) = frames_pop (rxq_frames q)" by (simp add: rxq_read_def)
  then show ?thesis
    using W ring ptr frames_rel_pop [OF fr assms(2)] hd len rel
    unfolding rx_rel_def rx_cycle_sel
    by (auto simp: read_increment_def next_mem_free_def next_mem_free_raw_def next_read_counter_def
        next_frame_count_def split: if_splits simp del: length_tl)
qed

lemma rx_cycle_split:
  assumes "rx_rel sz b q"
  shows "rx_cycle sz True wr cdo b =
    (if rx_empty b then rx_cycle sz False wr cdo b
     else rx_cycle sz True Rx_none cdo (rx_cycle sz False wr cdo b))"
proof -
  have "write_raw_OK wr b \<Longrightarrow> rx_mem_free_raw b > 0"
    using rx_rel_free [OF assms] by (auto simp: write_raw_OK_def overrun_condition_def)
  moreover have "write_raw_OK wr b \<Longrightarrow> \<not> rx_empty b \<Longrightarrow> read_pointer b \<noteq> write_pointer_raw b"
    by (auto simp: rx_signals)
  moreover have "\<not> (write_raw_OK wr b \<and> (commit_rx_frame wr b \<or> rx_abort_applied wr b))"
    "\<not> (commit_rx_frame wr b \<and> rx_abort_applied wr b)"
    by (auto simp: rx_signals)
  ultimately show ?thesis
    by (cases "rx_empty b"; cases "write_raw_OK wr b"; cases "commit_rx_frame wr b";
        cases "rx_abort_applied wr b")
      (auto simp: rx_cycle_def read_increment_def rx_empty_def next_mem_free_def
        next_mem_free_raw_def next_read_counter_def next_frame_count_def split: rx_op.split)
qed

text \<open>Every clock cycle refines the queue.\<close>

lemma rx_rel_cycle:
  assumes "rx_rel sz b q" "rx_op_ok sz wr b q"
  shows "rx_rel sz (rx_cycle sz rd wr cdo b) (rxq_cycle rd wr (rx_overruns wr b) q)"
proof (cases "rd \<and> rxq_frames q \<noteq> []")
  case True
  let ?q = "rxq_op wr (rx_overruns wr b) q"
  have "rxq_frames ?q \<noteq> []" using True by (auto simp: rxq_op_def split: rx_op.split)
  moreover have "\<not> rx_empty b" using True assms(1) by (simp add: rx_rel_def rx_empty_def)
  ultimately show ?thesis
    using rx_rel_read [OF rx_rel_op [OF assms]] rx_cycle_split [OF assms(1)] True
    by (simp add: rxq_cycle_def)
next
  case False
  moreover have "rxq_frames q = [] \<Longrightarrow> rx_empty b" using assms(1) by (simp add: rx_rel_def rx_empty_def)
  ultimately show ?thesis
    using rx_rel_op [OF assms, of cdo] rx_cycle_split [OF assms(1), of wr cdo]
    by (cases rd) (auto simp: rxq_cycle_def)
qed

section \<open>The queue as a function of the ring\<close>

fun split_frames :: "u32 list \<Rightarrow> u32 list list" where
  "split_frames [] = []"
| "split_frames (w # ws) = (w # take (rwcnt_of w) ws) # split_frames (drop (rwcnt_of w) ws)"

definition rxq_of :: "nat \<Rightarrow> rxbuf \<Rightarrow> rxq" where
  "rxq_of sz b =
     (let word = (\<lambda>i. rx_ram b ((read_pointer b + i) mod sz));
          ws = map word [0..<sz - rx_mem_free b];
          raw = map word [sz - rx_mem_free b..<sz - rx_mem_free_raw b]
      in \<lparr>rxq_frames =
            (if read_counter b = 0 then split_frames ws
             else take (read_counter b) ws # split_frames (drop (read_counter b) ws)),
          rxq_raw = raw\<rparr>)"

lemma split_frames_concat: "list_all wf_frame fs \<Longrightarrow> split_frames (concat fs) = fs"
proof (induction fs)
  case (Cons f fs)
  then show ?case by (cases f) (auto simp: wf_frame_def)
qed simp

lemma rx_rel_rxq_of:
  assumes "rx_rel sz b q"
  shows "rxq_of sz b = q"
proof -
  let ?W = "rxq_words q" and ?R = "rxq_raw q" and ?rc = "read_counter b"
  define word where "word i = rx_ram b ((read_pointer b + i) mod sz)" for i
  have len: "sz - rx_mem_free b = length ?W" "sz - rx_mem_free_raw b = length ?W + length ?R"
    using assms by (auto simp: rx_rel_def)
  have word: "word i = (?W @ ?R) ! i" if "i < length ?W + length ?R" for i
    using assms that by (simp add: rx_rel_def ring_holds_def word_def)
  have W: "map word [0..<length ?W] = ?W"
    by (rule nth_equalityI) (simp_all add: word nth_append)
  have R: "map word [length ?W..<length ?W + length ?R] = ?R"
    by (rule nth_equalityI) (simp_all add: word nth_append)
  have fr: "frames_rel ?rc (rxq_frames q)" using assms by (simp add: rx_rel_def)
  have "(if ?rc = 0 then split_frames ?W else take ?rc ?W # split_frames (drop ?rc ?W)) = rxq_frames q"
  proof (cases "?rc = 0")
    case True
    then show ?thesis using fr by (simp add: frames_rel_def rxq_words_def split_frames_concat)
  next
    case False
    then show ?thesis
      using fr by (cases "rxq_frames q") (auto simp: frames_rel_def rxq_words_def split_frames_concat)
  qed
  then show ?thesis
    unfolding rxq_of_def Let_def word_def [symmetric] len W R by simp
qed

definition rx_inv :: "nat \<Rightarrow> rxbuf \<Rightarrow> bool" where
  "rx_inv sz b \<longleftrightarrow> rx_rel sz b (rxq_of sz b)"

lemma rx_inv_iff: "rx_inv sz b \<longleftrightarrow> (\<exists>q. rx_rel sz b q)"
  using rx_rel_rxq_of [of sz b] by (auto simp: rx_inv_def)

lemma rx_init_inv: "0 < sz \<Longrightarrow> rx_inv sz (rxbuf_init sz) \<and> rxq_of sz (rxbuf_init sz) = \<lparr>rxq_frames = [], rxq_raw = []\<rparr>"
  by (simp add: rx_inv_def rx_rel_def rxq_of_def rxbuf_init_def ring_holds_def rxq_words_def
      frames_rel_def)

lemma rx_inv_cycle:
  assumes "rx_inv sz b" "rx_op_ok sz wr b (rxq_of sz b)"
  shows "rx_inv sz (rx_cycle sz rd wr cdo b)"
    and "rxq_of sz (rx_cycle sz rd wr cdo b) = rxq_cycle rd wr (rx_overruns wr b) (rxq_of sz b)"
  using rx_rel_cycle [OF assms(1) [unfolded rx_inv_def] assms(2), of rd cdo] rx_rel_rxq_of rx_inv_iff
  by blast+

end
