(* ===== verification/Ctu_RxSys.thy ===== *)
theory Ctu_RxSys
  imports Ctu_Rx Ctu_RxBuf
begin

text \<open>
  Reception by the driver from a device whose RX FIFO is a queue of frames. The locale \<open>rx_fifo\<close> is
  the contract at the bus; new frames may arrive at every single access. Inside it \<open>ctucan_rx\<close> and
  \<open>ctucan_rx_poll\<close> are shown to hand the frames to the network stack in order, each exactly once,
  also when the allocation of a buffer fails half-way. The RX buffer of \<open>Ctu_RxBuf\<close> behind a bus
  is proved to satisfy the contract.
\<close>

section \<open>The contract\<close>

definition first_word :: "u32 list list \<Rightarrow> u32" where
  "first_word fs = (case concat fs of [] \<Rightarrow> 0 | w # _ \<Rightarrow> w)"

locale rx_fifo =
  fixes B :: "'d bus" and acc :: io_access and base :: iomem
    and ok :: "'d \<Rightarrow> bool" and frames :: "'d \<Rightarrow> u32 list list"
  assumes ld_rx_data: "ok d \<Longrightarrow> ld32 B d (base + ucast CTUCANFD_RX_DATA) = (v, d') \<Longrightarrow>
      \<exists>new late. list_all wf_frame (new @ late) \<and> ok d' \<and>
        bus_order acc v = first_word (frames d @ new) \<and>
        frames d' = frames_pop (frames d @ new) @ late"
    and ld_rx_status: "ok d \<Longrightarrow> ld32 B d (base + ucast CTUCANFD_RX_STATUS) = (v, d') \<Longrightarrow>
      \<exists>new late. list_all wf_frame (new @ late) \<and> ok d' \<and> frames d' = frames d @ new @ late \<and>
        unat (FIELD_GET REG_RX_STATUS_RXFRC (bus_order acc v)) = length (frames d @ new)"
    and ld_status: "ok d \<Longrightarrow> ld32 B d (base + ucast CTUCANFD_STATUS) = (v, d') \<Longrightarrow>
      \<exists>new. list_all wf_frame new \<and> ok d' \<and> frames d' = frames d @ new"
    and st_other: "ok d \<Longrightarrow> reg \<in> {CTUCANFD_COMMAND, CTUCANFD_INT_STAT, CTUCANFD_INT_MASK_CLR} \<Longrightarrow>
      w AND REG_COMMAND_RRB = 0 \<Longrightarrow>
      \<exists>new. list_all wf_frame new \<and>
        ok (st32 B d (base + ucast reg) (bus_order acc w)) \<and>
        frames (st32 B d (base + ucast reg) (bus_order acc w)) = frames d @ new"

section \<open>What a stored frame means\<close>

definition le_bytes :: "u32 \<Rightarrow> u8 list" where
  "le_bytes w = [ucast w, ucast (drop_bit 8 w), ucast (drop_bit 16 w), ucast (drop_bit 24 w)]"

text \<open>The bytes the driver copies, and the words they take.\<close>

definition copied_len :: "u32 \<Rightarrow> u32" where
  "copied_len ffw = (if rx_len ffw > rx_wc ffw * 4 then rx_wc ffw * 4 else rx_len ffw)"

definition copied_words :: "u32 \<Rightarrow> nat" where
  "copied_words ffw = (unat (copied_len ffw) + 3) div 4"

text \<open>The frame that the words of the FIFO stand for, in the buffer \<open>cf\<close>.\<close>

definition frame_of_words :: "canfd_frame \<Rightarrow> u32 list \<Rightarrow> canfd_frame" where
  "frame_of_words cf ws =
     (let ffw = hd ws; n = copied_words ffw; dws = drop 4 ws
      in cf\<lparr>can_id := rx_can_id ffw (ws ! 1), flags := rx_flags ffw, flen := ucast (rx_len ffw),
           data := concat (map le_bytes (take n dws)) @ drop (4 * n) (data cf)\<rparr>)"

lemma le_bytes_length [simp]: "length (concat (map le_bytes ws)) = 4 * length ws"
  by (induction ws) (simp_all add: le_bytes_def)

lemma put_le32_splice:
  assumes "i + 4 \<le> length bs"
  shows "put_le32 bs i w = Some (take i bs @ le_bytes w @ drop (i + 4) bs)"
proof -
  let ?u = "bs[i := ucast w, i + 1 := ucast (drop_bit 8 w), i + 2 := ucast (drop_bit 16 w),
    i + 3 := ucast (drop_bit 24 w)]"
  have "?u ! j = (take i bs @ le_bytes w @ drop (i + 4) bs) ! j" if "j < length bs" for j
  proof -
    consider "j < i" | "j = i" | "j = i + 1" | "j = i + 2" | "j = i + 3" 
      | k where "j = i + 4 + k"
      using le_Suc_ex [of "i + 4" j] by force
    then show ?thesis
      using that assms by cases (auto simp: nth_append nth_list_update le_bytes_def eval_nat_numeral)
  qed
  then have "?u = take i bs @ le_bytes w @ drop (i + 4) bs"
    using assms by (intro nth_equalityI) (auto simp: le_bytes_def)
  then show ?thesis using assms by (simp add: put_le32_def)
qed

lemma rwcnt_rx_wc:
  assumes "wf_frame (ffw # ws)"
  shows "unat (rx_wc ffw) + 3 = length ws" "unat (rx_wc ffw * 4) = 4 * (length ws - 3)"
    "unat (rx_wc ffw) \<le> 16" "FIELD_GET REG_FRAME_FORMAT_W_RWCNT ffw \<noteq> 0"
proof -
  let ?r = "FIELD_GET REG_FRAME_FORMAT_W_RWCNT ffw"
  have r: "3 \<le> unat ?r" "unat ?r \<le> 19" "length ws = unat ?r"
    using assms by (auto simp: wf_frame_def rwcnt_of_def)
  have "3 \<le> ?r" using r(1) by (simp add: word_le_nat_alt)
  then have "unat (?r - 3) = unat ?r - 3" by (simp add: unat_sub)
  then have wc: "unat (rx_wc ffw) = unat ?r - 3" by (simp add: rx_wc_def)
  show "unat (rx_wc ffw) + 3 = length ws" "unat (rx_wc ffw) \<le> 16" "?r \<noteq> 0" using wc r by auto
  show "unat (rx_wc ffw * 4) = 4 * (length ws - 3)"
    using wc r by (simp add: unat_word_ariths)
qed

lemma copied_words_classic:
  "FIELD_GET REG_FRAME_FORMAT_W_FDF ffw = 0 \<Longrightarrow> copied_words ffw \<le> 2"
proof -
  assume "FIELD_GET REG_FRAME_FORMAT_W_FDF ffw = 0"
  then have "rx_len ffw \<le> 8" by (auto simp: rx_len_def)
  then have "copied_len ffw \<le> 8" by (auto simp: copied_len_def)
  then show ?thesis by (simp add: copied_words_def word_le_nat_alt)
qed

lemma copied_words_le:
  assumes "wf_frame (ffw # ws)"
  shows "copied_words ffw \<le> length ws - 3" "copied_words ffw \<le> 16"
proof -
  have "unat (copied_len ffw) \<le> unat (rx_wc ffw * 4)"
    unfolding word_le_nat_alt [symmetric] copied_len_def by (simp add: not_less)
  then show "copied_words ffw \<le> length ws - 3"
    using rwcnt_rx_wc [OF assms] by (simp add: copied_words_def)
  then show "copied_words ffw \<le> 16" using rwcnt_rx_wc [OF assms] by simp
qed

section \<open>The state of reception\<close>

text \<open>In the middle of a frame: its words still in the FIFO, the frames behind it, and new ones.\<close>

definition rx_at ::
  "io_access \<Rightarrow> iomem \<Rightarrow> ('d \<Rightarrow> bool) \<Rightarrow> ('d \<Rightarrow> u32 list list) \<Rightarrow> u32 list \<Rightarrow> u32 list list \<Rightarrow> 'd ndev \<Rightarrow> bool"
  where
  "rx_at acc base ok frames ws fs s \<longleftrightarrow>
     reg_access (priv s) = acc \<and> mem_base (priv s) = base \<and> ok (hw s) \<and>
     (\<exists>new. list_all wf_frame new \<and> frames (hw s) = (if ws = [] then [] else [ws]) @ fs @ new)"

text \<open>The frames not delivered yet, with the first word that the driver may have kept.\<close>

definition rx_pending :: "('d \<Rightarrow> u32 list list) \<Rightarrow> 'd ndev \<Rightarrow> u32 list list" where
  "rx_pending frames s =
     (if ffw_buffered (priv s)
      then (rxfrm_first_word (priv s) # hd (frames (hw s))) # tl (frames (hw s))
      else frames (hw s))"

definition rx_sync ::
  "io_access \<Rightarrow> iomem \<Rightarrow> ('d \<Rightarrow> bool) \<Rightarrow> ('d \<Rightarrow> u32 list list) \<Rightarrow> 'd ndev \<Rightarrow> bool" where
  "rx_sync acc base ok frames s \<longleftrightarrow>
     reg_access (priv s) = acc \<and> mem_base (priv s) = base \<and> ok (hw s) \<and>
     (ffw_buffered (priv s) \<longrightarrow> frames (hw s) \<noteq> []) \<and> list_all wf_frame (rx_pending frames s)"

text \<open>Only the device differs.\<close>

definition only_hw :: "'d ndev \<Rightarrow> 'd ndev \<Rightarrow> bool" where
  "only_hw s s' \<longleftrightarrow> s' = s\<lparr>hw := hw s'\<rparr>"

lemma only_hw_refl [simp]: "only_hw s s" by (simp add: only_hw_def)

lemma only_hw_upd [simp]: "only_hw s (s\<lparr>hw := d\<rparr>)" by (simp add: only_hw_def)

lemma only_hw_trans: "only_hw s s' \<Longrightarrow> only_hw s' s'' \<Longrightarrow> only_hw s s''"
  unfolding only_hw_def by (metis ndev.surjective ndev.update_convs(4))

lemma only_hw_sel: "only_hw s s' \<Longrightarrow> priv s' = priv s \<and> stats s' = stats s \<and> klog s' = klog s"
  unfolding only_hw_def by (metis ndev.select_convs(1,2,3) ndev.surjective ndev.update_convs(4))

text \<open>The frames handed to the network stack, oldest first.\<close>

fun received :: "kcall list \<Rightarrow> (bool \<times> canfd_frame) list" where
  "received [] = []"
| "received (c # l) = received l @ (case c of Netif_receive_skb fd cf \<Rightarrow> [(fd, cf)] | _ \<Rightarrow> [])"

definition rx_decodes :: "u32 list \<Rightarrow> bool \<times> canfd_frame \<Rightarrow> bool" where
  "rx_decodes f x \<longleftrightarrow> fst x = (FIELD_GET REG_FRAME_FORMAT_W_FDF (hd f) \<noteq> 0) \<and>
     (\<exists>cf. snd x = frame_of_words cf f)"

text \<open>The driver has told NAPI that the poll is complete.\<close>

definition napi_completed :: "kcall list \<Rightarrow> bool" where
  "napi_completed = list_ex (\<lambda>c. case c of Napi_complete_done _ \<Rightarrow> True | _ \<Rightarrow> False)"

text \<open>A step that only lets frames arrive.\<close>

definition rx_grows ::
  "io_access \<Rightarrow> iomem \<Rightarrow> ('d \<Rightarrow> bool) \<Rightarrow> ('d \<Rightarrow> u32 list list) \<Rightarrow> 'd ndev \<Rightarrow> 'd ndev \<Rightarrow> bool" where
  "rx_grows acc base ok frames s s' \<longleftrightarrow>
     rx_sync acc base ok frames s' \<and> received (klog s') = received (klog s) \<and>
     (\<exists>new. list_all wf_frame new \<and> rx_pending frames s' = rx_pending frames s @ new)"

definition not_received :: "kcall \<Rightarrow> bool" where
  "not_received c \<longleftrightarrow> (case c of Netif_receive_skb _ _ \<Rightarrow> False | _ \<Rightarrow> True)"

lemma rx_grows_refl: "rx_sync acc base ok frames s \<Longrightarrow> rx_grows acc base ok frames s s"
  unfolding rx_grows_def by (auto intro: exI [of _ "[]"])

lemma rx_grows_trans:
  assumes "rx_grows acc base ok frames s s'" "rx_grows acc base ok frames s' s''"
  shows "rx_grows acc base ok frames s s''"
proof -
  obtain n1 n2 where "list_all wf_frame n1" "rx_pending frames s' = rx_pending frames s @ n1"
    "list_all wf_frame n2" "rx_pending frames s'' = rx_pending frames s' @ n2"
    using assms by (auto simp: rx_grows_def)
  then show ?thesis using assms unfolding rx_grows_def by (auto intro!: exI [of _ "n1 @ n2"])
qed

lemma rx_grows_soft [simp]:
  "not_received c \<Longrightarrow> rx_grows acc base ok frames s (kdo c s') = rx_grows acc base ok frames s s'"
  "rx_grows acc base ok frames s (upd_stats f s') = rx_grows acc base ok frames s s'"
  by (cases c; simp add: rx_grows_def rx_sync_def rx_pending_def kdo_def upd_stats_def not_received_def)+

text \<open>
  What the driver relies on of the allocators: a classic frame has 8 bytes of payload, a CAN FD
  frame 64.
\<close>

definition alloc_sizes :: "kern \<Rightarrow> bool" where
  "alloc_sizes K \<longleftrightarrow>
     (\<forall>l cf. k_alloc_can_skb K l = Some cf \<longrightarrow> length (data cf) = 8) \<and>
     (\<forall>l cf. k_alloc_canfd_skb K l = Some cf \<longrightarrow> length (data cf) = 64)"

definition alloc_works :: "kern \<Rightarrow> bool" where
  "alloc_works K \<longleftrightarrow> (\<forall>l. k_alloc_can_skb K l \<noteq> None \<and> k_alloc_canfd_skb K l \<noteq> None)"

context rx_fifo
begin

lemma read_word:
  assumes "rx_at acc base ok frames (w # ws) fs s"
  obtains s' where "ctucan_read32 B CTUCANFD_RX_DATA s = (w, s')" "only_hw s s'"
    "rx_at acc base ok frames ws fs s'"
proof -
  obtain v d where ld: "ld32 B (hw s) (base + ucast CTUCANFD_RX_DATA) = (v, d)" by fastforce
  obtain new where s: "reg_access (priv s) = acc" "mem_base (priv s) = base" "ok (hw s)"
    "list_all wf_frame new" "frames (hw s) = (w # ws) # fs @ new"
    using assms by (auto simp: rx_at_def)
  obtain n1 n2 where d: "list_all wf_frame (n1 @ n2)" "ok d"
    "bus_order acc v = first_word (frames (hw s) @ n1)"
    "frames d = frames_pop (frames (hw s) @ n1) @ n2"
    using ld_rx_data [OF s(3) ld] by blast
  have "ctucan_read32 B CTUCANFD_RX_DATA s = (w, s\<lparr>hw := d\<rparr>)"
    using s(1,2,5) d(3) ld by (simp add: ctucan_read32_bus first_word_def)
  moreover have "frames d = (if ws = [] then [] else [ws]) @ fs @ new @ n1 @ n2"
    using s(5) d(4) by simp
  then have "rx_at acc base ok frames ws fs (s\<lparr>hw := d\<rparr>)"
    using s(1,2,4) d(1,2) unfolding rx_at_def
    by (auto intro!: exI [of _ "new @ n1 @ n2"])
  ultimately show ?thesis by (intro that) auto
qed

lemma data_loop:
  assumes "rx_at acc base ok frames dws fs s" "n = (unat len - i + 3) div 4" "n \<le> length dws"
    "i + 4 * n \<le> length bs"
  shows "\<exists>s'. rx_data_loop B len i bs s =
      Inr (i + 4 * n, take i bs @ concat (map le_bytes (take n dws)) @ drop (i + 4 * n) bs, s') \<and>
    only_hw s s' \<and> rx_at acc base ok frames (drop n dws) fs s'"
  using assms
proof (induction n arbitrary: i bs s dws)
  case 0
  then have "\<not> i < unat len" by (auto simp: div_eq_0_iff)
  then show ?case using 0 by (simp add: rx_data_loop.simps)
next
  case (Suc n)
  then obtain w ws where dws: "dws = w # ws" by (cases dws) auto
  have i: "i < unat len" "n = (unat len - (i + 4) + 3) div 4" using Suc.prems(2) by auto
  obtain s1 where s1: "ctucan_read32 B CTUCANFD_RX_DATA s = (w, s1)" "only_hw s s1"
    "rx_at acc base ok frames ws fs s1"
    using read_word [OF Suc.prems(1) [unfolded dws]] by blast
  let ?bs = "take i bs @ le_bytes w @ drop (i + 4) bs"
  have len: "length (le_bytes w) = 4" by (simp add: le_bytes_def)
  have put: "put_le32 bs i w = Some ?bs" "length ?bs = length bs"
    using put_le32_splice [of i bs w] Suc.prems(4) by (auto simp: len)
  have pr: "n \<le> length ws" "i + 4 + 4 * n \<le> length ?bs"
    using Suc.prems(3,4) dws put(2) by auto
  obtain s2 where s2: "rx_data_loop B len (i + 4) ?bs s1 = Inr (i + 4 + 4 * n,
      take (i + 4) ?bs @ concat (map le_bytes (take n ws)) @ drop (i + 4 + 4 * n) ?bs, s2)"
    "only_hw s1 s2" "rx_at acc base ok frames (drop n ws) fs s2"
    using Suc.IH [OF s1(3) i(2) pr] by blast
  have "take (i + 4) ?bs = take i bs @ le_bytes w" "drop (i + 4 + 4 * n) ?bs = drop (i + 4 * Suc n) bs"
    using Suc.prems(4) len by (simp_all add: min_def ac_simps)
  then have "rx_data_loop B len i bs s = Inr (i + 4 * Suc n,
      take i bs @ concat (map le_bytes (take (Suc n) dws)) @ drop (i + 4 * Suc n) bs, s2)"
    using s2(1) s1(1) i(1) put(1) dws by (simp add: rx_data_loop.simps [of B len i])
  then show ?case
    using s2(3) dws only_hw_trans [OF s1(2) s2(2)] by auto
qed

lemma skip_loop:
  assumes "rx_at acc base ok frames dws fs s" "bytes = i + 4 * length dws"
  shows "only_hw s (rx_skip_loop B i bytes s) \<and>
    rx_at acc base ok frames [] fs (rx_skip_loop B i bytes s)"
  using assms
proof (induction dws arbitrary: i s)
  case Nil
  then show ?case by (simp add: rx_skip_loop.simps)
next
  case (Cons w ws)
  obtain s1 where s1: "ctucan_read32 B CTUCANFD_RX_DATA s = (w, s1)" "only_hw s s1"
    "rx_at acc base ok frames ws fs s1"
    using read_word [OF Cons.prems(1)] by blast
  then show ?case
    using Cons.IH [OF s1(3), of "i + 4"] Cons.prems(2) only_hw_trans [OF s1(2)]
    by (simp add: rx_skip_loop.simps [of B i])
qed

lemma read_frame:
  assumes "rx_at acc base ok frames ws fs s" "wf_frame (ffw # ws)"
    "4 * copied_words ffw \<le> length (data cf)"
  obtains s' where "ctucan_read_rx_frame B cf ffw s = Inr (frame_of_words cf (ffw # ws), s')"
    "only_hw s s'" "rx_at acc base ok frames [] fs s'"
proof -
  note wc = rwcnt_rx_wc [OF assms(2)] and cw = copied_words_le [OF assms(2)]
  obtain idw t1 t2 dws where ws: "ws = idw # t1 # t2 # dws"
    using wc(1) by (cases ws rule: list.exhaust [case_names _ Cons]; cases "tl ws"; cases "tl (tl ws)") auto
  obtain s1 where s1: "ctucan_read32 B CTUCANFD_RX_DATA s = (idw, s1)" "only_hw s s1"
    "rx_at acc base ok frames (t1 # t2 # dws) fs s1"
    using read_word [OF assms(1) [unfolded ws]] by blast
  obtain s2 where s2: "ctucan_read32 B CTUCANFD_RX_DATA s1 = (t1, s2)" "only_hw s1 s2"
    "rx_at acc base ok frames (t2 # dws) fs s2"
    using read_word [OF s1(3)] by blast
  obtain s3 where s3: "ctucan_read32 B CTUCANFD_RX_DATA s2 = (t2, s3)" "only_hw s2 s3"
    "rx_at acc base ok frames dws fs s3"
    using read_word [OF s2(3)] by blast
  let ?n = "copied_words ffw"
  obtain s4 where s4: "rx_data_loop B (copied_len ffw) 0 (data cf) s3 =
      Inr (4 * ?n, concat (map le_bytes (take ?n dws)) @ drop (4 * ?n) (data cf), s4)"
    "only_hw s3 s4" "rx_at acc base ok frames (drop ?n dws) fs s4"
    using data_loop [OF s3(3), of ?n "copied_len ffw" 0 "data cf"] cw assms(3) ws
    by (auto simp: copied_words_def)
  let ?s = "rx_skip_loop B (4 * ?n) (unat (rx_wc ffw * 4)) s4"
  have "unat (rx_wc ffw * 4) = 4 * ?n + 4 * length (drop ?n dws)" using wc(2) cw(1) ws by simp
  then have s5: "only_hw s4 ?s" "rx_at acc base ok frames [] fs ?s"
    using skip_loop [OF s4(3)] by blast+
  have "ctucan_read_rx_frame B cf ffw s = Inr (frame_of_words cf (ffw # ws), ?s)"
    using s1(1) s2(1) s3(1) s4(1)
    by (simp add: ctucan_read_rx_frame_def frame_of_words_def copied_len_def ws Let_def)
  moreover have "only_hw s ?s"
    using s1(2) s2(2) s3(2) s4(2) s5(1) only_hw_trans by metis
  ultimately show ?thesis using s5(2) that by blast
qed

lemma first_word_cases:
  assumes "rx_sync acc base ok frames s"
  obtains (empty) s' where "rx_first_word B s = (0, s')" "rx_sync acc base ok frames s'"
      "rx_pending frames s = []" "klog s' = klog s"
  | (frame) ffw ws fs new s' where "rx_first_word B s = (ffw, s')" "list_all wf_frame ((ffw # ws) # fs)"
      "list_all wf_frame new" "rx_pending frames s @ new = (ffw # ws) # fs"
      "rx_at acc base ok frames ws fs s'" "\<not> ffw_buffered (priv s')" "klog s' = klog s"
proof (cases "ffw_buffered (priv s)")
  case True
  let ?s = "upd_priv (\<lambda>p. p\<lparr>drv_flags := unset_bit CTUCANFD_FLAG_RX_FFW_BUFFERED (drv_flags p)\<rparr>) s"
  let ?w = "rxfrm_first_word (priv s)" and ?ws = "hd (frames (hw s))" and ?fs = "tl (frames (hw s))"
  have wf: "list_all wf_frame ((?w # ?ws) # ?fs)" "frames (hw s) \<noteq> []"
    using assms True by (auto simp: rx_sync_def rx_pending_def)
  then have ne: "?ws \<noteq> []" by (auto simp: wf_frame_def)
  have "rx_at acc base ok frames ?ws ?fs ?s"
    using assms wf(2) ne unfolding rx_at_def by (auto simp: rx_sync_def upd_priv_def intro!: exI [of _ "[]"])
  then show thesis
    using frame [of ?w ?s ?ws ?fs "[]"] wf True
    by (simp add: rx_first_word_def rx_pending_def ffw_buffered_def upd_priv_def bit_unset_bit_iff)
next
  case False
  obtain v d where ld: "ld32 B (hw s) (base + ucast CTUCANFD_RX_DATA) = (v, d)" by fastforce
  have s: "reg_access (priv s) = acc" "mem_base (priv s) = base" "ok (hw s)"
    "list_all wf_frame (frames (hw s))"
    using assms False by (auto simp: rx_sync_def rx_pending_def)
  obtain n1 n2 where d: "list_all wf_frame (n1 @ n2)" "ok d"
    "bus_order acc v = first_word (frames (hw s) @ n1)" "frames d = frames_pop (frames (hw s) @ n1) @ n2"
    using ld_rx_data [OF s(3) ld] by blast
  have rd: "rx_first_word B s = (first_word (frames (hw s) @ n1), s\<lparr>hw := d\<rparr>)"
    using False s(1,2) ld d(3) by (simp add: rx_first_word_def ctucan_read32_bus)
  show thesis
  proof (cases "frames (hw s) @ n1")
    case Nil
    then show thesis
      using empty [of "s\<lparr>hw := d\<rparr>"] rd d False s by (simp add: rx_sync_def rx_pending_def first_word_def)
  next
    case (Cons f fs)
    then have wf: "list_all wf_frame (f # fs)" using s(4) d(1) by (metis list_all_append)
    then obtain ffw ws where f: "f = ffw # ws" "ws \<noteq> []" by (cases f) (force simp: wf_frame_def)+
    have "rx_at acc base ok frames ws fs (s\<lparr>hw := d\<rparr>)"
      using s(1,2) d f Cons unfolding rx_at_def by (auto intro!: exI [of _ n2])
    moreover have "first_word (frames (hw s) @ n1) = ffw" using Cons f by (simp add: first_word_def)
    moreover have "rx_pending frames s @ n1 = (ffw # ws) # fs" using Cons f False by (simp add: rx_pending_def)
    ultimately show thesis
      using frame [of ffw "s\<lparr>hw := d\<rparr>" ws fs n1] rd wf f d(1) False by simp
  qed
qed

text \<open>One call of \<open>ctucan_rx\<close> takes the oldest frame, or leaves everything as it is.\<close>

lemma rx_step:
  assumes "rx_sync acc base ok frames s" "alloc_sizes K"
  shows "\<exists>r s' new got xs. ctucan_rx B K s = Inr (r, s') \<and> rx_sync acc base ok frames s' \<and>
    list_all wf_frame new \<and> rx_pending frames s @ new = got @ rx_pending frames s' \<and>
    received (klog s') = received (klog s) @ xs \<and> list_all2 rx_decodes got xs \<and>
    (r = 1 \<and> length got = 1 \<or>
     r = 0 \<and> got = [] \<and> rx_pending frames s' \<noteq> [] \<and> \<not> alloc_works K \<or>
     r = - EAGAIN \<and> got = [] \<and> rx_pending frames s = [])"
  using assms(1)
proof (cases rule: first_word_cases)
  case (empty s')
  then have "ctucan_rx B K s = Inr (- EAGAIN, s')" "list_all wf_frame (rx_pending frames s')"
    by (simp_all add: ctucan_rx_def FIELD_GET_def rx_sync_def)
  then show ?thesis using empty by (intro exI [of _ "- EAGAIN"] exI [of _ s']
    exI [of _ "rx_pending frames s'"] exI [of _ "[]"]) auto
next
  case (frame ffw ws fs new s1)
  let ?fd = "FIELD_GET REG_FRAME_FORMAT_W_FDF ffw \<noteq> 0"
  have wf: "wf_frame (ffw # ws)" using frame(2) by simp
  then have "ws \<noteq> []" by (auto simp: wf_frame_def)
  obtain a s2 where al: "rx_alloc K ?fd s1 = (a, s2)" by fastforce
  have s2: "s2 = kdo (if ?fd then Alloc_canfd_skb else Alloc_can_skb) s1"
    using al by (auto simp: rx_alloc_def split: if_splits)
  have at: "rx_at acc base ok frames ws fs s2" "\<not> ffw_buffered (priv s2)"
    "received (klog s2) = received (klog s)"
    using frame(5,6,7) by (auto simp: s2 rx_at_def kdo_def)
  obtain more where more: "list_all wf_frame more" "frames (hw s2) = ws # fs @ more"
    using at(1) \<open>ws \<noteq> []\<close> by (auto simp: rx_at_def)
  show ?thesis
  proof (cases a)
    case None
    let ?s = "rx_keep_ffw ffw s2"
    have "ctucan_rx B K s = Inr (0, ?s)"
      using frame(1) al None rwcnt_rx_wc(4) [OF wf] by (simp add: ctucan_rx_def)
    moreover have p: "rx_pending frames ?s = (ffw # ws) # fs @ more"
      using more(2)
      by (simp add: rx_pending_def rx_keep_ffw_def upd_priv_def ffw_buffered_def bit_set_bit_iff
          CTUCANFD_FLAG_RX_FFW_BUFFERED_def)
    moreover from p have "rx_sync acc base ok frames ?s"
      using at(1) more frame(2) unfolding rx_sync_def
      by (simp add: rx_at_def rx_keep_ffw_def upd_priv_def)
    moreover have "received (klog ?s) = received (klog s)"
      using at(3) by (simp add: rx_keep_ffw_def upd_priv_def)
    moreover have "\<not> alloc_works K"
      using al None by (auto simp: rx_alloc_def alloc_works_def split: if_splits)
    ultimately show ?thesis
      using frame(3,4) more(1)
      by (intro exI [of _ 0] exI [of _ ?s] exI [of _ "new @ more"] exI [of _ "[]"]) auto
  next
    case (Some cf)
    have "4 * copied_words ffw \<le> length (data cf)"
      using al Some assms(2) copied_words_le [OF wf] copied_words_classic [of ffw]
      by (auto simp: rx_alloc_def alloc_sizes_def split: if_splits)
    from read_frame [OF at(1) wf this] obtain s3 where
      s3: "ctucan_read_rx_frame B cf ffw s2 = Inr (frame_of_words cf (ffw # ws), s3)"
      "only_hw s2 s3" "rx_at acc base ok frames [] fs s3" .
    let ?s = "rx_deliver ?fd (frame_of_words cf (ffw # ws)) s3"
    have "ctucan_rx B K s = Inr (1, ?s)"
      using frame(1) al Some s3(1) rwcnt_rx_wc(4) [OF wf] by (simp add: ctucan_rx_def)
    moreover have keep: "priv ?s = priv s2" "hw ?s = hw s3"
      using only_hw_sel [OF s3(2)] by (simp_all add: rx_deliver_def kdo_def upd_stats_def)
    moreover obtain late where "list_all wf_frame late" "rx_pending frames ?s = fs @ late"
      using s3(3) at(2) keep by (auto simp: rx_at_def rx_pending_def)
    moreover from this have "rx_sync acc base ok frames ?s"
      using s3(3) at(2) keep frame(2) only_hw_sel [OF s3(2)] unfolding rx_sync_def by (simp add: rx_at_def)
    moreover have "received (klog ?s) = received (klog s) @ [(?fd, frame_of_words cf (ffw # ws))]"
      using only_hw_sel [OF s3(2)] at(3) by (simp add: rx_deliver_def kdo_def upd_stats_def)
    ultimately show ?thesis
      using frame(3,4)
      by (intro exI [of _ 1] exI [of _ ?s] exI [of _ "new @ late"] exI [of _ "[ffw # ws]"]
          exI [of _ "[(?fd, frame_of_words cf (ffw # ws))]"]) (auto simp: rx_decodes_def)
  qed
qed

lemma framecnt_step:
  assumes "rx_sync acc base ok frames s"
  obtains c s' new late where "rx_framecnt B s = (c, s')" "rx_sync acc base ok frames s'"
    "list_all wf_frame (new @ late)" "rx_pending frames s' = rx_pending frames s @ new @ late"
    "priv s' = priv s" "klog s' = klog s" "unat c = length (frames (hw s) @ new)"
    "c = 0 \<or> rx_pending frames s' \<noteq> []"
proof -
  obtain v d where ld: "ld32 B (hw s) (base + ucast CTUCANFD_RX_STATUS) = (v, d)" by fastforce
  have s: "reg_access (priv s) = acc" "mem_base (priv s) = base" "ok (hw s)"
    using assms by (auto simp: rx_sync_def)
  obtain new late where d: "list_all wf_frame (new @ late)" "ok d" "frames d = frames (hw s) @ new @ late"
    "unat (FIELD_GET REG_RX_STATUS_RXFRC (bus_order acc v)) = length (frames (hw s) @ new)"
    using ld_rx_status [OF s(3) ld] by blast
  have p: "rx_pending frames (s\<lparr>hw := d\<rparr>) = rx_pending frames s @ new @ late"
    using assms d(3) by (auto simp: rx_pending_def rx_sync_def)
  moreover from p have "rx_sync acc base ok frames (s\<lparr>hw := d\<rparr>)"
    using assms d(1,2,3) unfolding rx_sync_def by auto
  moreover have "FIELD_GET REG_RX_STATUS_RXFRC (bus_order acc v) = 0 \<or> rx_pending frames s @ new @ late \<noteq> []"
    using d(4) by (auto simp: rx_pending_def unat_eq_zero split: if_splits)
  ultimately show ?thesis
    using that [of "FIELD_GET REG_RX_STATUS_RXFRC (bus_order acc v)" "s\<lparr>hw := d\<rparr>" new late] s d ld
    by (simp add: rx_framecnt_def ctucan_read32_bus)
qed

text \<open>What a run of the driver does to the queue of frames and to the log.\<close>

lemma poll_loop:
  assumes "rx_sync acc base ok frames s" "alloc_sizes K" "work_done \<le> quota"
  shows "\<exists>c w r s' new got xs. rx_poll_loop B K quota framecnt work_done res s = Inr (c, w, r, s') \<and>
    rx_sync acc base ok frames s' \<and> list_all wf_frame new \<and>
    rx_pending frames s @ new = got @ rx_pending frames s' \<and>
    received (klog s') = received (klog s) @ xs \<and> list_all2 rx_decodes got xs \<and>
    work_done \<le> w \<and> w \<le> quota \<and> int (length got) \<le> w - work_done \<and>
    (alloc_works K \<and> (framecnt = 0 \<or> rx_pending frames s \<noteq> []) \<and> res > 0 \<longrightarrow>
      int (length got) = w - work_done \<and> r > 0 \<and> (w < quota \<longrightarrow> c = 0))"
  using assms(1,3)
proof (induction "nat (quota - work_done)" arbitrary: framecnt work_done res s rule: less_induct)
  case less
  show ?case
  proof (cases "framecnt \<noteq> 0 \<and> work_done < quota \<and> res > 0")
    case False
    then show ?thesis
      using less.prems by (subst rx_poll_loop.simps) (auto intro!: exI [of _ "[]"])
  next
    case True
    obtain r s1 new got xs where s1: "ctucan_rx B K s = Inr (r, s1)" "rx_sync acc base ok frames s1"
      "list_all wf_frame new" "rx_pending frames s @ new = got @ rx_pending frames s1"
      "received (klog s1) = received (klog s) @ xs" "list_all2 rx_decodes got xs" "length got \<le> 1"
      "alloc_works K \<longrightarrow> rx_pending frames s \<noteq> [] \<longrightarrow> length got = 1 \<and> r = 1"
      using rx_step [OF less.prems(1) assms(2)] by fastforce
    obtain c s2 n1 n2 where s2: "rx_framecnt B s1 = (c, s2)" "rx_sync acc base ok frames s2"
      "list_all wf_frame (n1 @ n2)" "rx_pending frames s2 = rx_pending frames s1 @ n1 @ n2"
      "klog s2 = klog s1" "c = 0 \<or> rx_pending frames s2 \<noteq> []"
      using framecnt_step [OF s1(2)] by metis
    have q: "nat (quota - (work_done + 1)) < nat (quota - work_done)" "work_done + 1 \<le> quota"
      using True by auto
    obtain c' w r' s' new' got' xs' where
      s': "rx_poll_loop B K quota c (work_done + 1) r s2 = Inr (c', w, r', s')"
      "rx_sync acc base ok frames s'" "list_all wf_frame new'"
      "rx_pending frames s2 @ new' = got' @ rx_pending frames s'"
      "received (klog s') = received (klog s2) @ xs'" "list_all2 rx_decodes got' xs'"
      "work_done + 1 \<le> w" "w \<le> quota" "int (length got') \<le> w - (work_done + 1)"
      "alloc_works K \<and> (c = 0 \<or> rx_pending frames s2 \<noteq> []) \<and> r > 0 \<longrightarrow>
        int (length got') = w - (work_done + 1) \<and> r' > 0 \<and> (w < quota \<longrightarrow> c' = 0)"
      using less.hyps [OF q(1) s2(2) q(2), of c r] by blast
    have "rx_poll_loop B K quota framecnt work_done res s = Inr (c', w, r', s')"
      using True s1(1) s2(1) s'(1) by (subst rx_poll_loop.simps) simp
    moreover have "rx_pending frames s @ new @ n1 @ n2 @ new' = (got @ got') @ rx_pending frames s'"
      using s1(4) s2(4) s'(4) by (metis append.assoc)
    moreover have "list_all2 rx_decodes (got @ got') (xs @ xs')"
      by (rule list_all2_appendI [OF s1(6) s'(6)])
    moreover have "received (klog s') = received (klog s) @ xs @ xs'"
      using s1(5) s2(5) s'(5) by simp
    moreover have "alloc_works K \<and> (framecnt = 0 \<or> rx_pending frames s \<noteq> []) \<and> res > 0 \<longrightarrow>
        int (length (got @ got')) = w - work_done \<and> r' > 0 \<and> (w < quota \<longrightarrow> c' = 0)"
      using s'(10) s1(8) s2(6) True by fastforce
    moreover have "list_all wf_frame (new @ n1 @ n2 @ new')" "work_done \<le> w"
        "int (length (got @ got')) \<le> w - work_done"
      using s'(3,7,9) s1(3,7) s2(3) by auto
    ultimately show ?thesis
      using s'(2,8)
      by (intro exI [of _ c'] exI [of _ w] exI [of _ r'] exI [of _ s'] exI [of _ "new @ n1 @ n2 @ new'"]
          exI [of _ "got @ got'"] exI [of _ "xs @ xs'"]) blast
  qed
qed

lemma grows_dev:
  assumes "rx_sync acc base ok frames s" "list_all wf_frame new" "ok d" "frames d = frames (hw s) @ new"
  shows "rx_grows acc base ok frames s (s\<lparr>hw := d\<rparr>)"
proof -
  have p: "rx_pending frames (s\<lparr>hw := d\<rparr>) = rx_pending frames s @ new"
    using assms(1,4) by (auto simp: rx_pending_def rx_sync_def)
  then show ?thesis using assms unfolding rx_grows_def rx_sync_def by auto
qed

lemma grows_status:
  assumes "rx_sync acc base ok frames s"
  shows "rx_grows acc base ok frames s (snd (ctucan_read32 B CTUCANFD_STATUS s))"
proof -
  obtain v d where ld: "ld32 B (hw s) (base + ucast CTUCANFD_STATUS) = (v, d)" by fastforce
  have s: "reg_access (priv s) = acc" "mem_base (priv s) = base" "ok (hw s)"
    using assms by (auto simp: rx_sync_def)
  then show ?thesis
    using ld_status [OF s(3) ld] grows_dev [OF assms, of _ d] ld by (auto simp: ctucan_read32_bus)
qed

lemma grows_write:
  assumes "rx_grows acc base ok frames s s'"
    "reg \<in> {CTUCANFD_COMMAND, CTUCANFD_INT_STAT, CTUCANFD_INT_MASK_CLR}" "w AND REG_COMMAND_RRB = 0"
  shows "rx_grows acc base ok frames s (ctucan_write32 B reg w s')"
proof -
  have s': "rx_sync acc base ok frames s'" using assms(1) by (simp add: rx_grows_def)
  then have "reg_access (priv s') = acc" "mem_base (priv s') = base" "ok (hw s')"
    by (auto simp: rx_sync_def)
  then have "rx_grows acc base ok frames s' (ctucan_write32 B reg w s')"
    using st_other [of "hw s'" reg w] assms(2,3) grows_dev [OF s'] by (auto simp: ctucan_write32_bus)
  then show ?thesis by (rule rx_grows_trans [OF assms(1)])
qed

lemma overrun_grows:
  assumes "rx_sync acc base ok frames s"
  shows "rx_grows acc base ok frames s (rx_overrun B K s)"
proof -
  have "REG_COMMAND_CDO AND REG_COMMAND_RRB = 0" by (simp add: reg_masks BIT_def)
  then show ?thesis
    using rx_grows_refl [OF assms] unfolding rx_overrun_def
    by (auto simp: not_received_def Let_def intro!: grows_write split: option.split)
qed

text \<open>The work of a poll after the loop.\<close>

lemma poll_tail:
  assumes "rx_sync acc base ok frames s" "rx_framecnt B s = (c, s1)"
    "rx_poll_loop B K quota c 0 1 s1 = Inr (c', w, r, s2)" "rx_sync acc base ok frames s2"
  obtains s' where "ctucan_rx_poll B K quota s = Inr (w, s')" "rx_grows acc base ok frames s2 s'"
    "c' = 0 \<and> r \<noteq> 0 \<longrightarrow> Napi_complete_done w \<in> set (klog s')"
proof -
  obtain v s3 where rd: "ctucan_read32 B CTUCANFD_STATUS s2 = (v, s3)" by fastforce
  define s4 where "s4 = (if FIELD_GET REG_STATUS_DOR v \<noteq> 0 then rx_overrun B K s3 else s3)"
  define ack where "ack = (\<lambda>s. ctucan_write32 B CTUCANFD_INT_MASK_CLR REG_INT_STAT_RBNEI
    (ctucan_write32 B CTUCANFD_INT_STAT REG_INT_STAT_RBNEI s))"
  define s5 where "s5 = (if c' = 0 \<and> r \<noteq> 0 then
      (if k_napi_complete_done K (klog s4) w then ack (kdo (Napi_complete_done w) s4)
       else kdo (Napi_complete_done w) s4) else s4)"
  have g3: "rx_grows acc base ok frames s2 s3" using grows_status [OF assms(4)] rd by simp
  then have g4: "rx_grows acc base ok frames s2 s4"
    using overrun_grows [of s3 K] rx_grows_trans [OF g3] by (auto simp: s4_def rx_grows_def)
  have "REG_INT_STAT_RBNEI AND REG_COMMAND_RRB = 0" by (simp add: reg_masks BIT_def)
  then have "rx_grows acc base ok frames s2 s5"
    using g4 by (auto simp: s5_def ack_def not_received_def intro!: grows_write)
  moreover have "ctucan_rx_poll B K quota s = Inr (w, s5)"
    using assms(2,3) rd by (simp add: ctucan_rx_poll_def s4_def s5_def ack_def Let_def)
  moreover have "c' = 0 \<and> r \<noteq> 0 \<longrightarrow> Napi_complete_done w \<in> set (klog s5)"
    by (simp add: s5_def ack_def write32_frame)
  ultimately show ?thesis using that by blast
qed

lemma poll:
  assumes "rx_sync acc base ok frames s" "alloc_sizes K" "0 \<le> quota"
  shows "\<exists>w s' new got xs. ctucan_rx_poll B K quota s = Inr (w, s') \<and>
    rx_sync acc base ok frames s' \<and> list_all wf_frame new \<and>
    rx_pending frames s @ new = got @ rx_pending frames s' \<and>
    received (klog s') = received (klog s) @ xs \<and> list_all2 rx_decodes got xs \<and>
    int (length got) \<le> w \<and> w \<le> quota \<and>
    (alloc_works K \<longrightarrow> w = int (length got) \<and> (w < quota \<longrightarrow> Napi_complete_done w \<in> set (klog s')))"
proof -
  obtain c s1 n1 n2 where s1: "rx_framecnt B s = (c, s1)" "rx_sync acc base ok frames s1"
    "list_all wf_frame (n1 @ n2)" "rx_pending frames s1 = rx_pending frames s @ n1 @ n2" "klog s1 = klog s"
    "c = 0 \<or> rx_pending frames s1 \<noteq> []"
    using framecnt_step [OF assms(1)] by metis
  obtain c' w r s2 new got xs where s2: "rx_poll_loop B K quota c 0 1 s1 = Inr (c', w, r, s2)"
    "rx_sync acc base ok frames s2" "list_all wf_frame new"
    "rx_pending frames s1 @ new = got @ rx_pending frames s2"
    "received (klog s2) = received (klog s1) @ xs" "list_all2 rx_decodes got xs"
    "w \<le> quota" "int (length got) \<le> w"
    "alloc_works K \<longrightarrow> int (length got) = w \<and> r > 0 \<and> (w < quota \<longrightarrow> c' = 0)"
    using poll_loop [OF s1(2) assms(2,3), of c 1] s1(6) by auto
  from poll_tail [OF assms(1) s1(1) s2(1,2)] obtain s' where
    s': "ctucan_rx_poll B K quota s = Inr (w, s')" "rx_grows acc base ok frames s2 s'"
    "c' = 0 \<and> r \<noteq> 0 \<longrightarrow> Napi_complete_done w \<in> set (klog s')" .
  then obtain late where late: "list_all wf_frame late" "rx_pending frames s' = rx_pending frames s2 @ late"
    by (auto simp: rx_grows_def)
  have "rx_pending frames s @ (n1 @ n2 @ new @ late) = got @ rx_pending frames s'"
    using s1(4) s2(4) late(2) by (metis append.assoc)
  moreover have "alloc_works K \<longrightarrow> w = int (length got) \<and> (w < quota \<longrightarrow> Napi_complete_done w \<in> set (klog s'))"
    using s'(3) s2(9) by force
  moreover have "list_all wf_frame (n1 @ n2 @ new @ late)" "received (klog s') = received (klog s) @ xs"
    "rx_sync acc base ok frames s'"
    using s1(3,5) s2(3,5) late(1) s'(2) by (auto simp: rx_grows_def)
  ultimately show ?thesis
    using s'(1) s2(6-8)
    by (intro exI [of _ w] exI [of _ s'] exI [of _ "n1 @ n2 @ new @ late"] exI [of _ got]
        exI [of _ xs]) blast
qed

text \<open>
  A poll in which no buffer can be allocated ends after one attempt, without completing NAPI and
  without a frame delivered.
\<close>

lemma rx_no_memory:
  assumes "rx_sync acc base ok frames s" "rx_pending frames s \<noteq> []"
    "k_alloc_can_skb K = (\<lambda>_. None)" "k_alloc_canfd_skb K = (\<lambda>_. None)"
  obtains s' where "ctucan_rx B K s = Inr (0, s')" "napi_completed (klog s') = napi_completed (klog s)"
  using assms(1)
proof (cases rule: first_word_cases)
  case (frame ffw ws fs new s1)
  then have "FIELD_GET REG_FRAME_FORMAT_W_RWCNT ffw \<noteq> 0" using rwcnt_rx_wc(4) [of ffw ws] by simp
  then show thesis
    using frame(1,7) assms(3,4) that
      [of "rx_keep_ffw ffw (snd (rx_alloc K (FIELD_GET REG_FRAME_FORMAT_W_FDF ffw \<noteq> 0) s1))"]
    by (auto simp: ctucan_rx_def rx_alloc_def rx_keep_ffw_def upd_priv_def kdo_def
        napi_completed_def Let_def split: if_splits)
qed (use assms(2) in simp)

lemma poll_stalls:
  assumes "rx_sync acc base ok frames s" "rx_pending frames s \<noteq> []" "1 < quota"
    "k_alloc_can_skb K = (\<lambda>_. None)" "k_alloc_canfd_skb K = (\<lambda>_. None)"
  shows "\<exists>s'. ctucan_rx_poll B K quota s = Inr (1, s') \<and>
    napi_completed (klog s') = napi_completed (klog s)"
proof -
  obtain c s1 new late where s1: "rx_framecnt B s = (c, s1)" "rx_sync acc base ok frames s1"
    "rx_pending frames s1 = rx_pending frames s @ new @ late" "klog s1 = klog s"
    "unat c = length (frames (hw s) @ new)"
    using framecnt_step [OF assms(1)] by metis
  have "frames (hw s) \<noteq> []" using assms(1,2) by (auto simp: rx_sync_def rx_pending_def split: if_splits)
  then have c: "c \<noteq> 0" using s1(5) by auto
  obtain s2 where s2: "ctucan_rx B K s1 = Inr (0, s2)" "napi_completed (klog s2) = napi_completed (klog s)"
    using rx_no_memory [OF s1(2) _ assms(4,5)] s1(3,4) assms(2) by auto
  obtain c' s3 where s3: "rx_framecnt B s2 = (c', s3)" by fastforce
  have "klog s3 = klog s2"
    using s3 read32_frame(3) [of B CTUCANFD_RX_STATUS s2] by (auto simp: rx_framecnt_def Let_def split_def)
  have loop: "rx_poll_loop B K quota c 0 1 s1 = Inr (c', 1, 0, s3)"
    using c assms(3) s2(1) s3 by (simp add: rx_poll_loop.simps)
  obtain v s4 where s4: "ctucan_read32 B CTUCANFD_STATUS s3 = (v, s4)" by fastforce
  have "klog s4 = klog s3" using s4 read32_frame [of B CTUCANFD_STATUS s3] by simp
  have ov: "napi_completed (klog (rx_overrun B K s4)) = napi_completed (klog s4)"
    by (auto simp: rx_overrun_def Let_def kdo_def upd_stats_def napi_completed_def write32_frame
        split: option.split)
  show ?thesis
    using s1(1) loop s4 ov s2(2) \<open>klog s4 = klog s3\<close> \<open>klog s3 = klog s2\<close>
    by (auto simp: ctucan_rx_poll_def Let_def)
qed

end

section \<open>The controller behind the bus\<close>

text \<open>
  One bus access of the environment: what the CAN core does to the buffer before it and in its
  cycle, and what the rest of the register reads as.
\<close>

record rx_access =
  rx_cycles :: "rx_op list"
  rx_access_op :: rx_op
  rx_rdata :: u32

record rxdev =
  rxb :: rxbuf
  rx_env :: "rx_access list"

text \<open>The CAN core commits complete frames only (\<open>rx_op_ok\<close>).\<close>

definition rx_core_op :: "nat \<Rightarrow> rxbuf \<Rightarrow> rx_op \<Rightarrow> rx_op" where
  "rx_core_op sz b wr = (if rx_op_ok sz wr b (rxq_of sz b) then wr else Rx_none)"

definition rx_core_cycle :: "nat \<Rightarrow> bool \<Rightarrow> bool \<Rightarrow> rxbuf \<Rightarrow> rx_op \<Rightarrow> rxbuf" where
  "rx_core_cycle sz rd cdo b wr = rx_cycle sz rd (rx_core_op sz b wr) cdo b"

definition rx_next_access :: "nat \<Rightarrow> rxdev \<Rightarrow> rx_access \<times> rxdev" where
  "rx_next_access sz d =
     (let (x, e) = (case rx_env d of
              [] \<Rightarrow> (\<lparr>rx_cycles = [], rx_access_op = Rx_none, rx_rdata = 0\<rparr>, [])
            | x # e \<Rightarrow> (x, e))
      in (x, \<lparr>rxb = foldl (rx_core_cycle sz False False) (rxb d) (rx_cycles x), rx_env = e\<rparr>))"

definition rx_status_reg :: "rxbuf \<Rightarrow> u32 \<Rightarrow> u32" where
  "rx_status_reg b rest =
     (rest AND NOT REG_RX_STATUS_RXFRC) OR FIELD_PREP REG_RX_STATUS_RXFRC (of_nat (frame_count b))"

definition dor_status_reg :: "rxbuf \<Rightarrow> u32 \<Rightarrow> u32" where
  "dor_status_reg b rest =
     (rest AND NOT REG_STATUS_DOR) OR (if data_overrun_flg b then REG_STATUS_DOR else 0)"

definition rx_ld :: "nat \<Rightarrow> io_access \<Rightarrow> iomem \<Rightarrow> rxdev \<Rightarrow> iomem \<Rightarrow> u32 \<times> rxdev" where
  "rx_ld sz acc base d addr =
     (let (x, d) = rx_next_access sz d;
          off = addr - base;
          v = (if off = ucast CTUCANFD_RX_DATA then rx_data_out (rxb d)
               else if off = ucast CTUCANFD_RX_STATUS then rx_status_reg (rxb d) (rx_rdata x)
               else if off = ucast CTUCANFD_STATUS then dor_status_reg (rxb d) (rx_rdata x)
               else rx_rdata x)
      in (bus_order acc v,
          d\<lparr>rxb := rx_core_cycle sz (off = ucast CTUCANFD_RX_DATA) False (rxb d) (rx_access_op x)\<rparr>))"

definition rx_st :: "nat \<Rightarrow> io_access \<Rightarrow> iomem \<Rightarrow> rxdev \<Rightarrow> iomem \<Rightarrow> u32 \<Rightarrow> rxdev" where
  "rx_st sz acc base d addr v =
     (let (x, d) = rx_next_access sz d;
          cdo = (addr - base = ucast CTUCANFD_COMMAND \<and> FIELD_GET REG_COMMAND_CDO (bus_order acc v) \<noteq> 0)
      in d\<lparr>rxb := rx_core_cycle sz False cdo (rxb d) (rx_access_op x)\<rparr>)"

definition rx_bus :: "nat \<Rightarrow> io_access \<Rightarrow> iomem \<Rightarrow> rxdev bus" where
  "rx_bus sz acc base = \<lparr>ld32 = rx_ld sz acc base, st32 = rx_st sz acc base\<rparr>"

definition rx_frames :: "nat \<Rightarrow> rxdev \<Rightarrow> u32 list list" where
  "rx_frames sz d = rxq_frames (rxq_of sz (rxb d))"

definition rx_ok :: "nat \<Rightarrow> rxdev \<Rightarrow> bool" where
  "rx_ok sz d \<longleftrightarrow> rx_inv sz (rxb d)"

text \<open>The buffer may have between 32 and 4096 words.\<close>

definition rx_size_ok :: "nat \<Rightarrow> bool" where
  "rx_size_ok sz \<longleftrightarrow> 32 \<le> sz \<and> sz \<le> 4096"

lemma rx_core_cycle_frames:
  assumes "rx_inv sz b"
  obtains late where "list_all wf_frame late" "rx_inv sz (rx_core_cycle sz rd cdo b wr)"
    "rxq_frames (rxq_of sz (rx_core_cycle sz rd cdo b wr)) =
      (if rd then frames_pop (rxq_frames (rxq_of sz b)) else rxq_frames (rxq_of sz b)) @ late"
proof -
  let ?q = "rxq_of sz b" and ?wr = "rx_core_op sz b wr"
  have wr: "rx_op_ok sz ?wr b ?q" by (simp add: rx_core_op_def rx_op_ok_def)
  obtain late where late: "list_all wf_frame late"
    "rxq_frames (rxq_op ?wr (rx_overruns ?wr b) ?q) = rxq_frames ?q @ late"
  proof (cases "?wr = Rx_commit \<and> \<not> data_overrun_i b")
    case True
    then have "wf_frame (rxq_raw ?q)" using wr by (simp add: rx_op_ok_def)
    then show thesis using that [of "[rxq_raw ?q]"] True by (simp add: rxq_op_def rx_overruns_def rx_signals)
  next
    case False
    then show thesis using that [of "[]"] by (auto simp: rxq_op_def rx_overruns_def split: rx_op.split)
  qed
  have pop: "frames_pop (fs @ late) = frames_pop fs @ late" if "fs \<noteq> []" for fs
    using that by (cases fs) auto
  show ?thesis
    using that [OF late(1)] late(2) rx_inv_cycle [OF assms wr, of rd cdo] pop [of "rxq_frames ?q"]
    by (cases "rxq_frames ?q") (auto simp: rx_core_cycle_def rxq_cycle_def rxq_read_def Let_def)
qed

lemma rx_next_access_frames:
  assumes "rx_ok sz d" "rx_next_access sz d = (x, d')"
  obtains new where "list_all wf_frame new" "rx_ok sz d'" "rx_frames sz d' = rx_frames sz d @ new"
proof -
  have "\<exists>new. list_all wf_frame new \<and> rx_inv sz (foldl (rx_core_cycle sz False False) b ops) \<and>
    rxq_frames (rxq_of sz (foldl (rx_core_cycle sz False False) b ops)) = rxq_frames (rxq_of sz b) @ new"
    if "rx_inv sz b" for b ops
    using that
  proof (induction ops arbitrary: b)
    case (Cons wr ops)
    obtain n1 where n1: "list_all wf_frame n1" "rx_inv sz (rx_core_cycle sz False False b wr)"
      "rxq_frames (rxq_of sz (rx_core_cycle sz False False b wr)) = rxq_frames (rxq_of sz b) @ n1"
      by (rule rx_core_cycle_frames [OF Cons.prems, of False False wr]) simp
    from Cons.IH [OF n1(2)] obtain n2 where
      "list_all wf_frame n2" "rx_inv sz (foldl (rx_core_cycle sz False False) b (wr # ops))"
      "rxq_frames (rxq_of sz (foldl (rx_core_cycle sz False False) b (wr # ops))) =
        (rxq_frames (rxq_of sz b) @ n1) @ n2"
      using n1(3) by auto
    then show ?case using n1(1) by (intro exI [of _ "n1 @ n2"]) simp
  qed (auto intro: exI [of _ "[]"])
  from this [of "rxb d" "rx_cycles x"] obtain new where new: "list_all wf_frame new"
    "rx_inv sz (foldl (rx_core_cycle sz False False) (rxb d) (rx_cycles x))"
    "rxq_frames (rxq_of sz (foldl (rx_core_cycle sz False False) (rxb d) (rx_cycles x))) =
      rxq_frames (rxq_of sz (rxb d)) @ new"
    using assms(1) by (auto simp: rx_ok_def)
  have "rxb d' = foldl (rx_core_cycle sz False False) (rxb d) (rx_cycles x)"
    using assms(2) by (auto simp: rx_next_access_def split: list.splits)
  then show ?thesis using new by (intro that [of new]) (simp_all add: rx_ok_def rx_frames_def)
qed


lemma rx_frame_count:
  assumes "rx_inv sz b" "sz \<le> 4096"
  shows "frame_count b = length (rxq_frames (rxq_of sz b))" "frame_count b < 2 ^ 11"
proof -
  let ?fs = "rxq_frames (rxq_of sz b)"
  show fc: "frame_count b = length ?fs" using assms(1) by (simp add: rx_inv_def rx_rel_def)
  have wf: "4 * length fs \<le> length (concat fs)" if "list_all wf_frame fs" for fs
    using that by (induction fs) (auto simp: wf_frame_def)
  have "frames_rel (read_counter b) ?fs" "length (concat ?fs) \<le> sz"
    using assms(1) by (auto simp: rx_inv_def rx_rel_def rxq_words_def)
  then have "4 * length ?fs \<le> sz + 4"
    using wf [of ?fs] wf [of "tl ?fs"] by (cases ?fs) (auto simp: frames_rel_def split: if_splits)
  then show "frame_count b < 2 ^ 11" using assms(2) fc by simp
qed

lemma rx_status_rxfrc:
  assumes "n < 2 ^ 11"
  shows "unat (FIELD_GET REG_RX_STATUS_RXFRC ((r AND NOT REG_RX_STATUS_RXFRC) OR
    FIELD_PREP REG_RX_STATUS_RXFRC (of_nat n))) = n"
proof -
  have "FIELD_GET REG_RX_STATUS_RXFRC (r AND NOT REG_RX_STATUS_RXFRC) = 0"
    by (intro bit_eqI) (auto simp: FIELD_GET_def bit_simps)
  moreover have "unat (take_bit 11 (of_nat n :: u32)) = n"
    using assms by (simp add: unsigned_take_bit_eq unat_of_nat take_bit_nat_eq_self)
  ultimately show ?thesis
    unfolding FIELD_GET_or REG_RX_STATUS_RXFRC_def by (simp add: FIELD_GET_PREP_same)
qed

lemma rx_regs_distinct:
  "(ucast CTUCANFD_RX_DATA :: iomem) \<noteq> ucast CTUCANFD_RX_STATUS"
  "(ucast CTUCANFD_RX_DATA :: iomem) \<noteq> ucast CTUCANFD_STATUS"
  "(ucast CTUCANFD_RX_STATUS :: iomem) \<noteq> ucast CTUCANFD_STATUS"
  by (simp_all add: ucast_u32_eq reg_addrs)

theorem rx_bus_rx_fifo:
  assumes "rx_size_ok sz"
  shows "rx_fifo (rx_bus sz acc base) acc base (rx_ok sz) (rx_frames sz)"
proof -
  have acc: "\<exists>new late. list_all wf_frame (new @ late) \<and> rx_ok sz d1 \<and> rx_frames sz d1 = rx_frames sz d @ new \<and>
      rx_ok sz (d1\<lparr>rxb := rx_core_cycle sz rd cdo (rxb d1) wr\<rparr>) \<and>
      rx_frames sz (d1\<lparr>rxb := rx_core_cycle sz rd cdo (rxb d1) wr\<rparr>) =
        (if rd then frames_pop (rx_frames sz d @ new) else rx_frames sz d @ new) @ late"
    if d: "rx_ok sz d" "rx_next_access sz d = (x, d1)" for d x d1 rd cdo wr
  proof -
    obtain new where n: "list_all wf_frame new" "rx_ok sz d1" "rx_frames sz d1 = rx_frames sz d @ new"
      by (rule rx_next_access_frames [OF d])
    obtain late where "list_all wf_frame late" "rx_inv sz (rx_core_cycle sz rd cdo (rxb d1) wr)"
      "rxq_frames (rxq_of sz (rx_core_cycle sz rd cdo (rxb d1) wr)) =
        (if rd then frames_pop (rx_frames sz d1) else rx_frames sz d1) @ late"
      using rx_core_cycle_frames [OF n(2) [unfolded rx_ok_def], of rd cdo wr] unfolding rx_frames_def by blast
    then show ?thesis
      using n by (intro exI [of _ new] exI [of _ late]) (auto simp: rx_ok_def rx_frames_def)
  qed
  have out: "rx_data_out (rxb d) = first_word (rx_frames sz d)"
    "frame_count (rxb d) = length (rx_frames sz d)" "frame_count (rxb d) < 2 ^ 11" if "rx_ok sz d" for d
    using rx_rel_out(1) [of sz "rxb d"] rx_frame_count [of sz "rxb d"] that assms
    by (simp_all add: rx_ok_def rx_inv_def rx_frames_def first_word_def rxq_words_def rx_size_ok_def)
  show ?thesis
  proof
    fix d v d' assume d: "rx_ok sz d" "ld32 (rx_bus sz acc base) d (base + ucast CTUCANFD_RX_DATA) = (v, d')"
    obtain x d1 where n: "rx_next_access sz d = (x, d1)" by fastforce
    obtain new late where a: "list_all wf_frame (new @ late)" "rx_ok sz d1"
      "rx_frames sz d1 = rx_frames sz d @ new"
      "rx_ok sz (d1\<lparr>rxb := rx_core_cycle sz True False (rxb d1) (rx_access_op x)\<rparr>)"
      "rx_frames sz (d1\<lparr>rxb := rx_core_cycle sz True False (rxb d1) (rx_access_op x)\<rparr>) = frames_pop (rx_frames sz d @ new) @ late"
      using acc [OF d(1) n, of True False "rx_access_op x"] by auto
    then show "\<exists>new late. list_all wf_frame (new @ late) \<and> rx_ok sz d' \<and>
        bus_order acc v = first_word (rx_frames sz d @ new) \<and>
        rx_frames sz d' = frames_pop (rx_frames sz d @ new) @ late"
      using out(1) [of d1] d(2) n
      by (intro exI [of _ new] exI [of _ late]) (auto simp: rx_bus_def rx_ld_def)
  next
    fix d v d' assume d: "rx_ok sz d" "ld32 (rx_bus sz acc base) d (base + ucast CTUCANFD_RX_STATUS) = (v, d')"
    obtain x d1 where n: "rx_next_access sz d = (x, d1)" by fastforce
    obtain new late where a: "list_all wf_frame (new @ late)" "rx_ok sz d1"
      "rx_frames sz d1 = rx_frames sz d @ new"
      "rx_ok sz (d1\<lparr>rxb := rx_core_cycle sz False False (rxb d1) (rx_access_op x)\<rparr>)"
      "rx_frames sz (d1\<lparr>rxb := rx_core_cycle sz False False (rxb d1) (rx_access_op x)\<rparr>) = rx_frames sz d @ new @ late"
      using acc [OF d(1) n, of False False "rx_access_op x"] by auto
    then show "\<exists>new late. list_all wf_frame (new @ late) \<and> rx_ok sz d' \<and> rx_frames sz d' = rx_frames sz d @ new @ late \<and>
        unat (FIELD_GET REG_RX_STATUS_RXFRC (bus_order acc v)) = length (rx_frames sz d @ new)"
      using out(2,3) [of d1] d(2) n rx_regs_distinct rx_status_rxfrc [of "frame_count (rxb d1)" "rx_rdata x"]
      by (intro exI [of _ new] exI [of _ late]) (auto simp: rx_bus_def rx_ld_def rx_status_reg_def)
  next
    fix d v d' assume d: "rx_ok sz d" "ld32 (rx_bus sz acc base) d (base + ucast CTUCANFD_STATUS) = (v, d')"
    obtain x d1 where n: "rx_next_access sz d = (x, d1)" by fastforce
    obtain new late where a: "list_all wf_frame (new @ late)" "rx_ok sz d1"
      "rx_frames sz d1 = rx_frames sz d @ new"
      "rx_ok sz (d1\<lparr>rxb := rx_core_cycle sz False False (rxb d1) (rx_access_op x)\<rparr>)"
      "rx_frames sz (d1\<lparr>rxb := rx_core_cycle sz False False (rxb d1) (rx_access_op x)\<rparr>) = rx_frames sz d @ new @ late"
      using acc [OF d(1) n, of False False "rx_access_op x"] by auto
    then show "\<exists>new. list_all wf_frame new \<and> rx_ok sz d' \<and> rx_frames sz d' = rx_frames sz d @ new"
      using d(2) n rx_regs_distinct
      by (intro exI [of _ "new @ late"]) (auto simp: rx_bus_def rx_ld_def)
  next
    fix d and reg w :: u32 assume d: "rx_ok sz d"
    obtain x d1 where n: "rx_next_access sz d = (x, d1)" by fastforce
    let ?d = "st32 (rx_bus sz acc base) d (base + ucast reg) (bus_order acc w)"
    let ?cdo = "reg = CTUCANFD_COMMAND \<and> FIELD_GET REG_COMMAND_CDO w \<noteq> 0"
    obtain new late where a: "list_all wf_frame (new @ late)" "rx_ok sz d1"
      "rx_frames sz d1 = rx_frames sz d @ new"
      "rx_ok sz (d1\<lparr>rxb := rx_core_cycle sz False ?cdo (rxb d1) (rx_access_op x)\<rparr>)"
      "rx_frames sz (d1\<lparr>rxb := rx_core_cycle sz False ?cdo (rxb d1) (rx_access_op x)\<rparr>) = rx_frames sz d @ new @ late"
      using acc [OF d n, of False ?cdo "rx_access_op x"] by auto
    then show "\<exists>new. list_all wf_frame new \<and> rx_ok sz ?d \<and> rx_frames sz ?d = rx_frames sz d @ new"
      using n
      by (intro exI [of _ "new @ late"]) (simp add: rx_bus_def rx_st_def ucast_u32_eq)
  qed
qed

text \<open>The default configuration has a buffer of 32 words.\<close>

definition rx_run_size :: nat where "rx_run_size = 32"

interpretation rx32: rx_fifo "rx_bus rx_run_size acc base" acc base "rx_ok rx_run_size" "rx_frames rx_run_size"
  for acc base
  by (rule rx_bus_rx_fifo) (simp add: rx_run_size_def rx_size_ok_def)

section \<open>A concrete buffer\<close>

text \<open>A standard frame with identifier 0x123 and no data, received and not yet read.\<close>

definition demo_rx_frame :: "u32 list" where
  "demo_rx_frame = [0x1C00, 0x048C0000, 0, 0]"

definition demo_rxb :: rxbuf where
  "demo_rxb = (rxbuf_init 32)\<lparr>rx_ram := (\<lambda>i. if i < 4 then demo_rx_frame ! i else 0),
     write_pointer := 4, write_pointer_raw := 4, rx_mem_free := 28, rx_mem_free_raw := 28, frame_count := 1\<rparr>"

definition demo_rx :: "rxdev ndev" where
  "demo_rx = demo_ndev [] \<lparr>rxb = demo_rxb, rx_env = []\<rparr>"

lemma demo_rwcnt: "rwcnt_of 0x1C00 = 3"
  by code_simp

lemma demo_rxb_ok: "rx_inv 32 demo_rxb" "rxq_of 32 demo_rxb = \<lparr>rxq_frames = [demo_rx_frame], rxq_raw = []\<rparr>"
proof -
  have "rx_rel 32 demo_rxb \<lparr>rxq_frames = [demo_rx_frame], rxq_raw = []\<rparr>"
    using demo_rwcnt
    by (simp add: rx_rel_def demo_rxb_def rxbuf_init_def ring_holds_def rxq_words_def demo_rx_frame_def
        frames_rel_def wf_frame_def)
  then show "rx_inv 32 demo_rxb" "rxq_of 32 demo_rxb = \<lparr>rxq_frames = [demo_rx_frame], rxq_raw = []\<rparr>"
    using rx_inv_iff rx_rel_rxq_of by blast+
qed

lemma demo_rx_sync:
  "rx_sync IO_LE 0 (rx_ok 32) (rx_frames 32) demo_rx"
  "rx_pending (rx_frames 32) demo_rx = [demo_rx_frame]"
  using demo_rxb_ok demo_rwcnt
  by (simp_all add: rx_sync_def rx_pending_def rx_frames_def rx_ok_def demo_rx_def demo_ndev_def demo_priv_def
      ffw_buffered_def wf_frame_def demo_rx_frame_def)

lemma demo_alloc: "alloc_sizes demo_kern" "rx_size_ok 32" "alloc_works demo_kern"
  by (auto simp: alloc_works_def alloc_sizes_def demo_kern_def zero_frame_def rx_size_ok_def)

section \<open>Properties\<close>

text \<open>C9: The ring of the RX buffer is a queue of frames: in every clock cycle, with any combination
  of a read of \<open>RX_DATA\<close> and an operation of the protocol controller, pointers, counters and memory
  keep describing a queue, and it changes as the queue specification says. The word on the bus is
  the first unread word, or 0 when no frame is stored.\<close>

theorem rx_buffer_refines_queue:
  assumes "rx_inv sz b" "rx_op_ok sz wr b (rxq_of sz b)"
  shows "rx_inv sz (rx_cycle sz rd wr cdo b) \<and>
    rxq_of sz (rx_cycle sz rd wr cdo b) = rxq_cycle rd wr (rx_overruns wr b) (rxq_of sz b) \<and>
    rx_data_out b = first_word (rxq_frames (rxq_of sz b))"
  using rx_inv_cycle [OF assms] rx_rel_out(1) [OF assms(1) [unfolded rx_inv_def]]
  by (simp add: first_word_def rxq_words_def)

theorem rx_buffer_refines_queue_witness:
  "rxq_of 32 (rx_cycle 32 True (Rx_word 7) False demo_rxb) = \<lparr>rxq_frames = [tl demo_rx_frame], rxq_raw = [7]\<rparr> \<and>
   rx_data_out demo_rxb = 0x1C00"
  using rx_buffer_refines_queue [OF demo_rxb_ok(1), of "Rx_word 7" True False] demo_rxb_ok(2)
  by (simp add: rx_op_ok_def rxq_cycle_def rxq_op_def rxq_read_def rx_overruns_def rx_signals demo_rx_frame_def
      first_word_def demo_rxb_def rxbuf_init_def)

text \<open>The RX buffer reports an overrun exactly when every word of its memory is taken by frames
  not yet read and by the frame being received.\<close>

lemma rx_overrun_iff_full:
  assumes "rx_inv sz b"
  shows "overrun_condition (Rx_word w) b \<longleftrightarrow>
    length (rxq_words (rxq_of sz b)) + length (rxq_raw (rxq_of sz b)) = sz"
  using rx_rel_free [OF assms [unfolded rx_inv_def]] assms
  by (auto simp: overrun_condition_def write_raw_intent_def rx_inv_def rx_rel_def)

text \<open>C18: One call of \<open>ctucan_rx\<close> on the RX buffer takes at most the oldest frame: it returns 1 and
  hands exactly that frame, decoded, to the network layer; or it returns 0 and keeps the frame,
  only when no memory is available; or it returns \<open>-EAGAIN\<close> with no frame waiting. It never
  reads or writes out of bounds.\<close>

theorem rx_takes_oldest:
  assumes "rx_size_ok sz" "rx_sync acc base (rx_ok sz) (rx_frames sz) s" "alloc_sizes K"
  shows "\<exists>r s' new got xs. ctucan_rx (rx_bus sz acc base) K s = Inr (r, s') \<and>
    rx_sync acc base (rx_ok sz) (rx_frames sz) s' \<and> list_all wf_frame new \<and>
    rx_pending (rx_frames sz) s @ new = got @ rx_pending (rx_frames sz) s' \<and>
    received (klog s') = received (klog s) @ xs \<and> list_all2 rx_decodes got xs \<and>
    (r = 1 \<and> length got = 1 \<or>
     r = 0 \<and> got = [] \<and> rx_pending (rx_frames sz) s' \<noteq> [] \<and> \<not> alloc_works K \<or>
     r = - EAGAIN \<and> got = [] \<and> rx_pending (rx_frames sz) s = [])"
  using rx_fifo.rx_step [OF rx_bus_rx_fifo [OF assms(1)] assms(2,3)] .

theorem rx_takes_oldest_witness:
  "\<exists>r s'. ctucan_rx (rx_bus 32 IO_LE 0) demo_kern demo_rx = Inr (r, s') \<and>
     rx_sync IO_LE 0 (rx_ok 32) (rx_frames 32) s'"
  using rx_takes_oldest [OF demo_alloc(2) demo_rx_sync(1) demo_alloc(1)] by blast

text \<open>C2: A poll of the receive path delivers frames in the order of their arrival, each once and
  none lost: the frames waiting before, followed by those that arrive meanwhile, are those handed
  up, decoded, followed by those still waiting. It handles at most \<open>quota\<close> frames; as long as
  memory is available it returns their exact number, and when that is below the quota it has
  completed NAPI.\<close>

theorem rx_poll_in_order:
  assumes "rx_size_ok sz" "rx_sync acc base (rx_ok sz) (rx_frames sz) s" "alloc_sizes K" "0 \<le> quota"
  shows "\<exists>w s' new got xs. ctucan_rx_poll (rx_bus sz acc base) K quota s = Inr (w, s') \<and>
    rx_sync acc base (rx_ok sz) (rx_frames sz) s' \<and> list_all wf_frame new \<and>
    rx_pending (rx_frames sz) s @ new = got @ rx_pending (rx_frames sz) s' \<and>
    received (klog s') = received (klog s) @ xs \<and> list_all2 rx_decodes got xs \<and>
    int (length got) \<le> w \<and> w \<le> quota \<and>
    (alloc_works K \<longrightarrow> w = int (length got) \<and> (w < quota \<longrightarrow> Napi_complete_done w \<in> set (klog s')))"
  using rx_fifo.poll [OF rx_bus_rx_fifo [OF assms(1)] assms(2-4)] .

theorem rx_poll_in_order_witness:
  "\<exists>w s' got new. ctucan_rx_poll (rx_bus 32 IO_LE 0) demo_kern 16 demo_rx = Inr (w, s') \<and>
     [demo_rx_frame] @ new = got @ rx_pending (rx_frames 32) s' \<and> w = int (length got)"
  using rx_poll_in_order [OF demo_alloc(2) demo_rx_sync(1) demo_alloc(1), of 16] demo_rx_sync(2) demo_alloc(3)
  by auto

text \<open>When a frame waits and no socket buffer can be allocated, the poll returns 1, less than its
  quota, without having called \<open>napi_complete_done\<close>: it stays scheduled without being polled again.\<close>

lemma rx_poll_no_memory:
  assumes "rx_size_ok sz" "rx_sync acc base (rx_ok sz) (rx_frames sz) s" "rx_pending (rx_frames sz) s \<noteq> []"
    "1 < quota" "k_alloc_can_skb K = (\<lambda>_. None)" "k_alloc_canfd_skb K = (\<lambda>_. None)"
  shows "\<exists>s'. ctucan_rx_poll (rx_bus sz acc base) K quota s = Inr (1, s') \<and>
    napi_completed (klog s') = napi_completed (klog s)"
  using rx_fifo.poll_stalls [OF rx_bus_rx_fifo [OF assms(1)] assms(2-6)] .

lemma rx_poll_no_memory_witness:
  "\<exists>s'. ctucan_rx_poll (rx_bus 32 IO_LE 0)
      (demo_kern\<lparr>k_alloc_can_skb := \<lambda>_. None, k_alloc_canfd_skb := \<lambda>_. None\<rparr>) 16 demo_rx = Inr (1, s') \<and>
    \<not> napi_completed (klog s')"
  using rx_poll_no_memory [OF demo_alloc(2) demo_rx_sync(1), of 16
      "demo_kern\<lparr>k_alloc_can_skb := \<lambda>_. None, k_alloc_canfd_skb := \<lambda>_. None\<rparr>"] demo_rx_sync(2)
  by (simp add: demo_rx_def demo_ndev_def napi_completed_def)

end
