(* ===== verification/Ctu_Wire.thy ===== *)
theory Ctu_Wire
  imports Ctu_System Ctu_RxSys
begin

text \<open>
  A frame on its way from one driver to another: the words that \<open>ctucan_insert_frame\<close> leaves in the
  TXT buffer RAM of \<open>Ctu_Core\<close>, the words that the receiving controller stores for the frame
  (\<open>src/rx_buffer/rx_buffer.vhd\<close>), and what \<open>ctucan_read_rx_frame\<close> makes of them.
\<close>

section \<open>The words in the TXT buffer\<close>

definition tx_data_words :: "canfd_frame \<Rightarrow> nat" where
  "tx_data_words cf = (if can_id cf AND CAN_RTR_FLAG = 0 then (unat (flen cf) + 3) div 4 else 0)"

text \<open>The RAM of a buffer holds a frame: format word, identifier, and the data from word 4 on.\<close>

definition ram_frame :: "kern \<Rightarrow> canfd_frame \<Rightarrow> bool \<Rightarrow> (nat \<Rightarrow> u32) \<Rightarrow> bool" where
  "ram_frame K cf isfdf ram \<longleftrightarrow> ram 0 = tx_ffw K cf isfdf \<and> ram 1 = tx_idw cf \<and>
     (\<forall>i<tx_data_words cf. get_le32 (data cf) (4 * i) = Some (ram (4 + i)))"

lemma cycle_ram [simp]: "txt_ram (core_cycle C w clr act d) = txt_ram d"
  by (simp add: core_cycle_def Let_def)

lemma next_access_ram: "next_access C d = (x, d') \<Longrightarrow> txt_ram d' = txt_ram d"
proof -
  have "txt_ram (foldl (\<lambda>d a. core_cycle C 0 0 a d) d as) = txt_ram d" for d as
    by (induction as arbitrary: d) simp_all
  then show "next_access C d = (x, d') \<Longrightarrow> txt_ram d' = txt_ram d"
    by (auto simp: next_access_def Let_def split_def)
qed

lemma core_ld_ram: "txt_ram (snd (core_ld C acc base d addr)) = txt_ram d"
  using next_access_ram [of C d] by (auto simp: core_ld_def Let_def split: prod.split)

text \<open>The address of word \<open>i\<close> of buffer \<open>k\<close>.\<close>

lemma txt_address:
  fixes buf :: u8 and off :: u32
  assumes "unat buf < 8" "unat off < 0x100"
  defines "a \<equiv> ucast ((ucast buf + 1) * 0x100 + off) :: iomem"
  shows "unat (a div 0x100) - 1 = unat buf" "unat (a mod 0x100) = unat off" "0x100 \<le> a"
    "a \<noteq> ucast CTUCANFD_TX_COMMAND" "a \<noteq> ucast CTUCANFD_INT_STAT" "a \<noteq> ucast CTUCANFD_TX_PRIORITY"
    "a \<noteq> ucast CTUCANFD_INT_MASK_SET" "a \<noteq> ucast CTUCANFD_INT_MASK_CLR" "a \<noteq> ucast CTUCANFD_INT_ENA_SET"
    "a \<noteq> ucast CTUCANFD_INT_ENA_CLR"
proof -
  have "unat ((ucast buf + 1) * 0x100 + off :: u32) = (unat buf + 1) * 0x100 + unat off"
    using assms(1,2) by (simp add: unat_word_ariths unat_u8_u32)
  then have a: "unat a = (unat buf + 1) * 0x100 + unat off" by (simp add: a_def unat_u32_u64)
  have "((unat buf + 1) * 0x100 + unat off) mod 0x100 = unat off"
    using assms(2) by (metis mod_less mod_mult_self3)
  then show "unat (a mod 0x100) = unat off" using a by (simp add: unat_mod)
  show "unat (a div 0x100) - 1 = unat buf" "0x100 \<le> a"
    using a assms(2) by (simp_all add: unat_div word_le_nat_alt)
  show "a \<noteq> ucast CTUCANFD_TX_COMMAND" "a \<noteq> ucast CTUCANFD_INT_STAT" "a \<noteq> ucast CTUCANFD_TX_PRIORITY"
    "a \<noteq> ucast CTUCANFD_INT_MASK_SET" "a \<noteq> ucast CTUCANFD_INT_MASK_CLR" "a \<noteq> ucast CTUCANFD_INT_ENA_SET"
    "a \<noteq> ucast CTUCANFD_INT_ENA_CLR"
    using a by (auto simp: reg_addrs)
qed

lemma write_txt_buf_ram:
  fixes buf :: u8
  assumes "core_ok C" "attached acc base (txt_buffer_count C) (priv s)" "unat buf < txt_buffer_count C"
    "unat off < 0x100" "txtb (hw s) (unat buf) = s_txt_empty"
    "s' = ctucan_write_txt_buf (core_bus C acc base) ((ucast buf + 1) * 0x100) off w s"
  shows "txt_ram (hw s') (unat buf) = (txt_ram (hw s) (unat buf))(unat off div 4 := w)"
    "txtb (hw s') (unat buf) = s_txt_empty" "priv s' = priv s"
proof -
  let ?k = "unat buf"
  have n8: "?k < 8" using assms(1,3) dvd_8_bounds(2) [of "txt_buffer_count C"] by (auto simp: core_ok_def)
  obtain x d1 where n: "next_access C (hw s) = (x, d1)" by fastforce
  let ?d = "core_cycle C 0 0 (access_act x) d1"
  have "hwsteps (txt_buffer_count C) (core_view C (hw s)) (core_view C ?d)"
    by (rule rtranclp_trans [OF next_access_hwsteps [OF assms(1) n] cycle_hwsteps [OF assms(1)]])
  from hwsteps_keep(3) [OF this] have st: "txtb ?d ?k = s_txt_empty" using assms(5) by (simp add: view_at)
  have "hw s' = ram_write C (ucast ((ucast buf + 1) * 0x100 + off)) w ?d"
    using assms(2) n txt_address [OF n8 assms(4)]
    by (simp add: assms(6) ctucan_write_txt_buf_def attached_def ctucan_write32_bus core_bus_def core_st_def)
  also have "\<dots> = ?d\<lparr>txt_ram := (txt_ram d1)(?k := (txt_ram d1 ?k)(unat off div 4 := w))\<rparr>"
    using st assms(3) txt_address [OF n8 assms(4)]
    by (simp add: ram_write_def Let_def txtb_user_accessible_def)
  finally have hw: "hw s' = ?d\<lparr>txt_ram := (txt_ram d1)(?k := (txt_ram d1 ?k)(unat off div 4 := w))\<rparr>" .
  show "txt_ram (hw s') ?k = (txt_ram (hw s) ?k)(unat off div 4 := w)" "txtb (hw s') ?k = s_txt_empty"
    using next_access_ram [OF n] st by (simp_all add: hw)
  show "priv s' = priv s" by (simp add: assms(6) ctucan_write_txt_buf_def)
qed

lemma insert_data_ram:
  assumes "insert_data (core_bus C acc base) ((ucast (buf :: u8) + 1) * 0x100) cf (4 * j) s = Inr s'"
    "core_ok C" "attached acc base (txt_buffer_count C) (priv s)" "unat buf < txt_buffer_count C"
    "txtb (hw s) (unat buf) = s_txt_empty" "unat (flen cf) \<le> 64"
  shows "(\<forall>i. (i < 4 + j \<or> 4 + (unat (flen cf) + 3) div 4 \<le> i) \<longrightarrow>
      txt_ram (hw s') (unat buf) i = txt_ram (hw s) (unat buf) i) \<and>
    (\<forall>i<(unat (flen cf) + 3) div 4. j \<le> i \<longrightarrow>
      get_le32 (data cf) (4 * i) = Some (txt_ram (hw s') (unat buf) (4 + i)))"
  using assms
proof (induction "unat (flen cf) - j" arbitrary: j s rule: less_induct)
  case less
  let ?B = "core_bus C acc base" and ?b = "(ucast buf + 1) * 0x100 :: u32" and ?k = "unat buf"
  show ?case
  proof (cases "4 * j < unat (flen cf)")
    case False
    then show ?thesis using less.prems(1) by (auto simp: insert_data.simps)
  next
    case True
    then obtain w where w: "get_le32 (data cf) (4 * j) = Some w"
      using less.prems(1) by (cases "get_le32 (data cf) (4 * j)") (auto simp: insert_data.simps)
    define off where "off = CTUCANFD_DATA_1_4_W + of_nat (4 * j)"
    have off: "unat off = 16 + 4 * j"
      using True less.prems(6) unfolding off_def by (simp add: reg_addrs unat_word_ariths unat_of_nat)
    define s1 where "s1 = ctucan_write_txt_buf ?B ?b off w s"
    have o: "unat off < 0x100" using off True less.prems(6) by simp
    note wr = write_txt_buf_ram [OF less.prems(2,3,4) o less.prems(5) s1_def]
    have ins: "insert_data ?B ?b cf (4 * Suc j) s1 = Inr s'"
      using less.prems(1) True w unfolding insert_data.simps [of ?B ?b cf "4 * j"] s1_def off_def
      by (simp only: if_True option.case mult_Suc_right add.commute)
    have dec: "unat (flen cf) - Suc j < unat (flen cf) - j" using True by simp
    have IH: "\<And>i. i < 4 + Suc j \<or> 4 + (unat (flen cf) + 3) div 4 \<le> i \<Longrightarrow>
        txt_ram (hw s') ?k i = txt_ram (hw s1) ?k i"
      "\<And>i. i < (unat (flen cf) + 3) div 4 \<Longrightarrow> Suc j \<le> i \<Longrightarrow>
        get_le32 (data cf) (4 * i) = Some (txt_ram (hw s') ?k (4 + i))"
      using less.hyps [OF dec ins less.prems(2)] less.prems(3,4,6) wr by auto
    have j: "txt_ram (hw s') ?k (4 + j) = w" using IH(1) [of "4 + j"] wr(1) off by simp
    show ?thesis
    proof (intro conjI allI impI)
      fix i assume i: "i < 4 + j \<or> 4 + (unat (flen cf) + 3) div 4 \<le> i"
      then have "i \<noteq> 4 + j" using True by auto
      then show "txt_ram (hw s') ?k i = txt_ram (hw s) ?k i"
        using IH(1) [of i] i wr(1) off by auto
    next
      fix i assume "i < (unat (flen cf) + 3) div 4" "j \<le> i"
      then show "get_le32 (data cf) (4 * i) = Some (txt_ram (hw s') ?k (4 + i))"
        using IH(2) [of i] j w by (cases "i = j") auto
    qed
  qed
qed

text \<open>A frame that was inserted lies in the RAM of its buffer, which is still empty.\<close>

lemma insert_frame_ram:
  assumes "ctucan_insert_frame (core_bus C acc base) K cf buf fd s = Inr (True, s')"
    "core_ok C" "attached acc base (txt_buffer_count C) (priv s)" "unat buf < txt_buffer_count C"
    "txtb (hw s) (unat buf) = s_txt_empty"
  shows "ram_frame K cf fd (txt_ram (hw s') (unat buf))"
proof -
  let ?B = "core_bus C acc base" and ?b = "(ucast buf + 1) * 0x100 :: u32" and ?k = "unat buf"
  let ?n = "txt_buffer_count C"
  note core = core_txt_core [OF assms(2), of acc base]
  obtain st s1 where st: "ctucan_get_tx_status ?B buf s = (st, s1)" by fastforce
  have e1: "evolves ?n (core_view C) s s1" by (rule txt_core.tx_status(1) [OF core assms(3) st assms(4)])
  then have s1: "attached acc base ?n (priv s1)" "txtb (hw s1) ?k = s_txt_empty"
    using evolves_keep(3,4) [OF e1] assms(3,5) by (simp_all add: view_at)
  have off: "unat CTUCANFD_FRAME_FORMAT_W < 0x100" "unat CTUCANFD_IDENTIFIER_W < 0x100"
    "unat CTUCANFD_FRAME_FORMAT_W div 4 = 0" "unat CTUCANFD_IDENTIFIER_W div 4 = 1"
    by (simp_all add: reg_addrs)
  define s2 where "s2 = ctucan_write_txt_buf ?B ?b CTUCANFD_FRAME_FORMAT_W (tx_ffw K cf fd) s1"
  note w2 = write_txt_buf_ram [OF assms(2) s1(1) assms(4) off(1) s1(2) s2_def]
  define s3 where "s3 = ctucan_write_txt_buf ?B ?b CTUCANFD_IDENTIFIER_W (tx_idw cf) s2"
  have a2: "attached acc base ?n (priv s2)" using w2(3) s1(1) by simp
  note w3 = write_txt_buf_ram [OF assms(2) a2 assms(4) off(2) w2(2) s3_def]
  have ram3: "txt_ram (hw s3) ?k 0 = tx_ffw K cf fd" "txt_ram (hw s3) ?k 1 = tx_idw cf"
    using w2(1) w3(1) off by simp_all
  have res: "(if can_id cf AND CAN_RTR_FLAG = 0 then insert_data ?B ?b cf 0 s3 else Inr s3) = Inr s'"
    "unat (flen cf) \<le> 64"
    using assms(1) st
    by (auto simp: ctucan_insert_frame_def ctucan_is_txt_buf_writable_def s2_def s3_def CANFD_MAX_DLEN_def
        Let_def split: if_splits sum.splits)
  show ?thesis
  proof (cases "can_id cf AND CAN_RTR_FLAG = 0")
    case True
    then have "insert_data ?B ?b cf (4 * 0) s3 = Inr s'" using res(1) by simp
    from insert_data_ram [OF this assms(2) _ assms(4) w3(2) res(2)] show ?thesis
      using w3(3) a2 ram3 True by (simp add: ram_frame_def tx_data_words_def)
  next
    case False
    then show ?thesis using res(1) ram3 by (simp add: ram_frame_def tx_data_words_def)
  qed
qed

section \<open>The words the receiver stores\<close>

text \<open>Number of words after the first, from the data length code.\<close>

definition rwcnt_com :: "u32 \<Rightarrow> u32" where
  "rwcnt_com dlc =
     (if dlc = 0 then 3 else if dlc \<le> 4 then 4 else if dlc \<le> 8 then 5 else if dlc = 9 then 6
      else if dlc = 10 then 7 else if dlc = 11 then 8 else if dlc = 12 then 9
      else if dlc = 13 then 11 else if dlc = 14 then 15 else 19)"

text \<open>The frame format word of a data or remote frame (not an error or loopback frame).\<close>

definition frame_form_w :: "u32 \<Rightarrow> bool \<Rightarrow> bool \<Rightarrow> bool \<Rightarrow> bool \<Rightarrow> bool \<Rightarrow> u32" where
  "frame_form_w rec_dlc rec_is_rtr rec_ident_type rec_frame_type rec_brs rec_esi =
     FIELD_PREP REG_FRAME_FORMAT_W_DLC rec_dlc
     OR (if rec_is_rtr then REG_FRAME_FORMAT_W_RTR else 0)
     OR (if rec_ident_type then REG_FRAME_FORMAT_W_IDE else 0)
     OR (if rec_frame_type then REG_FRAME_FORMAT_W_FDF else 0)
     OR (if rec_brs then REG_FRAME_FORMAT_W_BRS else 0)
     OR (if rec_esi then REG_FRAME_FORMAT_W_ESI_RSV else 0)
     OR REG_FRAME_FORMAT_W_IVLD
     OR FIELD_PREP REG_FRAME_FORMAT_W_RWCNT
          (if rec_is_rtr then 3 else if \<not> rec_frame_type \<and> bit rec_dlc 3 then 5 else rwcnt_com rec_dlc)"

text \<open>
  The words \<open>ws\<close> are stored by a receiver for a frame sent from the RAM \<open>ram\<close> of a TXT buffer: the
  fields of the frame that the bus carries are the same; \<open>esi\<close> is the error state indicator of the
  sender; timestamps and the bytes after the payload are arbitrary.
\<close>

definition on_wire :: "(nat \<Rightarrow> u32) \<Rightarrow> bool \<Rightarrow> u32 list \<Rightarrow> bool" where
  "on_wire ram esi ws \<longleftrightarrow>
     (let ffw = ram 0;
          dlc = FIELD_GET REG_FRAME_FORMAT_W_DLC ffw;
          fdf = FIELD_GET REG_FRAME_FORMAT_W_FDF ffw \<noteq> 0;
          rtr = \<not> fdf \<and> FIELD_GET REG_FRAME_FORMAT_W_RTR ffw \<noteq> 0;
          n = (if rtr then 0 else if fdf then unat (dlc2len ! unat dlc) else min 8 (unat dlc))
      in 4 \<le> length ws \<and>
         hd ws = frame_form_w dlc rtr (FIELD_GET REG_FRAME_FORMAT_W_IDE ffw \<noteq> 0) fdf
           (fdf \<and> FIELD_GET REG_FRAME_FORMAT_W_BRS ffw \<noteq> 0) (fdf \<and> esi) \<and>
         length ws = Suc (rwcnt_of (hd ws)) \<and>
         ws ! 1 = ram 1 AND mask 29 \<and>
         take n (concat (map le_bytes (drop 4 ws))) =
           take n (concat (map (\<lambda>i. le_bytes (ram (4 + i))) [0..<16])))"

lemma id_bits:
  "(x AND CAN_EFF_FLAG \<noteq> 0) = bit x 31" "(x AND CAN_RTR_FLAG \<noteq> 0) = bit x 30"
  "CAN_EFF_FLAG = BIT 31" "CAN_RTR_FLAG = BIT 30" "CAN_EFF_MASK = mask 29" "CAN_SFF_MASK = mask 11"
proof -
  show f: "CAN_EFF_FLAG = BIT 31" "CAN_RTR_FLAG = BIT 30" "CAN_EFF_MASK = mask 29" "CAN_SFF_MASK = mask 11"
    by (simp_all add: can_id_consts BIT_def mask_eq_exp_minus_1)
  show "(x AND CAN_EFF_FLAG \<noteq> 0) = bit x 31" "(x AND CAN_RTR_FLAG \<noteq> 0) = bit x 30"
    unfolding f by (simp_all add: and_BIT)
qed

lemma brs_bit: "((x :: u8) AND CANFD_BRS \<noteq> 0) = bit x 0"
  using and_exp_eq_0_iff_not_bit [of x 0] by (simp add: CANFD_BRS_def)

text \<open>The fields of the word the driver writes, and of the word the receiver stores.\<close>

lemma tx_ffw_fields:
  assumes "k_fd_len2dlc K (flen cf) < 16"
  shows "FIELD_GET REG_FRAME_FORMAT_W_DLC (tx_ffw K cf fd) = ucast (k_fd_len2dlc K (flen cf))"
    "(FIELD_GET REG_FRAME_FORMAT_W_RTR (tx_ffw K cf fd) \<noteq> 0) = bit (can_id cf) 30"
    "(FIELD_GET REG_FRAME_FORMAT_W_IDE (tx_ffw K cf fd) \<noteq> 0) = bit (can_id cf) 31"
    "(FIELD_GET REG_FRAME_FORMAT_W_FDF (tx_ffw K cf fd) \<noteq> 0) = fd"
    "(FIELD_GET REG_FRAME_FORMAT_W_BRS (tx_ffw K cf fd) \<noteq> 0) = (fd \<and> bit (flags cf) 0)"
proof -
  let ?d = "k_fd_len2dlc K (flen cf)"
  have d: "take_bit 4 (ucast ?d :: u32) = ucast ?d"
  proof (rule bit_eqI)
    fix j
    have "\<not> bit ?d j" if "4 \<le> j"
    proof -
      have "?d = take_bit 4 ?d" using assms by (simp add: take_bit_eq_mod mod_word_less)
      then show ?thesis using that by (metis bit_take_bit_iff not_le)
    qed
    then show "bit (take_bit 4 (ucast ?d :: u32)) j = bit (ucast ?d :: u32) j"
      by (auto simp: bit_simps not_le [symmetric])
  qed
  have w: "bit (tx_ffw K cf fd) j \<longleftrightarrow> (j = 5 \<and> bit (can_id cf) 30) \<or> (j = 6 \<and> bit (can_id cf) 31) \<or>
      (j = 7 \<and> fd) \<or> (j = 9 \<and> fd \<and> bit (flags cf) 0) \<or> bit (take_bit 4 (ucast ?d :: u32)) j" for j
    by (auto simp: tx_ffw_def id_bits(1,2) brs_bit Let_def reg_masks field_algebra bit_simps bit_BIT)
  show "FIELD_GET REG_FRAME_FORMAT_W_DLC (tx_ffw K cf fd) = ucast ?d"
    unfolding REG_FRAME_FORMAT_W_DLC_def
    by (subst FIELD_GET_GENMASK; (subst d [symmetric])?) (auto intro!: bit_eqI simp: bit_take_bit_iff w)
  show "(FIELD_GET REG_FRAME_FORMAT_W_RTR (tx_ffw K cf fd) \<noteq> 0) = bit (can_id cf) 30"
    "(FIELD_GET REG_FRAME_FORMAT_W_IDE (tx_ffw K cf fd) \<noteq> 0) = bit (can_id cf) 31"
    "(FIELD_GET REG_FRAME_FORMAT_W_FDF (tx_ffw K cf fd) \<noteq> 0) = fd"
    "(FIELD_GET REG_FRAME_FORMAT_W_BRS (tx_ffw K cf fd) \<noteq> 0) = (fd \<and> bit (flags cf) 0)"
    by (auto simp: reg_masks FIELD_GET_BIT w bit_take_bit_iff)
qed


lemma bit_flag:
  "k < 32 \<Longrightarrow> bit (if p then BIT k else 0) j \<longleftrightarrow> j = k \<and> p"
  "k < 32 \<Longrightarrow> bit (BIT k) j \<longleftrightarrow> j = k"
  by (auto simp: bit_BIT)

lemma rwcnt_com_range: "3 \<le> rwcnt_com dlc" "rwcnt_com dlc \<le> 19"
  by (simp_all add: rwcnt_com_def)

lemma take_bit_rwcnt: "(c :: u32) \<le> 19 \<Longrightarrow> take_bit 5 c = c"
  by (simp add: take_bit_eq_mod mod_word_less unsigned_less word_less_def word_le_def)

lemma frame_form_w_fields:
  fixes dlc :: u32
  assumes "dlc < 16"
  defines "f \<equiv> \<lambda>rtr ide fdf brs esi. frame_form_w dlc rtr ide fdf brs esi"
  shows "FIELD_GET REG_FRAME_FORMAT_W_DLC (f rtr ide fdf brs esi) = dlc"
    "(FIELD_GET REG_FRAME_FORMAT_W_RTR (f rtr ide fdf brs esi) \<noteq> 0) = rtr"
    "(FIELD_GET REG_FRAME_FORMAT_W_IDE (f rtr ide fdf brs esi) \<noteq> 0) = ide"
    "(FIELD_GET REG_FRAME_FORMAT_W_FDF (f rtr ide fdf brs esi) \<noteq> 0) = fdf"
    "(FIELD_GET REG_FRAME_FORMAT_W_BRS (f rtr ide fdf brs esi) \<noteq> 0) = brs"
    "(FIELD_GET REG_FRAME_FORMAT_W_ESI_RSV (f rtr ide fdf brs esi) \<noteq> 0) = esi"
    "FIELD_GET REG_FRAME_FORMAT_W_RWCNT (f rtr ide fdf brs esi) =
      (if rtr then 3 else if \<not> fdf \<and> bit dlc 3 then 5 else rwcnt_com dlc)"
proof -
  define c where "c = (if rtr then 3 else if \<not> fdf \<and> bit dlc 3 then 5 else rwcnt_com dlc)"
  have c: "take_bit 5 c = c" using rwcnt_com_range by (auto simp: c_def intro!: take_bit_rwcnt)
  have d: "take_bit 4 dlc = dlc" using assms(1) by (simp add: take_bit_eq_mod mod_word_less)
  have w: "bit (f rtr ide fdf brs esi) j \<longleftrightarrow> bit (take_bit 4 dlc) j \<or> (j = 5 \<and> rtr) \<or> (j = 6 \<and> ide) \<or>
      (j = 7 \<and> fdf) \<or> (j = 9 \<and> brs) \<or> (j = 10 \<and> esi) \<or> j = 24 \<or> (11 \<le> j \<and> j < 32 \<and> bit (take_bit 5 c) (j - 11))"
    for j
    unfolding f_def frame_form_w_def c_def [symmetric]
    unfolding reg_masks bit_or_iff
    by (simp add: field_algebra bit_push_bit_iff bit_flag)
  have "bit (take_bit 4 (f rtr ide fdf brs esi)) j = bit (take_bit 4 dlc) j" for j
    by (cases "j < 4") (simp_all add: bit_take_bit_iff w)
  then have "take_bit 4 (f rtr ide fdf brs esi) = dlc" by (intro trans [OF bit_eqI d])
  then show "FIELD_GET REG_FRAME_FORMAT_W_DLC (f rtr ide fdf brs esi) = dlc"
    by (simp add: REG_FRAME_FORMAT_W_DLC_def FIELD_GET_GENMASK)
  have "bit (take_bit 5 (drop_bit 11 (f rtr ide fdf brs esi))) j = bit (take_bit 5 c) j" for j
    by (cases "j < 5") (simp_all add: bit_take_bit_iff bit_drop_bit_eq w)
  then have "take_bit 5 (drop_bit 11 (f rtr ide fdf brs esi)) = c" by (intro trans [OF bit_eqI c])
  then show "FIELD_GET REG_FRAME_FORMAT_W_RWCNT (f rtr ide fdf brs esi) =
      (if rtr then 3 else if \<not> fdf \<and> bit dlc 3 then 5 else rwcnt_com dlc)"
    unfolding c_def [symmetric] by (simp add: REG_FRAME_FORMAT_W_RWCNT_def FIELD_GET_GENMASK)
  show "(FIELD_GET REG_FRAME_FORMAT_W_RTR (f rtr ide fdf brs esi) \<noteq> 0) = rtr"
    "(FIELD_GET REG_FRAME_FORMAT_W_IDE (f rtr ide fdf brs esi) \<noteq> 0) = ide"
    "(FIELD_GET REG_FRAME_FORMAT_W_FDF (f rtr ide fdf brs esi) \<noteq> 0) = fdf"
    "(FIELD_GET REG_FRAME_FORMAT_W_BRS (f rtr ide fdf brs esi) \<noteq> 0) = brs"
    "(FIELD_GET REG_FRAME_FORMAT_W_ESI_RSV (f rtr ide fdf brs esi) \<noteq> 0) = esi"
    unfolding reg_masks by (simp_all add: FIELD_GET_BIT w bit_take_bit_iff)
qed

section \<open>Round trip\<close>

text \<open>
  A frame the stack may send: an identifier within its range, a length that has a data length
  code, at most 8 bytes and no remote frame mixed up with CAN FD.
\<close>

definition valid_frame :: "bool \<Rightarrow> canfd_frame \<Rightarrow> bool" where
  "valid_frame fd cf \<longleftrightarrow> payload_ok cf \<and> flen cf \<in> set dlc2len \<and> (fd \<or> flen cf \<le> 8) \<and>
     (fd \<longrightarrow> \<not> bit (can_id cf) 30) \<and> \<not> bit (can_id cf) 29 \<and>
     (bit (can_id cf) 31 \<or> can_id cf AND NOT (CAN_RTR_FLAG OR CAN_SFF_MASK) = 0)"

lemma dlc_table:
  "list_all (\<lambda>l. can_len2dlc l < 16 \<and> dlc2len ! unat (can_len2dlc l) = l \<and>
     (l \<le> 8 \<longrightarrow> can_len2dlc l = l) \<and> (can_len2dlc l \<le> 8 \<longleftrightarrow> l \<le> 8) \<and>
     (8 < l \<longrightarrow> push_bit 2 (rwcnt_com (ucast (can_len2dlc l)) - 3) = ucast l) \<and>
     (unat l + 3) div 4 + 3 = unat (rwcnt_com (ucast (can_len2dlc l))) \<and> unat l \<le> 64 \<and>
     (l \<le> 8 \<and> bit (ucast (can_len2dlc l) :: u32) 3 \<longrightarrow> rwcnt_com (ucast (can_len2dlc l)) = 5)) dlc2len"
  by code_simp

lemma dlc_of_valid:
  assumes "l \<in> set dlc2len"
  shows "can_len2dlc l < 16" "dlc2len ! unat (can_len2dlc l) = l"
    "l \<le> 8 \<Longrightarrow> can_len2dlc l = l" "can_len2dlc l \<le> 8 \<longleftrightarrow> l \<le> 8"
    "8 < l \<Longrightarrow> push_bit 2 (rwcnt_com (ucast (can_len2dlc l)) - 3) = ucast l"
    "(unat l + 3) div 4 + 3 = unat (rwcnt_com (ucast (can_len2dlc l)))" "unat l \<le> 64"
    "l \<le> 8 \<Longrightarrow> bit (ucast (can_len2dlc l) :: u32) 3 \<Longrightarrow> rwcnt_com (ucast (can_len2dlc l)) = 5"
  using bspec [OF dlc_table [unfolded list_all_iff] assms] by blast+

lemma le_bytes_get: "get_le32 bs i = Some w \<Longrightarrow> le_bytes w = take 4 (drop i bs)"
proof -
  assume g: "get_le32 bs i = Some w"
  then have l: "i + 3 < length bs" by (auto simp: get_le32_def split: if_splits)
  then have w: "w = ucast (bs ! i) OR push_bit 8 (ucast (bs ! (i + 1))) OR push_bit 16 (ucast (bs ! (i + 2)))
      OR push_bit 24 (ucast (bs ! (i + 3)))"
    using g by (simp add: get_le32_def)
  have b: "\<not> bit (x :: u8) j" if "8 \<le> j" for x j using bit_imp_le_length [of x j] that by auto
  have "le_bytes w = [bs ! i, bs ! (i + 1), bs ! (i + 2), bs ! (i + 3)]"
    unfolding le_bytes_def w by (auto intro!: bit_eqI simp: bit_simps b)
  also have "\<dots> = take 4 (drop i bs)"
    using l by (auto intro!: nth_equalityI simp: nth_Cons' less_Suc_eq eval_nat_numeral)
  finally show ?thesis .
qed

lemma words_of_bytes:
  assumes "\<forall>i<n. get_le32 bs (4 * i) = Some (g i)"
  shows "concat (map (\<lambda>i. le_bytes (g i)) [0..<n]) = take (4 * n) bs"
  using assms
proof (induction n)
  case (Suc n)
  then have "le_bytes (g n) = take 4 (drop (4 * n) bs)" by (intro le_bytes_get) simp
  then show ?case using Suc take_add [of "4 * n" 4 bs] by (simp add: add.commute)
qed simp


lemma u8_u32_le: "(ucast (x :: u8) :: u32) \<le> 8 \<longleftrightarrow> x \<le> 8" "(ucast (x :: u8) :: u32) < 16 \<longleftrightarrow> x < 16"
  by (simp_all add: word_le_nat_alt word_less_nat_alt unat_u8_u32)

text \<open>The identifier survives both conversions.\<close>

lemma rx_can_id_tx_idw:
  assumes "valid_frame fd cf"
    "(FIELD_GET REG_FRAME_FORMAT_W_IDE W \<noteq> 0) = bit (can_id cf) 31"
    "(FIELD_GET REG_FRAME_FORMAT_W_FDF W \<noteq> 0) = fd"
    "(FIELD_GET REG_FRAME_FORMAT_W_RTR W \<noteq> 0) = bit (can_id cf) 30"
  shows "rx_can_id W (tx_idw cf AND mask 29) = can_id cf"
proof (rule bit_eqI)
  fix j :: nat
  let ?id = "can_id cf"
  have f: "CAN_EFF_FLAG = BIT 31" "CAN_RTR_FLAG = BIT 30" "CAN_EFF_MASK = mask 29" "CAN_SFF_MASK = mask 11"
    by (simp_all add: id_bits)
  have s: "\<not> bit ?id 31 \<Longrightarrow> bit ?id k \<Longrightarrow> k < 11 \<or> k = 30" for k
  proof -
    assume "\<not> bit ?id 31" "bit ?id k"
    then have "\<not> bit (?id AND NOT (CAN_RTR_FLAG OR CAN_SFF_MASK)) k" using assms(1) by (simp add: valid_frame_def)
    then show ?thesis using \<open>bit ?id k\<close> bit_imp_le_length [of ?id k] unfolding f by (auto simp: bit_simps bit_BIT)
  qed
  have v: "fd \<Longrightarrow> \<not> bit ?id 30" "\<not> bit ?id 29" using assms(1) by (auto simp: valid_frame_def)
  have j: "j < 29 \<or> j = 29 \<or> j = 30 \<or> j = 31 \<or> 32 \<le> j" by linarith
  have j32: "32 \<le> j \<Longrightarrow> \<not> bit ?id j" using bit_imp_le_length [of ?id j] by auto
  have tx: "tx_idw cf = (if bit ?id 31 then ?id AND mask 29
      else FIELD_PREP REG_IDENTIFIER_W_IDENTIFIER_BASE (?id AND mask 11))"
    unfolding tx_idw_def id_bits(1) f(3,4) ..
  show "bit (rx_can_id W (tx_idw cf AND mask 29)) j = bit ?id j"
  proof (cases "bit ?id 31")
    case True
    then show ?thesis
      using j v j32 assms(2-4)
      by (auto simp: rx_can_id_def tx f bit_simps bit_flag Let_def)
  next
    case False
    then show ?thesis
      using j v j32 s [of j] assms(2-4)
      by (auto simp: rx_can_id_def tx f bit_simps bit_flag Let_def
          REG_IDENTIFIER_W_IDENTIFIER_BASE_def field_algebra)
  qed
qed


lemma wire_words:
  assumes "valid_frame fd cf" "k_fd_len2dlc K = can_len2dlc" "ram_frame K cf fd ram" "on_wire ram esi ws"
  shows "wf_frame ws" "length ws = 4 + tx_data_words cf" "rx_len (hd ws) = ucast (flen cf)"
    "rx_can_id (hd ws) (ws ! 1) = can_id cf"
    "rx_flags (hd ws) = (if fd then (flags cf AND CANFD_BRS) OR (if esi then CANFD_ESI else 0) else 0)"
    "copied_words (hd ws) = tx_data_words cf"
    "take (if bit (can_id cf) 30 then 0 else unat (flen cf)) (concat (map le_bytes (drop 4 ws))) =
      take (if bit (can_id cf) 30 then 0 else unat (flen cf))
        (concat (map (\<lambda>i. le_bytes (ram (4 + i))) [0..<16]))"
    "(FIELD_GET REG_FRAME_FORMAT_W_FDF (hd ws) \<noteq> 0) = fd"
proof -
  let ?dlc = "ucast (can_len2dlc (flen cf)) :: u32" and ?rtr = "bit (can_id cf) 30"
  have v: "flen cf \<in> set dlc2len" "fd \<or> flen cf \<le> 8" "fd \<Longrightarrow> \<not> ?rtr" using assms(1) by (auto simp: valid_frame_def)
  note d = dlc_of_valid [OF v(1)]
  have r0: "ram 0 = tx_ffw K cf fd" "ram 1 = tx_idw cf" using assms(3) by (auto simp: ram_frame_def)
  have tf: "FIELD_GET REG_FRAME_FORMAT_W_DLC (ram 0) = ?dlc" "(FIELD_GET REG_FRAME_FORMAT_W_RTR (ram 0) \<noteq> 0) = ?rtr"
    "(FIELD_GET REG_FRAME_FORMAT_W_IDE (ram 0) \<noteq> 0) = bit (can_id cf) 31"
    "(FIELD_GET REG_FRAME_FORMAT_W_FDF (ram 0) \<noteq> 0) = fd"
    "(FIELD_GET REG_FRAME_FORMAT_W_BRS (ram 0) \<noteq> 0) = (fd \<and> bit (flags cf) 0)"
    using tx_ffw_fields [of K cf fd] d(1) by (simp_all add: r0 assms(2))
  have fdr: "(\<not> fd \<and> ?rtr) = ?rtr" using v(3) by blast
  have tdw: "tx_data_words cf = (if ?rtr then 0 else (unat (flen cf) + 3) div 4)"
    using id_bits(2) [of "can_id cf"] by (auto simp: tx_data_words_def)
  let ?n = "if ?rtr then 0 else if fd then unat (dlc2len ! unat ?dlc) else min 8 (unat ?dlc)"
  have w: "4 \<le> length ws" "hd ws = frame_form_w ?dlc ?rtr (bit (can_id cf) 31) fd (fd \<and> bit (flags cf) 0) (fd \<and> esi)"
    "length ws = Suc (rwcnt_of (hd ws))" "ws ! 1 = tx_idw cf AND mask 29"
    "take ?n (concat (map le_bytes (drop 4 ws))) = take ?n (concat (map (\<lambda>i. le_bytes (ram (4 + i))) [0..<16]))"
    using assms(4) unfolding on_wire_def Let_def tf fdr r0(2) conj_left_absorb by blast+
  have "?dlc < 16" using d(1) by (simp add: u8_u32_le)
  note ff = frame_form_w_fields [OF this, of ?rtr "bit (can_id cf) 31" fd "fd \<and> bit (flags cf) 0" "fd \<and> esi",
      folded w(2)]
  show "(FIELD_GET REG_FRAME_FORMAT_W_FDF (hd ws) \<noteq> 0) = fd" by (fact ff(4))
  have rw: "FIELD_GET REG_FRAME_FORMAT_W_RWCNT (hd ws) = (if ?rtr then 3 else rwcnt_com ?dlc)"
    using ff(7) d(8) v(2) by auto
  then have rwn: "rwcnt_of (hd ws) = 3 + tx_data_words cf"
    using d(6) by (auto simp: rwcnt_of_def tdw)
  show "length ws = 4 + tx_data_words cf" using w(3) rwn by simp
  have td: "tx_data_words cf \<le> 16" using d(7) by (auto simp: tdw)
  show wf: "wf_frame ws" using w(1,3) rwn td by (auto simp: wf_frame_def)
  have dlc8: "?dlc \<le> 8 \<longleftrightarrow> flen cf \<le> 8" using d(4) by (simp add: u8_u32_le)
  have wc: "rx_wc (hd ws) = (if ?rtr then 0 else rwcnt_com ?dlc - 3)" using rw by (simp add: rx_wc_def)
  show len: "rx_len (hd ws) = ucast (flen cf)"
    using d(3,5) v(2,3) dlc8 wc ff(1,4) by (auto simp: rx_len_def)
  show "rx_can_id (hd ws) (ws ! 1) = can_id cf"
    unfolding w(4) using rx_can_id_tx_idw [OF assms(1)] ff by blast
  have "flags cf AND CANFD_BRS = (if bit (flags cf) 0 then CANFD_BRS else 0)"
    using brs_bit [of "flags cf"] by (auto simp: CANFD_BRS_def and_one_eq)
  then show "rx_flags (hd ws) = (if fd then (flags cf AND CANFD_BRS) OR (if esi then CANFD_ESI else 0) else 0)"
    using ff(4,5,6) by (auto simp: rx_flags_def Let_def)
  have "wf_frame (hd ws # tl ws)" using wf w(1) by (cases ws) auto
  from rwcnt_rx_wc [OF this] have u: "unat (rx_wc (hd ws) * 4) = 4 * tx_data_words cf"
    using w(3) rwn by simp
  have "copied_len (hd ws) = (if ?rtr then 0 else ucast (flen cf))"
  proof (cases ?rtr)
    case True
    then have "rx_wc (hd ws) * 4 = 0" using wc by simp
    then show ?thesis using True by (auto simp: copied_len_def word_gt_0)
  next
    case False
    have "4 * tx_data_words cf \<ge> unat (flen cf)" using False by (simp add: tdw)
    then show ?thesis using False u len by (simp add: copied_len_def word_less_nat_alt unat_u8_u32)
  qed
  then show "copied_words (hd ws) = tx_data_words cf"
    by (simp add: copied_words_def tdw unat_u8_u32)
  have "?n = (if ?rtr then 0 else unat (flen cf))"
    using d(2,3) v(2) dlc8 by (auto simp: unat_u8_u32 word_le_nat_alt)
  then show "take (if ?rtr then 0 else unat (flen cf)) (concat (map le_bytes (drop 4 ws))) =
      take (if ?rtr then 0 else unat (flen cf)) (concat (map (\<lambda>i. le_bytes (ram (4 + i))) [0..<16]))"
    using w(5) by simp
qed

section \<open>From driver to driver\<close>

lemma rtr_data_words:
  "tx_data_words cf = (if bit (can_id cf) 30 then 0 else (unat (flen cf) + 3) div 4)"
  using id_bits(2) [of "can_id cf"] by (auto simp: tx_data_words_def)

lemma wire_payload:
  assumes "valid_frame fd cf" "k_fd_len2dlc K = can_len2dlc" "ram_frame K cf fd ram" "on_wire ram esi ws"
    "\<not> bit (can_id cf) 30"
  shows "take (unat (flen cf)) (data (frame_of_words rcf ws)) = take (unat (flen cf)) (data cf)"
proof -
  let ?l = "unat (flen cf)" and ?n = "(unat (flen cf) + 3) div 4"
  note w = wire_words [OF assms(1-4)]
  have l: "?l \<le> 4 * ?n" "?n \<le> 16"
    using dlc_of_valid(7) [of "flen cf"] assms(1) by (simp_all add: valid_frame_def)
  have n: "copied_words (hd ws) = ?n" "length (drop 4 ws) = ?n" using w(2,6) assms(5) by (simp_all add: rtr_data_words)
  have g: "concat (map (\<lambda>i. le_bytes (ram (4 + i))) [0..<?n]) = take (4 * ?n) (data cf)"
    by (rule words_of_bytes) (use assms(3,5) in \<open>simp add: ram_frame_def rtr_data_words\<close>)
  have "take ?l (data (frame_of_words rcf ws)) = take ?l (concat (map le_bytes (drop 4 ws)))"
    using n l by (simp add: frame_of_words_def Let_def)
  also have "\<dots> = take ?l (concat (map (\<lambda>i. le_bytes (ram (4 + i))) [0..<16]))"
    using w(7) assms(5) by simp
  also have "[0..<16] = [0..<?n] @ [?n..<16]" using l(2) upt_add_eq_append [of 0 ?n "16 - ?n"] by simp
  also have "take ?l (concat (map (\<lambda>i. le_bytes (ram (4 + i))) ([0..<?n] @ [?n..<16]))) = take ?l (take (4 * ?n) (data cf))"
  proof -
    have "length (concat (map (\<lambda>i. le_bytes (ram (4 + i))) [0..<?n])) = 4 * ?n"
      using le_bytes_length [of "map (\<lambda>i. ram (4 + i)) [0..<?n]"] by (simp add: comp_def)
    then show ?thesis using l(1) by (simp add: g)
  qed
  finally show ?thesis using l(1) by (simp add: min_absorb1)
qed

lemma wire_decoded:
  assumes "valid_frame fd cf" "k_fd_len2dlc K = can_len2dlc" "ram_frame K cf fd ram" "on_wire ram esi ws"
    "rx_decodes ws (fd', r)"
  shows "fd' = fd \<and> can_id r = can_id cf \<and> flen r = flen cf \<and>
    flags r = (if fd then (flags cf AND CANFD_BRS) OR (if esi then CANFD_ESI else 0) else 0) \<and>
    (\<not> bit (can_id cf) 30 \<longrightarrow> take (unat (flen cf)) (data r) = take (unat (flen cf)) (data cf))"
proof -
  note w = wire_words [OF assms(1-4)]
  obtain rcf where r: "r = frame_of_words rcf ws" "fd' = (FIELD_GET REG_FRAME_FORMAT_W_FDF (hd ws) \<noteq> 0)"
    using assms(5) by (auto simp: rx_decodes_def)
  have "fd' = fd" unfolding r(2) by (fact w(8))
  moreover have "ucast (ucast (flen cf) :: u32) = flen cf" by (rule bit_eqI) (simp add: bit_simps)
  ultimately show ?thesis
    using w(3-5) wire_payload [OF assms(1-4)] by (auto simp: r(1) frame_of_words_def Let_def)
qed

text \<open>C3: A frame that \<open>ctucan_insert_frame\<close> has put into a TXT buffer of the controller and that
  another controller has stored as received from the bus is read back by the receiving driver with
  the same kind, identifier, length and flags, and, unless it is a remote frame, the same data.\<close>

theorem frame_roundtrip:
  assumes "core_ok C" "attached acc base (txt_buffer_count C) (priv s)" "unat buf < txt_buffer_count C"
    "txtb (hw s) (unat buf) = s_txt_empty" "valid_frame fd cf" "k_fd_len2dlc K = can_len2dlc"
    "ctucan_insert_frame (core_bus C acc base) K cf buf fd s = Inr (True, s')"
    "on_wire (txt_ram (hw s') (unat buf)) esi ws" "rx_decodes ws (fd', r)"
  shows "fd' = fd \<and> can_id r = can_id cf \<and> flen r = flen cf \<and>
    flags r = (if fd then (flags cf AND CANFD_BRS) OR (if esi then CANFD_ESI else 0) else 0) \<and>
    (\<not> bit (can_id cf) 30 \<longrightarrow> take (unat (flen cf)) (data r) = take (unat (flen cf)) (data cf))"
  by (rule wire_decoded [OF assms(5,6) insert_frame_ram [OF assms(7,1-4)] assms(8,9)])

lemma demo_on_wire:
  assumes "ram 0 = tx_ffw demo_kern (skb_frame demo_skb) False"
  shows "on_wire ram False [frame_form_w 5 False False False False False, ram 1 AND mask 29, 0, 0, ram 4, ram 5]"
proof -
  have d: "k_fd_len2dlc demo_kern (flen (skb_frame demo_skb)) = 5"
    by (simp add: demo_skb_def demo_kern_def) code_simp
  have i: "\<not> bit (can_id (skb_frame demo_skb)) 30" "\<not> bit (can_id (skb_frame demo_skb)) 31"
    by (simp_all add: demo_skb_def)
  have r: "rwcnt_of (frame_form_w 5 False False False False False) = 5"
    using frame_form_w_fields(7) [of 5 False False False False False] by (simp add: rwcnt_of_def rwcnt_com_def)
  have "take 5 (concat (map (\<lambda>i. le_bytes (ram (4 + i))) [0..<16])) = take 5 (le_bytes (ram 4) @ le_bytes (ram 5))"
    by (simp add: upt_rec le_bytes_def)
  then show ?thesis
    using tx_ffw_fields [of demo_kern "skb_frame demo_skb" False] d i r
    by (simp add: on_wire_def Let_def assms)
qed

theorem frame_roundtrip_witness:
  "\<exists>s' ws. ctucan_insert_frame (core_bus (run_cfg True False) IO_LE 0) demo_kern (skb_frame demo_skb) 0 False
      (demo_ndev [] demo_core) = Inr (True, s') \<and> on_wire (txt_ram (hw s') 0) False ws \<and>
    take 5 (data (frame_of_words (zero_frame 8) ws)) = [1, 2, 3, 4, 5]"
proof -
  let ?s = "demo_ndev [] demo_core :: core ndev" and ?C = "run_cfg True False" and ?f = "skb_frame demo_skb"
  have at: "attached IO_LE 0 4 (priv ?s)" "txtb (hw ?s) 0 = s_txt_empty"
    by (simp_all add: attached_def demo_ndev_def demo_priv_def demo_core_def)
  obtain s' where s': "ctucan_insert_frame (core_bus ?C IO_LE 0) demo_kern ?f 0 False ?s = Inr (True, s')"
    using core4.insert_frame_ok [OF at(1) _ demo_skb_ok(1,2), of 0 True False] at(2) by (auto simp: view_at)
  have ram: "ram_frame demo_kern ?f False (txt_ram (hw s') 0)"
    using insert_frame_ram [OF s' run_cfg_ok(1)] at by (simp add: run_cfg_ok(2))
  then obtain ws where ws: "on_wire (txt_ram (hw s') 0) False ws"
    using demo_on_wire unfolding ram_frame_def by blast
  have v: "valid_frame False ?f"
    using demo_skb_ok(1) by (simp add: valid_frame_def demo_skb_def) code_simp
  have dec: "rx_decodes ws (False, frame_of_words (zero_frame 8) ws)"
    using wire_words(8) [OF v _ ram ws] by (auto simp: rx_decodes_def demo_kern_def)
  have "take 5 (data (frame_of_words (zero_frame 8) ws)) = [1, 2, 3, 4, 5]"
    using frame_roundtrip [OF run_cfg_ok(1) _ _ _ v _ s' _ dec] at ws
    by (simp add: run_cfg_ok(2) demo_skb_def demo_kern_def)
  then show ?thesis using s' ws by blast
qed

end
