(* ===== verification/Ctu_RxFsm.thy ===== *)
theory Ctu_RxFsm
  imports Ctu_RxBuf Ctu_Rx
begin

text \<open>
  The loader of the RX buffer, cycle by cycle: the state machine of \<open>src/rx_buffer/rx_buffer_fsm.vhd\<close>, the
  words it selects, the second write of the timestamp, and the register between the intent to commit a frame and
  the commit (\<open>rx_buffer.vhd\<close>, \<open>rx_buffer_pointers.vhd\<close>). The ring and its relation to the queue are
  those of \<open>Ctu_RxBuf\<close>. The command \<open>RRB\<close> is not part of the model.
\<close>

unbundle bit_operations_syntax

section \<open>State machine\<close>

datatype t_rx_buf_state =
    S_rxb_idle | S_rxb_store_frame_format | S_rxb_store_identifier | S_rxb_skip_ts_low | S_rxb_skip_ts_high
  | S_rxb_store_end_ts_low | S_rxb_store_end_ts_high | S_rxb_store_data | S_rxb_store_err_frame_format
  | S_rxb_store_err_identifier | S_rxb_store_err_ts_low | S_rxb_store_err_ts_high

text \<open>The inputs of the buffer: commands of the CAN core, what it received, and the accesses of the bus.\<close>

record rxl_in =
  mr_mode_erfm :: bool
  store_metadata_f :: bool
  store_data_f :: bool
  rec_valid_f :: bool
  rec_abort_f :: bool
  sof_pulse :: bool
  rec_dlc :: "4 word"
  rec_is_rtr :: bool
  rec_ident_type :: bool
  rec_frame_type :: bool
  rec_lbpf :: bool
  rec_brs :: bool
  rec_esi :: bool
  rec_ivld :: bool
  rec_ident :: "29 word"
  store_data_word :: u32
  rxl_err_pos :: "4 word"
  rxl_err_type :: "3 word"
  rxl_err_erp :: bool
  curr_txtb_index :: "3 word"
  timestamp :: u64
  rtsop_beg :: bool
  read_attempt :: bool
  rxl_cdo :: bool

definition rxb_next_state :: "rxl_in \<Rightarrow> t_rx_buf_state \<Rightarrow> t_rx_buf_state" where
  "rxb_next_state i st =
     (case st of
        S_rxb_idle \<Rightarrow>
          if store_metadata_f i then S_rxb_store_frame_format
          else if mr_mode_erfm i \<and> rec_abort_f i then S_rxb_store_err_frame_format
          else S_rxb_idle
      | S_rxb_store_frame_format \<Rightarrow>
          if rec_abort_f i then (if mr_mode_erfm i then S_rxb_store_err_frame_format else S_rxb_idle)
          else S_rxb_store_identifier
      | S_rxb_store_identifier \<Rightarrow> S_rxb_skip_ts_low
      | S_rxb_skip_ts_low \<Rightarrow> S_rxb_skip_ts_high
      | S_rxb_skip_ts_high \<Rightarrow> S_rxb_store_data
      | S_rxb_store_data \<Rightarrow>
          if rec_abort_f i then (if mr_mode_erfm i then S_rxb_store_err_frame_format else S_rxb_idle)
          else if rec_valid_f i then S_rxb_store_end_ts_low
          else S_rxb_store_data
      | S_rxb_store_end_ts_low \<Rightarrow> S_rxb_store_end_ts_high
      | S_rxb_store_end_ts_high \<Rightarrow> S_rxb_idle
      | S_rxb_store_err_frame_format \<Rightarrow> S_rxb_store_err_identifier
      | S_rxb_store_err_identifier \<Rightarrow> S_rxb_store_err_ts_low
      | S_rxb_store_err_ts_low \<Rightarrow> S_rxb_store_err_ts_high
      | S_rxb_store_err_ts_high \<Rightarrow> S_rxb_idle)"

record rxb_out =
  rxb_write_raw :: bool
  select_ts_wptr :: bool
  commit_intent :: bool
  data_selector :: "5 word"
  store_ts_wr_ptr :: bool
  inc_ts_wr_ptr :: bool
  rec_erf :: bool
  reset_overrun_flag :: bool

definition rxb_out0 :: rxb_out where
  "rxb_out0 = \<lparr>rxb_write_raw = False, select_ts_wptr = False, commit_intent = False, data_selector = 0,
     store_ts_wr_ptr = False, inc_ts_wr_ptr = False, rec_erf = False, reset_overrun_flag = False\<rparr>"

definition rxb_outputs :: "rxl_in \<Rightarrow> t_rx_buf_state \<Rightarrow> rxb_out" where
  "rxb_outputs i st =
     (case st of
        S_rxb_idle \<Rightarrow> rxb_out0\<lparr>reset_overrun_flag := True\<rparr>
      | S_rxb_store_frame_format \<Rightarrow> rxb_out0\<lparr>rxb_write_raw := \<not> rec_abort_f i, data_selector := 0b00001\<rparr>
      | S_rxb_store_identifier \<Rightarrow> rxb_out0\<lparr>rxb_write_raw := True, data_selector := 0b00010\<rparr>
      | S_rxb_skip_ts_low \<Rightarrow> rxb_out0\<lparr>rxb_write_raw := True, store_ts_wr_ptr := True\<rparr>
      | S_rxb_skip_ts_high \<Rightarrow> rxb_out0\<lparr>rxb_write_raw := True\<rparr>
      | S_rxb_store_data \<Rightarrow> rxb_out0\<lparr>rxb_write_raw := store_data_f i, data_selector := 0b00100\<rparr>
      | S_rxb_store_end_ts_low \<Rightarrow>
          rxb_out0\<lparr>data_selector := 0b01000, select_ts_wptr := True, inc_ts_wr_ptr := True\<rparr>
      | S_rxb_store_end_ts_high \<Rightarrow>
          rxb_out0\<lparr>data_selector := 0b10000, select_ts_wptr := True, commit_intent := True\<rparr>
      | S_rxb_store_err_frame_format \<Rightarrow>
          rxb_out0\<lparr>rxb_write_raw := True, data_selector := 0b00001, rec_erf := True\<rparr>
      | S_rxb_store_err_identifier \<Rightarrow> rxb_out0\<lparr>rxb_write_raw := True, data_selector := 0b00010\<rparr>
      | S_rxb_store_err_ts_low \<Rightarrow> rxb_out0\<lparr>rxb_write_raw := True, data_selector := 0b01000\<rparr>
      | S_rxb_store_err_ts_high \<Rightarrow>
          rxb_out0\<lparr>rxb_write_raw := True, data_selector := 0b10000, commit_intent := True\<rparr>)"

section \<open>The words of a frame\<close>

definition rxl_rwcnt_com :: "4 word \<Rightarrow> nat" where
  "rxl_rwcnt_com dlc = [3, 4, 4, 4, 4, 5, 5, 5, 5, 6, 7, 8, 9, 11, 15, 19] ! unat dlc"

definition frame_form_rwcnt :: "bool \<Rightarrow> rxl_in \<Rightarrow> nat" where
  "frame_form_rwcnt erf i =
     (if rec_is_rtr i \<or> erf then 3
      else if \<not> rec_frame_type i \<and> bit (rec_dlc i) 3 then 5
      else rxl_rwcnt_com (rec_dlc i))"

definition rxl_frame_form_w :: "bool \<Rightarrow> rxl_in \<Rightarrow> u32" where
  "rxl_frame_form_w erf i =
     ucast (rec_dlc i) OR push_bit 4 (of_bool erf) OR push_bit 5 (of_bool (rec_is_rtr i)) OR
     push_bit 6 (of_bool (rec_ident_type i)) OR push_bit 7 (of_bool (rec_frame_type i)) OR
     push_bit 8 (of_bool (rec_lbpf i)) OR push_bit 9 (of_bool (rec_brs i)) OR
     push_bit 10 (of_bool (rec_esi i)) OR push_bit 11 (of_nat (frame_form_rwcnt erf i)) OR
     push_bit 16 (if erf then ucast (rxl_err_pos i) else 0) OR
     push_bit 20 (of_bool (erf \<and> rxl_err_erp i)) OR
     push_bit 21 (if erf then ucast (rxl_err_type i) else 0) OR
     push_bit 24 (of_bool (rec_ivld i)) OR
     push_bit 25 (if rec_lbpf i then ucast (curr_txtb_index i) else 0)"

definition rxb_port_a_data_in :: "rxl_in \<Rightarrow> rxb_out \<Rightarrow> u64 \<Rightarrow> u32" where
  "rxb_port_a_data_in i sg ts =
     (if data_selector sg = 0b00001 then rxl_frame_form_w (rec_erf sg) i
      else if data_selector sg = 0b00010 then ucast (rec_ident i)
      else if data_selector sg = 0b00100 then store_data_word i
      else if data_selector sg = 0b01000 then ucast ts
      else if data_selector sg = 0b10000 then ucast (drop_bit 32 ts)
      else 0)"

definition timestamp_capture_ce :: "rxl_in \<Rightarrow> bool" where
  "timestamp_capture_ce i \<longleftrightarrow>
     \<not> rtsop_beg i \<and> rec_valid_f i \<or> rtsop_beg i \<and> sof_pulse i \<or> mr_mode_erfm i \<and> rec_abort_f i"

section \<open>One cycle of the loader\<close>

record rxl =
  rxl_state :: t_rx_buf_state
  rxl_buf :: rxbuf
  write_pointer_ts :: nat
  commit_rx_frame_q :: bool
  commit_overrun_abort :: bool
  timestamp_capture :: u64

definition rxl_init :: "nat \<Rightarrow> rxl" where
  "rxl_init sz = \<lparr>rxl_state = S_rxb_idle, rxl_buf = rxbuf_init sz, write_pointer_ts = 0,
     commit_rx_frame_q = False, commit_overrun_abort = False, timestamp_capture = 0\<rparr>"

text \<open>The write of the loader in this cycle, in the terms of the ring.\<close>

definition rxl_wr :: "rxl_in \<Rightarrow> rxl \<Rightarrow> rx_op" where
  "rxl_wr i s =
     (let sg = rxb_outputs i (rxl_state s)
      in if rxb_write_raw sg then Rx_word (rxb_port_a_data_in i sg (timestamp_capture s)) else Rx_none)"

definition rxl_abort_applied :: "rxl_in \<Rightarrow> rxl \<Rightarrow> bool" where
  "rxl_abort_applied i s \<longleftrightarrow> rec_abort_f i \<or> commit_overrun_abort s"

definition rxl_ram :: "rxl_in \<Rightarrow> rxl \<Rightarrow> nat \<Rightarrow> u32" where
  "rxl_ram i s =
     (let b = rxl_buf s; sg = rxb_outputs i (rxl_state s); wr = rxl_wr i s
      in if write_raw_OK wr b \<or> select_ts_wptr sg \<and> \<not> data_overrun_i b \<and> \<not> overrun_condition wr b
         then (rx_ram b)((if select_ts_wptr sg then write_pointer_ts s else write_pointer_raw b) :=
                rxb_port_a_data_in i sg (timestamp_capture s))
         else rx_ram b)"

definition rxl_mem_free_raw :: "rxl_in \<Rightarrow> rxl \<Rightarrow> nat" where
  "rxl_mem_free_raw i s =
     (let b = rxl_buf s; wok = write_raw_OK (rxl_wr i s) b
      in if read_increment (read_attempt i) b
         then if rxl_abort_applied i s then rx_mem_free b + 1
              else if \<not> wok then rx_mem_free_raw b + 1 else rx_mem_free_raw b
         else if rxl_abort_applied i s then rx_mem_free b
              else if wok then rx_mem_free_raw b - 1 else rx_mem_free_raw b)"

definition rxl_mem_free :: "rxl_in \<Rightarrow> rxl \<Rightarrow> nat" where
  "rxl_mem_free i s =
     (let b = rxl_buf s
      in if read_increment (read_attempt i) b
         then if commit_rx_frame_q s then rx_mem_free_raw b + 1 else rx_mem_free b + 1
         else if commit_rx_frame_q s then rx_mem_free_raw b else rx_mem_free b)"

definition rxl_frame_count :: "rxl_in \<Rightarrow> rxl \<Rightarrow> nat" where
  "rxl_frame_count i s =
     (let b = rxl_buf s
      in if read_increment (read_attempt i) b \<and> read_counter b = 1
         then if \<not> commit_rx_frame_q s then frame_count b - 1 else frame_count b
         else if commit_rx_frame_q s then frame_count b + 1 else frame_count b)"

definition rxl_buf_cycle :: "nat \<Rightarrow> rxl_in \<Rightarrow> rxl \<Rightarrow> rxbuf" where
  "rxl_buf_cycle sz i s =
     (let b = rxl_buf s; sg = rxb_outputs i (rxl_state s); wr = rxl_wr i s; rdi = read_increment (read_attempt i) b
      in \<lparr>rx_ram = rxl_ram i s,
          read_pointer = (if rdi then (read_pointer b + 1) mod sz else read_pointer b),
          write_pointer = (if commit_rx_frame_q s then write_pointer_raw b else write_pointer b),
          write_pointer_raw =
            (if write_raw_OK wr b then (write_pointer_raw b + 1) mod sz
             else if rxl_abort_applied i s then write_pointer b else write_pointer_raw b),
          rx_mem_free = rxl_mem_free i s,
          rx_mem_free_raw = rxl_mem_free_raw i s,
          read_counter = next_read_counter (read_attempt i) b,
          frame_count = rxl_frame_count i s,
          data_overrun_i =
            (if overrun_condition wr b then True else if reset_overrun_flag sg then False else data_overrun_i b),
          data_overrun_flg =
            (if rxl_cdo i then False else if overrun_condition wr b then True else data_overrun_flg b)\<rparr>)"

definition rxl_cycle :: "nat \<Rightarrow> rxl_in \<Rightarrow> rxl \<Rightarrow> rxl" where
  "rxl_cycle sz i s =
     (let b = rxl_buf s; sg = rxb_outputs i (rxl_state s)
      in \<lparr>rxl_state = rxb_next_state i (rxl_state s),
          rxl_buf = rxl_buf_cycle sz i s,
          write_pointer_ts =
            (if store_ts_wr_ptr sg then write_pointer_raw b
             else if inc_ts_wr_ptr sg then (write_pointer_ts s + 1) mod sz
             else write_pointer_ts s),
          commit_rx_frame_q =
            (if commit_intent sg then if \<not> data_overrun_i b then True else commit_rx_frame_q s else False),
          commit_overrun_abort =
            (if commit_intent sg then if \<not> data_overrun_i b then commit_overrun_abort s else True else False),
          timestamp_capture = (if timestamp_capture_ce i then timestamp i else timestamp_capture s)\<rparr>)"

section \<open>The fields of the first word\<close>

lemma rwcnt_com_bounds: "3 \<le> rxl_rwcnt_com dlc" "rxl_rwcnt_com dlc \<le> 19"
proof -
  have "unat dlc < 16" using unsigned_less [of dlc, where ?'a = nat] by simp
  then have "rxl_rwcnt_com dlc \<in> set [3, 4, 4, 4, 4, 5, 5, 5, 5, 6, 7, 8, 9, 11, 15, 19]"
    unfolding rxl_rwcnt_com_def by (intro nth_mem) simp
  then show "3 \<le> rxl_rwcnt_com dlc" "rxl_rwcnt_com dlc \<le> 19" by auto
qed

lemma frame_form_rwcnt_bounds: "3 \<le> frame_form_rwcnt erf i" "frame_form_rwcnt erf i \<le> 19"
  using rwcnt_com_bounds [of "rec_dlc i"] by (auto simp: frame_form_rwcnt_def)

lemma rwcnt_field:
  assumes "n < 32" "bit (of_nat n :: u32) k"
  shows "k < 5"
proof -
  have "(of_nat n :: u32) = take_bit 5 (of_nat n)"
    using assms(1) by (simp add: take_bit_of_nat take_bit_nat_eq_self)
  then show ?thesis using assms(2) by (metis bit_take_bit_iff)
qed

text \<open>The bits of the word, field by field.\<close>

lemma bit_ffw:
  assumes "n < 32"
  shows "bit (rxl_frame_form_w erf i) n =
    (if n < 4 then bit (rec_dlc i) n
     else if n = 4 then erf else if n = 5 then rec_is_rtr i else if n = 6 then rec_ident_type i
     else if n = 7 then rec_frame_type i else if n = 8 then rec_lbpf i else if n = 9 then rec_brs i
     else if n = 10 then rec_esi i else if n < 16 then bit (of_nat (frame_form_rwcnt erf i) :: u32) (n - 11)
     else if n < 20 then erf \<and> bit (rxl_err_pos i) (n - 16) else if n = 20 then erf \<and> rxl_err_erp i
     else if n < 24 then erf \<and> bit (rxl_err_type i) (n - 21) else if n = 24 then rec_ivld i
     else rec_lbpf i \<and> n < 28 \<and> bit (curr_txtb_index i) (n - 25))"
proof -
  have f: "bit (push_bit k (of_bool p) :: u32) n \<longleftrightarrow> p \<and> n = k" for k p
    using assms by (auto simp: bit_push_bit_iff bit_simps)
  have g: "bit (push_bit k (ucast (w :: 'a::len word)) :: u32) n \<longleftrightarrow> k \<le> n \<and> n < k + LENGTH('a) \<and> bit w (n - k)" for k w
    using assms by (auto simp: bit_push_bit_iff bit_ucast_iff dest: bit_imp_le_length)
  have g0: "bit (ucast (w :: 'a::len word) :: u32) n \<longleftrightarrow> n < LENGTH('a) \<and> bit w n" for w
    using assms by (auto simp: bit_ucast_iff dest: bit_imp_le_length)
  have r: "bit (push_bit 11 (of_nat (frame_form_rwcnt erf i)) :: u32) n \<longleftrightarrow>
      11 \<le> n \<and> n < 16 \<and> bit (of_nat (frame_form_rwcnt erf i) :: u32) (n - 11)"
    using assms rwcnt_field [of "frame_form_rwcnt erf i" "n - 11"] frame_form_rwcnt_bounds(2) [of erf i]
    by (auto simp: bit_push_bit_iff)
  have h: "bit (push_bit k (if c then ucast (w :: 'a::len word) else 0) :: u32) n \<longleftrightarrow>
      c \<and> k \<le> n \<and> n < k + LENGTH('a) \<and> bit w (n - k)" for k w c
    by (cases c) (simp_all only: if_True if_False push_bit_of_0 bit_0_eq bot_apply g simp_thms bot_bool_def)
  consider "n < 4" | "n = 4" | "n = 5" | "n = 6" | "n = 7" | "n = 8" | "n = 9" | "n = 10" | "11 \<le> n \<and> n < 16"
    | "16 \<le> n \<and> n < 20" | "n = 20" | "21 \<le> n \<and> n < 24" | "n = 24" | "25 \<le> n" by linarith
  then show ?thesis
    unfolding rxl_frame_form_w_def bit_or_iff f g0 r h by cases simp_all
qed

lemma ffw_RWCNT: "FIELD_GET REG_FRAME_FORMAT_W_RWCNT (rxl_frame_form_w erf i) = of_nat (frame_form_rwcnt erf i)"
proof (rule bit_word_eqI)
  fix n
  have "bit (of_nat (frame_form_rwcnt erf i) :: u32) n \<Longrightarrow> n < 5"
    using rwcnt_field [of "frame_form_rwcnt erf i" n] frame_form_rwcnt_bounds(2) [of erf i] by simp
  then show "bit (FIELD_GET REG_FRAME_FORMAT_W_RWCNT (rxl_frame_form_w erf i)) n =
      bit (of_nat (frame_form_rwcnt erf i) :: u32) n"
    by (cases "n < 5")
      (auto simp: REG_FRAME_FORMAT_W_RWCNT_def FIELD_GET_GENMASK bit_ffw bit_take_bit_iff bit_drop_bit_eq)
qed

lemma ffw_DLC: "FIELD_GET REG_FRAME_FORMAT_W_DLC (rxl_frame_form_w erf i) = ucast (rec_dlc i)"
  by (intro bit_word_eqI)
    (auto simp: REG_FRAME_FORMAT_W_DLC_def FIELD_GET_GENMASK bit_ffw bit_take_bit_iff bit_drop_bit_eq bit_ucast_iff dest: bit_imp_le_length)

lemma ffw_bits:
  "FIELD_GET REG_FRAME_FORMAT_W_FDF (rxl_frame_form_w erf i) = of_bool (rec_frame_type i)"
  "FIELD_GET REG_FRAME_FORMAT_W_IDE (rxl_frame_form_w erf i) = of_bool (rec_ident_type i)"
  "FIELD_GET REG_FRAME_FORMAT_W_RTR (rxl_frame_form_w erf i) = of_bool (rec_is_rtr i)"
  "FIELD_GET REG_FRAME_FORMAT_W_BRS (rxl_frame_form_w erf i) = of_bool (rec_brs i)"
  "FIELD_GET REG_FRAME_FORMAT_W_ESI_RSV (rxl_frame_form_w erf i) = of_bool (rec_esi i)"
  by (simp_all add: REG_FRAME_FORMAT_W_FDF_def REG_FRAME_FORMAT_W_IDE_def REG_FRAME_FORMAT_W_RTR_def
      REG_FRAME_FORMAT_W_BRS_def REG_FRAME_FORMAT_W_ESI_RSV_def FIELD_GET_BIT bit_ffw)

lemma rwcnt_of_ffw: "rwcnt_of (rxl_frame_form_w erf i) = frame_form_rwcnt erf i"
  using frame_form_rwcnt_bounds(2) [of erf i] by (simp add: rwcnt_of_def ffw_RWCNT unat_of_nat take_bit_nat_eq_self)

lemma nibble_cases:
  fixes d :: "4 word"
  shows "d \<in> {0, 1, 2, 3, 4, 5, 6, 7, 8, 9, 10, 11, 12, 13, 14, 15}"
proof -
  have "unat d < 16" using unsigned_less [of d, where ?'a = nat] by simp
  then have "of_nat (unat d) \<in> set (map of_nat [0..<16] :: 4 word list)" 
    unfolding set_map by (intro imageI) simp
  then show ?thesis by (simp add: upt_rec)
qed

lemma rx_len_ffw:
  "rx_len (rxl_frame_form_w False i) =
     (if rec_dlc i \<le> 8 then ucast (rec_dlc i)
      else if rec_frame_type i then 4 * (of_nat (frame_form_rwcnt False i) - 3) else 8)"
proof -
  have "ucast (rec_dlc i) \<le> (8 :: u32) \<longleftrightarrow> rec_dlc i \<le> 8"
    using nibble_cases [of "rec_dlc i"] by auto
  then show ?thesis by (simp add: rx_len_def rx_wc_def ffw_RWCNT ffw_DLC ffw_bits push_bit_eq_mult)
qed

text \<open>C20: The two sides of a stored frame agree on its length. From the first word the core writes, the driver takes
  the length its data length code stands for, eight at most for a classic frame; and the words the core
  announces hold these bytes without a word left over. A remote frame announces no data; it is a classic frame.
\<close>

theorem rx_length_agrees:
  "unat (rx_wc (rxl_frame_form_w False i)) = frame_form_rwcnt False i - 3 \<and>
   unat (rx_len (rxl_frame_form_w False i)) =
     (if rec_frame_type i \<and> rec_is_rtr i \<and> 8 < rec_dlc i then 0
      else if rec_frame_type i then unat (can_dlc2len (ucast (rec_dlc i)))
      else min 8 (unat (rec_dlc i))) \<and>
   (\<not> rec_is_rtr i \<longrightarrow>
     frame_form_rwcnt False i - 3 = (unat (rx_len (rxl_frame_form_w False i)) + 3) div 4)"
proof -
  have wc: "unat (rx_wc (rxl_frame_form_w False i)) = frame_form_rwcnt False i - 3"
  proof -
    have "(of_nat (frame_form_rwcnt False i) - 3 :: u32) = of_nat (frame_form_rwcnt False i - 3)"
      using frame_form_rwcnt_bounds(1) [of False i] by simp
    then show ?thesis
      using frame_form_rwcnt_bounds(2) [of False i]
      by (simp only: rx_wc_def ffw_RWCNT unat_of_nat) (simp add: take_bit_nat_eq_self)
  qed
  show ?thesis
    unfolding wc rx_len_ffw
    using nibble_cases [of "rec_dlc i"]
    by (elim insertE emptyE; cases "rec_frame_type i"; cases "rec_is_rtr i")
      (simp_all add: frame_form_rwcnt_def rxl_rwcnt_com_def can_dlc2len_def dlc2len_def)
qed

section \<open>The loader and the queue\<close>

text \<open>
  The words of the frame in progress, as the loader means to store them: a specification by lists, without
  pointers and memory.
\<close>

definition rxl_spec :: "rxl_in \<Rightarrow> rxl \<Rightarrow> u32 list \<Rightarrow> u32 list" where
  "rxl_spec i s ws =
     (if rec_abort_f i then []
      else case rxl_state s of
        S_rxb_idle \<Rightarrow> []
      | S_rxb_store_frame_format \<Rightarrow> ws @ [rxl_frame_form_w False i]
      | S_rxb_store_identifier \<Rightarrow> ws @ [ucast (rec_ident i)]
      | S_rxb_skip_ts_low \<Rightarrow> ws @ [0]
      | S_rxb_skip_ts_high \<Rightarrow> ws @ [0]
      | S_rxb_store_data \<Rightarrow> if store_data_f i then ws @ [store_data_word i] else ws
      | S_rxb_store_end_ts_low \<Rightarrow> ws[2 := ucast (timestamp_capture s)]
      | S_rxb_store_end_ts_high \<Rightarrow> ws[3 := ucast (drop_bit 32 (timestamp_capture s))]
      | S_rxb_store_err_frame_format \<Rightarrow> ws @ [rxl_frame_form_w True i]
      | S_rxb_store_err_identifier \<Rightarrow> ws @ [ucast (rec_ident i)]
      | S_rxb_store_err_ts_low \<Rightarrow> ws @ [ucast (timestamp_capture s)]
      | S_rxb_store_err_ts_high \<Rightarrow> ws @ [ucast (drop_bit 32 (timestamp_capture s))])"

text \<open>How many words the frame has in each state, and where the timestamp pointer stands.\<close>

definition rxl_shape :: "t_rx_buf_state \<Rightarrow> u32 list \<Rightarrow> bool" where
  "rxl_shape st ws \<longleftrightarrow>
     (case st of
        S_rxb_idle \<Rightarrow> True
      | S_rxb_store_frame_format \<Rightarrow> ws = []
      | S_rxb_store_identifier \<Rightarrow> length ws = 1 \<and> 3 \<le> rwcnt_of (hd ws) \<and> rwcnt_of (hd ws) \<le> 19
      | S_rxb_skip_ts_low \<Rightarrow> length ws = 2 \<and> 3 \<le> rwcnt_of (hd ws) \<and> rwcnt_of (hd ws) \<le> 19
      | S_rxb_skip_ts_high \<Rightarrow> length ws = 3 \<and> 3 \<le> rwcnt_of (hd ws) \<and> rwcnt_of (hd ws) \<le> 19
      | S_rxb_store_data \<Rightarrow> 4 \<le> length ws \<and> length ws \<le> 20 \<and> 3 \<le> rwcnt_of (hd ws) \<and> rwcnt_of (hd ws) \<le> 19
      | S_rxb_store_end_ts_low \<Rightarrow> wf_frame ws
      | S_rxb_store_end_ts_high \<Rightarrow> wf_frame ws
      | S_rxb_store_err_frame_format \<Rightarrow> ws = []
      | S_rxb_store_err_identifier \<Rightarrow> length ws = 1 \<and> rwcnt_of (hd ws) = 3
      | S_rxb_store_err_ts_low \<Rightarrow> length ws = 2 \<and> rwcnt_of (hd ws) = 3
      | S_rxb_store_err_ts_high \<Rightarrow> length ws = 3 \<and> rwcnt_of (hd ws) = 3)"

definition rxl_ts_ok :: "nat \<Rightarrow> rxl \<Rightarrow> bool" where
  "rxl_ts_ok sz s \<longleftrightarrow>
     (\<not> data_overrun_i (rxl_buf s) \<longrightarrow>
        (rxl_state s \<in> {S_rxb_skip_ts_high, S_rxb_store_data, S_rxb_store_end_ts_low} \<longrightarrow>
           write_pointer_ts s = (write_pointer (rxl_buf s) + 2) mod sz) \<and>
        (rxl_state s = S_rxb_store_end_ts_high \<longrightarrow>
           write_pointer_ts s = (write_pointer (rxl_buf s) + 3) mod sz))"

definition rxl_pending :: "rxl \<Rightarrow> bool" where
  "rxl_pending s \<longleftrightarrow> commit_rx_frame_q s \<or> commit_overrun_abort s"

text \<open>
  The invariant: the ring represents a queue whose unfinished frame is the specified one, unless the frame
  has overrun; a commit that is pending is one of a complete frame, or the drop of one that has overrun.
\<close>

definition rxl_rel :: "nat \<Rightarrow> rxl \<Rightarrow> u32 list \<Rightarrow> rxq \<Rightarrow> bool" where
  "rxl_rel sz s ws q \<longleftrightarrow>
     rx_rel sz (rxl_buf s) q \<and> rxl_shape (rxl_state s) ws \<and> rxl_ts_ok sz s \<and>
     (\<not> data_overrun_i (rxl_buf s) \<longrightarrow> rxq_raw q = ws) \<and> length (rxq_raw q) \<le> 20 \<and>
     (rxl_pending s \<longrightarrow> rxl_state s = S_rxb_idle) \<and>
     (commit_rx_frame_q s \<longrightarrow> \<not> data_overrun_i (rxl_buf s) \<and> wf_frame ws) \<and>
     (commit_overrun_abort s \<longrightarrow> data_overrun_i (rxl_buf s)) \<and>
     (rxl_state s = S_rxb_idle \<and> \<not> rxl_pending s \<longrightarrow> ws = [] \<and> rxq_raw q = [])"

text \<open>
  What the CAN core keeps to, from the assertions of \<open>rx_buffer_fsm.vhd\<close>: commands exclude each other, no
  frame is aborted while its identifier or timestamp is stored, while an error frame is stored or while a commit
  is pending, and a frame has the data words its first word announces.
\<close>

definition rxl_env :: "rxl_in \<Rightarrow> rxl \<Rightarrow> u32 list \<Rightarrow> bool" where
  "rxl_env i s ws \<longleftrightarrow>
     (rec_abort_f i \<longrightarrow> rxl_state s \<in> {S_rxb_idle, S_rxb_store_frame_format, S_rxb_store_data} \<and> \<not> rxl_pending s \<and>
        \<not> store_metadata_f i \<and> \<not> store_data_f i) \<and>
     (rxl_state s = S_rxb_store_data \<longrightarrow>
        (store_data_f i \<longrightarrow> \<not> rec_valid_f i \<and> length ws < 20) \<and>
        (rec_valid_f i \<longrightarrow> length ws = Suc (rwcnt_of (hd ws))))"

text \<open>The one cycle that leaves the invariant: the last word of an error frame, and only this one, finds no free word.\<close>

definition err_word_lost :: "rxl \<Rightarrow> bool" where
  "err_word_lost s \<longleftrightarrow>
     rxl_state s = S_rxb_store_err_ts_high \<and> \<not> data_overrun_i (rxl_buf s) \<and> \<not> is_free_word (rxl_buf s)"

lemma rx_rel_flags [simp]:
  "rx_rel sz (b\<lparr>data_overrun_i := x\<rparr>) q = rx_rel sz b q"
  by (simp add: rx_rel_def)

text \<open>A second write to a word of the frame in progress.\<close>

lemma rx_rel_rewrite:
  assumes "rx_rel sz b q" "k < length (rxq_raw q)"
  shows "rx_rel sz (b\<lparr>rx_ram := (rx_ram b)((write_pointer b + k) mod sz := d)\<rparr>) (q\<lparr>rxq_raw := (rxq_raw q)[k := d]\<rparr>)"
proof -
  let ?W = "rxq_words q" and ?R = "rxq_raw q" and ?p = "read_pointer b"
  have R: "ring_holds sz (rx_ram b) ?p (?W @ ?R)" "write_pointer b = (?p + length ?W) mod sz"
    "length (?W @ ?R) \<le> sz"
    using assms(1) by (auto simp: rx_rel_def)
  have a: "(write_pointer b + k) mod sz = (?p + (length ?W + k)) mod sz"
    unfolding R(2) by (simp add: mod_add_left_eq add.assoc)
  have upd: "(?W @ ?R)[length ?W + k := d] = ?W @ ?R[k := d]" by (simp add: list_update_append)
  have "ring_holds sz ((rx_ram b)((?p + (length ?W + k)) mod sz := d)) ?p ((?W @ ?R)[length ?W + k := d])"
    unfolding ring_holds_def
  proof (intro allI impI)
    fix j assume j: "j < length ((?W @ ?R)[length ?W + k := d])"
    have "(?p + j) mod sz = (?p + (length ?W + k)) mod sz \<longleftrightarrow> j = length ?W + k"
      using mod_add_inj [of ?p j sz "length ?W + k"] j R(3) assms(2) by auto
    then show "((rx_ram b)((?p + (length ?W + k)) mod sz := d)) ((?p + j) mod sz) = (?W @ ?R)[length ?W + k := d] ! j"
      using R(1) j by (auto simp: ring_holds_def nth_list_update)
  qed
  then show ?thesis
    using assms(1) unfolding upd a by (simp add: rx_rel_def rxq_words_def)
qed

text \<open>The operation of the ring that a cycle of the loader stands for.\<close>

definition rxl_op :: "rxl_in \<Rightarrow> rxl \<Rightarrow> rx_op" where
  "rxl_op i s = (if rxl_pending s then Rx_commit else if rec_abort_f i then Rx_abort else rxl_wr i s)"

lemma rxl_idle_wr: "rxl_state s = S_rxb_idle \<Longrightarrow> rxl_wr i s = Rx_none"
  by (simp add: rxl_wr_def rxb_outputs_def rxb_out0_def)

lemma rxl_abort_wr: "rec_abort_f i \<Longrightarrow> rxl_env i s ws \<Longrightarrow> rxl_wr i s = Rx_none"
  by (auto simp: rxl_env_def rxl_wr_def rxb_outputs_def rxb_out0_def)

lemma rxl_out_idle [simp]:
  "rxb_outputs i S_rxb_idle = rxb_out0\<lparr>reset_overrun_flag := True\<rparr>"
  by (simp add: rxb_outputs_def)

lemmas rxl_cycle_sigs = rxl_buf_cycle_def rxl_ram_def rxl_mem_free_def rxl_mem_free_raw_def rxl_frame_count_def
  rxl_abort_applied_def rx_cycle_def next_mem_free_def next_mem_free_raw_def next_frame_count_def Let_def

lemma rxl_buf_op:
  assumes "rxl_rel sz s ws q" "rxl_env i s ws" "\<not> select_ts_wptr (rxb_outputs i (rxl_state s))"
  shows "rxl_buf_cycle sz i s =
    (rx_cycle sz (read_attempt i) (rxl_op i s) (rxl_cdo i) (rxl_buf s))
      \<lparr>data_overrun_i := data_overrun_i (rxl_buf_cycle sz i s)\<rparr>"
proof -
  have pend: "rxl_wr i s = Rx_none" "\<not> rec_abort_f i"
    "commit_rx_frame_q s \<longleftrightarrow> \<not> data_overrun_i (rxl_buf s)" "commit_overrun_abort s \<longleftrightarrow> data_overrun_i (rxl_buf s)"
    if "rxl_pending s"
    using that assms(1,2) by (auto simp: rxl_rel_def rxl_idle_wr rxl_env_def rxl_pending_def)
  consider "rxl_pending s" | "\<not> rxl_pending s" "rec_abort_f i" | "\<not> rxl_pending s" "\<not> rec_abort_f i" by blast
  then show ?thesis
  proof cases
    case 1
    then show ?thesis
      using assms(3) pend [OF 1] by (auto simp: rxl_cycle_sigs rxl_op_def rx_signals)
  next
    case 2
    then show ?thesis
      using assms(3) rxl_abort_wr [OF 2(2) assms(2)] by (auto simp: rxl_cycle_sigs rxl_op_def rx_signals rxl_pending_def)
  next
    case 3
    then have op: "rxl_op i s = rxl_wr i s" "\<not> commit_rx_frame_q s" "\<not> commit_overrun_abort s"
      by (simp_all add: rxl_op_def rxl_pending_def)
    have ram: "rxl_ram i s = rx_ram (rx_cycle sz (read_attempt i) (rxl_wr i s) (rxl_cdo i) (rxl_buf s))"
      using assms(3) by (auto simp: rxl_ram_def rx_cycle_def rxl_wr_def Let_def)
    have wr: "\<not> commit_rx_frame (rxl_wr i s) (rxl_buf s)" "\<not> rx_abort_applied (rxl_wr i s) (rxl_buf s)"
      by (simp_all add: rxl_wr_def Let_def rx_signals)
    show ?thesis
      by (rule rxbuf.equality)
        (simp_all add: op ram wr 3 rxl_buf_cycle_def Let_def rx_cycle_def rxl_mem_free_def next_mem_free_def
          rxl_mem_free_raw_def next_mem_free_raw_def rxl_frame_count_def next_frame_count_def rxl_abort_applied_def)
  qed
qed

text \<open>The cycles that write the timestamp.\<close>

lemma rxl_buf_ts:
  assumes "rxl_state s \<in> {S_rxb_store_end_ts_low, S_rxb_store_end_ts_high}" "\<not> rxl_pending s" "\<not> rec_abort_f i"
  shows "rxl_buf_cycle sz i s =
    (let b = rx_cycle sz (read_attempt i) Rx_none (rxl_cdo i) (rxl_buf s)
     in if data_overrun_i (rxl_buf s) then b
        else b\<lparr>rx_ram := (rx_ram b)(write_pointer_ts s :=
          (if rxl_state s = S_rxb_store_end_ts_low then ucast (timestamp_capture s)
           else ucast (drop_bit 32 (timestamp_capture s))))\<rparr>)"
proof -
  have w: "rxl_wr i s = Rx_none" "select_ts_wptr (rxb_outputs i (rxl_state s))"
    "\<not> reset_overrun_flag (rxb_outputs i (rxl_state s))"
    "rxb_port_a_data_in i (rxb_outputs i (rxl_state s)) (timestamp_capture s) =
      (if rxl_state s = S_rxb_store_end_ts_low then ucast (timestamp_capture s)
       else ucast (drop_bit 32 (timestamp_capture s)))"
    using assms(1) by (auto simp: rxl_wr_def rxb_outputs_def rxb_out0_def rxb_port_a_data_in_def)
  show ?thesis
    using assms(2,3) w by (simp add: rxl_cycle_sigs rxl_pending_def)
qed

text \<open>The queue after a cycle.\<close>

definition ts_state :: "t_rx_buf_state \<Rightarrow> bool" where
  "ts_state st \<longleftrightarrow> st = S_rxb_store_end_ts_low \<or> st = S_rxb_store_end_ts_high"

definition rxl_queue :: "rxl_in \<Rightarrow> rxl \<Rightarrow> rxq \<Rightarrow> rxq" where
  "rxl_queue i s q =
     (let b = rxl_buf s; q' = rxq_cycle (read_attempt i) (rxl_op i s) (rx_overruns (rxl_op i s) b) q
      in if ts_state (rxl_state s) \<and> \<not> data_overrun_i b then q'\<lparr>rxq_raw := rxl_spec i s (rxq_raw q')\<rparr> else q')"

lemma rxq_cycle_raw [simp]: "rxq_raw (rxq_cycle rd wr ov q) = rxq_raw (rxq_op wr ov q)"
  by (simp add: rxq_cycle_def rxq_read_def Let_def)

lemma rxl_dor:
  "data_overrun_i (rxl_buf_cycle sz i s) \<longleftrightarrow>
     overrun_condition (rxl_wr i s) (rxl_buf s) \<or> rxl_state s \<noteq> S_rxb_idle \<and> data_overrun_i (rxl_buf s)"
  by (cases "rxl_state s") (auto simp: rxl_buf_cycle_def Let_def rxb_outputs_def rxb_out0_def)

lemma rxl_select_ts: "select_ts_wptr (rxb_outputs i st) \<longleftrightarrow> ts_state st"
  by (cases st) (auto simp: rxb_outputs_def rxb_out0_def ts_state_def)

text \<open>The words the loader writes are those of the specification.\<close>

lemma rxl_wr_spec:
  assumes "\<not> rec_abort_f i" "rxl_state s \<noteq> S_rxb_idle" "\<not> ts_state (rxl_state s)"
  shows "rxl_spec i s ws = (case rxl_wr i s of Rx_word w \<Rightarrow> ws @ [w] | _ \<Rightarrow> ws)"
  using assms
  by (cases "rxl_state s")
    (simp_all add: rxl_spec_def rxl_wr_def Let_def rxb_outputs_def rxb_out0_def rxb_port_a_data_in_def ts_state_def)

lemma rxl_wr_cases: "rxl_wr i s = Rx_none \<or> (\<exists>w. rxl_wr i s = Rx_word w)"
  by (simp add: rxl_wr_def Let_def)

lemma rxl_word_length:
  assumes "rxl_shape (rxl_state s) ws" "rxl_env i s ws" "rxl_wr i s = Rx_word w"
  shows "length ws < 20"
  using assms
  by (cases "rxl_state s")
    (auto simp: rxl_shape_def rxl_env_def rxl_wr_def rxb_outputs_def rxb_out0_def Let_def split: if_splits)

lemma rxl_op_valid:
  assumes "rxl_rel sz s ws q" "rxl_env i s ws" "32 \<le> sz"
  shows "rx_op_ok sz (rxl_op i s) (rxl_buf s) q"
proof (cases "rxl_pending s")
  case True
  then show ?thesis using assms(1) by (auto simp: rx_op_ok_def rxl_op_def rxl_rel_def rxl_pending_def)
next
  case False
  then show ?thesis
    using assms(1,3) rxl_wr_cases [of i s] by (auto simp: rx_op_ok_def rxl_op_def rxl_rel_def)
qed

lemma ts_length:
  assumes "rxl_shape (rxl_state s) ws" "ts_state (rxl_state s)"
  shows "3 < length ws" "ws \<noteq> []"
  using assms by (auto simp: rxl_shape_def ts_state_def wf_frame_def)

lemma ts_no_op:
  assumes "rxl_rel sz s ws q" "rxl_env i s ws" "ts_state (rxl_state s)"
  shows "\<not> rxl_pending s" "\<not> rec_abort_f i" "rxl_op i s = Rx_none"
proof -
  have st: "rxl_state s \<notin> {S_rxb_idle, S_rxb_store_frame_format, S_rxb_store_data}"
    using assms(3) by (auto simp: ts_state_def)
  then show p: "\<not> rxl_pending s" using assms(1) unfolding rxl_rel_def by blast
  show a: "\<not> rec_abort_f i" using st assms(2) unfolding rxl_env_def by blast
  have "rxl_wr i s = Rx_none"
    using assms(3) by (auto simp: ts_state_def rxl_wr_def rxb_outputs_def rxb_out0_def)
  then show "rxl_op i s = Rx_none" using p a by (simp add: rxl_op_def)
qed

lemma rxl_queue_rel:
  assumes "rxl_rel sz s ws q" "rxl_env i s ws" "32 \<le> sz"
  shows "rx_rel sz (rxl_buf_cycle sz i s) (rxl_queue i s q)"
proof -
  let ?b = "rxl_buf s" and ?op = "rxl_op i s"
  let ?b' = "rx_cycle sz (read_attempt i) ?op (rxl_cdo i) ?b"
  let ?q' = "rxq_cycle (read_attempt i) ?op (rx_overruns ?op ?b) q"
  have step: "rx_rel sz ?b' ?q'"
    using assms(1) rxl_op_valid [OF assms] by (intro rx_rel_cycle) (simp_all add: rxl_rel_def)
  show ?thesis
  proof (cases "ts_state (rxl_state s)")
    case False
    then have "rxl_buf_cycle sz i s = ?b'\<lparr>data_overrun_i := data_overrun_i (rxl_buf_cycle sz i s)\<rparr>"
      by (intro rxl_buf_op [OF assms(1,2)]) (simp add: rxl_select_ts)
    then have "rx_rel sz (rxl_buf_cycle sz i s) ?q'" by (metis rx_rel_flags step)
    then show ?thesis using False by (simp add: rxl_queue_def Let_def)
  next
    case True
    note np = ts_no_op [OF assms(1,2) True]
    have buf: "rxl_buf_cycle sz i s = (if data_overrun_i ?b then ?b' else
        ?b'\<lparr>rx_ram := (rx_ram ?b')(write_pointer_ts s := (if rxl_state s = S_rxb_store_end_ts_low
          then ucast (timestamp_capture s) else ucast (drop_bit 32 (timestamp_capture s))))\<rparr>)"
      using rxl_buf_ts [of s i sz] True np by (auto simp only: ts_state_def Let_def insert_iff)
    show ?thesis
    proof (cases "data_overrun_i ?b")
      case True
      then show ?thesis using step buf by (simp add: rxl_queue_def Let_def)
    next
      case False
      then have raw: "rxq_raw q = ws" using assms(1) by (simp add: rxl_rel_def)
      have wp: "write_pointer ?b' = write_pointer ?b" by (simp add: np(3) rx_cycle_def)
      have raw': "rxq_raw ?q' = ws" using raw np(3) by (simp add: rxq_op_def)
      let ?k = "if rxl_state s = S_rxb_store_end_ts_low then 2 else 3"
      have ts: "write_pointer_ts s = (write_pointer ?b' + ?k) mod sz"
        using assms(1) False True wp by (auto simp: rxl_rel_def rxl_ts_ok_def ts_state_def)
      have "?k < length (rxq_raw ?q')"
        using ts_length(1) [of s ws] assms(1) True unfolding raw' by (simp add: rxl_rel_def)
      from rx_rel_rewrite [OF step this] show ?thesis
        using buf ts False True np(2) raw'
        by (auto simp: rxl_queue_def Let_def rxl_spec_def ts_state_def)
    qed
  qed
qed

lemma hd_rewrite: "0 < k \<Longrightarrow> hd (ws[k := x]) = hd ws"
  by (cases ws; cases k) simp_all

lemma rxl_shape_next:
  assumes "rxl_shape (rxl_state s) ws" "rxl_env i s ws"
  shows "rxl_shape (rxb_next_state i (rxl_state s)) (rxl_spec i s ws)"
  using assms ts_length [OF assms(1)] frame_form_rwcnt_bounds [of False i]
  by (cases "rxl_state s")
    (auto simp: rxl_shape_def rxb_next_state_def rxl_spec_def rwcnt_of_ffw frame_form_rwcnt_def [of True]
      rxl_env_def wf_frame_def ts_state_def hd_append hd_rewrite)

text \<open>The words in the ring stay those of the specification as long as nothing has overrun.\<close>

lemma rxl_raw_next:
  assumes "rxl_rel sz s ws q" "rxl_env i s ws" "\<not> data_overrun_i (rxl_buf_cycle sz i s)"
  shows "rxq_raw (rxl_queue i s q) = rxl_spec i s ws"
proof -
  have dor: "\<not> overrun_condition (rxl_wr i s) (rxl_buf s)" "rxl_state s = S_rxb_idle \<or> \<not> data_overrun_i (rxl_buf s)"
    using assms(3) by (auto simp: rxl_dor)
  consider (idle) "rxl_state s = S_rxb_idle"
    | (ts) "rxl_state s \<noteq> S_rxb_idle" "ts_state (rxl_state s)"
    | (abort) "rxl_state s \<noteq> S_rxb_idle" "\<not> ts_state (rxl_state s)" "rec_abort_f i"
    | (store) "rxl_state s \<noteq> S_rxb_idle" "\<not> ts_state (rxl_state s)" "\<not> rec_abort_f i"
    by blast
  then show ?thesis
  proof cases
    case idle
    then show ?thesis
      using assms(1) by (auto simp: rxl_queue_def Let_def ts_state_def rxl_op_def rxl_idle_wr rxq_op_def rxl_spec_def rxl_rel_def)
  next
    case ts
    then show ?thesis
      using assms(1) dor ts_no_op [OF assms(1,2) ts(2)]
      by (auto simp: rxl_queue_def Let_def rxq_op_def rxl_rel_def)
  next
    case abort
    then show ?thesis
      using assms(1) by (auto simp: rxl_queue_def Let_def rxl_op_def rxq_op_def rxl_spec_def rxl_rel_def)
  next
    case store
    then have "\<not> rxl_pending s" "rxq_raw q = ws" using assms(1) dor unfolding rxl_rel_def by blast+
    then show ?thesis
      using store dor rxl_wr_spec [OF store(3,1,2), of ws] rxl_wr_cases [of i s]
      by (auto simp: rxl_queue_def Let_def rxl_op_def rxq_op_def rx_overruns_def)
  qed
qed

lemma rxl_spec_length:
  assumes "rxl_shape (rxl_state s) ws" "rxl_env i s ws"
  shows "length (rxl_spec i s ws) \<le> 20"
proof -
  consider (none) "rec_abort_f i \<or> rxl_state s = S_rxb_idle" | (ts) "\<not> rec_abort_f i" "ts_state (rxl_state s)"
    | (store) "\<not> rec_abort_f i" "rxl_state s \<noteq> S_rxb_idle" "\<not> ts_state (rxl_state s)" by blast
  then show ?thesis
  proof cases
    case none
    then show ?thesis by (auto simp: rxl_spec_def)
  next
    case ts
    then show ?thesis using assms(1) by (auto simp: rxl_spec_def ts_state_def rxl_shape_def wf_frame_def)
  next
    case store
    have "length ws \<le> 20" using assms(1) store by (cases "rxl_state s") (auto simp: rxl_shape_def ts_state_def)
    then show ?thesis
      using rxl_word_length [OF assms] by (auto simp: rxl_wr_spec [OF store] split: rx_op.split)
  qed
qed

lemma rxl_raw_length:
  assumes "rxl_rel sz s ws q" "rxl_env i s ws"
  shows "length (rxq_raw (rxl_queue i s q)) \<le> 20"
proof (cases "data_overrun_i (rxl_buf_cycle sz i s)")
  case True
  have "rx_overruns (rxl_wr i s) (rxl_buf s)" using True by (auto simp: rxl_dor rx_overruns_def)
  moreover have "\<not> (ts_state (rxl_state s) \<and> \<not> data_overrun_i (rxl_buf s))"
    using True by (auto simp: rxl_dor ts_state_def rxl_wr_def rxb_outputs_def rxb_out0_def)
  ultimately show ?thesis
    using assms(1) rxl_wr_cases [of i s] by (auto simp: rxl_queue_def Let_def rxl_op_def rxq_op_def rxl_rel_def)
next
  case False
  then show ?thesis
    using rxl_raw_next [OF assms] rxl_spec_length [of s ws i] assms by (simp add: rxl_rel_def)
qed

lemma rxl_wp_raw:
  assumes "rxl_rel sz s ws q" "\<not> data_overrun_i (rxl_buf s)"
  shows "write_pointer_raw (rxl_buf s) = (write_pointer (rxl_buf s) + length ws) mod sz"
  using assms by (simp add: rxl_rel_def rx_rel_def mod_add_left_eq add.assoc)

lemma rxl_ts_next:
  assumes "rxl_rel sz s ws q" "rxl_env i s ws"
  shows "rxl_ts_ok sz (rxl_cycle sz i s)"
proof -
  let ?b = "rxl_buf s"
  have wp: "write_pointer (rxl_buf_cycle sz i s) = write_pointer ?b" if "rxl_state s \<noteq> S_rxb_idle"
    using assms(1) that by (auto simp: rxl_buf_cycle_def Let_def rxl_rel_def rxl_pending_def)
  have dor: "\<not> data_overrun_i ?b" if "\<not> data_overrun_i (rxl_buf_cycle sz i s)" "rxl_state s \<noteq> S_rxb_idle"
    using that by (auto simp: rxl_dor)
  have ts: "rxl_ts_ok sz s" "rxl_shape (rxl_state s) ws" using assms(1) by (simp_all add: rxl_rel_def)
  show ?thesis
  proof (cases "rxl_state s = S_rxb_idle")
    case True
    then show ?thesis by (auto simp: rxl_ts_ok_def rxl_cycle_def Let_def rxb_next_state_def)
  next
    case False
    then show ?thesis
      using wp dor ts rxl_wp_raw [OF assms(1)]
      by (cases "rxl_state s")
        (auto simp: rxl_ts_ok_def rxl_cycle_def Let_def rxb_next_state_def rxb_outputs_def rxb_out0_def rxl_shape_def
          mod_Suc_eq numeral_3_eq_3 split: if_splits)
  qed
qed

lemma rxl_commit_next:
  assumes "rxl_rel sz s ws q" "rxl_env i s ws" "\<not> err_word_lost s"
  shows "rxl_pending (rxl_cycle sz i s) \<longrightarrow> rxl_state (rxl_cycle sz i s) = S_rxb_idle"
    and "commit_rx_frame_q (rxl_cycle sz i s) \<longrightarrow>
      \<not> data_overrun_i (rxl_buf_cycle sz i s) \<and> wf_frame (rxl_spec i s ws)"
    and "commit_overrun_abort (rxl_cycle sz i s) \<longrightarrow> data_overrun_i (rxl_buf_cycle sz i s)"
proof -
  have np: "\<not> rxl_pending s \<or> rxl_state s = S_rxb_idle" "rxl_shape (rxl_state s) ws"
    using assms(1) by (auto simp: rxl_rel_def)
  note sig = rxl_cycle_def Let_def rxb_next_state_def rxb_outputs_def rxb_out0_def rxl_pending_def
  show "rxl_pending (rxl_cycle sz i s) \<longrightarrow> rxl_state (rxl_cycle sz i s) = S_rxb_idle"
    using np by (cases "rxl_state s") (auto simp: sig)
  show "commit_overrun_abort (rxl_cycle sz i s) \<longrightarrow> data_overrun_i (rxl_buf_cycle sz i s)"
    using np by (cases "rxl_state s") (auto simp: sig rxl_dor)
  show "commit_rx_frame_q (rxl_cycle sz i s) \<longrightarrow>
      \<not> data_overrun_i (rxl_buf_cycle sz i s) \<and> wf_frame (rxl_spec i s ws)"
  proof
    assume c: "commit_rx_frame_q (rxl_cycle sz i s)"
    then have st: "rxl_state s = S_rxb_store_end_ts_high \<or> rxl_state s = S_rxb_store_err_ts_high"
      "\<not> data_overrun_i (rxl_buf s)"
      using np by (cases "rxl_state s"; auto simp: sig split: if_splits)+
    then have "\<not> overrun_condition (rxl_wr i s) (rxl_buf s)"
      using assms(3) by (auto simp: err_word_lost_def overrun_condition_def rxl_wr_def rxb_outputs_def rxb_out0_def write_raw_intent_def)
    moreover have "\<not> rec_abort_f i" using assms(2) st by (auto simp: rxl_env_def)
    then have "wf_frame (rxl_spec i s ws)"
      using st np(2) by (auto simp: rxl_spec_def rxl_shape_def wf_frame_def hd_rewrite hd_append)
    ultimately show "\<not> data_overrun_i (rxl_buf_cycle sz i s) \<and> wf_frame (rxl_spec i s ws)"
      using st by (auto simp: rxl_dor)
  qed
qed

lemma rxl_idle_next:
  assumes "rxl_rel sz s ws q" "rxl_env i s ws" "rxl_state (rxl_cycle sz i s) = S_rxb_idle"
    and "\<not> rxl_pending (rxl_cycle sz i s)"
  shows "rxl_spec i s ws = []" "rxq_raw (rxl_queue i s q) = []"
proof -
  have "rec_abort_f i \<or> rxl_state s = S_rxb_idle"
    using assms(3,4)
    by (cases "rxl_state s")
      (auto simp: rxl_cycle_def Let_def rxb_next_state_def rxb_outputs_def rxb_out0_def rxl_pending_def split: if_splits)
  moreover from this have "\<not> ts_state (rxl_state s)" using assms(2) by (auto simp: rxl_env_def ts_state_def)
  ultimately show "rxl_spec i s ws = []" "rxq_raw (rxl_queue i s q) = []"
    using assms(1) by (auto simp: rxl_spec_def rxl_queue_def Let_def rxl_op_def rxl_idle_wr rxq_op_def rxl_rel_def)
qed

lemma rxl_rel_cycle:
  assumes "rxl_rel sz s ws q" "rxl_env i s ws" "32 \<le> sz" "\<not> err_word_lost s"
  shows "rxl_rel sz (rxl_cycle sz i s) (rxl_spec i s ws) (rxl_queue i s q)"
proof -
  have buf: "rxl_buf (rxl_cycle sz i s) = rxl_buf_cycle sz i s"
    "rxl_state (rxl_cycle sz i s) = rxb_next_state i (rxl_state s)"
    by (simp_all add: rxl_cycle_def Let_def)
  have "rxl_shape (rxb_next_state i (rxl_state s)) (rxl_spec i s ws)"
    using rxl_shape_next assms(1,2) by (simp add: rxl_rel_def)
  then show ?thesis
    unfolding rxl_rel_def buf
    using rxl_queue_rel [OF assms(1-3)] rxl_ts_next [OF assms(1,2)] rxl_raw_next [OF assms(1,2)] rxl_raw_length [OF assms(1,2)]
      rxl_commit_next [OF assms(1,2,4)] rxl_idle_next [OF assms(1,2)] buf
    by auto
qed

text \<open>The frames of the queue: a pending commit adds the specified frame, a read takes a word from the front.\<close>

lemma rxl_frames:
  assumes "rxl_rel sz s ws q" "rxl_env i s ws"
  shows "rxq_frames (rxl_queue i s q) =
    (let fs = rxq_frames q @ (if commit_rx_frame_q s then [ws] else [])
     in if read_attempt i \<and> rxq_frames q \<noteq> [] then frames_pop fs else fs)"
proof -
  have "rxl_pending s \<Longrightarrow> rx_overruns (rxl_op i s) (rxl_buf s) \<longleftrightarrow> \<not> commit_rx_frame_q s"
    "commit_rx_frame_q s \<Longrightarrow> rxq_raw q = ws"
    using assms(1) by (auto simp: rxl_rel_def rxl_pending_def rx_overruns_def rxl_op_def overrun_condition_def write_raw_intent_def)
  then show ?thesis
    using rxl_wr_cases [of i s]
    by (auto simp: rxl_queue_def Let_def rxq_cycle_def rxq_op_def rxl_op_def rxq_read_def rxl_pending_def)
qed

section \<open>A whole frame\<close>

text \<open>
  While nothing is read, the frame in progress overruns exactly when it has more words than were free.
\<close>

definition rxl_run_inv :: "nat \<Rightarrow> rxl \<Rightarrow> u32 list \<Rightarrow> u32 list list \<Rightarrow> nat \<Rightarrow> bool" where
  "rxl_run_inv sz s ws fs fr \<longleftrightarrow>
     (\<exists>q. rxl_rel sz s ws q \<and> rxq_frames q = fs) \<and> rx_mem_free (rxl_buf s) = fr \<and>
     (data_overrun_i (rxl_buf s) \<longleftrightarrow> fr < length ws)"

text \<open>An input without a command of the core that ends or aborts the frame, and without a read.\<close>

definition rxl_calm :: "rxl_in \<Rightarrow> bool" where
  "rxl_calm i \<longleftrightarrow> \<not> store_metadata_f i \<and> \<not> rec_abort_f i \<and> \<not> rec_valid_f i \<and> \<not> read_attempt i"

lemma rxl_overrun_iff:
  assumes "rxl_rel sz s ws q" "\<not> data_overrun_i (rxl_buf s)" "rxl_wr i s = Rx_word w"
  shows "overrun_condition (rxl_wr i s) (rxl_buf s) \<longleftrightarrow> length ws = rx_mem_free (rxl_buf s)"
proof -
  have "rx_rel sz (rxl_buf s) q" "rxq_raw q = ws" using assms(1,2) by (auto simp: rxl_rel_def)
  then have "is_free_word (rxl_buf s) \<longleftrightarrow> 0 < rx_mem_free_raw (rxl_buf s)"
    "length ws + rx_mem_free_raw (rxl_buf s) = rx_mem_free (rxl_buf s)"
    using rx_rel_free [of sz "rxl_buf s" q] by (auto simp: rx_rel_def)
  then show ?thesis using assms(3) by (auto simp: overrun_condition_def write_raw_intent_def)
qed

lemma rxl_run_step:
  assumes "rxl_run_inv sz s ws fs fr" "rxl_env i s ws" "32 \<le> sz" "rxl_state s \<noteq> S_rxb_idle"
    and "\<not> read_attempt i" "\<not> rec_abort_f i" "rxl_state s \<noteq> S_rxb_store_err_ts_high"
  shows "rxl_run_inv sz (rxl_cycle sz i s) (rxl_spec i s ws) fs fr"
proof -
  obtain q where q: "rxl_rel sz s ws q" "rxq_frames q = fs" using assms(1) by (auto simp: rxl_run_inv_def)
  have np: "\<not> rxl_pending s" using q(1) assms(4) by (auto simp: rxl_rel_def)
  have rel: "rxl_rel sz (rxl_cycle sz i s) (rxl_spec i s ws) (rxl_queue i s q)" "rxq_frames (rxl_queue i s q) = fs"
    using rxl_rel_cycle [OF q(1) assms(2,3)] rxl_frames [OF q(1) assms(2)] assms(5,7) np q(2)
    by (auto simp: rxl_pending_def Let_def err_word_lost_def)
  have free: "rx_mem_free (rxl_buf (rxl_cycle sz i s)) = fr"
    using assms(1,5) np
    by (simp add: rxl_cycle_def Let_def rxl_buf_cycle_def rxl_mem_free_def read_increment_def rxl_pending_def rxl_run_inv_def)
  have dor: "data_overrun_i (rxl_buf (rxl_cycle sz i s)) \<longleftrightarrow>
      overrun_condition (rxl_wr i s) (rxl_buf s) \<or> data_overrun_i (rxl_buf s)"
    using assms(4) by (simp add: rxl_cycle_def Let_def rxl_dor)
  have len: "length (rxl_spec i s ws) = (case rxl_wr i s of Rx_word w \<Rightarrow> length ws + 1 | _ \<Rightarrow> length ws)"
  proof (cases "ts_state (rxl_state s)")
    case True
    then have "rxl_wr i s = Rx_none" by (auto simp: ts_state_def rxl_wr_def rxb_outputs_def rxb_out0_def)
    then show ?thesis using True assms(6) by (auto simp: rxl_spec_def ts_state_def)
  qed (auto simp: rxl_wr_spec [OF assms(6,4)] split: rx_op.split)
  have "data_overrun_i (rxl_buf (rxl_cycle sz i s)) \<longleftrightarrow> fr < length (rxl_spec i s ws)"
    using assms(1) rxl_overrun_iff [OF q(1)] rxl_wr_cases [of i s] unfolding dor len
    by (auto simp: rxl_run_inv_def)
  then show ?thesis using rel free by (auto simp: rxl_run_inv_def)
qed

lemma rxl_data_phase:
  assumes "rxl_run_inv sz s ws fs fr" "32 \<le> sz" "rxl_state s = S_rxb_store_data" "list_all rxl_calm ds"
    and "length ws + length (filter store_data_f ds) \<le> 20"
  shows "rxl_run_inv sz (fold (rxl_cycle sz) ds s) (ws @ map store_data_word (filter store_data_f ds)) fs fr \<and>
    rxl_state (fold (rxl_cycle sz) ds s) = S_rxb_store_data"
  using assms
proof (induction ds arbitrary: s ws)
  case (Cons d ds)
  have d: "rxl_calm d" using Cons.prems(4) by simp
  have env: "rxl_env d s ws" using d Cons.prems(3,5) by (auto simp: rxl_env_def rxl_calm_def)
  have inv: "rxl_run_inv sz (rxl_cycle sz d s) (rxl_spec d s ws) fs fr"
    using d Cons.prems(3) by (intro rxl_run_step [OF Cons.prems(1) env Cons.prems(2)]) (auto simp: rxl_calm_def)
  have st: "rxl_state (rxl_cycle sz d s) = S_rxb_store_data"
    "rxl_spec d s ws = ws @ map store_data_word (filter store_data_f [d])"
    using d Cons.prems(3) by (simp_all add: rxl_cycle_def Let_def rxb_next_state_def rxl_spec_def rxl_calm_def)
  show ?case
    using Cons.IH [OF inv Cons.prems(2) st(1)] Cons.prems(4,5) unfolding st(2) by (cases "store_data_f d") simp_all
qed simp

text \<open>One cycle in a state other than idle and the data phase.\<close>

lemma rxl_quiet_step:
  assumes "rxl_run_inv sz s ws fs fr" "32 \<le> sz" "rxl_calm i"
    and "rxl_state s \<notin> {S_rxb_idle, S_rxb_store_data, S_rxb_store_err_ts_high}"
  shows "rxl_run_inv sz (rxl_cycle sz i s) (rxl_spec i s ws) fs fr"
    "rxl_state (rxl_cycle sz i s) = rxb_next_state i (rxl_state s)"
    "timestamp_capture (rxl_cycle sz i s) =
      (if rtsop_beg i \<and> sof_pulse i then timestamp i else timestamp_capture s)"
proof -
  have "rxl_env i s ws" using assms(3,4) by (auto simp: rxl_env_def rxl_calm_def)
  then show "rxl_run_inv sz (rxl_cycle sz i s) (rxl_spec i s ws) fs fr"
    using assms(3,4) by (intro rxl_run_step [OF assms(1) _ assms(2)]) (auto simp: rxl_calm_def)
qed (use assms(3) in \<open>auto simp: rxl_cycle_def Let_def timestamp_capture_ce_def rxl_calm_def\<close>)

definition rxl_ready :: "nat \<Rightarrow> rxl \<Rightarrow> bool" where
  "rxl_ready sz s \<longleftrightarrow> rxl_state s = S_rxb_idle \<and> \<not> rxl_pending s \<and> rxl_rel sz s [] (rxq_of sz (rxl_buf s))"

definition rx_frame_words :: "rxl_in \<Rightarrow> rxl_in \<Rightarrow> u64 \<Rightarrow> rxl_in list \<Rightarrow> u32 list" where
  "rx_frame_words f n ts ds =
     [rxl_frame_form_w False f, ucast (rec_ident n), ucast ts, ucast (drop_bit 32 ts)] @
     map store_data_word (filter store_data_f ds)"

lemma rxl_rel_queue: "rxl_rel sz s ws q \<Longrightarrow> rxq_of sz (rxl_buf s) = q"
  by (simp add: rxl_rel_def rx_rel_rxq_of)

lemma rxl_spec_idle: "rxl_state s = S_rxb_idle \<Longrightarrow> rxl_spec i s ws = []"
  by (simp add: rxl_spec_def)

lemma rxl_metadata:
  assumes "rxl_ready sz s" "32 \<le> sz" "store_metadata_f m" "\<not> rec_abort_f m" "\<not> read_attempt m"
  shows "rxl_run_inv sz (rxl_cycle sz m s) [] (rxq_frames (rxq_of sz (rxl_buf s))) (rx_mem_free (rxl_buf s))"
    "rxl_state (rxl_cycle sz m s) = S_rxb_store_frame_format"
proof -
  let ?q = "rxq_of sz (rxl_buf s)"
  have s: "rxl_state s = S_rxb_idle" "\<not> rxl_pending s" "rxl_rel sz s [] ?q" using assms(1) by (auto simp: rxl_ready_def)
  have env: "rxl_env m s []" using assms(4) s by (simp add: rxl_env_def)
  have spec: "rxl_spec m s [] = []" using s by (simp add: rxl_spec_def)
  have "rxl_rel sz (rxl_cycle sz m s) [] (rxl_queue m s ?q)" "rxq_frames (rxl_queue m s ?q) = rxq_frames ?q"
    using rxl_rel_cycle [OF s(3) env assms(2)] rxl_frames [OF s(3) env] assms(5) s(1,2)
    by (simp_all add: spec rxl_pending_def err_word_lost_def)
  moreover have "rx_mem_free (rxl_buf (rxl_cycle sz m s)) = rx_mem_free (rxl_buf s)"
    "\<not> data_overrun_i (rxl_buf (rxl_cycle sz m s))"
    using s assms(5) rxl_dor [of sz m s]
    by (simp_all add: rxl_cycle_def Let_def rxl_idle_wr rxl_buf_cycle_def rxl_mem_free_def read_increment_def rxl_pending_def)
  ultimately show "rxl_run_inv sz (rxl_cycle sz m s) [] (rxq_frames ?q) (rx_mem_free (rxl_buf s))"
    by (auto simp: rxl_run_inv_def)
qed (use assms(1,3) in \<open>simp add: rxl_ready_def rxl_cycle_def Let_def rxb_next_state_def\<close>)

lemma rxl_header:
  assumes "rxl_run_inv sz s [] fs fr" "32 \<le> sz" "rxl_state s = S_rxb_store_frame_format" "list_all rxl_calm [f, n, a, b]"
  shows "rxl_run_inv sz (fold (rxl_cycle sz) [f, n, a, b] s) [rxl_frame_form_w False f, ucast (rec_ident n), 0, 0] fs fr \<and>
    rxl_state (fold (rxl_cycle sz) [f, n, a, b] s) = S_rxb_store_data"
proof -
  have q: "rxl_calm f" "rxl_calm n" "rxl_calm a" "rxl_calm b" "\<not> rec_abort_f f" "\<not> rec_abort_f n" "\<not> rec_abort_f a" "\<not> rec_abort_f b"
    using assms(4) by (auto simp: rxl_calm_def)
  let ?s1 = "rxl_cycle sz f s" let ?s2 = "rxl_cycle sz n ?s1" let ?s3 = "rxl_cycle sz a ?s2"
  note 1 = rxl_quiet_step(1,2) [OF assms(1,2) q(1)]
  have 1: "rxl_run_inv sz ?s1 [rxl_frame_form_w False f] fs fr" "rxl_state ?s1 = S_rxb_store_identifier"
    using 1 assms(3) q by (simp_all add: rxl_spec_def rxb_next_state_def)
  have 2: "rxl_run_inv sz ?s2 [rxl_frame_form_w False f, ucast (rec_ident n)] fs fr" "rxl_state ?s2 = S_rxb_skip_ts_low"
    using rxl_quiet_step(1,2) [OF 1(1) assms(2) q(2)] 1(2) q by (simp_all add: rxl_spec_def rxb_next_state_def)
  have 3: "rxl_run_inv sz ?s3 [rxl_frame_form_w False f, ucast (rec_ident n), 0] fs fr" "rxl_state ?s3 = S_rxb_skip_ts_high"
    using rxl_quiet_step(1,2) [OF 2(1) assms(2) q(3)] 2(2) q by (simp_all add: rxl_spec_def rxb_next_state_def)
  show ?thesis
    using rxl_quiet_step(1,2) [OF 3(1) assms(2) q(4)] 3(2) q by (simp add: rxl_spec_def rxb_next_state_def)
qed

text \<open>From the end of the data to the commit.\<close>

lemma rxl_finish:
  assumes "rxl_run_inv sz s ws fs fr" "32 \<le> sz" "rxl_state s = S_rxb_store_data"
    and "length ws = Suc (rwcnt_of (hd ws))"
    and "rec_valid_f v" "\<not> rec_abort_f v" "\<not> store_data_f v" "\<not> read_attempt v" "\<not> rtsop_beg v" "\<not> rtsop_beg x"
    and "list_all rxl_calm [x, y, z]"
  defines "ws' \<equiv> ws[2 := ucast (timestamp v), 3 := ucast (drop_bit 32 (timestamp v))]"
  shows "rxl_ready sz (fold (rxl_cycle sz) [v, x, y, z] s) \<and>
    rxq_frames (rxq_of sz (rxl_buf (fold (rxl_cycle sz) [v, x, y, z] s))) = fs @ (if length ws' \<le> fr then [ws'] else [])"
proof -
  have q: "rxl_calm x" "rxl_calm y" "rxl_calm z" "\<not> rec_abort_f x" "\<not> rec_abort_f y" "\<not> rec_abort_f z" "\<not> read_attempt z"
    "\<not> store_metadata_f z" using assms(11) by (auto simp: rxl_calm_def)
  let ?s1 = "rxl_cycle sz v s" let ?s2 = "rxl_cycle sz x ?s1" let ?s3 = "rxl_cycle sz y ?s2" let ?s4 = "rxl_cycle sz z ?s3"
  have env: "rxl_env v s ws" using assms(3,4,6,7) by (simp add: rxl_env_def)
  have 1: "rxl_run_inv sz ?s1 ws fs fr" "rxl_state ?s1 = S_rxb_store_end_ts_low" "timestamp_capture ?s1 = timestamp v"
    using rxl_run_step [OF assms(1) env assms(2)] assms(3,5-9)
    by (simp_all add: rxl_spec_def rxl_cycle_def Let_def rxb_next_state_def timestamp_capture_ce_def)
  have 2: "rxl_run_inv sz ?s2 (ws[2 := ucast (timestamp v)]) fs fr" "rxl_state ?s2 = S_rxb_store_end_ts_high"
    "timestamp_capture ?s2 = timestamp v"
    using rxl_quiet_step [OF 1(1) assms(2) q(1)] 1(2,3) q(4) assms(10) by (simp_all add: rxl_spec_def rxb_next_state_def)
  have 3: "rxl_run_inv sz ?s3 ws' fs fr" "rxl_state ?s3 = S_rxb_idle"
    using rxl_quiet_step(1,2) [OF 2(1) assms(2) q(2)] 2(2,3) q(5) by (simp_all add: rxl_spec_def rxb_next_state_def ws'_def)
  have np: "\<not> rxl_pending ?s2" using 2(1,2) by (auto simp: rxl_run_inv_def rxl_rel_def)
  have c: "commit_rx_frame_q ?s3 \<longleftrightarrow> length ws' \<le> fr"
    using 2 np
    by (auto simp: rxl_cycle_def [of sz y] Let_def rxb_outputs_def rxb_out0_def rxl_run_inv_def ws'_def rxl_pending_def)
  obtain qq where qq: "rxl_rel sz ?s3 ws' qq" "rxq_frames qq = fs" using 3(1) by (auto simp: rxl_run_inv_def)
  have env3: "rxl_env z ?s3 ws'" using q(6) 3(2) by (simp add: rxl_env_def)
  have 4: "rxl_rel sz ?s4 [] (rxl_queue z ?s3 qq)"
    using rxl_rel_cycle [OF qq(1) env3 assms(2)] rxl_spec_idle [OF 3(2)] 3(2) by (simp add: err_word_lost_def)
  have "rxl_state ?s4 = S_rxb_idle" "\<not> rxl_pending ?s4"
    using 3(2) q by (simp_all add: rxl_cycle_def [of sz z] Let_def rxb_next_state_def rxl_pending_def rxb_out0_def)
  then show ?thesis
    using 4 rxl_rel_queue [OF 4] rxl_frames [OF qq(1) env3] qq(2) q(7) c by (simp add: rxl_ready_def)
qed

section \<open>Properties of the loader\<close>

lemma rxbuf_init_overrun: "\<not> data_overrun_i (rxbuf_init sz)"
  by (simp add: rxbuf_init_def)

lemma rxl_init_ready:
  assumes "0 < sz"
  shows "rxl_ready sz (rxl_init sz)"
proof -
  have "rx_rel sz (rxbuf_init sz) \<lparr>rxq_frames = [], rxq_raw = []\<rparr>"
    using rx_init_inv [OF assms] unfolding rx_inv_def by (metis rx_rel_rxq_of)
  then show ?thesis
    using rx_init_inv [OF assms] rxbuf_init_overrun [of sz]
    by (simp add: rxl_ready_def rxl_rel_def rxl_init_def rxl_shape_def rxl_ts_ok_def rxl_pending_def)
qed

text \<open>The cycle in which the last word of an error frame is lost.\<close>

lemma rxl_lost:
  assumes "rxl_rel sz s ws q" "rxl_env i s ws" "err_word_lost s"
  shows "commit_rx_frame_q (rxl_cycle sz i s)" "rxl_state (rxl_cycle sz i s) = S_rxb_idle"
    "length ws = 3" "rwcnt_of (hd ws) = 3" "rxq_raw (rxl_queue i s q) = ws"
proof -
  have s: "rxl_state s = S_rxb_store_err_ts_high" "\<not> data_overrun_i (rxl_buf s)" "\<not> is_free_word (rxl_buf s)"
    using assms(3) by (auto simp: err_word_lost_def)
  have r: "rxl_shape S_rxb_store_err_ts_high ws" "rxq_raw q = ws" "\<not> rxl_pending s"
    using assms(1) s by (auto simp: rxl_rel_def)
  show "commit_rx_frame_q (rxl_cycle sz i s)" "rxl_state (rxl_cycle sz i s) = S_rxb_idle"
    using s by (simp_all add: rxl_cycle_def Let_def rxb_next_state_def rxb_outputs_def rxb_out0_def)
  show "length ws = 3" "rwcnt_of (hd ws) = 3" using r(1) by (simp_all add: rxl_shape_def)
  have "rx_overruns (rxl_wr i s) (rxl_buf s)" "\<not> rec_abort_f i"
    using s assms(2) by (auto simp: rx_overruns_def overrun_condition_def write_raw_intent_def rxl_wr_def rxb_outputs_def
      rxb_out0_def rxl_env_def)
  then show "rxq_raw (rxl_queue i s q) = ws"
    using r(2,3) s(1) rxl_wr_cases [of i s] by (auto simp: rxl_queue_def Let_def rxl_op_def rxq_op_def ts_state_def)
qed


definition rxl_quiet :: rxl_in where
  "rxl_quiet = \<lparr>mr_mode_erfm = False, store_metadata_f = False, store_data_f = False, rec_valid_f = False,
     rec_abort_f = False, sof_pulse = False, rec_dlc = 1, rec_is_rtr = False, rec_ident_type = False,
     rec_frame_type = False, rec_lbpf = False, rec_brs = False, rec_esi = False, rec_ivld = True, rec_ident = 5,
     store_data_word = 7, rxl_err_pos = 0, rxl_err_type = 0, rxl_err_erp = False, curr_txtb_index = 0,
     timestamp = 9, rtsop_beg = False, read_attempt = False, rxl_cdo = False\<rparr>"

theorem rx_length_agrees_witness:
  "\<not> rec_is_rtr rxl_quiet \<and> frame_form_rwcnt False rxl_quiet - 3 = (unat (rx_len (rxl_frame_form_w False rxl_quiet)) + 3) div 4"
  using rx_length_agrees [of rxl_quiet] by (simp add: rxl_quiet_def)

lemma rxl_frame_stored:
  assumes "rxl_ready sz s" "32 \<le> sz"
    and "store_metadata_f m" "\<not> rec_abort_f m" "\<not> read_attempt m"
    and "list_all rxl_calm ([f, n, a, b] @ ds @ [x, y, z])"
    and "length (filter store_data_f ds) + 3 = frame_form_rwcnt False f"
    and "rec_valid_f v" "\<not> rec_abort_f v" "\<not> store_data_f v" "\<not> read_attempt v" "\<not> rtsop_beg v" "\<not> rtsop_beg x"
  defines "s' \<equiv> fold (rxl_cycle sz) ([m, f, n, a, b] @ ds @ [v, x, y, z]) s"
  defines "w \<equiv> rx_frame_words f n (timestamp v) ds"
  shows "rxl_ready sz s' \<and> rxq_frames (rxq_of sz (rxl_buf s')) =
    rxq_frames (rxq_of sz (rxl_buf s)) @ (if length w \<le> rx_mem_free (rxl_buf s) then [w] else [])"
proof -
  let ?s1 = "fold (rxl_cycle sz) [f, n, a, b] (rxl_cycle sz m s)"
  let ?ws = "[rxl_frame_form_w False f, ucast (rec_ident n), 0, 0] @ map store_data_word (filter store_data_f ds)"
  let ?fs = "rxq_frames (rxq_of sz (rxl_buf s))" and ?fr = "rx_mem_free (rxl_buf s)"
  have q: "list_all rxl_calm [f, n, a, b]" "list_all rxl_calm ds" "list_all rxl_calm [x, y, z]" using assms(6) by simp_all
  note m = rxl_metadata [OF assms(1-5)]
  note h = rxl_header [OF m(1) assms(2) m(2) q(1)]
  have d: "rxl_run_inv sz (fold (rxl_cycle sz) ds ?s1) ?ws ?fs ?fr"
    "rxl_state (fold (rxl_cycle sz) ds ?s1) = S_rxb_store_data"
    using rxl_data_phase [OF conjunct1 [OF h] assms(2) conjunct2 [OF h] q(2)] assms(7)
      frame_form_rwcnt_bounds(2) [of False f] by simp_all
  have len: "length ?ws = Suc (rwcnt_of (hd ?ws))" using assms(7) by (simp add: rwcnt_of_ffw)
  show ?thesis
    using rxl_finish [OF d(1) assms(2) d(2) len assms(8-13) q(3)]
    by (simp add: s'_def w_def rx_frame_words_def numeral_3_eq_3 numeral_2_eq_2)
qed

text \<open>C11: A frame that is received while nothing is read enters the queue as its first word, its identifier, the
  timestamp of its end and its data words if as many words are free; otherwise the queue is as before. Either
  way the loader is ready for the next frame.
\<close>

theorem rx_frame_stored:
  assumes "rxl_ready sz s" "32 \<le> sz"
    and "store_metadata_f m" "\<not> rec_abort_f m" "\<not> read_attempt m"
    and "list_all rxl_calm ([f, n, a, b] @ ds @ [x, y, z])"
    and "length (filter store_data_f ds) + 3 = frame_form_rwcnt False f"
    and "rec_valid_f v" "\<not> rec_abort_f v" "\<not> store_data_f v" "\<not> read_attempt v" "\<not> rtsop_beg v" "\<not> rtsop_beg x"
  defines "s' \<equiv> fold (rxl_cycle sz) ([m, f, n, a, b] @ ds @ [v, x, y, z]) s"
  defines "w \<equiv> rx_frame_words f n (timestamp v) ds"
  shows "rxl_ready sz s' \<and> rxq_frames (rxq_of sz (rxl_buf s')) =
    rxq_frames (rxq_of sz (rxl_buf s)) @ (if length w \<le> rx_mem_free (rxl_buf s) then [w] else [])"
  unfolding s'_def w_def by (rule rxl_frame_stored [OF assms(1-13)])

theorem rx_frame_stored_witness:
  "rxq_frames (rxq_of 32 (rxl_buf (fold (rxl_cycle 32)
     ([rxl_quiet\<lparr>store_metadata_f := True\<rparr>, rxl_quiet, rxl_quiet, rxl_quiet, rxl_quiet] @
      [rxl_quiet\<lparr>store_data_f := True\<rparr>, rxl_quiet] @ [rxl_quiet\<lparr>rec_valid_f := True\<rparr>, rxl_quiet, rxl_quiet, rxl_quiet])
     (rxl_init 32)))) = [rxl_frame_form_w False rxl_quiet, 5, 9, 0, 7] # []"
  using rx_frame_stored [of 32 "rxl_init 32" "rxl_quiet\<lparr>store_metadata_f := True\<rparr>" rxl_quiet rxl_quiet rxl_quiet rxl_quiet
      "[rxl_quiet\<lparr>store_data_f := True\<rparr>, rxl_quiet]" rxl_quiet rxl_quiet rxl_quiet "rxl_quiet\<lparr>rec_valid_f := True\<rparr>"]
    rxl_init_ready [of 32] rx_init_inv [of 32]
  by (simp add: rxl_quiet_def rxl_calm_def frame_form_rwcnt_def rxl_rwcnt_com_def rx_frame_words_def rxl_init_def rxbuf_init_def)

text \<open>C25: The last word of an error frame is written in the same cycle in which its commit is decided. If exactly this
  word finds the ring full, the overrun comes too late: the frame is counted and committed with three
  words, while its first word announces three more. The memory itself is unchanged by the last two cycles.
\<close>

theorem error_frame_truncated:
  assumes "rxl_rel sz s ws q" "rxl_state s = S_rxb_store_err_ts_high"
    and "\<not> data_overrun_i (rxl_buf s)" "rx_mem_free_raw (rxl_buf s) = 0"
    and "rxl_calm i" "rxl_calm j"
  defines "b' \<equiv> rxl_buf (rxl_cycle sz j (rxl_cycle sz i s))"
  shows "frame_count b' = frame_count (rxl_buf s) + 1 \<and> rx_ram b' = rx_ram (rxl_buf s) \<and>
    write_pointer b' = (write_pointer (rxl_buf s) + 3) mod sz \<and> rx_mem_free b' = 0 \<and>
    rwcnt_of (rx_ram b' (write_pointer (rxl_buf s) mod sz)) = 3"
proof -
  let ?b = "rxl_buf s" and ?s1 = "rxl_cycle sz i s"
  have rel: "rx_rel sz ?b q" "rxq_raw q = ws" "length ws = 3" "rwcnt_of (hd ws) = 3"
    using assms(1-3) by (auto simp: rxl_rel_def rxl_shape_def)
  have np: "\<not> rxl_pending s" using assms(1,2) by (auto simp: rxl_rel_def)
  have full: "\<not> is_free_word ?b" using rx_rel_free [OF rel(1)] assms(4) by simp
  have hd: "rx_ram ?b (write_pointer ?b mod sz) = hd ws"
    using rel by (cases ws) (auto simp: rx_rel_def ring_holds_def nth_append dest!: spec [of _ "length (rxq_words q)"])
  have wr: "write_pointer_raw ?b = (write_pointer ?b + 3) mod sz"
    using rxl_wp_raw [OF assms(1,3)] rel(3) by simp
  have ov: "\<not> write_raw_OK (rxl_wr i s) ?b"
    using full assms(2) by (auto simp: rx_signals rxl_wr_def rxb_outputs_def rxb_out0_def)
  have nr: "\<not> read_attempt i" "\<not> read_attempt j" "\<not> rec_abort_f i" "\<not> rec_abort_f j"
    using assms(5,6) by (auto simp: rxl_calm_def)
  have s1: "rxl_state ?s1 = S_rxb_idle" "commit_rx_frame_q ?s1" "\<not> commit_overrun_abort ?s1"
    "rx_ram (rxl_buf ?s1) = rx_ram ?b" "write_pointer_raw (rxl_buf ?s1) = write_pointer_raw ?b"
    "rx_mem_free_raw (rxl_buf ?s1) = 0" "frame_count (rxl_buf ?s1) = frame_count ?b"
    using assms(2-4) np ov nr
    by (simp_all add: rxl_cycle_def Let_def rxb_next_state_def rxb_outputs_def rxb_out0_def rxl_pending_def
      rxl_buf_cycle_def rxl_ram_def rxl_mem_free_raw_def rxl_frame_count_def rxl_abort_applied_def read_increment_def)
  have "rx_ram b' = rx_ram ?b" "write_pointer b' = write_pointer_raw ?b" "rx_mem_free b' = 0"
    "frame_count b' = frame_count ?b + 1"
    using s1 nr rxl_idle_wr [OF s1(1), of j]
    by (simp_all add: b'_def rxl_cycle_def [of sz j] Let_def rxl_buf_cycle_def rxl_ram_def rxl_mem_free_def
      rxl_frame_count_def read_increment_def rxb_out0_def)
  then show ?thesis using hd wr rel(4) by simp
qed

text \<open>A ring of 32 words with seven frames of 29 words, and three words of an error frame.\<close>

definition full_frames :: "u32 list list" where
  "full_frames = [0x2000, 0, 0, 0, 0] # replicate 6 [0x1800, 0, 0, 0]"

definition full_rxl :: rxl where
  "full_rxl = \<lparr>rxl_state = S_rxb_store_err_ts_high,
     rxl_buf = \<lparr>rx_ram = (!) (concat full_frames @ [0x1800, 0, 0]), read_pointer = 0, write_pointer = 29,
       write_pointer_raw = 0, rx_mem_free = 3, rx_mem_free_raw = 0, read_counter = 0, frame_count = 7,
       data_overrun_i = False, data_overrun_flg = False\<rparr>,
     write_pointer_ts = 0, commit_rx_frame_q = False, commit_overrun_abort = False, timestamp_capture = 0\<rparr>"

lemma rwcnt_demo: "rwcnt_of 0x1800 = 3" "rwcnt_of 0x2000 = 4"
  by (simp_all add: rwcnt_of_def REG_FRAME_FORMAT_W_RWCNT_def FIELD_GET_GENMASK)

lemma full_length: "length (concat full_frames) = 29"
  by (simp add: full_frames_def eval_nat_numeral)

lemma full_wf: "list_all wf_frame full_frames" "length full_frames = 7"
  by (simp_all add: full_frames_def wf_frame_def rwcnt_demo list_all_iff)

lemma full_rel: "rxl_rel 32 full_rxl [0x1800, 0, 0] \<lparr>rxq_frames = full_frames, rxq_raw = [0x1800, 0, 0]\<rparr>"
  using full_length full_wf
  by (simp add: rxl_rel_def rx_rel_def full_rxl_def rxq_words_def ring_holds_def frames_rel_def rxl_shape_def
    rxl_ts_ok_def rxl_pending_def rwcnt_demo)

text \<open>Six frames, and a complete one whose commit is pending.\<close>

definition done_frames :: "u32 list list" where
  "done_frames = [0x2000, 0, 0, 0, 0] # replicate 5 [0x1800, 0, 0, 0]"

definition done_rxl :: rxl where
  "done_rxl = \<lparr>rxl_state = S_rxb_idle,
     rxl_buf = \<lparr>rx_ram = (!) (concat done_frames @ [0x1800, 0, 0, 0]), read_pointer = 0, write_pointer = 25,
       write_pointer_raw = 29, rx_mem_free = 7, rx_mem_free_raw = 3, read_counter = 0, frame_count = 6,
       data_overrun_i = False, data_overrun_flg = False\<rparr>,
     write_pointer_ts = 0, commit_rx_frame_q = True, commit_overrun_abort = False, timestamp_capture = 0\<rparr>"

lemma done_length: "length (concat done_frames) = 25"
  by (simp add: done_frames_def eval_nat_numeral)

lemma done_wf: "list_all wf_frame done_frames" "length done_frames = 6" "wf_frame [0x1800, 0, 0, 0]"
  by (simp_all add: done_frames_def wf_frame_def rwcnt_demo list_all_iff)

lemma done_rel: "rxl_rel 32 done_rxl [0x1800, 0, 0, 0] \<lparr>rxq_frames = done_frames, rxq_raw = [0x1800, 0, 0, 0]\<rparr>"
  using done_length done_wf
  by (simp add: rxl_rel_def rx_rel_def done_rxl_def rxq_words_def ring_holds_def frames_rel_def rxl_shape_def
    rxl_ts_ok_def rxl_pending_def rwcnt_demo)


theorem error_frame_truncated_witness:
  "frame_count (rxl_buf (rxl_cycle 32 rxl_quiet (rxl_cycle 32 rxl_quiet full_rxl))) = 8 \<and>
   write_pointer (rxl_buf (rxl_cycle 32 rxl_quiet (rxl_cycle 32 rxl_quiet full_rxl))) = 0"
  using error_frame_truncated [OF full_rel, of rxl_quiet rxl_quiet]
  by (simp add: full_rxl_def rxl_quiet_def rxl_calm_def)

end
