(* ===== verification/Ctu_Link.thy ===== *)
theory Ctu_Link
  imports Ctu_Wire Ctu_RxFsm
begin

text \<open>
  A frame through two controllers: put into a TXT buffer by one driver, stored by the loader of the other
  controller's RX buffer word by word, and read by its driver. The signals that the receiving CAN core gives to the
  loader are an assumption here: they carry the fields of the frame sent.
\<close>

section \<open>Two models of the first word\<close>

text \<open>For a data or remote frame from the bus the loader's first word is the one \<open>Ctu_Wire\<close> works with.\<close>

lemma rwcnt_same:
  "of_nat (frame_form_rwcnt False i) =
     (if rec_is_rtr i then 3 else if \<not> rec_frame_type i \<and> bit (ucast (rec_dlc i) :: u32) 3 then 5
      else rwcnt_com (ucast (rec_dlc i)))"
  using nibble_cases [of "rec_dlc i"]
  by (elim insertE emptyE) (simp_all add: frame_form_rwcnt_def rxl_rwcnt_com_def rwcnt_com_def)

lemma dlc_nibble: "take_bit 4 (ucast (d :: 4 word) :: u32) = ucast d"
  by (rule bit_word_eqI) (auto simp: bit_take_bit_iff bit_ucast_iff dest: bit_imp_le_length)

lemma unat_nibble: "unat (ucast (d :: 4 word) :: u32) = unat d"
  using nibble_cases [of d] by (elim insertE emptyE) simp_all

lemma frame_form_same:
  assumes "\<not> rec_lbpf i" "rec_ivld i"
  shows "rxl_frame_form_w False i = frame_form_w (ucast (rec_dlc i)) (rec_is_rtr i) (rec_ident_type i)
    (rec_frame_type i) (rec_brs i) (rec_esi i)"
proof -
  have b: "(if p then push_bit k 1 else 0) = push_bit k (of_bool p :: u32)" for k p by simp
  have r: "take_bit 5 (of_nat (frame_form_rwcnt False i) :: u32) = of_nat (frame_form_rwcnt False i)"
    using frame_form_rwcnt_bounds(2) [of False i] by (simp add: take_bit_of_nat take_bit_nat_eq_self)
  have d: "FIELD_PREP REG_FRAME_FORMAT_W_DLC (ucast (rec_dlc i)) = ucast (rec_dlc i)"
    unfolding REG_FRAME_FORMAT_W_DLC_def by (subst FIELD_PREP_GENMASK) (simp_all add: dlc_nibble)
  have c: "FIELD_PREP REG_FRAME_FORMAT_W_RWCNT (of_nat (frame_form_rwcnt False i)) =
      push_bit 11 (of_nat (frame_form_rwcnt False i))"
    unfolding REG_FRAME_FORMAT_W_RWCNT_def by (subst FIELD_PREP_GENMASK) (simp_all add: r)
  show ?thesis
    unfolding frame_form_w_def rxl_frame_form_w_def rwcnt_same [symmetric] d c
      REG_FRAME_FORMAT_W_RTR_def REG_FRAME_FORMAT_W_IDE_def REG_FRAME_FORMAT_W_FDF_def REG_FRAME_FORMAT_W_BRS_def
      REG_FRAME_FORMAT_W_ESI_RSV_def REG_FRAME_FORMAT_W_IVLD_def BIT_def b
    using assms 
    by (simp only: simp_thms if_False of_bool_eq push_bit_of_0 or.right_neutral or.left_neutral or.assoc or.commute or.left_commute)
qed

section \<open>From the TXT buffer of one node to the queue of another\<close>

text \<open>
  The receiving core presents the frame in the TXT buffer RAM \<open>ram\<close>: format fields while the loader stores the first word
  (\<open>f\<close>), identifier with the second (\<open>n\<close>), and data words in the cycles \<open>ds\<close>, as bytes in the order of the bus.
\<close>

definition rx_carries :: "(nat \<Rightarrow> u32) \<Rightarrow> bool \<Rightarrow> rxl_in \<Rightarrow> rxl_in \<Rightarrow> rxl_in list \<Rightarrow> bool" where
  "rx_carries ram esi f n ds \<longleftrightarrow>
     (let ffw = ram 0;
          fdf = FIELD_GET REG_FRAME_FORMAT_W_FDF ffw \<noteq> 0;
          rtr = \<not> fdf \<and> FIELD_GET REG_FRAME_FORMAT_W_RTR ffw \<noteq> 0;
          k = (if rtr then 0 else if fdf then unat (dlc2len ! unat (rec_dlc f)) else min 8 (unat (rec_dlc f)))
      in ucast (rec_dlc f) = FIELD_GET REG_FRAME_FORMAT_W_DLC ffw \<and> rec_frame_type f = fdf \<and> rec_is_rtr f = rtr \<and>
         rec_ident_type f = (FIELD_GET REG_FRAME_FORMAT_W_IDE ffw \<noteq> 0) \<and>
         rec_brs f = (fdf \<and> FIELD_GET REG_FRAME_FORMAT_W_BRS ffw \<noteq> 0) \<and> rec_esi f = (fdf \<and> esi) \<and>
         \<not> rec_lbpf f \<and> rec_ivld f \<and> ucast (rec_ident n) = ram 1 AND mask 29 \<and>
         length (filter store_data_f ds) + 3 = frame_form_rwcnt False f \<and>
         take k (concat (map (\<lambda>d. le_bytes (store_data_word d)) (filter store_data_f ds))) =
           take k (concat (map (\<lambda>i. le_bytes (ram (4 + i))) [0..<16])))"

lemma rx_carries_on_wire:
  assumes "rx_carries ram esi f n ds"
  shows "on_wire ram esi (rx_frame_words f n ts ds)"
proof -
  note c = assms [unfolded rx_carries_def Let_def]
  have d: "unat (FIELD_GET REG_FRAME_FORMAT_W_DLC (ram 0)) = unat (rec_dlc f)"
    using c unat_nibble [of "rec_dlc f"] by simp
  let ?fdf = "FIELD_GET REG_FRAME_FORMAT_W_FDF (ram 0) \<noteq> 0"
  have h: "rxl_frame_form_w False f = frame_form_w (FIELD_GET REG_FRAME_FORMAT_W_DLC (ram 0))
      (\<not> ?fdf \<and> FIELD_GET REG_FRAME_FORMAT_W_RTR (ram 0) \<noteq> 0) (FIELD_GET REG_FRAME_FORMAT_W_IDE (ram 0) \<noteq> 0) ?fdf
      (?fdf \<and> FIELD_GET REG_FRAME_FORMAT_W_BRS (ram 0) \<noteq> 0) (?fdf \<and> esi)"
    using c frame_form_same [of f] by simp
  show ?thesis
    unfolding on_wire_def Let_def d h [symmetric]
    using c by (simp add: rx_frame_words_def rwcnt_of_ffw comp_def)
qed

text \<open>C4: A frame put into a TXT buffer by one driver, carried by the bus and stored word by word by the loader of
  another controller with room for it becomes the last entry of that controller's queue, whatever was in the queue before.
  Every reading of this entry by the driver gives a frame of the same kind, identifier, length and flags, and,
  unless it is a remote frame, the same data.\<close>

theorem frame_end_to_end:
  assumes "core_ok C" "attached acc base (txt_buffer_count C) (priv s)" "unat buf < txt_buffer_count C"
    "txtb (hw s) (unat buf) = s_txt_empty" "valid_frame fd cf" "k_fd_len2dlc K = can_len2dlc"
    "ctucan_insert_frame (core_bus C acc base) K cf buf fd s = Inr (True, s')"
    and carried: "rx_carries (txt_ram (hw s') (unat buf)) esi f n ds"
    and ready: "rxl_ready sz l" "32 \<le> sz" "4 + tx_data_words cf \<le> rx_mem_free (rxl_buf l)"
    and frame: "store_metadata_f m" "\<not> rec_abort_f m" "\<not> read_attempt m"
      "list_all rxl_calm ([f, n, a, b] @ ds @ [x, y, z])"
      "rec_valid_f v" "\<not> rec_abort_f v" "\<not> store_data_f v" "\<not> read_attempt v" "\<not> rtsop_beg v" "\<not> rtsop_beg x"
  shows "\<exists>w. rxq_frames (rxq_of sz (rxl_buf (fold (rxl_cycle sz) ([m, f, n, a, b] @ ds @ [v, x, y, z]) l))) =
      rxq_frames (rxq_of sz (rxl_buf l)) @ [w] \<and> wf_frame w \<and>
    (\<forall>fd' r. rx_decodes w (fd', r) \<longrightarrow> fd' = fd \<and> can_id r = can_id cf \<and> flen r = flen cf \<and>
      flags r = (if fd then (flags cf AND CANFD_BRS) OR (if esi then CANFD_ESI else 0) else 0) \<and>
      (\<not> bit (can_id cf) 30 \<longrightarrow> take (unat (flen cf)) (data r) = take (unat (flen cf)) (data cf)))"
proof -
  let ?w = "rx_frame_words f n (timestamp v) ds"
  note ram = insert_frame_ram [OF assms(7,1-4)] and wire = rx_carries_on_wire [OF carried, of "timestamp v"]
  note words = wire_words [OF assms(5,6) ram wire]
  have "length (filter store_data_f ds) + 3 = frame_form_rwcnt False f"
    using carried by (simp add: rx_carries_def Let_def)
  from rxl_frame_stored [OF ready(1,2) frame(1-4) this frame(5-10)]
  have "rxq_frames (rxq_of sz (rxl_buf (fold (rxl_cycle sz) ([m, f, n, a, b] @ ds @ [v, x, y, z]) l))) =
      rxq_frames (rxq_of sz (rxl_buf l)) @ [?w]"
    using words(2) ready(3) by (auto simp only: if_True)
  then show ?thesis
    using words(1) wire_decoded [OF assms(5,6) ram wire] by (intro exI [of _ ?w]) blast
qed

text \<open>The signals for the frame of five bytes that \<open>Ctu_System\<close> sends.\<close>

definition link_data :: "(nat \<Rightarrow> u32) \<Rightarrow> rxl_in list" where
  "link_data ram = [rxl_quiet\<lparr>store_data_f := True, store_data_word := ram 4\<rparr>, rxl_quiet,
     rxl_quiet\<lparr>store_data_f := True, store_data_word := ram 5\<rparr>]"

definition link_ident :: "(nat \<Rightarrow> u32) \<Rightarrow> rxl_in" where
  "link_ident ram = rxl_quiet\<lparr>rec_ident := ucast (ram 1)\<rparr>"

lemma link_carries:
  assumes "ram 0 = tx_ffw demo_kern (skb_frame demo_skb) False"
  shows "rx_carries ram False (rxl_quiet\<lparr>rec_dlc := 5\<rparr>) (link_ident ram) (link_data ram)"
proof -
  have d: "k_fd_len2dlc demo_kern (flen (skb_frame demo_skb)) = 5"
    by (simp add: demo_skb_def demo_kern_def) code_simp
  have i: "\<not> bit (can_id (skb_frame demo_skb)) 30" "\<not> bit (can_id (skb_frame demo_skb)) 31"
    by (simp_all add: demo_skb_def)
  have m: "ucast (ucast (ram 1) :: 29 word) = ram 1 AND mask 29"
    by (rule bit_word_eqI) (auto simp: bit_ucast_iff bit_and_iff bit_mask_iff)
  have "take 5 (concat (map (\<lambda>i. le_bytes (ram (4 + i))) [0..<16])) = take 5 (le_bytes (ram 4) @ le_bytes (ram 5))"
    by (simp add: upt_rec le_bytes_def)
  then show ?thesis
    using tx_ffw_fields [of demo_kern "skb_frame demo_skb" False] d i m
    by (simp add: rx_carries_def Let_def assms link_ident_def link_data_def rxl_quiet_def frame_form_rwcnt_def rxl_rwcnt_com_def)
qed

theorem frame_end_to_end_witness:
  "\<exists>s' ds n w. ctucan_insert_frame (core_bus (run_cfg True False) IO_LE 0) demo_kern (skb_frame demo_skb) 0 False
      (demo_ndev [] demo_core) = Inr (True, s') \<and>
    rxq_frames (rxq_of 32 (rxl_buf (fold (rxl_cycle 32)
      ([rxl_quiet\<lparr>store_metadata_f := True\<rparr>, rxl_quiet\<lparr>rec_dlc := 5\<rparr>, n, rxl_quiet, rxl_quiet] @ ds @
       [rxl_quiet\<lparr>rec_valid_f := True\<rparr>, rxl_quiet, rxl_quiet, rxl_quiet]) (rxl_init 32)))) = [w] \<and>
    take 5 (data (frame_of_words (zero_frame 8) w)) = [1, 2, 3, 4, 5]"
proof -
  let ?s = "demo_ndev [] demo_core :: core ndev" and ?C = "run_cfg True False" and ?f = "skb_frame demo_skb"
  have at: "attached IO_LE 0 4 (priv ?s)" "txtb (hw ?s) 0 = s_txt_empty"
    by (simp_all add: attached_def demo_ndev_def demo_priv_def demo_core_def)
  obtain s' where s': "ctucan_insert_frame (core_bus ?C IO_LE 0) demo_kern ?f 0 False ?s = Inr (True, s')"
    using core4.insert_frame_ok [OF at(1) _ demo_skb_ok(1,2), of 0 True False] at(2) by (auto simp: view_at)
  let ?r = "txt_ram (hw s') 0"
  have "ram_frame demo_kern ?f False ?r" using insert_frame_ram [OF s' run_cfg_ok(1)] at by (simp add: run_cfg_ok(2))
  then have c: "rx_carries ?r False (rxl_quiet\<lparr>rec_dlc := 5\<rparr>) (link_ident ?r) (link_data ?r)"
    by (intro link_carries) (simp add: ram_frame_def)
  have v: "valid_frame False ?f"
    using demo_skb_ok(1) by (simp add: valid_frame_def demo_skb_def) code_simp
  have l: "rxl_ready 32 (rxl_init 32)" "rx_mem_free (rxl_buf (rxl_init 32)) = 32" "tx_data_words ?f = 2"
    "rxq_frames (rxq_of 32 (rxl_buf (rxl_init 32))) = []"
    using rxl_init_ready [of 32] rx_init_inv [of 32]
    by (simp_all add: rxl_init_def rxbuf_init_def rtr_data_words demo_skb_def)
  have k: "list_all rxl_calm ([rxl_quiet\<lparr>rec_dlc := 5\<rparr>, link_ident ?r, rxl_quiet, rxl_quiet] @ link_data ?r @
      [rxl_quiet, rxl_quiet, rxl_quiet])"
    by (simp add: rxl_calm_def rxl_quiet_def link_ident_def link_data_def)
  from frame_end_to_end [OF run_cfg_ok(1) _ _ _ v _ s' _ l(1), where m = "rxl_quiet\<lparr>store_metadata_f := True\<rparr>"
      and v = "rxl_quiet\<lparr>rec_valid_f := True\<rparr>", OF _ _ _ _ _ _ _ _ _ _ k] at l c
  obtain w where w: "rxq_frames (rxq_of 32 (rxl_buf (fold (rxl_cycle 32)
      ([rxl_quiet\<lparr>store_metadata_f := True\<rparr>, rxl_quiet\<lparr>rec_dlc := 5\<rparr>, link_ident ?r, rxl_quiet, rxl_quiet] @ link_data ?r @
       [rxl_quiet\<lparr>rec_valid_f := True\<rparr>, rxl_quiet, rxl_quiet, rxl_quiet]) (rxl_init 32)))) = [w]"
    "\<And>fd' r. rx_decodes w (fd', r) \<Longrightarrow> take 5 (data r) = [1, 2, 3, 4, 5]"
    by (fastforce simp: run_cfg_ok(2) demo_kern_def rxl_quiet_def demo_skb_def)
  then have "take 5 (data (frame_of_words (zero_frame 8) w)) = [1, 2, 3, 4, 5]"
    by (auto simp: rx_decodes_def)
  then show ?thesis using s' w(1) by blast
qed

end
