(* ===== verification/Ctu_Life.thy ===== *)
theory Ctu_Life
  imports Ctu_Irq
begin

text \<open>
  Life cycle of the network device, from \<open>driver/ctucanfd_base.c\<close>: probe with the detection of
  the byte order of the bus, open and close, error counters, suspend and resume. The jumps to
  the error labels are written out: each failing step is followed by the clean-up calls that
  the labels lead to.
\<close>

section \<open>Open and close\<close>

definition ctucan_open :: "'d bus \<Rightarrow> kern \<Rightarrow> 'd ndev \<Rightarrow> int \<times> 'd ndev" where
  "ctucan_open B K s =
     (let ret = k_pm_runtime_get_sync K (klog s);
          s = kdo Pm_runtime_get_sync s
      in if ret < 0
         then (ret, kdo Pm_runtime_put_noidle (kdo (Netdev_err ''pm_runtime_get failed(%d)'') s))
      else let (ret, s) = ctucan_reset B s
      in if ret < 0 then (ret, kdo Pm_runtime_put s)
      else
        let ret = k_open_candev K (klog s);
            s = kdo Open_candev s
        in if ret \<noteq> 0 then (ret, kdo Pm_runtime_put s)
      else
        let ret = k_request_irq K (klog s);
            s = kdo Request_irq s
        in if ret < 0
           then (ret, kdo Pm_runtime_put (kdo Close_candev
             (kdo (Netdev_err ''irq allocation for CAN failed'') s)))
      else let (ret, s) = ctucan_chip_start B s
      in if ret < 0
         then (ret, kdo Pm_runtime_put (kdo Close_candev (kdo Free_irq
           (kdo (Netdev_err ''ctucan_chip_start failed!'') s))))
      else (0, kdo Netif_start_queue (kdo Napi_enable s)))"

definition ctucan_close :: "'d bus \<Rightarrow> 'd ndev \<Rightarrow> int \<times> 'd ndev" where
  "ctucan_close B s =
     (let s = kdo Netif_stop_queue s;
          s = kdo Napi_disable s;
          s = ctucan_chip_stop B s;
          s = kdo Free_irq s;
          s = kdo Close_candev s
      in (0, kdo Pm_runtime_put s))"

definition ctucan_get_berr_counter ::
  "'d bus \<Rightarrow> kern \<Rightarrow> can_berr_counter \<Rightarrow> 'd ndev \<Rightarrow> int \<times> can_berr_counter \<times> 'd ndev" where
  "ctucan_get_berr_counter B K bec s =
     (let ret = k_pm_runtime_get_sync K (klog s);
          s = kdo Pm_runtime_get_sync s
      in if ret < 0
         then (ret, bec, kdo Pm_runtime_put_noidle (kdo (Netdev_err ''pm_runtime_get failed(%d)'') s))
         else let (bec, s) = ctucan_get_rec_tec B s in (0, bec, kdo Pm_runtime_put s))"

section \<open>Suspend and resume\<close>

definition ctucan_suspend :: "kern \<Rightarrow> 'd ndev \<Rightarrow> int \<times> 'd ndev" where
  "ctucan_suspend K s =
     (let running = k_netif_running K (klog s);
          s = kdo Netif_running s;
          s = (if running then kdo Netif_device_detach (kdo Netif_stop_queue s) else s)
      in (0, upd_can (\<lambda>c. c\<lparr>state := CAN_STATE_SLEEPING\<rparr>) s))"

definition ctucan_resume :: "kern \<Rightarrow> 'd ndev \<Rightarrow> int \<times> 'd ndev" where
  "ctucan_resume K s =
     (let s = upd_can (\<lambda>c. c\<lparr>state := CAN_STATE_ERROR_ACTIVE\<rparr>) s;
          running = k_netif_running K (klog s);
          s = kdo Netif_running s
      in (0, if running then kdo Netif_start_queue (kdo Netif_device_attach s) else s))"

section \<open>Probe\<close>

definition probe_priv :: "iomem \<Rightarrow> u32 \<Rightarrow> ctucan_priv \<Rightarrow> ctucan_priv" where
  "probe_priv addr n p =
     p\<lparr>ntxbufs := n, mem_base := addr, peers_on_pdev := False,
       can := (can p)\<lparr>ctrlmode_supported := CAN_CTRLMODE_LOOPBACK OR CAN_CTRLMODE_LISTENONLY
         OR CAN_CTRLMODE_FD OR CAN_CTRLMODE_PRESUME_ACK OR CAN_CTRLMODE_BERR_REPORTING
         OR CAN_CTRLMODE_FD_NON_ISO OR CAN_CTRLMODE_ONE_SHOT\<rparr>\<rparr>"

text \<open>\<open>True\<close> when the identification register shows the controller, with the accessors chosen.\<close>

definition probe_order :: "'d bus \<Rightarrow> 'd ndev \<Rightarrow> bool \<times> 'd ndev" where
  "probe_order B s =
     (let (v, s) = ctucan_read32 B CTUCANFD_DEVICE_ID s
      in if v AND 0xFFFF \<noteq> CTUCANFD_ID
         then let s = upd_priv (\<lambda>p. p\<lparr>reg_access := IO_BE\<rparr>) s;
                  (v, s) = ctucan_read32 B CTUCANFD_DEVICE_ID s
              in (v AND 0xFFFF = CTUCANFD_ID, s)
         else (True, s))"

text \<open>The labels \<open>err_deviceoff\<close>, \<open>err_pmdisable\<close> and \<open>err_free\<close>.\<close>

definition err_free :: "'d ndev \<Rightarrow> 'd ndev" where
  "err_free s = kdo Free_candev (upd_priv (\<lambda>p. p\<lparr>peers_on_pdev := False\<rparr>) s)"

definition err_pmdisable :: "bool \<Rightarrow> 'd ndev \<Rightarrow> 'd ndev" where
  "err_pmdisable pm_enable_call s =
     err_free (if pm_enable_call then kdo Pm_runtime_disable s else s)"

definition err_deviceoff :: "bool \<Rightarrow> 'd ndev \<Rightarrow> 'd ndev" where
  "err_deviceoff pm_enable_call s = err_pmdisable pm_enable_call (kdo Pm_runtime_put s)"

definition probe_device :: "'d bus \<Rightarrow> kern \<Rightarrow> u64 \<Rightarrow> bool \<Rightarrow> 'd ndev \<Rightarrow> int \<times> 'd ndev" where
  "probe_device B K can_clk_rate pm_enable_call s =
     (let s = upd_priv (\<lambda>p. p\<lparr>reg_access := IO_LE\<rparr>) s;
          s = (if pm_enable_call then kdo Pm_runtime_enable s else s);
          ret = k_pm_runtime_get_sync K (klog s);
          s = kdo Pm_runtime_get_sync s
      in if ret < 0
         then (ret, err_pmdisable pm_enable_call (kdo Pm_runtime_put_noidle
           (kdo (Netdev_err ''pm_runtime_get failed(%d)'') s)))
      else let (found, s) = probe_order B s
      in if \<not> found
         then (- ENODEV, err_deviceoff pm_enable_call
           (kdo (Netdev_err ''CTU_CAN_FD signature not found'') s))
      else let (ret, s) = ctucan_reset B s
      in if ret < 0 then (ret, err_deviceoff pm_enable_call s)
      else
        let s = upd_can (\<lambda>c. c\<lparr>clock_freq := ucast can_clk_rate\<rparr>) s;
            s = kdo Netif_napi_add s;
            ret = k_register_candev K (klog s);
            s = kdo Register_candev s
        in if ret \<noteq> 0
           then (ret, err_deviceoff pm_enable_call (kdo (Dev_err ''fail to register failed (err=%d)'') s))
           else (0, kdo Pm_runtime_put s))"

definition ctucan_probe_common ::
  "'d bus \<Rightarrow> kern \<Rightarrow> iomem \<Rightarrow> u32 \<Rightarrow> u64 \<Rightarrow> bool \<Rightarrow> ('d ndev \<Rightarrow> 'd ndev) option \<Rightarrow> 'd ndev
   \<Rightarrow> int \<times> 'd ndev" where
  "ctucan_probe_common B K addr n can_clk_rate pm_enable_call set_drvdata_fnc s =
     (let ndev = k_alloc_candev K (klog s);
          s = kdo (Alloc_candev n) s
      in case ndev of
           None \<Rightarrow> (- ENOMEM, s)
         | Some p \<Rightarrow>
             let s = s\<lparr>priv := probe_priv addr n p\<rparr>;
                 s = (case set_drvdata_fnc of Some f \<Rightarrow> f s | None \<Rightarrow> s)
             in if can_clk_rate = 0
                then let clk = k_clk_get K (klog s);
                         s = kdo Devm_clk_get s
                     in case clk of
                          Some err \<Rightarrow> (err, err_free (kdo (Dev_err ''Device clock not found.'') s))
                        | None \<Rightarrow>
                            let rate = k_clk_get_rate K (klog s)
                            in probe_device B K rate pm_enable_call (kdo Clk_get_rate s)
                else probe_device B K can_clk_rate pm_enable_call s)"

section \<open>Resources held\<close>

text \<open>
  What the driver holds after a sequence of kernel calls, the answers of the kernel taken into
  account: the runtime power management count, an opened CAN device, a requested interrupt line,
  an allocated network device, enabled runtime power management and a registered device. A failing
  \<open>pm_runtime_get_sync\<close> still counts.
\<close>

record resources =
  h_pm :: int
  h_candev :: int
  h_irq :: int
  h_alloc :: int
  h_pm_enabled :: int
  h_registered :: int

fun held :: "kern \<Rightarrow> kcall list \<Rightarrow> resources" where
  "held K [] = \<lparr>h_pm = 0, h_candev = 0, h_irq = 0, h_alloc = 0, h_pm_enabled = 0,
     h_registered = 0\<rparr>"
| "held K (c # l) =
     (let h = held K l
      in case c of
           Pm_runtime_get_sync \<Rightarrow> h\<lparr>h_pm := h_pm h + 1\<rparr>
         | Pm_runtime_put \<Rightarrow> h\<lparr>h_pm := h_pm h - 1\<rparr>
         | Pm_runtime_put_noidle \<Rightarrow> h\<lparr>h_pm := h_pm h - 1\<rparr>
         | Open_candev \<Rightarrow> if k_open_candev K l = 0 then h\<lparr>h_candev := h_candev h + 1\<rparr> else h
         | Close_candev \<Rightarrow> h\<lparr>h_candev := h_candev h - 1\<rparr>
         | Request_irq \<Rightarrow> if k_request_irq K l < 0 then h else h\<lparr>h_irq := h_irq h + 1\<rparr>
         | Free_irq \<Rightarrow> h\<lparr>h_irq := h_irq h - 1\<rparr>
         | Alloc_candev _ \<Rightarrow> if k_alloc_candev K l = None then h else h\<lparr>h_alloc := h_alloc h + 1\<rparr>
         | Free_candev \<Rightarrow> h\<lparr>h_alloc := h_alloc h - 1\<rparr>
         | Register_candev \<Rightarrow>
             if k_register_candev K l = 0 then h\<lparr>h_registered := h_registered h + 1\<rparr> else h
         | Unregister_candev \<Rightarrow> h\<lparr>h_registered := h_registered h - 1\<rparr>
         | Pm_runtime_enable \<Rightarrow> h\<lparr>h_pm_enabled := h_pm_enabled h + 1\<rparr>
         | Pm_runtime_disable \<Rightarrow> h\<lparr>h_pm_enabled := h_pm_enabled h - 1\<rparr>
         | _ \<Rightarrow> h)"

lemma held_sleeps: "held K (replicate k (Usleep_range a b) @ l) = held K l"
  by (induction k) (simp_all add: Let_def)

lemma reset_held: "ctucan_reset B s = (r, s') \<Longrightarrow> held K (klog s') = held K (klog s) \<and> r \<le> 0"
proof -
  assume a: "ctucan_reset B s = (r, s')"
  then have "reset_loop B 100 (upd_priv (\<lambda>p. p\<lparr>drv_flags := unset_bit CTUCANFD_FLAG_RX_FFW_BUFFERED (drv_flags p)\<rparr>)
      (ctucan_write32 B CTUCANFD_MODE REG_MODE_RST s)) = (r, s')" by (simp add: ctucan_reset_def Let_def)
  from reset_loop_log [OF this] show ?thesis
    using write32_frame(3) [of B CTUCANFD_MODE REG_MODE_RST s]
    by (auto simp: held_sleeps errno_defs)
qed

lemma set_btr_held:
  "ctucan_set_btr B bt nom s = (r, bt', s') \<Longrightarrow> held K (klog s') = held K (klog s) \<and> r \<le> 0"
  by (auto simp: ctucan_set_btr_def CTU_CAN_FD_ENABLED_def Let_def split_def errno_defs split: if_splits)

lemma timing_held:
  "ctucan_set_bittiming B s = (r, s') \<Longrightarrow> held K (klog s') = held K (klog s) \<and> r \<le> 0"
  "ctucan_set_data_bittiming B s = (r, s') \<Longrightarrow> held K (klog s') = held K (klog s) \<and> r \<le> 0"
  "ctucan_set_secondary_sample_point B s = (r, s') \<Longrightarrow> held K (klog s') = held K (klog s) \<and> r \<le> 0"
proof -
  show "ctucan_set_bittiming B s = (r, s') \<Longrightarrow> held K (klog s') = held K (klog s) \<and> r \<le> 0"
    using set_btr_held [of B "bittiming (can (priv s))" True s _ _ _ K]
    by (cases "ctucan_set_btr B (bittiming (can (priv s))) True s") (auto simp: ctucan_set_bittiming_def upd_can_def)
  show "ctucan_set_data_bittiming B s = (r, s') \<Longrightarrow> held K (klog s') = held K (klog s) \<and> r \<le> 0"
    using set_btr_held [of B "data_bittiming (can (priv s))" False s _ _ _ K]
    by (cases "ctucan_set_btr B (data_bittiming (can (priv s))) False s")
      (auto simp: ctucan_set_data_bittiming_def upd_can_def)
  show "ctucan_set_secondary_sample_point B s = (r, s') \<Longrightarrow> held K (klog s') = held K (klog s) \<and> r \<le> 0"
    by (auto simp: ctucan_set_secondary_sample_point_def CTU_CAN_FD_ENABLED_def Let_def split_def errno_defs
        split: if_splits)
qed

lemma chip_start_held:
  assumes "ctucan_chip_start B s = (r, s')"
  shows "held K (klog s') = held K (klog s) \<and> r \<le> 0"
proof -
  let ?s0 = "ctucan_write32 B CTUCANFD_TX_PRIORITY 0x01234567
    (upd_priv (\<lambda>p. p\<lparr>txb_prio := 0x01234567, txb_head := 0, txb_tail := 0\<rparr>) s)"
  obtain r1 s1 where s1: "ctucan_set_bittiming B ?s0 = (r1, s1)" by fastforce
  obtain r2 s2 where s2: "ctucan_set_data_bittiming B s1 = (r2, s2)" by fastforce
  obtain r3 s3 where s3: "ctucan_set_secondary_sample_point B s2 = (r3, s3)" by fastforce
  note h = timing_held(1) [OF s1, of K] timing_held(2) [OF s2, of K] timing_held(3) [OF s3, of K]
  show ?thesis
    using assms h s1 s2 s3
    by (auto simp: ctucan_chip_start_def Let_def split_def ctucan_set_mode_def upd_can_def split: if_splits)
qed

lemma open_held:
  assumes "ctucan_open B K s = (r, s')"
  shows "held K (klog s') = (if r = 0 then (held K (klog s))\<lparr>h_pm := h_pm (held K (klog s)) + 1,
      h_candev := h_candev (held K (klog s)) + 1, h_irq := h_irq (held K (klog s)) + 1\<rparr>
    else held K (klog s))"
proof -
  let ?s0 = "kdo Pm_runtime_get_sync s"
  obtain r1 s1 where s1: "ctucan_reset B ?s0 = (r1, s1)" by fastforce
  let ?s2 = "kdo Request_irq (kdo Open_candev s1)"
  obtain r3 s3 where s3: "ctucan_chip_start B ?s2 = (r3, s3)" by fastforce
  have h: "held K (klog s1) = held K (klog ?s0)" "r1 \<le> 0" "held K (klog s3) = held K (klog ?s2)" "r3 \<le> 0"
    using reset_held [OF s1, of K] chip_start_held [OF s3, of K] by simp_all
  show ?thesis
    using assms h s1 s3 by (auto simp: ctucan_open_def Let_def split: if_splits)
qed

text \<open>C27: Bringing the interface up either succeeds, holding one power management reference, the opened
  device and the interrupt line, or fails and holds what it held before: every error path gives
  back exactly what the steps before it had taken.\<close>

theorem open_balanced:
  assumes "ctucan_open B K s = (r, s')"
  shows "held K (klog s') = (if r = 0 then (held K (klog s))\<lparr>h_pm := h_pm (held K (klog s)) + 1,
      h_candev := h_candev (held K (klog s)) + 1, h_irq := h_irq (held K (klog s)) + 1\<rparr>
    else held K (klog s))"
  using open_held [OF assms] .

definition id_regs :: "iomem \<Rightarrow> u32" where
  "id_regs = (\<lambda>_. 0)(ucast CTUCANFD_DEVICE_ID := 0xCAFD)"

lemma id_reset:
  "ctucan_reset regfile (kdo Pm_runtime_get_sync (demo_ndev [] id_regs)) =
     (0, (kdo Pm_runtime_get_sync (demo_ndev [] id_regs))\<lparr>hw := id_regs(4 := 1)\<rparr>)"
proof -
  have "reset_loop regfile 100 s = (0, s)" if "reg_access (priv s) = IO_LE" "mem_base (priv s) = 0"
      "hw s = id_regs(4 := 1)" for s
    using reset_loop.simps(2) [of regfile 99 s] that
    by (simp add: ctucan_read32_bus regfile_def id_regs_def reg_addrs bus_order_def reg_masks
        FIELD_GET_GENMASK take_bit_eq_mod)
  then show ?thesis
    by (simp add: ctucan_reset_def ctucan_write32_bus regfile_def demo_ndev_def demo_priv_def kdo_def
        bus_order_def reg_addrs reg_masks BIT_def upd_priv_def CTUCANFD_FLAG_RX_FFW_BUFFERED_def)
qed

theorem open_balanced_witness:
  "\<exists>s'. ctucan_open regfile (demo_kern\<lparr>k_request_irq := \<lambda>_. - 16\<rparr>) (demo_ndev [] id_regs) = (- 16, s') \<and>
     held (demo_kern\<lparr>k_request_irq := \<lambda>_. - 16\<rparr>) (klog s') = held demo_kern []"
proof -
  let ?K = "demo_kern\<lparr>k_request_irq := \<lambda>_. - 16\<rparr>"
  have "\<exists>s'. ctucan_open regfile ?K (demo_ndev [] id_regs) = (- 16, s')"
    using id_reset by (simp add: ctucan_open_def demo_kern_def Let_def)
  then obtain s' where s': "ctucan_open regfile ?K (demo_ndev [] id_regs) = (- 16, s')" by blast
  then show ?thesis using open_balanced [OF s'] by (simp add: demo_ndev_def)
qed

text \<open>C29: Taking the interface down releases everything that bringing it up had taken.\<close>

theorem close_releases:
  assumes "ctucan_open B K s = (0, s1)" "held K (klog s2) = held K (klog s1)" "ctucan_close B s2 = (r, s')"
  shows "r = 0 \<and> held K (klog s') = held K (klog s)"
proof -
  have "klog (ctucan_chip_stop B (kdo Napi_disable (kdo Netif_stop_queue s2))) = Napi_disable # Netif_stop_queue # klog s2"
    by (simp add: ctucan_chip_stop_def Let_def split_def upd_can_def)
  then show ?thesis
    using open_held [OF assms(1)] assms(2,3) by (auto simp: ctucan_close_def Let_def)
qed

theorem close_releases_witness:
  "\<exists>s1. ctucan_open regfile demo_kern (demo_ndev [] id_regs) = (0, s1) \<and>
     held demo_kern (klog (snd (ctucan_close regfile s1))) = held demo_kern []"
proof -
  have "\<exists>s1. ctucan_open regfile demo_kern (demo_ndev [] id_regs) = (0, s1)"
    using id_reset
    by (simp add: ctucan_open_def demo_kern_def Let_def ctucan_chip_start_def ctucan_set_bittiming_def
        ctucan_set_data_bittiming_def ctucan_set_secondary_sample_point_def ctucan_set_btr_def
        CTU_CAN_FD_ENABLED_def ctucan_read32_bus ctucan_write32_bus regfile_def demo_ndev_def demo_priv_def
        kdo_def upd_priv_def upd_can_def bus_order_def reg_addrs id_regs_def REG_MODE_ENA_def FIELD_GET_BIT)
  then obtain s1 where s1: "ctucan_open regfile demo_kern (demo_ndev [] id_regs) = (0, s1)" by blast
  then show ?thesis
    using close_releases [OF s1 refl prod.collapse [symmetric]] by (simp add: demo_ndev_def)
qed

text \<open>The probe chooses the accessors with which the identification register shows the controller:
  little endian when that works, otherwise big endian, and it reports failure exactly when
  neither does.\<close>

lemma probe_finds_byte_order:
  assumes "ld32 B (hw s) (mem_base (priv s) + ucast CTUCANFD_DEVICE_ID) = (w, hw s)"
    "reg_access (priv s) = IO_LE" "probe_order B s = (found, s')"
  shows "found = (w AND 0xFFFF = CTUCANFD_ID \<or> bswap32 w AND 0xFFFF = CTUCANFD_ID) \<and>
    reg_access (priv s') = (if w AND 0xFFFF = CTUCANFD_ID then IO_LE else IO_BE) \<and> hw s' = hw s"
  using assms by (auto simp: probe_order_def ctucan_read32_bus bus_order_def Let_def upd_priv_def split: if_splits)

lemma probe_order_held: "probe_order B s = (f, s') \<Longrightarrow> klog s' = klog s"
  by (auto simp: probe_order_def Let_def split_def split: if_splits)

lemma probe_order_peers: "probe_order B s = (f, s') \<Longrightarrow> peers_on_pdev (priv s') = peers_on_pdev (priv s)"
  by (auto simp: probe_order_def Let_def split_def split: if_splits)

lemma reset_peers: "ctucan_reset B s = (r, s') \<Longrightarrow> peers_on_pdev (priv s') = peers_on_pdev (priv s)"
proof -
  have "reset_loop B k s = (r, s') \<Longrightarrow> peers_on_pdev (priv s') = peers_on_pdev (priv s)" for k s
    by (induction k arbitrary: s) (auto simp: Let_def split_def split: if_splits)
  then show "ctucan_reset B s = (r, s') \<Longrightarrow> peers_on_pdev (priv s') = peers_on_pdev (priv s)"
    by (fastforce simp: ctucan_reset_def Let_def)
qed

lemma probe_device_held:
  assumes "probe_device B K rate pm s = (r, s')"
  shows "held K (klog s') = (if r = 0 then (held K (klog s))\<lparr>h_pm_enabled :=
      h_pm_enabled (held K (klog s)) + (if pm then 1 else 0), h_registered := h_registered (held K (klog s)) + 1\<rparr>
    else (held K (klog s))\<lparr>h_alloc := h_alloc (held K (klog s)) - 1\<rparr>) \<and>
    peers_on_pdev (priv s') = (r = 0 \<and> peers_on_pdev (priv s))"
proof -
  let ?s0 = "upd_priv (\<lambda>p. p\<lparr>reg_access := IO_LE\<rparr>) s"
  let ?s1 = "kdo Pm_runtime_get_sync (if pm then kdo Pm_runtime_enable ?s0 else ?s0)"
  obtain f s2 where s2: "probe_order B ?s1 = (f, s2)" by fastforce
  obtain r3 s3 where s3: "ctucan_reset B s2 = (r3, s3)" by fastforce
  have h: "klog s2 = klog ?s1" "held K (klog s3) = held K (klog s2)" "r3 \<le> 0"
    "peers_on_pdev (priv s3) = peers_on_pdev (priv s)"
    using probe_order_held [OF s2] reset_held [OF s3, of K] probe_order_peers [OF s2] reset_peers [OF s3]
    by simp_all
  show ?thesis
    using assms h s2 s3
    by (cases pm) (auto simp: probe_device_def Let_def err_deviceoff_def err_pmdisable_def err_free_def
        errno_defs upd_can_def split: if_splits)
qed

text \<open>The callback that stores the device for the bus takes no resource.\<close>

definition neutral :: "kern \<Rightarrow> ('d ndev \<Rightarrow> 'd ndev) option \<Rightarrow> bool" where
  "neutral K f = (case f of None \<Rightarrow> True | Some f \<Rightarrow> \<forall>s. held K (klog (f s)) = held K (klog s))"

lemma probe_held:
  assumes "ctucan_probe_common B K addr n rate pm drvdata s = (r, s')" "\<forall>l e. k_clk_get K l = Some e \<longrightarrow> e \<noteq> 0"
    and "neutral K drvdata"
  shows "held K (klog s') = (if r = 0 then (held K (klog s))\<lparr>h_alloc := h_alloc (held K (klog s)) + 1,
      h_pm_enabled := h_pm_enabled (held K (klog s)) + (if pm then 1 else 0),
      h_registered := h_registered (held K (klog s)) + 1\<rparr>
    else held K (klog s)) \<and>
    (r \<noteq> 0 \<longrightarrow> k_alloc_candev K (klog s) \<noteq> None \<longrightarrow> \<not> peers_on_pdev (priv s'))"
proof (cases "k_alloc_candev K (klog s)")
  case None
  then show ?thesis using assms by (auto simp: ctucan_probe_common_def errno_defs)
next
  case (Some p)
  let ?s1 = "(kdo (Alloc_candev n) s)\<lparr>priv := probe_priv addr n p\<rparr>"
  let ?s2 = "case drvdata of Some f \<Rightarrow> f ?s1 | None \<Rightarrow> ?s1"
  have h2: "held K (klog ?s2) = (held K (klog s))\<lparr>h_alloc := h_alloc (held K (klog s)) + 1\<rparr>"
    using Some assms(3) by (auto simp: Let_def neutral_def split: option.split)
  have d: "held K (klog s') = (if r = 0 then (held K (klog ?s2))\<lparr>h_pm_enabled :=
      h_pm_enabled (held K (klog ?s2)) + (if pm then 1 else 0), h_registered := h_registered (held K (klog ?s2)) + 1\<rparr>
    else (held K (klog ?s2))\<lparr>h_alloc := h_alloc (held K (klog ?s2)) - 1\<rparr>) \<and> (r \<noteq> 0 \<longrightarrow> \<not> peers_on_pdev (priv s'))"
    if "probe_device B K x pm y = (r, s')" "held K (klog y) = held K (klog ?s2)" for x y
    using probe_device_held [OF that(1)] that(2) by simp
  show ?thesis
  proof (cases "rate = 0")
    case False
    then have "probe_device B K rate pm ?s2 = (r, s')" using assms(1) Some by (simp add: ctucan_probe_common_def Let_def)
    from d [OF this refl] show ?thesis unfolding h2 by simp
  next
    case True
    show ?thesis
    proof (cases "k_clk_get K (klog ?s2)")
      case None
      then have "probe_device B K (k_clk_get_rate K (Devm_clk_get # klog ?s2)) pm
          (kdo Clk_get_rate (kdo Devm_clk_get ?s2)) = (r, s')"
        using assms(1) Some True by (simp add: ctucan_probe_common_def Let_def)
      moreover have "held K (klog (kdo Clk_get_rate (kdo Devm_clk_get ?s2))) = held K (klog ?s2)" by (simp add: Let_def)
      ultimately show ?thesis using d unfolding h2 by simp
    next
      case (Some e)
      then show ?thesis
        using assms True \<open>k_alloc_candev K (klog s) = Some p\<close> h2
        by (auto simp: ctucan_probe_common_def err_free_def Let_def)
    qed
  qed
qed

text \<open>C28: The probe leaves no reference behind: on success it keeps the allocated and registered device and,
  if it was asked to, enabled power management; on every failure all of it is undone, and the count
  of power management references is unchanged in either case.\<close>

theorem probe_balanced:
  assumes "ctucan_probe_common B K addr n rate pm drvdata s = (r, s')" "\<forall>l e. k_clk_get K l = Some e \<longrightarrow> e \<noteq> 0"
    and "neutral K drvdata"
  shows "held K (klog s') = (if r = 0 then (held K (klog s))\<lparr>h_alloc := h_alloc (held K (klog s)) + 1,
      h_pm_enabled := h_pm_enabled (held K (klog s)) + (if pm then 1 else 0),
      h_registered := h_registered (held K (klog s)) + 1\<rparr>
    else held K (klog s))"
  using probe_held [OF assms] ..

theorem probe_balanced_witness:
  "held (demo_kern\<lparr>k_clk_get := \<lambda>_. Some (- 2)\<rparr>) (klog (snd (ctucan_probe_common regfile
     (demo_kern\<lparr>k_clk_get := \<lambda>_. Some (- 2)\<rparr>) 0 4 0 True None (demo_ndev [] id_regs)))) = held demo_kern []"
  using probe_balanced [where B = regfile and K = "demo_kern\<lparr>k_clk_get := \<lambda>_. Some (- 2)\<rparr>" and addr = 0 and n = 4
      and rate = 0 and pm = True and drvdata = None and s = "demo_ndev [] id_regs", OF prod.collapse [symmetric]]
  by (simp add: ctucan_probe_common_def demo_ndev_def demo_kern_def Let_def err_free_def neutral_def)

end
