(* ===== verification/Ctu_Pci.thy ===== *)
theory Ctu_Pci
  imports Ctu_Life
begin

text \<open>
  The bus glue of the kernel driver: \<open>driver/ctucanfd_pci.c\<close> and \<open>driver/ctucanfd_platform.c\<close>.
  A PCI card carries one or more controllers behind one interrupt; its probe maps the two address
  ranges, probes every controller with \<open>ctucan_probe_common\<close> and links them in the list of the card.

  The state is the pointer the kernel keeps for the device (\<open>drvdata\<close>) and the state of the
  network device being probed, which carries the log of kernel calls and the hardware. Messages
  below the level of \<open>dev_err\<close> are left out. The answers of the kernel are those of \<open>Ctu_Dev\<close> and a
  further record for the calls of the two bus layers.
\<close>

section \<open>State\<close>

record bus_kern =
  k_core :: kern
  k_pci_enable_device :: "kcall list \<Rightarrow> int"
  k_pci_request_regions :: "kcall list \<Rightarrow> int"
  k_pci_enable_msi :: "kcall list \<Rightarrow> int"
  k_pci_iomap :: "kcall list \<Rightarrow> nat \<Rightarrow> iomem option"
  k_kzalloc :: "kcall list \<Rightarrow> bool"
  k_ioremap_resource :: "kcall list \<Rightarrow> int + iomem"
  k_get_irq :: "kcall list \<Rightarrow> int"
  K_IRQF_SHARED :: u32

record ctucan_pci_board_data =
  bar0_base :: iomem
  cra_base :: iomem
  bar1_base :: iomem
  ndev_list_head :: "ctucan_priv list"
  bd_use_msi :: bool

datatype drvdata = Drv_null | Drv_ndev ctucan_priv | Drv_board ctucan_pci_board_data

record 'd pdev =
  drv :: drvdata
  net :: "'d ndev"

definition pdo :: "kcall \<Rightarrow> 'd pdev \<Rightarrow> 'd pdev" where
  "pdo c p = p\<lparr>net := kdo c (net p)\<rparr>"

section \<open>PCI\<close>

definition CTUCAN_BAR0_CTUCAN_ID :: iomem where "CTUCAN_BAR0_CTUCAN_ID = 0x0000"
definition CTUCAN_BAR0_CRA_BASE :: iomem where "CTUCAN_BAR0_CRA_BASE = 0x4000"
definition CYCLONE_IV_CRA_A2P_IE :: iomem where "CYCLONE_IV_CRA_A2P_IE = 0x0050"
definition CTUCAN_WITHOUT_CTUCAN_ID :: nat where "CTUCAN_WITHOUT_CTUCAN_ID = 0"
definition CTUCAN_WITH_CTUCAN_ID :: nat where "CTUCAN_WITH_CTUCAN_ID = 1"

definition ctucan_pci_set_drvdata :: "bus_kern \<Rightarrow> 'd ndev \<Rightarrow> 'd ndev" where
  "ctucan_pci_set_drvdata K s =
     upd_priv (\<lambda>p. p\<lparr>peers_on_pdev := True, irq_flags := K_IRQF_SHARED K\<rparr>) s"

text \<open>
  One call of \<open>ctucan_probe_common\<close>. A device that has been probed is at the head of the list of the
  card, where the callback has put it; a device that has failed has been taken out again.
\<close>

definition link_peer :: "'d pdev \<Rightarrow> 'd pdev" where
  "link_peer p =
     (case drv p of
        Drv_board bd \<Rightarrow> p\<lparr>drv := Drv_board (bd\<lparr>ndev_list_head := priv (net p) # ndev_list_head bd\<rparr>)\<rparr>
      | _ \<Rightarrow> p)"

definition pci_probe_core :: "'d bus \<Rightarrow> bus_kern \<Rightarrow> iomem \<Rightarrow> 'd pdev \<Rightarrow> int \<times> 'd pdev" where
  "pci_probe_core B K addr p =
     (let (ret, s) = ctucan_probe_common B (k_core K) addr 4 100000000 False
            (Some (ctucan_pci_set_drvdata K)) (net p);
          p = p\<lparr>net := s\<rparr>
      in (ret, if ret = 0 then link_peer p else p))"

function pci_more_cores :: "'d bus \<Rightarrow> bus_kern \<Rightarrow> nat \<Rightarrow> nat \<Rightarrow> iomem \<Rightarrow> 'd pdev \<Rightarrow> 'd pdev" where
  "pci_more_cores B K num_cores core_i addr p =
     (if core_i < num_cores
      then let addr = addr + 0x4000;
               (ret, p) = pci_probe_core B K addr p
           in if ret < 0 then p else pci_more_cores B K num_cores (core_i + 1) addr p
      else p)"
  by pat_completeness auto
termination
  by (relation "measure (\<lambda>(B, K, num_cores, core_i, addr, p). num_cores - core_i)") auto

declare pci_more_cores.simps [simp del]

text \<open>The error labels of \<open>ctucan_pci_probe\<close>.\<close>

definition err_disable_device :: "'d pdev \<Rightarrow> 'd pdev" where
  "err_disable_device p = pdo Pci_disable_device p"

definition err_release_regions :: "bool \<Rightarrow> 'd pdev \<Rightarrow> 'd pdev" where
  "err_release_regions msi_ok p =
     err_disable_device (pdo Pci_release_regions
       (if msi_ok then pdo Pci_clear_master (pdo Pci_disable_msi p) else p))"

definition err_pci_iounmap_bar1 :: "bool \<Rightarrow> iomem \<Rightarrow> 'd pdev \<Rightarrow> 'd pdev" where
  "err_pci_iounmap_bar1 msi_ok addr p = err_release_regions msi_ok (pdo (Pci_iounmap addr) p)"

definition err_pci_iounmap_bar0 :: "bool \<Rightarrow> iomem \<Rightarrow> iomem \<Rightarrow> 'd pdev \<Rightarrow> 'd pdev" where
  "err_pci_iounmap_bar0 msi_ok addr cra_addr p =
     err_pci_iounmap_bar1 msi_ok addr (pdo (Pci_iounmap cra_addr) p)"

definition err_free_board :: "bool \<Rightarrow> iomem \<Rightarrow> iomem \<Rightarrow> 'd pdev \<Rightarrow> 'd pdev" where
  "err_free_board msi_ok addr cra_addr p =
     err_pci_iounmap_bar0 msi_ok addr cra_addr (pdo Kfree ((pdo Pci_set_drvdata p)\<lparr>drv := Drv_null\<rparr>))"

text \<open>Enabling of the interrupt in the bridge, and the part of the probe after both ranges are mapped.\<close>

definition pci_bridge_irq :: "'d bus \<Rightarrow> iomem \<Rightarrow> 'd pdev \<Rightarrow> 'd pdev" where
  "pci_bridge_irq B cra_addr p =
     (let (cra_a2p_ie, s) = ioread32 B (cra_addr + CYCLONE_IV_CRA_A2P_IE) (net p);
          s = iowrite32 B (cra_a2p_ie OR 1) (cra_addr + CYCLONE_IV_CRA_A2P_IE) s;
          (_, s) = ioread32 B (cra_addr + CYCLONE_IV_CRA_A2P_IE) s
      in p\<lparr>net := s\<rparr>)"

definition pci_probe_board ::
  "'d bus \<Rightarrow> bus_kern \<Rightarrow> bool \<Rightarrow> nat \<Rightarrow> bool \<Rightarrow> iomem \<Rightarrow> iomem \<Rightarrow> 'd pdev \<Rightarrow> int \<times> 'd pdev" where
  "pci_probe_board B K pci_use_second driver_data msi_ok addr bar0 p =
     (let (cra_addr, num_cores, p) =
            (if driver_data = CTUCAN_WITHOUT_CTUCAN_ID then (bar0, 2, p)
             else let (ctucan_id, s) = ioread32 B (bar0 + CTUCAN_BAR0_CTUCAN_ID) (net p)
                  in (bar0 + CTUCAN_BAR0_CRA_BASE, unat (ctucan_id AND 0xf), p\<lparr>net := s\<rparr>));
          ok = k_kzalloc K (klog (net p));
          p = pdo Kzalloc p
      in if \<not> ok then (- ENOMEM, err_pci_iounmap_bar0 msi_ok addr cra_addr p)
      else
        let bdata = \<lparr>bar0_base = bar0, cra_base = cra_addr, bar1_base = addr, ndev_list_head = [],
                     bd_use_msi = msi_ok\<rparr>;
            p = (pdo Pci_set_drvdata p)\<lparr>drv := Drv_board bdata\<rparr>;
            (ret, p) = pci_probe_core B K addr p
        in if ret < 0 then (ret, err_free_board msi_ok addr cra_addr p)
        else
          let p = (if pci_use_second then pci_more_cores B K num_cores 1 addr p else p)
          in (0, pci_bridge_irq B cra_addr p))"

definition ctucan_pci_probe ::
  "'d bus \<Rightarrow> bus_kern \<Rightarrow> bool \<Rightarrow> bool \<Rightarrow> nat \<Rightarrow> 'd pdev \<Rightarrow> int \<times> 'd pdev" where
  "ctucan_pci_probe B K use_msi pci_use_second driver_data p =
     (let ret = k_pci_enable_device K (klog (net p));
          p = pdo Pci_enable_device p
      in if ret \<noteq> 0 then (ret, pdo (Dev_err ''pci_enable_device FAILED'') p)
      else
        let ret = k_pci_request_regions K (klog (net p));
            p = pdo Pci_request_regions p
        in if ret \<noteq> 0 then (ret, err_disable_device (pdo (Dev_err ''pci_request_regions FAILED'') p))
      else
        let (msi_ok, p) =
              (if use_msi
               then let ret = k_pci_enable_msi K (klog (net p));
                        p = pdo Pci_enable_msi p
                    in if ret = 0 then (True, pdo Pci_set_master p) else (False, p)
               else (False, p));
            m1 = k_pci_iomap K (klog (net p)) 1;
            p = pdo (Pci_iomap 1) p
        in case m1 of
             None \<Rightarrow> (- ENOMEM, err_release_regions msi_ok (pdo (Dev_err ''PCI BAR 1 cannot be mapped'') p))
           | Some addr \<Rightarrow>
               let m0 = k_pci_iomap K (klog (net p)) 0;
                   p = pdo (Pci_iomap 0) p
               in case m0 of
                    None \<Rightarrow> (- EIO, err_pci_iounmap_bar1 msi_ok addr
                      (pdo (Dev_err ''PCI BAR 0 cannot be mapped'') p))
                  | Some bar0 \<Rightarrow> pci_probe_board B K pci_use_second driver_data msi_ok addr bar0 p)"

primrec pci_remove_cores :: "ctucan_priv list \<Rightarrow> 'd pdev \<Rightarrow> 'd pdev" where
  "pci_remove_cores [] p = p"
| "pci_remove_cores (c # cs) p =
     pci_remove_cores cs (pdo Free_candev (pdo Netif_napi_del (pdo Unregister_candev p)))"

definition ctucan_pci_remove :: "'d bus \<Rightarrow> 'd pdev \<Rightarrow> fault + 'd pdev" where
  "ctucan_pci_remove B p =
     (case drv p of
        Drv_null \<Rightarrow> Inr (pdo (Dev_err ''ctucan_pci_remove: no list of devices'') p)
      | Drv_ndev _ \<Rightarrow> Inl WrongObject
      | Drv_board bdata \<Rightarrow>
          let p = (if cra_base bdata \<noteq> 0
                   then p\<lparr>net := iowrite32 B 0 (cra_base bdata + CYCLONE_IV_CRA_A2P_IE) (net p)\<rparr> else p);
              p = pci_remove_cores (ndev_list_head bdata) p;
              p = pdo (Pci_iounmap (bar1_base bdata)) p;
              p = (if bd_use_msi bdata then pdo Pci_clear_master (pdo Pci_disable_msi p) else p);
              p = pdo Pci_release_regions p;
              p = pdo Pci_disable_device p;
              p = pdo (Pci_iounmap (bar0_base bdata)) p;
              p = (pdo Pci_set_drvdata p)\<lparr>drv := Drv_null\<rparr>
          in Inr (pdo Kfree p))"

section \<open>Platform\<close>

definition ctucan_platform_set_drvdata :: "'d ndev \<Rightarrow> 'd ndev" where
  "ctucan_platform_set_drvdata s = kdo Platform_set_drvdata s"

definition ctucan_platform_probe :: "'d bus \<Rightarrow> bus_kern \<Rightarrow> 'd pdev \<Rightarrow> int \<times> 'd pdev" where
  "ctucan_platform_probe B K p =
     (let m = k_ioremap_resource K (klog (net p));
          p = pdo Platform_ioremap_resource p
      in case m of
           Inl err \<Rightarrow> (err, pdo (Dev_err ''Cannot remap address.'') p)
         | Inr addr \<Rightarrow>
             let irq = k_get_irq K (klog (net p));
                 p = pdo Platform_get_irq p
             in if irq < 0 then (irq, pdo (Dev_err ''Cannot find interrupt.'') p)
             else
               let (ret, s) = ctucan_probe_common B (k_core K) addr 4 0 True
                     (Some ctucan_platform_set_drvdata) (net p);
                   p = \<lparr>drv = Drv_ndev (priv s), net = s\<rparr>
               in (ret, if ret < 0 then (pdo Platform_set_drvdata p)\<lparr>drv := Drv_null\<rparr> else p))"

definition ctucan_platform_remove :: "'d pdev \<Rightarrow> fault + int \<times> 'd pdev" where
  "ctucan_platform_remove p =
     (case drv p of
        Drv_null \<Rightarrow> Inl NullDeref
      | Drv_board _ \<Rightarrow> Inl WrongObject
      | Drv_ndev _ \<Rightarrow>
          let p = pdo Unregister_candev p;
              p = pdo Pm_runtime_disable p;
              p = pdo Netif_napi_del p;
              p = pdo Free_candev p
          in Inr (0, p))"

section \<open>Power management\<close>

text \<open>
  \<open>ctucan_suspend\<close> and \<open>ctucan_resume\<close> as both bus layers register them: the network device is
  what \<open>dev_get_drvdata\<close> returns. The fault \<open>WrongObject\<close> is an access to an object of another type.
\<close>

definition ctucan_dev_suspend :: "kern \<Rightarrow> 'd pdev \<Rightarrow> fault + int \<times> 'd pdev" where
  "ctucan_dev_suspend K p =
     (case drv p of
        Drv_ndev _ \<Rightarrow> (let (r, s) = ctucan_suspend K (net p) in Inr (r, p\<lparr>net := s\<rparr>))
      | Drv_null \<Rightarrow> Inl NullDeref
      | Drv_board _ \<Rightarrow> Inl WrongObject)"

definition ctucan_dev_resume :: "kern \<Rightarrow> 'd pdev \<Rightarrow> fault + int \<times> 'd pdev" where
  "ctucan_dev_resume K p =
     (case drv p of
        Drv_ndev _ \<Rightarrow> (let (r, s) = ctucan_resume K (net p) in Inr (r, p\<lparr>net := s\<rparr>))
      | Drv_null \<Rightarrow> Inl NullDeref
      | Drv_board _ \<Rightarrow> Inl WrongObject)"

section \<open>Resources of the bus layers\<close>

text \<open>What is held at the bus after a sequence of kernel calls; of the mappings, how often each address is mapped.\<close>

record bus_resources =
  p_enabled :: int
  p_regions :: int
  p_msi :: int
  p_master :: int
  p_bdata :: int
  p_map :: "iomem \<Rightarrow> int"

fun bus_held :: "bus_kern \<Rightarrow> kcall list \<Rightarrow> bus_resources" where
  "bus_held K [] = \<lparr>p_enabled = 0, p_regions = 0, p_msi = 0, p_master = 0, p_bdata = 0, p_map = (\<lambda>_. 0)\<rparr>"
| "bus_held K (c # l) =
     (let h = bus_held K l
      in case c of
           Pci_enable_device \<Rightarrow> if k_pci_enable_device K l = 0 then h\<lparr>p_enabled := p_enabled h + 1\<rparr> else h
         | Pci_disable_device \<Rightarrow> h\<lparr>p_enabled := p_enabled h - 1\<rparr>
         | Pci_request_regions \<Rightarrow> if k_pci_request_regions K l = 0 then h\<lparr>p_regions := p_regions h + 1\<rparr> else h
         | Pci_release_regions \<Rightarrow> h\<lparr>p_regions := p_regions h - 1\<rparr>
         | Pci_enable_msi \<Rightarrow> if k_pci_enable_msi K l = 0 then h\<lparr>p_msi := p_msi h + 1\<rparr> else h
         | Pci_disable_msi \<Rightarrow> h\<lparr>p_msi := p_msi h - 1\<rparr>
         | Pci_set_master \<Rightarrow> h\<lparr>p_master := p_master h + 1\<rparr>
         | Pci_clear_master \<Rightarrow> h\<lparr>p_master := p_master h - 1\<rparr>
         | Kzalloc \<Rightarrow> if k_kzalloc K l then h\<lparr>p_bdata := p_bdata h + 1\<rparr> else h
         | Kfree \<Rightarrow> h\<lparr>p_bdata := p_bdata h - 1\<rparr>
         | Pci_iomap k \<Rightarrow> (case k_pci_iomap K l k of
               Some a \<Rightarrow> h\<lparr>p_map := (p_map h)(a := p_map h a + 1)\<rparr> | None \<Rightarrow> h)
         | Pci_iounmap a \<Rightarrow> h\<lparr>p_map := (p_map h)(a := p_map h a - 1)\<rparr>
         | _ \<Rightarrow> h)"

abbreviation p_held :: "bus_kern \<Rightarrow> 'd pdev \<Rightarrow> resources \<times> bus_resources" where
  "p_held K p \<equiv> (held (k_core K) (klog (net p)), bus_held K (klog (net p)))"

lemma pdo_sel [simp]: "klog (net (pdo c p)) = c # klog (net p)" "drv (pdo c p) = drv p"
  by (simp_all add: pdo_def kdo_def)

lemma bus_reset: "ctucan_reset B s = (r, s') \<Longrightarrow> bus_held K (klog s') = bus_held K (klog s)"
proof -
  assume a: "ctucan_reset B s = (r, s')"
  then have "reset_loop B 100 (upd_priv (\<lambda>p. p\<lparr>drv_flags := unset_bit CTUCANFD_FLAG_RX_FFW_BUFFERED (drv_flags p)\<rparr>)
      (ctucan_write32 B CTUCANFD_MODE REG_MODE_RST s)) = (r, s')" by (simp add: ctucan_reset_def Let_def)
  moreover have "bus_held K (replicate k (Usleep_range a b) @ l) = bus_held K l" for k a b l
    by (induction k) (simp_all add: Let_def)
  ultimately show ?thesis
    using reset_loop_log write32_frame(3) [of B CTUCANFD_MODE REG_MODE_RST s] by fastforce
qed

lemma bus_probe_device:
  assumes "probe_device B K' rate pm s = (r, s')"
  shows "bus_held K (klog s') = bus_held K (klog s)"
proof -
  let ?s0 = "upd_priv (\<lambda>p. p\<lparr>reg_access := IO_LE\<rparr>) s"
  let ?s1 = "kdo Pm_runtime_get_sync (if pm then kdo Pm_runtime_enable ?s0 else ?s0)"
  obtain f s2 where s2: "probe_order B ?s1 = (f, s2)" by fastforce
  obtain r3 s3 where s3: "ctucan_reset B s2 = (r3, s3)" by fastforce
  have h: "klog s2 = klog ?s1" "bus_held K (klog s3) = bus_held K (klog s2)"
    using probe_order_held [OF s2] bus_reset [OF s3, of K] by simp_all
  show ?thesis
    using assms h s2 s3
    by (cases pm) (auto simp: probe_device_def Let_def err_deviceoff_def err_pmdisable_def err_free_def
        upd_can_def split: if_splits)
qed

lemma bus_probe_common:
  assumes "ctucan_probe_common B K' addr n rate pm f s = (r, s')"
    and "\<And>g s. f = Some g \<Longrightarrow> bus_held K (klog (g s)) = bus_held K (klog s)"
  shows "bus_held K (klog s') = bus_held K (klog s)"
proof (cases "k_alloc_candev K' (klog s)")
  case None
  then show ?thesis using assms by (auto simp: ctucan_probe_common_def)
next
  case (Some q)
  let ?s1 = "(kdo (Alloc_candev n) s)\<lparr>priv := probe_priv addr n q\<rparr>"
  let ?s2 = "case f of Some f \<Rightarrow> f ?s1 | None \<Rightarrow> ?s1"
  have h2: "bus_held K (klog ?s2) = bus_held K (klog s)"
    using assms(2) by (auto simp: Let_def split: option.split)
  show ?thesis
    using assms(1) Some h2 bus_probe_device [of B K' _ pm _ r s' K]
    by (fastforce simp: ctucan_probe_common_def Let_def err_free_def split: if_splits option.splits)
qed

lemma pci_core_held:
  assumes "pci_probe_core B K addr p = (ret, p')" "drv p = Drv_board bd"
    and "\<forall>l e. k_clk_get (k_core K) l = Some e \<longrightarrow> e \<noteq> 0"
  shows "bus_held K (klog (net p')) = bus_held K (klog (net p))"
    and "held (k_core K) (klog (net p')) = (if ret = 0 then (held (k_core K) (klog (net p)))\<lparr>h_alloc :=
      h_alloc (held (k_core K) (klog (net p))) + 1, h_registered := h_registered (held (k_core K) (klog (net p))) + 1\<rparr>
      else held (k_core K) (klog (net p)))"
    and "drv p' = Drv_board (if ret = 0 then bd\<lparr>ndev_list_head := priv (net p') # ndev_list_head bd\<rparr> else bd)"
proof -
  obtain s where s: "ctucan_probe_common B (k_core K) addr 4 100000000 False
      (Some (ctucan_pci_set_drvdata K)) (net p) = (ret, s)" and p': "p' = (if ret = 0 then link_peer (p\<lparr>net := s\<rparr>) else p\<lparr>net := s\<rparr>)"
    using assms(1) by (auto simp: pci_probe_core_def Let_def split: prod.splits)
  have n: "net p' = s" unfolding p' by (auto simp: link_peer_def split: drvdata.split)
  have f: "klog (ctucan_pci_set_drvdata K t) = klog t" for t :: "'a ndev" by (simp add: ctucan_pci_set_drvdata_def)
  show "bus_held K (klog (net p')) = bus_held K (klog (net p))"
    unfolding n by (rule bus_probe_common [OF s]) (auto simp: f)
  show "held (k_core K) (klog (net p')) = (if ret = 0 then (held (k_core K) (klog (net p)))\<lparr>h_alloc :=
      h_alloc (held (k_core K) (klog (net p))) + 1, h_registered := h_registered (held (k_core K) (klog (net p))) + 1\<rparr>
      else held (k_core K) (klog (net p)))"
    unfolding n using probe_held [OF s assms(3)] f by (simp add: neutral_def)
  show "drv p' = Drv_board (if ret = 0 then bd\<lparr>ndev_list_head := priv (net p') # ndev_list_head bd\<rparr> else bd)"
    using assms(2) n unfolding p' by (auto simp: link_peer_def)
qed

text \<open>The cores on the list of the card are those registered, and each holds one network device.\<close>

definition cores_added :: "nat \<Rightarrow> resources \<Rightarrow> resources" where
  "cores_added n h = h\<lparr>h_alloc := h_alloc h + int n, h_registered := h_registered h + int n\<rparr>"

lemma cores_added_simps [simp]:
  "cores_added 0 h = h"
  "cores_added m (cores_added n h) = cores_added (n + m) h"
  by (simp_all add: cores_added_def)

definition cores_linked :: "bus_kern \<Rightarrow> ctucan_pci_board_data \<Rightarrow> 'd pdev \<Rightarrow> 'd pdev \<Rightarrow> bool" where
  "cores_linked K bd p p' = (\<exists>cs. drv p' = Drv_board (bd\<lparr>ndev_list_head := cs @ ndev_list_head bd\<rparr>) \<and>
     p_held K p' = (cores_added (length cs) (held (k_core K) (klog (net p))), bus_held K (klog (net p))))"

lemma cores_linked_refl: "drv p = Drv_board bd \<Longrightarrow> cores_linked K bd p p"
  unfolding cores_linked_def by (rule exI [of _ "[]"]) simp

lemma cores_linked_trans:
  assumes "cores_linked K bd p q" "\<And>bd'. drv q = Drv_board bd' \<Longrightarrow> cores_linked K bd' q r"
  shows "cores_linked K bd p r"
proof -
  obtain cs where cs: "drv q = Drv_board (bd\<lparr>ndev_list_head := cs @ ndev_list_head bd\<rparr>)"
    "p_held K q = (cores_added (length cs) (held (k_core K) (klog (net p))), bus_held K (klog (net p)))"
    using assms(1) by (auto simp: cores_linked_def)
  then obtain cs' where "drv r = Drv_board (bd\<lparr>ndev_list_head := (cs' @ cs) @ ndev_list_head bd\<rparr>)"
    "p_held K r = (cores_added (length (cs' @ cs)) (held (k_core K) (klog (net p))), bus_held K (klog (net p)))"
    using assms(2) [OF cs(1)] by (auto simp: cores_linked_def add.commute)
  then show ?thesis unfolding cores_linked_def by blast
qed

lemma probe_core_linked:
  assumes "pci_probe_core B K addr p = (ret, p')" "drv p = Drv_board bd"
    and "\<forall>l e. k_clk_get (k_core K) l = Some e \<longrightarrow> e \<noteq> 0"
  shows "cores_linked K bd p p'"
    and "ret \<noteq> 0 \<Longrightarrow> drv p' = drv p \<and> p_held K p' = p_held K p"
proof -
  note h = pci_core_held [OF assms]
  show "cores_linked K bd p p'"
    unfolding cores_linked_def
    using h by (intro exI [of _ "if ret = 0 then [priv (net p')] else []"]) (auto simp: cores_added_def)
  show "drv p' = drv p \<and> p_held K p' = p_held K p" if "ret \<noteq> 0"
    using h that assms(2) by simp
qed

lemma more_cores_linked:
  assumes "\<forall>l e. k_clk_get (k_core K) l = Some e \<longrightarrow> e \<noteq> 0" "drv p = Drv_board bd"
  shows "cores_linked K bd p (pci_more_cores B K num core_i addr p)"
  using assms
proof (induction B K num core_i addr p arbitrary: bd rule: pci_more_cores.induct)
  case (1 B K num core_i addr p)
  obtain ret q where q: "pci_probe_core B K (addr + 0x4000) p = (ret, q)" by fastforce
  note l = probe_core_linked(1) [OF q 1(3,2)]
  show ?case
  proof (cases "core_i < num \<and> \<not> ret < 0")
    case True
    then have "pci_more_cores B K num core_i addr p = pci_more_cores B K num (core_i + 1) (addr + 0x4000) q"
      using q by (simp add: pci_more_cores.simps [of B K num core_i])
    then show ?thesis
      using cores_linked_trans [OF l] 1(1) [OF _ refl q [symmetric] refl _ 1(2)] True by simp
  next
    case False
    then show ?thesis
      using q l cores_linked_refl [OF 1(3)] by (auto simp: pci_more_cores.simps [of B K num core_i])
  qed
qed

lemma remove_cores_held:
  "p_held K (pci_remove_cores cs p) =
     ((held (k_core K) (klog (net p)))\<lparr>h_alloc := h_alloc (held (k_core K) (klog (net p))) - int (length cs),
        h_registered := h_registered (held (k_core K) (klog (net p))) - int (length cs)\<rparr>, bus_held K (klog (net p)))"
  "drv (pci_remove_cores cs p) = drv p"
  by (induction cs arbitrary: p) (auto simp: Let_def)

lemma io_log [simp]: "klog (iowrite32 B v a s) = klog s" "klog (snd (ioread32 B a s)) = klog s"
  by (simp_all add: iowrite32_def ioread32_def Let_def split: prod.split)

lemmas pci_unwind_defs = err_free_board_def err_pci_iounmap_bar0_def err_pci_iounmap_bar1_def
  err_release_regions_def err_disable_device_def

lemma net_hw_log [simp]: "klog (net (p\<lparr>net := s\<rparr>)) = klog s" "drv (p\<lparr>net := s\<rparr>) = drv p"
  by simp_all

lemma bridge_irq_log [simp]:
  "klog (net (pci_bridge_irq B a p)) = klog (net p)" "drv (pci_bridge_irq B a p) = drv p"
  by (simp_all add: pci_bridge_irq_def ioread32_def Let_def split: prod.split)

definition cra_of :: "nat \<Rightarrow> iomem \<Rightarrow> iomem" where
  "cra_of driver_data bar0 = (if driver_data = CTUCAN_WITHOUT_CTUCAN_ID then bar0 else bar0 + CTUCAN_BAR0_CRA_BASE)"

text \<open>The first core, from the state in which both ranges are mapped and the data of the card are stored.\<close>

lemma probe_board_cases:
  assumes "pci_probe_board B K second dd msi_ok addr bar0 p = (ret, p')"
  obtains q where "klog (net q) = klog (net p)" "\<not> k_kzalloc K (klog (net q))" "ret = - ENOMEM"
      "p' = err_pci_iounmap_bar0 msi_ok addr (cra_of dd bar0) (pdo Kzalloc q)"
    | q c where "klog (net q) = klog (net p)" "k_kzalloc K (klog (net q))"
      "pci_probe_core B K addr ((pdo Pci_set_drvdata (pdo Kzalloc q))\<lparr>drv := Drv_board \<lparr>bar0_base = bar0,
        cra_base = cra_of dd bar0, bar1_base = addr, ndev_list_head = [], bd_use_msi = msi_ok\<rparr>\<rparr>) = (ret, c)"
      "ret < 0" "p' = err_free_board msi_ok addr (cra_of dd bar0) c"
    | q num c r where "klog (net q) = klog (net p)" "k_kzalloc K (klog (net q))"
      "pci_probe_core B K addr ((pdo Pci_set_drvdata (pdo Kzalloc q))\<lparr>drv := Drv_board \<lparr>bar0_base = bar0,
        cra_base = cra_of dd bar0, bar1_base = addr, ndev_list_head = [], bd_use_msi = msi_ok\<rparr>\<rparr>) = (r, c)"
      "ret = 0"
      "p' = pci_bridge_irq B (cra_of dd bar0) (if second then pci_more_cores B K num 1 addr c else c)"
proof -
  obtain v t where io: "ioread32 B (bar0 + CTUCAN_BAR0_CTUCAN_ID) (net p) = (v, t)" by fastforce
  then have t: "klog t = klog (net p)" using io_log(2) [of B "bar0 + CTUCAN_BAR0_CTUCAN_ID" "net p"] by simp
  define q where "q = (if dd = CTUCAN_WITHOUT_CTUCAN_ID then p else p\<lparr>net := t\<rparr>)"
  define num where "num = (if dd = CTUCAN_WITHOUT_CTUCAN_ID then 2 else unat (v AND 0xf))"
  obtain r c where c: "pci_probe_core B K addr ((pdo Pci_set_drvdata (pdo Kzalloc q))\<lparr>drv := Drv_board \<lparr>bar0_base = bar0,
        cra_base = cra_of dd bar0, bar1_base = addr, ndev_list_head = [], bd_use_msi = msi_ok\<rparr>\<rparr>) = (r, c)" by fastforce
  have q: "klog (net q) = klog (net p)" by (simp add: q_def t)
  have "(ret, p') = (if \<not> k_kzalloc K (klog (net q))
      then (- ENOMEM, err_pci_iounmap_bar0 msi_ok addr (cra_of dd bar0) (pdo Kzalloc q))
      else if r < 0 then (r, err_free_board msi_ok addr (cra_of dd bar0) c)
      else (0, pci_bridge_irq B (cra_of dd bar0) (if second then pci_more_cores B K num 1 addr c else c)))"
    using assms c io unfolding pci_probe_board_def q_def num_def cra_of_def
    by (cases "dd = CTUCAN_WITHOUT_CTUCAN_ID"; cases "k_kzalloc K (klog (net q))"; cases "r < 0") (auto simp: Let_def q_def)
  then show ?thesis using q c that by (auto split: if_splits)
qed

lemma probe_board_fails:
  assumes "pci_probe_board B K second dd msi_ok addr bar0 p = (ret, p')" "ret \<noteq> 0"
    and "\<forall>l e. k_clk_get (k_core K) l = Some e \<longrightarrow> e \<noteq> 0"
  shows "p_held K p' = p_held K (err_pci_iounmap_bar0 msi_ok addr (cra_of dd bar0) p)"
  using assms(1)
proof (cases rule: probe_board_cases)
  case (1 q)
  then show ?thesis by (auto simp: pci_unwind_defs Let_def)
next
  case (2 q c)
  from 2(4) probe_core_linked(2) [OF 2(3) _ assms(3)] have "p_held K c = p_held K (pdo Kzalloc q)"
    by (auto simp: Let_def)
  with 2 show ?thesis by (auto simp: pci_unwind_defs Let_def)
qed (use assms(2) in auto)

lemma probe_board_done:
  assumes "pci_probe_board B K second dd msi_ok addr bar0 p = (0, p')"
    and "\<forall>l e. k_clk_get (k_core K) l = Some e \<longrightarrow> e \<noteq> 0"
  shows "\<exists>cs. drv p' = Drv_board \<lparr>bar0_base = bar0, cra_base = cra_of dd bar0, bar1_base = addr,
      ndev_list_head = cs, bd_use_msi = msi_ok\<rparr> \<and>
    held (k_core K) (klog (net p')) = cores_added (length cs) (held (k_core K) (klog (net p))) \<and>
    bus_held K (klog (net p')) = (bus_held K (klog (net p)))\<lparr>p_bdata := p_bdata (bus_held K (klog (net p))) + 1\<rparr>"
  using assms(1)
proof (cases rule: probe_board_cases)
  case (3 q num c r)
  let ?bd = "\<lparr>bar0_base = bar0, cra_base = cra_of dd bar0, bar1_base = addr, ndev_list_head = [], bd_use_msi = msi_ok\<rparr>"
  let ?q = "(pdo Pci_set_drvdata (pdo Kzalloc q))\<lparr>drv := Drv_board ?bd\<rparr>"
  have "cores_linked K ?bd ?q c" by (rule probe_core_linked(1) [OF 3(3) _ assms(2)]) simp
  then have "cores_linked K ?bd ?q (if second then pci_more_cores B K num 1 addr c else c)"
    using cores_linked_trans [OF _ more_cores_linked [OF assms(2)]] by auto
  then show ?thesis using 3 by (auto simp: cores_linked_def Let_def)
qed (auto simp: errno_defs)

section \<open>Failed and successful probes\<close>

definition bus_mapped :: "bool \<Rightarrow> iomem \<Rightarrow> iomem \<Rightarrow> bus_resources \<Rightarrow> bus_resources" where
  "bus_mapped msi_ok bar1 bar0 h = h\<lparr>p_enabled := p_enabled h + 1, p_regions := p_regions h + 1,
     p_msi := p_msi h + of_bool msi_ok, p_master := p_master h + of_bool msi_ok,
     p_map := (\<lambda>a. p_map h a + of_bool (a = bar1) + of_bool (a = bar0))\<rparr>"

text \<open>A probe either fails before both ranges are mapped, with all undone, or goes on with the card.\<close>

lemma pci_probe_cases:
  assumes "ctucan_pci_probe B K msi second dd p = (ret, p')"
  obtains "ret \<noteq> 0" "p_held K p' = p_held K p"
    | msi_ok bar1 bar0 q where
      "p_held K q = (held (k_core K) (klog (net p)), bus_mapped msi_ok bar1 bar0 (bus_held K (klog (net p))))"
      "pci_probe_board B K second dd msi_ok bar1 bar0 q = (ret, p')" "\<exists>l. k_pci_iomap K l 0 = Some bar0"
proof -
  let ?p2 = "pdo Pci_request_regions (pdo Pci_enable_device p)"
  define m where "m = (msi \<and> k_pci_enable_msi K (klog (net ?p2)) = 0)"
  define p3 where "p3 = (if msi then (if m then pdo Pci_set_master (pdo Pci_enable_msi ?p2) else pdo Pci_enable_msi ?p2)
    else ?p2)"
  have "ctucan_pci_probe B K msi second dd p =
     (if k_pci_enable_device K (klog (net p)) \<noteq> 0
      then (k_pci_enable_device K (klog (net p)), pdo (Dev_err ''pci_enable_device FAILED'') (pdo Pci_enable_device p))
      else if k_pci_request_regions K (klog (net (pdo Pci_enable_device p))) \<noteq> 0
      then (k_pci_request_regions K (klog (net (pdo Pci_enable_device p))),
        err_disable_device (pdo (Dev_err ''pci_request_regions FAILED'') ?p2))
      else case k_pci_iomap K (klog (net p3)) 1 of
             None \<Rightarrow> (- ENOMEM, err_release_regions m (pdo (Dev_err ''PCI BAR 1 cannot be mapped'') (pdo (Pci_iomap 1) p3)))
           | Some addr \<Rightarrow>
               (case k_pci_iomap K (klog (net (pdo (Pci_iomap 1) p3))) 0 of
                    None \<Rightarrow> (- EIO, err_pci_iounmap_bar1 m addr
                      (pdo (Dev_err ''PCI BAR 0 cannot be mapped'') (pdo (Pci_iomap 0) (pdo (Pci_iomap 1) p3))))
                  | Some bar0 \<Rightarrow> pci_probe_board B K second dd m addr bar0 (pdo (Pci_iomap 0) (pdo (Pci_iomap 1) p3))))"
    unfolding ctucan_pci_probe_def p3_def m_def Let_def
    by (cases msi; cases "k_pci_enable_msi K (klog (net ?p2)) = 0") (simp_all cong: option.case_cong)
  note eq = trans [OF assms [symmetric] this]
  have h3: "p_held K p3 = (held (k_core K) (klog (net p)), (bus_held K (klog (net p)))\<lparr>
      p_enabled := p_enabled (bus_held K (klog (net p))) + 1, p_regions := p_regions (bus_held K (klog (net p))) + 1,
      p_msi := p_msi (bus_held K (klog (net p))) + of_bool m,
      p_master := p_master (bus_held K (klog (net p))) + of_bool m\<rparr>)"
    if "k_pci_enable_device K (klog (net p)) = 0" "k_pci_request_regions K (klog (net (pdo Pci_enable_device p))) = 0"
    using that by (simp add: p3_def m_def Let_def)
  show ?thesis
  proof (cases "k_pci_enable_device K (klog (net p)) = 0 \<and> k_pci_request_regions K (klog (net (pdo Pci_enable_device p))) = 0")
    case False
    then show ?thesis using eq that(1) by (auto simp: pci_unwind_defs Let_def split: if_splits)
  next
    case True
    note h3 = h3 [OF conjunct1 [OF True] conjunct2 [OF True]]
    show ?thesis
    proof (cases "k_pci_iomap K (klog (net p3)) 1 \<noteq> None \<and> k_pci_iomap K (klog (net (pdo (Pci_iomap 1) p3))) 0 \<noteq> None")
      case False
      then show ?thesis using eq True that(1) h3
        by (auto simp: pci_unwind_defs Let_def errno_defs fun_eq_iff split: option.splits)
    next
      case mapped: True
      then obtain bar1 bar0 where b: "k_pci_iomap K (klog (net p3)) 1 = Some bar1"
        "k_pci_iomap K (klog (net (pdo (Pci_iomap 1) p3))) 0 = Some bar0" by blast
      have "p_held K (pdo (Pci_iomap 0) (pdo (Pci_iomap 1) p3)) =
          (held (k_core K) (klog (net p)), bus_mapped m bar1 bar0 (bus_held K (klog (net p))))"
        using h3 b by (auto simp: Let_def bus_mapped_def fun_eq_iff)
      moreover have "pci_probe_board B K second dd m bar1 bar0 (pdo (Pci_iomap 0) (pdo (Pci_iomap 1) p3)) = (ret, p')"
        using eq True b by simp
      moreover have "\<exists>l. k_pci_iomap K l 0 = Some bar0" using b(2) by blast
      ultimately show ?thesis by (rule that(2))
    qed
  qed
qed



text \<open>A probe of a platform device that fails leaves nothing behind; after one that succeeds, the removal
  gives back all it has taken.\<close>

lemma platform_probe_remove:
  assumes "ctucan_platform_probe B K p = (ret, p')" "\<forall>l e. k_clk_get (k_core K) l = Some e \<longrightarrow> e \<noteq> 0"
    and "\<forall>l e. k_ioremap_resource K l = Inl e \<longrightarrow> e < 0"
  shows "if ret = 0 then \<exists>p''. ctucan_platform_remove p' = Inr (0, p'') \<and> p_held K p'' = p_held K p
    else p_held K p' = p_held K p"
proof (cases "k_ioremap_resource K (klog (net p))")
  case (Inl e)
  then show ?thesis using assms by (auto simp: ctucan_platform_probe_def Let_def)
next
  case (Inr addr)
  let ?q = "pdo Platform_get_irq (pdo Platform_ioremap_resource p)"
  obtain r s where s: "ctucan_probe_common B (k_core K) addr 4 0 True (Some ctucan_platform_set_drvdata) (net ?q) = (r, s)"
    by fastforce
  have h: "held (k_core K) (klog s) = (if r = 0 then (held (k_core K) (klog (net p)))\<lparr>
      h_alloc := h_alloc (held (k_core K) (klog (net p))) + 1,
      h_pm_enabled := h_pm_enabled (held (k_core K) (klog (net p))) + 1,
      h_registered := h_registered (held (k_core K) (klog (net p))) + 1\<rparr> else held (k_core K) (klog (net p)))"
    using probe_held [OF s assms(2)] by (auto simp: neutral_def ctucan_platform_set_drvdata_def Let_def)
  have "bus_held K (klog s) = bus_held K (klog (net ?q))"
    by (rule bus_probe_common [OF s]) (auto simp: ctucan_platform_set_drvdata_def Let_def)
  with h s Inr assms(1) show ?thesis
    by (auto simp: ctucan_platform_probe_def ctucan_platform_remove_def Let_def split: if_splits)
qed

text \<open>Suspend and resume take the network device from the pointer stored for the device. On the platform bus
  that is the network device, and both complete; the PCI probe stores the data of the card there, so
  that both access an object of another type.\<close>

lemma pm_operations:
  assumes "ctucan_pci_probe B K msi second dd p = (0, p')" "ctucan_platform_probe B K q = (0, q')"
    and "\<forall>l e. k_clk_get (k_core K) l = Some e \<longrightarrow> e \<noteq> 0" "\<forall>l e. k_ioremap_resource K l = Inl e \<longrightarrow> e < 0"
  shows "ctucan_dev_suspend K' p' = Inl WrongObject \<and> ctucan_dev_resume K' p' = Inl WrongObject \<and>
    (\<exists>q1 q2. ctucan_dev_suspend K' q' = Inr (0, q1) \<and> ctucan_dev_resume K' q1 = Inr (0, q2))"
proof -
  obtain bd where "drv p' = Drv_board bd"
    using assms(1)
  proof (cases rule: pci_probe_cases)
    case (2 msi_ok bar1 bar0 q)
    then show ?thesis using probe_board_done [OF 2(2) assms(3)] that by blast
  qed simp
  moreover obtain c where "drv q' = Drv_ndev c"
    using assms(2,4) by (auto simp: ctucan_platform_probe_def Let_def split: sum.splits prod.splits if_splits)
  ultimately show ?thesis
    by (simp add: ctucan_dev_suspend_def ctucan_dev_resume_def ctucan_suspend_def ctucan_resume_def Let_def)
qed

section \<open>A card that answers\<close>

text \<open>A device that gives its identification on every read, and a kernel that grants every request.\<close>

definition id_bus :: "unit bus" where
  "id_bus = \<lparr>ld32 = (\<lambda>d a. (0xCAFD, d)), st32 = (\<lambda>d a v. d)\<rparr>"

definition demo_bus_kern :: bus_kern where
  "demo_bus_kern = \<lparr>k_core = demo_kern, k_pci_enable_device = (\<lambda>_. 0), k_pci_request_regions = (\<lambda>_. 0),
     k_pci_enable_msi = (\<lambda>_. 0), k_pci_iomap = (\<lambda>_ k. Some (if k = 0 then 0x10000 else 0x20000)), k_kzalloc = (\<lambda>_. True),
     k_ioremap_resource = (\<lambda>_. Inr 0x30000), k_get_irq = (\<lambda>_. 5), K_IRQF_SHARED = 0x80\<rparr>"

definition demo_pdev :: "unit pdev" where
  "demo_pdev = \<lparr>drv = Drv_null, net = demo_ndev [] ()\<rparr>"

lemma id_bus_read: "ctucan_read32 id_bus r s = (bus_order (reg_access (priv s)) 0xCAFD, s)"
  by (simp add: ctucan_read32_bus id_bus_def)

lemma id_bus_reset: "reg_access (priv s) = IO_LE \<Longrightarrow> fst (ctucan_reset id_bus s) = 0"
proof -
  assume a: "reg_access (priv s) = IO_LE"
  have "fst (reset_loop id_bus 100 s) = 0" if "reg_access (priv s) = IO_LE" for s
    using reset_loop.simps(2) [of id_bus 99 s] that
    by (simp add: id_bus_read reg_masks bus_order_def FIELD_GET_GENMASK take_bit_eq_mod)
  with a show ?thesis by (simp add: ctucan_reset_def Let_def)
qed

lemma id_bus_probe:
  "fst (probe_device id_bus demo_kern rate pm s) = 0"
proof -
  let ?s0 = "upd_priv (\<lambda>p. p\<lparr>reg_access := IO_LE\<rparr>) s"
  let ?s1 = "kdo Pm_runtime_get_sync (if pm then kdo Pm_runtime_enable ?s0 else ?s0)"
  have a: "reg_access (priv ?s1) = IO_LE" by simp
  then have "probe_order id_bus ?s1 = (True, ?s1)"
    by (simp add: probe_order_def id_bus_read bus_order_def CTUCANFD_ID_def Let_def)
  with id_bus_reset [OF a] show ?thesis
    by (cases pm; cases "ctucan_reset id_bus ?s1") (simp_all add: probe_device_def Let_def demo_kern_def)
qed

lemma id_bus_pci: "fst (ctucan_pci_probe id_bus demo_bus_kern True True CTUCAN_WITH_CTUCAN_ID demo_pdev) = 0"
  using id_bus_probe
  by (simp add: ctucan_pci_probe_def pci_probe_board_def pci_probe_core_def ctucan_probe_common_def
      demo_bus_kern_def demo_kern_def Let_def split_def)

lemma id_bus_platform: "fst (ctucan_platform_probe id_bus demo_bus_kern demo_pdev) = 0"
  using id_bus_probe
  by (simp add: ctucan_platform_probe_def ctucan_probe_common_def demo_bus_kern_def demo_kern_def Let_def split_def)

lemma demo_clk: "\<forall>l e. k_clk_get (k_core demo_bus_kern) l = Some e \<longrightarrow> e \<noteq> 0"
  by (simp add: demo_bus_kern_def demo_kern_def)

lemma demo_ioremap: "\<forall>l e. k_ioremap_resource demo_bus_kern l = Inl e \<longrightarrow> e < 0"
  by (simp add: demo_bus_kern_def)



lemma platform_probe_remove_witness:
  "\<exists>p''. ctucan_platform_remove (snd (ctucan_platform_probe id_bus demo_bus_kern demo_pdev)) = Inr (0, p'') \<and>
     p_held demo_bus_kern p'' = p_held demo_bus_kern demo_pdev"
proof -
  have "ctucan_platform_probe id_bus demo_bus_kern demo_pdev =
      (0, snd (ctucan_platform_probe id_bus demo_bus_kern demo_pdev))" using id_bus_platform by (metis prod.collapse)
  from platform_probe_remove [OF this demo_clk demo_ioremap] show ?thesis by simp
qed

lemma pm_operations_witness:
  "ctucan_dev_suspend demo_kern (snd (ctucan_pci_probe id_bus demo_bus_kern True True CTUCAN_WITH_CTUCAN_ID demo_pdev)) = Inl WrongObject \<and>
   (\<exists>q1. ctucan_dev_suspend demo_kern (snd (ctucan_platform_probe id_bus demo_bus_kern demo_pdev)) = Inr (0, q1))"
proof -
  let ?p = "ctucan_pci_probe id_bus demo_bus_kern True True CTUCAN_WITH_CTUCAN_ID demo_pdev"
  let ?q = "ctucan_platform_probe id_bus demo_bus_kern demo_pdev"
  have "?p = (0, snd ?p)" "?q = (0, snd ?q)" using id_bus_pci id_bus_platform by (metis prod.collapse)+
  from pm_operations [OF this demo_clk demo_ioremap, of demo_kern] show ?thesis by blast
qed

end
