(* ===== verification/Ctu_Regs.thy ===== *)
theory Ctu_Regs
  imports Ctu_Kregs
begin

text \<open>
  The bit-field unions of the low-level driver, \<open>driver/ctucanfd_regs.h\<close> and
  \<open>driver/ctucanfd_frame.h\<close>. Each union is its two declarations of fields and widths,
  the one for \<open>__LITTLE_ENDIAN_BITFIELD\<close> and the one for big-endian bit-fields; a
  field access is a lookup of the field in the little-endian declaration, which
  allocates from bit 0 upwards. The theorems show that the big-endian declarations
  place every field at the same bits, and that the masks of the kernel driver's
  headers name the same fields.
\<close>

section \<open>Bit-field unions\<close>

record union_layout =
  le_fields :: "(string \<times> nat) list"
  be_fields :: "(string \<times> nat) list"

text \<open>
  Position and width of every field. A little-endian ABI allocates bit-fields from the
  least significant bit, a big-endian one from the most significant bit.
\<close>

fun alloc_le :: "nat \<Rightarrow> (string \<times> nat) list \<Rightarrow> (string \<times> nat \<times> nat) list" where
  "alloc_le off [] = []"
| "alloc_le off ((n, w) # fs) = (n, off, w) # alloc_le (off + w) fs"

fun alloc_be :: "nat \<Rightarrow> (string \<times> nat) list \<Rightarrow> (string \<times> nat \<times> nat) list" where
  "alloc_be hi [] = []"
| "alloc_be hi ((n, w) # fs) = (n, hi - w, w) # alloc_be (hi - w) fs"

definition field_pos :: "union_layout \<Rightarrow> string \<Rightarrow> (nat \<times> nat) option" where
  "field_pos u n = map_of (alloc_le 0 (le_fields u)) n"

definition bf_get :: "nat \<Rightarrow> nat \<Rightarrow> u32 \<Rightarrow> u32" where
  "bf_get off w r = take_bit w (drop_bit off r)"

definition bf_set :: "nat \<Rightarrow> nat \<Rightarrow> u32 \<Rightarrow> u32 \<Rightarrow> u32" where
  "bf_set off w v r = (r AND NOT (push_bit off (mask w))) OR push_bit off (take_bit w v)"

definition get_s :: "union_layout \<Rightarrow> string \<Rightarrow> u32 \<Rightarrow> u32" where
  "get_s u n r = (case field_pos u n of Some (off, w) \<Rightarrow> bf_get off w r | None \<Rightarrow> 0)"

definition set_s :: "union_layout \<Rightarrow> string \<Rightarrow> u32 \<Rightarrow> u32 \<Rightarrow> u32" where
  "set_s u n v r = (case field_pos u n of Some (off, w) \<Rightarrow> bf_set off w v r | None \<Rightarrow> r)"

section \<open>Register offsets\<close>

definition CTU_CAN_FD_DEVICE_ID :: u32 where [reg_addrs]: "CTU_CAN_FD_DEVICE_ID = 0x0"
definition CTU_CAN_FD_VERSION :: u32 where [reg_addrs]: "CTU_CAN_FD_VERSION = 0x2"
definition CTU_CAN_FD_MODE :: u32 where [reg_addrs]: "CTU_CAN_FD_MODE = 0x4"
definition CTU_CAN_FD_SETTINGS :: u32 where [reg_addrs]: "CTU_CAN_FD_SETTINGS = 0x6"
definition CTU_CAN_FD_STATUS :: u32 where [reg_addrs]: "CTU_CAN_FD_STATUS = 0x8"
definition CTU_CAN_FD_COMMAND :: u32 where [reg_addrs]: "CTU_CAN_FD_COMMAND = 0xc"
definition CTU_CAN_FD_INT_STAT :: u32 where [reg_addrs]: "CTU_CAN_FD_INT_STAT = 0x10"
definition CTU_CAN_FD_INT_ENA_SET :: u32 where [reg_addrs]: "CTU_CAN_FD_INT_ENA_SET = 0x14"
definition CTU_CAN_FD_INT_ENA_CLR :: u32 where [reg_addrs]: "CTU_CAN_FD_INT_ENA_CLR = 0x18"
definition CTU_CAN_FD_INT_MASK_SET :: u32 where [reg_addrs]: "CTU_CAN_FD_INT_MASK_SET = 0x1c"
definition CTU_CAN_FD_INT_MASK_CLR :: u32 where [reg_addrs]: "CTU_CAN_FD_INT_MASK_CLR = 0x20"
definition CTU_CAN_FD_BTR :: u32 where [reg_addrs]: "CTU_CAN_FD_BTR = 0x24"
definition CTU_CAN_FD_BTR_FD :: u32 where [reg_addrs]: "CTU_CAN_FD_BTR_FD = 0x28"
definition CTU_CAN_FD_EWL :: u32 where [reg_addrs]: "CTU_CAN_FD_EWL = 0x2c"
definition CTU_CAN_FD_ERP :: u32 where [reg_addrs]: "CTU_CAN_FD_ERP = 0x2d"
definition CTU_CAN_FD_FAULT_STATE :: u32 where [reg_addrs]: "CTU_CAN_FD_FAULT_STATE = 0x2e"
definition CTU_CAN_FD_REC :: u32 where [reg_addrs]: "CTU_CAN_FD_REC = 0x30"
definition CTU_CAN_FD_TEC :: u32 where [reg_addrs]: "CTU_CAN_FD_TEC = 0x32"
definition CTU_CAN_FD_ERR_NORM :: u32 where [reg_addrs]: "CTU_CAN_FD_ERR_NORM = 0x34"
definition CTU_CAN_FD_ERR_FD :: u32 where [reg_addrs]: "CTU_CAN_FD_ERR_FD = 0x36"
definition CTU_CAN_FD_CTR_PRES :: u32 where [reg_addrs]: "CTU_CAN_FD_CTR_PRES = 0x38"
definition CTU_CAN_FD_FILTER_A_MASK :: u32 where [reg_addrs]: "CTU_CAN_FD_FILTER_A_MASK = 0x3c"
definition CTU_CAN_FD_FILTER_A_VAL :: u32 where [reg_addrs]: "CTU_CAN_FD_FILTER_A_VAL = 0x40"
definition CTU_CAN_FD_FILTER_B_MASK :: u32 where [reg_addrs]: "CTU_CAN_FD_FILTER_B_MASK = 0x44"
definition CTU_CAN_FD_FILTER_B_VAL :: u32 where [reg_addrs]: "CTU_CAN_FD_FILTER_B_VAL = 0x48"
definition CTU_CAN_FD_FILTER_C_MASK :: u32 where [reg_addrs]: "CTU_CAN_FD_FILTER_C_MASK = 0x4c"
definition CTU_CAN_FD_FILTER_C_VAL :: u32 where [reg_addrs]: "CTU_CAN_FD_FILTER_C_VAL = 0x50"
definition CTU_CAN_FD_FILTER_RAN_LOW :: u32 where [reg_addrs]: "CTU_CAN_FD_FILTER_RAN_LOW = 0x54"
definition CTU_CAN_FD_FILTER_RAN_HIGH :: u32 where [reg_addrs]: "CTU_CAN_FD_FILTER_RAN_HIGH = 0x58"
definition CTU_CAN_FD_FILTER_CONTROL :: u32 where [reg_addrs]: "CTU_CAN_FD_FILTER_CONTROL = 0x5c"
definition CTU_CAN_FD_FILTER_STATUS :: u32 where [reg_addrs]: "CTU_CAN_FD_FILTER_STATUS = 0x5e"
definition CTU_CAN_FD_RX_MEM_INFO :: u32 where [reg_addrs]: "CTU_CAN_FD_RX_MEM_INFO = 0x60"
definition CTU_CAN_FD_RX_POINTERS :: u32 where [reg_addrs]: "CTU_CAN_FD_RX_POINTERS = 0x64"
definition CTU_CAN_FD_RX_STATUS :: u32 where [reg_addrs]: "CTU_CAN_FD_RX_STATUS = 0x68"
definition CTU_CAN_FD_RX_SETTINGS :: u32 where [reg_addrs]: "CTU_CAN_FD_RX_SETTINGS = 0x6a"
definition CTU_CAN_FD_RX_DATA :: u32 where [reg_addrs]: "CTU_CAN_FD_RX_DATA = 0x6c"
definition CTU_CAN_FD_TX_STATUS :: u32 where [reg_addrs]: "CTU_CAN_FD_TX_STATUS = 0x70"
definition CTU_CAN_FD_TX_COMMAND :: u32 where [reg_addrs]: "CTU_CAN_FD_TX_COMMAND = 0x74"
definition CTU_CAN_FD_TXTB_INFO :: u32 where [reg_addrs]: "CTU_CAN_FD_TXTB_INFO = 0x76"
definition CTU_CAN_FD_TX_PRIORITY :: u32 where [reg_addrs]: "CTU_CAN_FD_TX_PRIORITY = 0x78"
definition CTU_CAN_FD_ERR_CAPT :: u32 where [reg_addrs]: "CTU_CAN_FD_ERR_CAPT = 0x7c"
definition CTU_CAN_FD_RETR_CTR :: u32 where [reg_addrs]: "CTU_CAN_FD_RETR_CTR = 0x7d"
definition CTU_CAN_FD_ALC :: u32 where [reg_addrs]: "CTU_CAN_FD_ALC = 0x7e"
definition CTU_CAN_FD_TS_INFO :: u32 where [reg_addrs]: "CTU_CAN_FD_TS_INFO = 0x7f"
definition CTU_CAN_FD_TRV_DELAY :: u32 where [reg_addrs]: "CTU_CAN_FD_TRV_DELAY = 0x80"
definition CTU_CAN_FD_SSP_CFG :: u32 where [reg_addrs]: "CTU_CAN_FD_SSP_CFG = 0x82"
definition CTU_CAN_FD_RX_FR_CTR :: u32 where [reg_addrs]: "CTU_CAN_FD_RX_FR_CTR = 0x84"
definition CTU_CAN_FD_TX_FR_CTR :: u32 where [reg_addrs]: "CTU_CAN_FD_TX_FR_CTR = 0x88"
definition CTU_CAN_FD_DEBUG_REGISTER :: u32 where [reg_addrs]: "CTU_CAN_FD_DEBUG_REGISTER = 0x8c"
definition CTU_CAN_FD_YOLO_REG :: u32 where [reg_addrs]: "CTU_CAN_FD_YOLO_REG = 0x90"
definition CTU_CAN_FD_TIMESTAMP_LOW :: u32 where [reg_addrs]: "CTU_CAN_FD_TIMESTAMP_LOW = 0x94"
definition CTU_CAN_FD_TIMESTAMP_HIGH :: u32 where [reg_addrs]: "CTU_CAN_FD_TIMESTAMP_HIGH = 0x98"
definition CTU_CAN_FD_TST_CONTROL :: u32 where [reg_addrs]: "CTU_CAN_FD_TST_CONTROL = 0x900"
definition CTU_CAN_FD_TST_DEST :: u32 where [reg_addrs]: "CTU_CAN_FD_TST_DEST = 0x904"
definition CTU_CAN_FD_TST_WDATA :: u32 where [reg_addrs]: "CTU_CAN_FD_TST_WDATA = 0x908"
definition CTU_CAN_FD_TST_RDATA :: u32 where [reg_addrs]: "CTU_CAN_FD_TST_RDATA = 0x90c"
definition CTU_CAN_FD_ID :: u32 where [reg_addrs]: "CTU_CAN_FD_ID = 0xcafd"

definition ctu_can_fd_txtb_data_1_4 :: "u32 list list" where
  "ctu_can_fd_txtb_data_1_4 = [
    [0x100, 0x104, 0x108, 0x10c, 0x110, 0x114, 0x118, 0x11c, 0x120, 0x124, 0x128, 0x12c, 0x130, 0x134, 0x138, 0x13c, 0x140, 0x144, 0x148, 0x14c, 0x150],
    [0x200, 0x204, 0x208, 0x20c, 0x210, 0x214, 0x218, 0x21c, 0x220, 0x224, 0x228, 0x22c, 0x230, 0x234, 0x238, 0x23c, 0x240, 0x244, 0x248, 0x24c, 0x250],
    [0x300, 0x304, 0x308, 0x30c, 0x310, 0x314, 0x318, 0x31c, 0x320, 0x324, 0x328, 0x32c, 0x330, 0x334, 0x338, 0x33c, 0x340, 0x344, 0x348, 0x34c, 0x350],
    [0x400, 0x404, 0x408, 0x40c, 0x410, 0x414, 0x418, 0x41c, 0x420, 0x424, 0x428, 0x42c, 0x430, 0x434, 0x438, 0x43c, 0x440, 0x444, 0x448, 0x44c, 0x450]]"

definition ctu_can_fd_txtb_data_5_8 :: "u32 list list" where
  "ctu_can_fd_txtb_data_5_8 = [
    [0x500, 0x504, 0x508, 0x50c, 0x510, 0x514, 0x518, 0x51c, 0x520, 0x524, 0x528, 0x52c, 0x530, 0x534, 0x538, 0x53c, 0x540, 0x544, 0x548, 0x54c, 0x550],
    [0x600, 0x604, 0x608, 0x60c, 0x610, 0x614, 0x618, 0x61c, 0x620, 0x624, 0x628, 0x62c, 0x630, 0x634, 0x638, 0x63c, 0x640, 0x644, 0x648, 0x64c, 0x650],
    [0x700, 0x704, 0x708, 0x70c, 0x710, 0x714, 0x718, 0x71c, 0x720, 0x724, 0x728, 0x72c, 0x730, 0x734, 0x738, 0x73c, 0x740, 0x744, 0x748, 0x74c, 0x750],
    [0x800, 0x804, 0x808, 0x80c, 0x810, 0x814, 0x818, 0x81c, 0x820, 0x824, 0x828, 0x82c, 0x830, 0x834, 0x838, 0x83c, 0x840, 0x844, 0x848, 0x84c, 0x850]]"

definition CTU_CAN_FD_FRAME_FORMAT_W :: u32 where [reg_addrs]: "CTU_CAN_FD_FRAME_FORMAT_W = 0x0"
definition CTU_CAN_FD_IDENTIFIER_W :: u32 where [reg_addrs]: "CTU_CAN_FD_IDENTIFIER_W = 0x4"
definition CTU_CAN_FD_TIMESTAMP_L_W :: u32 where [reg_addrs]: "CTU_CAN_FD_TIMESTAMP_L_W = 0x8"
definition CTU_CAN_FD_TIMESTAMP_U_W :: u32 where [reg_addrs]: "CTU_CAN_FD_TIMESTAMP_U_W = 0xc"
definition CTU_CAN_FD_DATA_1_4_W :: u32 where [reg_addrs]: "CTU_CAN_FD_DATA_1_4_W = 0x10"
definition CTU_CAN_FD_DATA_5_8_W :: u32 where [reg_addrs]: "CTU_CAN_FD_DATA_5_8_W = 0x14"
definition CTU_CAN_FD_DATA_9_12_W :: u32 where [reg_addrs]: "CTU_CAN_FD_DATA_9_12_W = 0x18"
definition CTU_CAN_FD_DATA_13_16_W :: u32 where [reg_addrs]: "CTU_CAN_FD_DATA_13_16_W = 0x1c"
definition CTU_CAN_FD_DATA_17_20_W :: u32 where [reg_addrs]: "CTU_CAN_FD_DATA_17_20_W = 0x20"
definition CTU_CAN_FD_DATA_21_24_W :: u32 where [reg_addrs]: "CTU_CAN_FD_DATA_21_24_W = 0x24"
definition CTU_CAN_FD_DATA_25_28_W :: u32 where [reg_addrs]: "CTU_CAN_FD_DATA_25_28_W = 0x28"
definition CTU_CAN_FD_DATA_29_32_W :: u32 where [reg_addrs]: "CTU_CAN_FD_DATA_29_32_W = 0x2c"
definition CTU_CAN_FD_DATA_33_36_W :: u32 where [reg_addrs]: "CTU_CAN_FD_DATA_33_36_W = 0x30"
definition CTU_CAN_FD_DATA_37_40_W :: u32 where [reg_addrs]: "CTU_CAN_FD_DATA_37_40_W = 0x34"
definition CTU_CAN_FD_DATA_41_44_W :: u32 where [reg_addrs]: "CTU_CAN_FD_DATA_41_44_W = 0x38"
definition CTU_CAN_FD_DATA_45_48_W :: u32 where [reg_addrs]: "CTU_CAN_FD_DATA_45_48_W = 0x3c"
definition CTU_CAN_FD_DATA_49_52_W :: u32 where [reg_addrs]: "CTU_CAN_FD_DATA_49_52_W = 0x40"
definition CTU_CAN_FD_DATA_53_56_W :: u32 where [reg_addrs]: "CTU_CAN_FD_DATA_53_56_W = 0x44"
definition CTU_CAN_FD_DATA_57_60_W :: u32 where [reg_addrs]: "CTU_CAN_FD_DATA_57_60_W = 0x48"
definition CTU_CAN_FD_DATA_61_64_W :: u32 where [reg_addrs]: "CTU_CAN_FD_DATA_61_64_W = 0x4c"
definition CTU_CAN_FD_FRAME_TEST_W :: u32 where [reg_addrs]: "CTU_CAN_FD_FRAME_TEST_W = 0x50"

section \<open>The unions of the register map\<close>

definition ctu_can_fd_device_id_version :: union_layout where
  "ctu_can_fd_device_id_version = \<lparr>
    le_fields = [(''device_id'', 16), (''ver_minor'', 8), (''ver_major'', 8)],
    be_fields = [(''ver_major'', 8), (''ver_minor'', 8), (''device_id'', 16)]\<rparr>"

definition ctu_can_fd_mode_settings :: union_layout where
  "ctu_can_fd_mode_settings = \<lparr>
    le_fields = [(''rst'', 1), (''bmm'', 1), (''stm'', 1), (''afm'', 1), (''fde'', 1), (''tttm'', 1),
      (''rom'', 1), (''acf'', 1), (''tstm'', 1), (''rxbam'', 1), (''txbbm'', 1),
      (''sam'', 1), (''erfm'', 1), (''reserved_15_13'', 3), (''rtrle'', 1), (''rtrth'', 4),
      (''ilbp'', 1), (''ena'', 1), (''nisofd'', 1), (''pex'', 1), (''tbfbo'', 1),
      (''fdrf'', 1), (''pchke'', 1), (''reserved_31_28'', 4)],
    be_fields = [(''reserved_31_28'', 4), (''pchke'', 1), (''fdrf'', 1), (''tbfbo'', 1), (''pex'', 1),
      (''nisofd'', 1), (''ena'', 1), (''ilbp'', 1), (''rtrth'', 4), (''rtrle'', 1),
      (''reserved_15_13'', 3), (''erfm'', 1), (''sam'', 1), (''txbbm'', 1), (''rxbam'', 1),
      (''tstm'', 1), (''acf'', 1), (''rom'', 1), (''tttm'', 1), (''fde'', 1), (''afm'', 1),
      (''stm'', 1), (''bmm'', 1), (''rst'', 1)]\<rparr>"

definition ctu_can_fd_status :: union_layout where
  "ctu_can_fd_status = \<lparr>
    le_fields = [(''rxne'', 1), (''dor'', 1), (''txnf'', 1), (''eft'', 1), (''rxs'', 1), (''txs'', 1),
      (''ewl'', 1), (''idle'', 1), (''pexs'', 1), (''rxpe'', 1), (''txpe'', 1),
      (''txdpe'', 1), (''reserved_15_12'', 4), (''stcnt'', 1), (''strgs'', 1), (''sprt'', 1),
      (''reserved_31_19'', 13)],
    be_fields = [(''reserved_31_19'', 13), (''sprt'', 1), (''strgs'', 1), (''stcnt'', 1),
      (''reserved_15_12'', 4), (''txdpe'', 1), (''txpe'', 1), (''rxpe'', 1), (''pexs'', 1),
      (''idle'', 1), (''ewl'', 1), (''txs'', 1), (''rxs'', 1), (''eft'', 1), (''txnf'', 1),
      (''dor'', 1), (''rxne'', 1)]\<rparr>"

definition ctu_can_fd_command :: union_layout where
  "ctu_can_fd_command = \<lparr>
    le_fields = [(''reserved_0'', 1), (''rxrpmv'', 1), (''rrb'', 1), (''cdo'', 1), (''ercrst'', 1),
      (''rxfcrst'', 1), (''txfcrst'', 1), (''cpexs'', 1), (''crxpe'', 1), (''ctxpe'', 1),
      (''ctxdpe'', 1), (''reserved_31_11'', 21)],
    be_fields = [(''reserved_31_11'', 21), (''ctxdpe'', 1), (''ctxpe'', 1), (''crxpe'', 1),
      (''cpexs'', 1), (''txfcrst'', 1), (''rxfcrst'', 1), (''ercrst'', 1), (''cdo'', 1),
      (''rrb'', 1), (''rxrpmv'', 1), (''reserved_0'', 1)]\<rparr>"

definition ctu_can_fd_int_stat :: union_layout where
  "ctu_can_fd_int_stat = \<lparr>
    le_fields = [(''rxi'', 1), (''txi'', 1), (''ewli'', 1), (''doi'', 1), (''fcsi'', 1), (''ali'', 1),
      (''bei'', 1), (''ofi'', 1), (''rxfi'', 1), (''bsi'', 1), (''rbnei'', 1),
      (''txbhci'', 1), (''reserved_31_12'', 20)],
    be_fields = [(''reserved_31_12'', 20), (''txbhci'', 1), (''rbnei'', 1), (''bsi'', 1),
      (''rxfi'', 1), (''ofi'', 1), (''bei'', 1), (''ali'', 1), (''fcsi'', 1), (''doi'', 1),
      (''ewli'', 1), (''txi'', 1), (''rxi'', 1)]\<rparr>"

definition ctu_can_fd_int_ena_set :: union_layout where
  "ctu_can_fd_int_ena_set = \<lparr>
    le_fields = [(''int_ena_set'', 12), (''reserved_31_12'', 20)],
    be_fields = [(''reserved_31_12'', 20), (''int_ena_set'', 12)]\<rparr>"

definition ctu_can_fd_int_ena_clr :: union_layout where
  "ctu_can_fd_int_ena_clr = \<lparr>
    le_fields = [(''int_ena_clr'', 12), (''reserved_31_12'', 20)],
    be_fields = [(''reserved_31_12'', 20), (''int_ena_clr'', 12)]\<rparr>"

definition ctu_can_fd_int_mask_set :: union_layout where
  "ctu_can_fd_int_mask_set = \<lparr>
    le_fields = [(''int_mask_set'', 12), (''reserved_31_12'', 20)],
    be_fields = [(''reserved_31_12'', 20), (''int_mask_set'', 12)]\<rparr>"

definition ctu_can_fd_int_mask_clr :: union_layout where
  "ctu_can_fd_int_mask_clr = \<lparr>
    le_fields = [(''int_mask_clr'', 12), (''reserved_31_12'', 20)],
    be_fields = [(''reserved_31_12'', 20), (''int_mask_clr'', 12)]\<rparr>"

definition ctu_can_fd_btr :: union_layout where
  "ctu_can_fd_btr = \<lparr>
    le_fields = [(''prop'', 7), (''ph1'', 6), (''ph2'', 6), (''brp'', 8), (''sjw'', 5)],
    be_fields = [(''sjw'', 5), (''brp'', 8), (''ph2'', 6), (''ph1'', 6), (''prop'', 7)]\<rparr>"

definition ctu_can_fd_btr_fd :: union_layout where
  "ctu_can_fd_btr_fd = \<lparr>
    le_fields = [(''prop_fd'', 6), (''reserved_6'', 1), (''ph1_fd'', 5), (''reserved_12'', 1),
      (''ph2_fd'', 5), (''reserved_18'', 1), (''brp_fd'', 8), (''sjw_fd'', 5)],
    be_fields = [(''sjw_fd'', 5), (''brp_fd'', 8), (''reserved_18'', 1), (''ph2_fd'', 5),
      (''reserved_12'', 1), (''ph1_fd'', 5), (''reserved_6'', 1), (''prop_fd'', 6)]\<rparr>"

definition ctu_can_fd_ewl_erp_fault_state :: union_layout where
  "ctu_can_fd_ewl_erp_fault_state = \<lparr>
    le_fields = [(''ew_limit'', 8), (''erp_limit'', 8), (''era'', 1), (''erp'', 1), (''bof'', 1),
      (''reserved_31_19'', 13)],
    be_fields = [(''reserved_31_19'', 13), (''bof'', 1), (''erp'', 1), (''era'', 1),
      (''erp_limit'', 8), (''ew_limit'', 8)]\<rparr>"

definition ctu_can_fd_rec_tec :: union_layout where
  "ctu_can_fd_rec_tec = \<lparr>
    le_fields = [(''rec_val'', 9), (''reserved_15_9'', 7), (''tec_val'', 9), (''reserved_31_25'', 7)],
    be_fields = [(''reserved_31_25'', 7), (''tec_val'', 9), (''reserved_15_9'', 7), (''rec_val'', 9)]\<rparr>"

definition ctu_can_fd_err_norm_err_fd :: union_layout where
  "ctu_can_fd_err_norm_err_fd = \<lparr>
    le_fields = [(''err_norm_val'', 16), (''err_fd_val'', 16)],
    be_fields = [(''err_fd_val'', 16), (''err_norm_val'', 16)]\<rparr>"

definition ctu_can_fd_ctr_pres :: union_layout where
  "ctu_can_fd_ctr_pres = \<lparr>
    le_fields = [(''ctpv'', 9), (''ptx'', 1), (''prx'', 1), (''enorm'', 1), (''efd'', 1),
      (''reserved_31_13'', 19)],
    be_fields = [(''reserved_31_13'', 19), (''efd'', 1), (''enorm'', 1), (''prx'', 1), (''ptx'', 1),
      (''ctpv'', 9)]\<rparr>"

definition ctu_can_fd_filter_a_mask :: union_layout where
  "ctu_can_fd_filter_a_mask = \<lparr>
    le_fields = [(''bit_mask_a_val'', 29), (''reserved_31_29'', 3)],
    be_fields = [(''reserved_31_29'', 3), (''bit_mask_a_val'', 29)]\<rparr>"

definition ctu_can_fd_filter_a_val :: union_layout where
  "ctu_can_fd_filter_a_val = \<lparr>
    le_fields = [(''bit_val_a_val'', 29), (''reserved_31_29'', 3)],
    be_fields = [(''reserved_31_29'', 3), (''bit_val_a_val'', 29)]\<rparr>"

definition ctu_can_fd_filter_b_mask :: union_layout where
  "ctu_can_fd_filter_b_mask = \<lparr>
    le_fields = [(''bit_mask_b_val'', 29), (''reserved_31_29'', 3)],
    be_fields = [(''reserved_31_29'', 3), (''bit_mask_b_val'', 29)]\<rparr>"

definition ctu_can_fd_filter_b_val :: union_layout where
  "ctu_can_fd_filter_b_val = \<lparr>
    le_fields = [(''bit_val_b_val'', 29), (''reserved_31_29'', 3)],
    be_fields = [(''reserved_31_29'', 3), (''bit_val_b_val'', 29)]\<rparr>"

definition ctu_can_fd_filter_c_mask :: union_layout where
  "ctu_can_fd_filter_c_mask = \<lparr>
    le_fields = [(''bit_mask_c_val'', 29), (''reserved_31_29'', 3)],
    be_fields = [(''reserved_31_29'', 3), (''bit_mask_c_val'', 29)]\<rparr>"

definition ctu_can_fd_filter_c_val :: union_layout where
  "ctu_can_fd_filter_c_val = \<lparr>
    le_fields = [(''bit_val_c_val'', 29), (''reserved_31_29'', 3)],
    be_fields = [(''reserved_31_29'', 3), (''bit_val_c_val'', 29)]\<rparr>"

definition ctu_can_fd_filter_ran_low :: union_layout where
  "ctu_can_fd_filter_ran_low = \<lparr>
    le_fields = [(''bit_ran_low_val'', 29), (''reserved_31_29'', 3)],
    be_fields = [(''reserved_31_29'', 3), (''bit_ran_low_val'', 29)]\<rparr>"

definition ctu_can_fd_filter_ran_high :: union_layout where
  "ctu_can_fd_filter_ran_high = \<lparr>
    le_fields = [(''bit_ran_high_val'', 29), (''reserved_31_29'', 3)],
    be_fields = [(''reserved_31_29'', 3), (''bit_ran_high_val'', 29)]\<rparr>"

definition ctu_can_fd_filter_control_filter_status :: union_layout where
  "ctu_can_fd_filter_control_filter_status = \<lparr>
    le_fields = [(''fanb'', 1), (''fane'', 1), (''fafb'', 1), (''fafe'', 1), (''fbnb'', 1),
      (''fbne'', 1), (''fbfb'', 1), (''fbfe'', 1), (''fcnb'', 1), (''fcne'', 1),
      (''fcfb'', 1), (''fcfe'', 1), (''frnb'', 1), (''frne'', 1), (''frfb'', 1),
      (''frfe'', 1), (''sfa'', 1), (''sfb'', 1), (''sfc'', 1), (''sfr'', 1),
      (''reserved_31_20'', 12)],
    be_fields = [(''reserved_31_20'', 12), (''sfr'', 1), (''sfc'', 1), (''sfb'', 1), (''sfa'', 1),
      (''frfe'', 1), (''frfb'', 1), (''frne'', 1), (''frnb'', 1), (''fcfe'', 1),
      (''fcfb'', 1), (''fcne'', 1), (''fcnb'', 1), (''fbfe'', 1), (''fbfb'', 1),
      (''fbne'', 1), (''fbnb'', 1), (''fafe'', 1), (''fafb'', 1), (''fane'', 1),
      (''fanb'', 1)]\<rparr>"

definition ctu_can_fd_rx_mem_info :: union_layout where
  "ctu_can_fd_rx_mem_info = \<lparr>
    le_fields = [(''rx_buff_size'', 13), (''reserved_15_13'', 3), (''rx_mem_free'', 13),
      (''reserved_31_29'', 3)],
    be_fields = [(''reserved_31_29'', 3), (''rx_mem_free'', 13), (''reserved_15_13'', 3),
      (''rx_buff_size'', 13)]\<rparr>"

definition ctu_can_fd_rx_pointers :: union_layout where
  "ctu_can_fd_rx_pointers = \<lparr>
    le_fields = [(''rx_wpp'', 12), (''reserved_15_12'', 4), (''rx_rpp'', 12), (''reserved_31_28'', 4)],
    be_fields = [(''reserved_31_28'', 4), (''rx_rpp'', 12), (''reserved_15_12'', 4), (''rx_wpp'', 12)]\<rparr>"

definition ctu_can_fd_rx_status_rx_settings :: union_layout where
  "ctu_can_fd_rx_status_rx_settings = \<lparr>
    le_fields = [(''rxe'', 1), (''rxf'', 1), (''rxmof'', 1), (''reserved_3'', 1), (''rxfrc'', 11),
      (''reserved_15'', 1), (''rtsop'', 1), (''reserved_31_17'', 15)],
    be_fields = [(''reserved_31_17'', 15), (''rtsop'', 1), (''reserved_15'', 1), (''rxfrc'', 11),
      (''reserved_3'', 1), (''rxmof'', 1), (''rxf'', 1), (''rxe'', 1)]\<rparr>"

definition ctu_can_fd_rx_data :: union_layout where
  "ctu_can_fd_rx_data = \<lparr>
    le_fields = [(''rx_data'', 32)],
    be_fields = [(''rx_data'', 32)]\<rparr>"

definition ctu_can_fd_tx_status :: union_layout where
  "ctu_can_fd_tx_status = \<lparr>
    le_fields = [(''tx1s'', 4), (''tx2s'', 4), (''tx3s'', 4), (''tx4s'', 4), (''tx5s'', 4),
      (''tx6s'', 4), (''tx7s'', 4), (''tx8s'', 4)],
    be_fields = [(''tx8s'', 4), (''tx7s'', 4), (''tx6s'', 4), (''tx5s'', 4), (''tx4s'', 4),
      (''tx3s'', 4), (''tx2s'', 4), (''tx1s'', 4)]\<rparr>"

definition ctu_can_fd_tx_command_txtb_info :: union_layout where
  "ctu_can_fd_tx_command_txtb_info = \<lparr>
    le_fields = [(''txce'', 1), (''txcr'', 1), (''txca'', 1), (''reserved_7_3'', 5), (''txb1'', 1),
      (''txb2'', 1), (''txb3'', 1), (''txb4'', 1), (''txb5'', 1), (''txb6'', 1),
      (''txb7'', 1), (''txb8'', 1), (''txt_buffer_count'', 4), (''reserved_31_20'', 12)],
    be_fields = [(''reserved_31_20'', 12), (''txt_buffer_count'', 4), (''txb8'', 1), (''txb7'', 1),
      (''txb6'', 1), (''txb5'', 1), (''txb4'', 1), (''txb3'', 1), (''txb2'', 1),
      (''txb1'', 1), (''reserved_7_3'', 5), (''txca'', 1), (''txcr'', 1), (''txce'', 1)]\<rparr>"

definition ctu_can_fd_tx_priority :: union_layout where
  "ctu_can_fd_tx_priority = \<lparr>
    le_fields = [(''txt1p'', 3), (''reserved_3'', 1), (''txt2p'', 3), (''reserved_7'', 1),
      (''txt3p'', 3), (''reserved_11'', 1), (''txt4p'', 3), (''reserved_15'', 1),
      (''txt5p'', 3), (''reserved_19'', 1), (''txt6p'', 3), (''reserved_23'', 1),
      (''txt7p'', 3), (''reserved_27'', 1), (''txt8p'', 3), (''reserved_31'', 1)],
    be_fields = [(''reserved_31'', 1), (''txt8p'', 3), (''reserved_27'', 1), (''txt7p'', 3),
      (''reserved_23'', 1), (''txt6p'', 3), (''reserved_19'', 1), (''txt5p'', 3),
      (''reserved_15'', 1), (''txt4p'', 3), (''reserved_11'', 1), (''txt3p'', 3),
      (''reserved_7'', 1), (''txt2p'', 3), (''reserved_3'', 1), (''txt1p'', 3)]\<rparr>"

definition ctu_can_fd_err_capt_retr_ctr_alc_ts_info :: union_layout where
  "ctu_can_fd_err_capt_retr_ctr_alc_ts_info = \<lparr>
    le_fields = [(''err_pos'', 4), (''err_erp'', 1), (''err_type'', 3), (''retr_ctr_val'', 4),
      (''reserved_15_12'', 4), (''alc_bit'', 5), (''alc_id_field'', 3), (''ts_bits'', 6),
      (''reserved_31_30'', 2)],
    be_fields = [(''reserved_31_30'', 2), (''ts_bits'', 6), (''alc_id_field'', 3), (''alc_bit'', 5),
      (''reserved_15_12'', 4), (''retr_ctr_val'', 4), (''err_type'', 3), (''err_erp'', 1),
      (''err_pos'', 4)]\<rparr>"

definition ctu_can_fd_trv_delay_ssp_cfg :: union_layout where
  "ctu_can_fd_trv_delay_ssp_cfg = \<lparr>
    le_fields = [(''trv_delay_value'', 7), (''reserved_15_7'', 9), (''ssp_offset'', 8),
      (''ssp_src'', 2), (''reserved_31_26'', 6)],
    be_fields = [(''reserved_31_26'', 6), (''ssp_src'', 2), (''ssp_offset'', 8),
      (''reserved_15_7'', 9), (''trv_delay_value'', 7)]\<rparr>"

definition ctu_can_fd_rx_fr_ctr :: union_layout where
  "ctu_can_fd_rx_fr_ctr = \<lparr>
    le_fields = [(''rx_fr_ctr_val'', 32)],
    be_fields = [(''rx_fr_ctr_val'', 32)]\<rparr>"

definition ctu_can_fd_tx_fr_ctr :: union_layout where
  "ctu_can_fd_tx_fr_ctr = \<lparr>
    le_fields = [(''tx_fr_ctr_val'', 32)],
    be_fields = [(''tx_fr_ctr_val'', 32)]\<rparr>"

definition ctu_can_fd_debug_register :: union_layout where
  "ctu_can_fd_debug_register = \<lparr>
    le_fields = [(''stuff_count'', 3), (''destuff_count'', 3), (''pc_arb'', 1), (''pc_con'', 1),
      (''pc_dat'', 1), (''pc_stc'', 1), (''pc_crc'', 1), (''pc_crcd'', 1), (''pc_ack'', 1),
      (''pc_ackd'', 1), (''pc_eof'', 1), (''pc_int'', 1), (''pc_susp'', 1), (''pc_ovr'', 1),
      (''pc_sof'', 1), (''reserved_31_19'', 13)],
    be_fields = [(''reserved_31_19'', 13), (''pc_sof'', 1), (''pc_ovr'', 1), (''pc_susp'', 1),
      (''pc_int'', 1), (''pc_eof'', 1), (''pc_ackd'', 1), (''pc_ack'', 1), (''pc_crcd'', 1),
      (''pc_crc'', 1), (''pc_stc'', 1), (''pc_dat'', 1), (''pc_con'', 1), (''pc_arb'', 1),
      (''destuff_count'', 3), (''stuff_count'', 3)]\<rparr>"

definition ctu_can_fd_yolo_reg :: union_layout where
  "ctu_can_fd_yolo_reg = \<lparr>
    le_fields = [(''yolo_val'', 32)],
    be_fields = [(''yolo_val'', 32)]\<rparr>"

definition ctu_can_fd_timestamp_low :: union_layout where
  "ctu_can_fd_timestamp_low = \<lparr>
    le_fields = [(''timestamp_low'', 32)],
    be_fields = [(''timestamp_low'', 32)]\<rparr>"

definition ctu_can_fd_timestamp_high :: union_layout where
  "ctu_can_fd_timestamp_high = \<lparr>
    le_fields = [(''timestamp_high'', 32)],
    be_fields = [(''timestamp_high'', 32)]\<rparr>"

definition ctu_can_fd_tst_control :: union_layout where
  "ctu_can_fd_tst_control = \<lparr>
    le_fields = [(''tmaena'', 1), (''twrstb'', 1), (''reserved_31_2'', 30)],
    be_fields = [(''reserved_31_2'', 30), (''twrstb'', 1), (''tmaena'', 1)]\<rparr>"

definition ctu_can_fd_tst_dest :: union_layout where
  "ctu_can_fd_tst_dest = \<lparr>
    le_fields = [(''tst_addr'', 16), (''tst_mtgt'', 4), (''reserved_31_20'', 12)],
    be_fields = [(''reserved_31_20'', 12), (''tst_mtgt'', 4), (''tst_addr'', 16)]\<rparr>"

definition ctu_can_fd_tst_wdata :: union_layout where
  "ctu_can_fd_tst_wdata = \<lparr>
    le_fields = [(''tst_wdata'', 32)],
    be_fields = [(''tst_wdata'', 32)]\<rparr>"

definition ctu_can_fd_tst_rdata :: union_layout where
  "ctu_can_fd_tst_rdata = \<lparr>
    le_fields = [(''tst_rdata'', 32)],
    be_fields = [(''tst_rdata'', 32)]\<rparr>"

section \<open>The unions of the frame format\<close>

definition ctu_can_fd_frame_format_w :: union_layout where
  "ctu_can_fd_frame_format_w = \<lparr>
    le_fields = [(''dlc'', 4), (''erf'', 1), (''rtr'', 1), (''ide'', 1), (''fdf'', 1), (''lbpf'', 1),
      (''brs'', 1), (''esi_rsv'', 1), (''rwcnt'', 5), (''erf_pos'', 4), (''erf_erp'', 1),
      (''erf_type'', 3), (''ivld'', 1), (''lbtbi'', 3), (''reserved_31_28'', 4)],
    be_fields = [(''reserved_31_28'', 4), (''lbtbi'', 3), (''ivld'', 1), (''erf_type'', 3),
      (''erf_erp'', 1), (''erf_pos'', 4), (''rwcnt'', 5), (''esi_rsv'', 1), (''brs'', 1),
      (''lbpf'', 1), (''fdf'', 1), (''ide'', 1), (''rtr'', 1), (''erf'', 1), (''dlc'', 4)]\<rparr>"

definition ctu_can_fd_identifier_w :: union_layout where
  "ctu_can_fd_identifier_w = \<lparr>
    le_fields = [(''identifier_ext'', 18), (''identifier_base'', 11), (''reserved_31_29'', 3)],
    be_fields = [(''reserved_31_29'', 3), (''identifier_base'', 11), (''identifier_ext'', 18)]\<rparr>"

definition ctu_can_fd_timestamp_l_w :: union_layout where
  "ctu_can_fd_timestamp_l_w = \<lparr>
    le_fields = [(''time_stamp_l_w'', 32)],
    be_fields = [(''time_stamp_l_w'', 32)]\<rparr>"

definition ctu_can_fd_timestamp_u_w :: union_layout where
  "ctu_can_fd_timestamp_u_w = \<lparr>
    le_fields = [(''timestamp_u_w'', 32)],
    be_fields = [(''timestamp_u_w'', 32)]\<rparr>"

definition ctu_can_fd_data_1_4_w :: union_layout where
  "ctu_can_fd_data_1_4_w = \<lparr>
    le_fields = [(''data_1'', 8), (''data_2'', 8), (''data_3'', 8), (''data_4'', 8)],
    be_fields = [(''data_4'', 8), (''data_3'', 8), (''data_2'', 8), (''data_1'', 8)]\<rparr>"

definition ctu_can_fd_data_5_8_w :: union_layout where
  "ctu_can_fd_data_5_8_w = \<lparr>
    le_fields = [(''data_5'', 8), (''data_6'', 8), (''data_7'', 8), (''data_8'', 8)],
    be_fields = [(''data_8'', 8), (''data_7'', 8), (''data_6'', 8), (''data_5'', 8)]\<rparr>"

definition ctu_can_fd_data_9_12_w :: union_layout where
  "ctu_can_fd_data_9_12_w = \<lparr>
    le_fields = [(''data_9'', 8), (''data_10'', 8), (''data_11'', 8), (''data_12'', 8)],
    be_fields = [(''data_12'', 8), (''data_11'', 8), (''data_10'', 8), (''data_9'', 8)]\<rparr>"

definition ctu_can_fd_data_13_16_w :: union_layout where
  "ctu_can_fd_data_13_16_w = \<lparr>
    le_fields = [(''data_13'', 8), (''data_14'', 8), (''data_15'', 8), (''data_16'', 8)],
    be_fields = [(''data_16'', 8), (''data_15'', 8), (''data_14'', 8), (''data_13'', 8)]\<rparr>"

definition ctu_can_fd_data_17_20_w :: union_layout where
  "ctu_can_fd_data_17_20_w = \<lparr>
    le_fields = [(''data_17'', 8), (''data_18'', 8), (''data_19'', 8), (''data_20'', 8)],
    be_fields = [(''data_20'', 8), (''data_19'', 8), (''data_18'', 8), (''data_17'', 8)]\<rparr>"

definition ctu_can_fd_data_21_24_w :: union_layout where
  "ctu_can_fd_data_21_24_w = \<lparr>
    le_fields = [(''data_21'', 8), (''data_22'', 8), (''data_23'', 8), (''data_24'', 8)],
    be_fields = [(''data_24'', 8), (''data_23'', 8), (''data_22'', 8), (''data_21'', 8)]\<rparr>"

definition ctu_can_fd_data_25_28_w :: union_layout where
  "ctu_can_fd_data_25_28_w = \<lparr>
    le_fields = [(''data_25'', 8), (''data_26'', 8), (''data_27'', 8), (''data_28'', 8)],
    be_fields = [(''data_28'', 8), (''data_27'', 8), (''data_26'', 8), (''data_25'', 8)]\<rparr>"

definition ctu_can_fd_data_29_32_w :: union_layout where
  "ctu_can_fd_data_29_32_w = \<lparr>
    le_fields = [(''data_29'', 8), (''data_30'', 8), (''data_31'', 8), (''data_32'', 8)],
    be_fields = [(''data_32'', 8), (''data_31'', 8), (''data_30'', 8), (''data_29'', 8)]\<rparr>"

definition ctu_can_fd_data_33_36_w :: union_layout where
  "ctu_can_fd_data_33_36_w = \<lparr>
    le_fields = [(''data_33'', 8), (''data_34'', 8), (''data_35'', 8), (''data_36'', 8)],
    be_fields = [(''data_36'', 8), (''data_35'', 8), (''data_34'', 8), (''data_33'', 8)]\<rparr>"

definition ctu_can_fd_data_37_40_w :: union_layout where
  "ctu_can_fd_data_37_40_w = \<lparr>
    le_fields = [(''data_37'', 8), (''data_38'', 8), (''data_39'', 8), (''data_40'', 8)],
    be_fields = [(''data_40'', 8), (''data_39'', 8), (''data_38'', 8), (''data_37'', 8)]\<rparr>"

definition ctu_can_fd_data_41_44_w :: union_layout where
  "ctu_can_fd_data_41_44_w = \<lparr>
    le_fields = [(''data_41'', 8), (''data_42'', 8), (''data_43'', 8), (''data_44'', 8)],
    be_fields = [(''data_44'', 8), (''data_43'', 8), (''data_42'', 8), (''data_41'', 8)]\<rparr>"

definition ctu_can_fd_data_45_48_w :: union_layout where
  "ctu_can_fd_data_45_48_w = \<lparr>
    le_fields = [(''data_45'', 8), (''data_46'', 8), (''data_47'', 8), (''data_48'', 8)],
    be_fields = [(''data_48'', 8), (''data_47'', 8), (''data_46'', 8), (''data_45'', 8)]\<rparr>"

definition ctu_can_fd_data_49_52_w :: union_layout where
  "ctu_can_fd_data_49_52_w = \<lparr>
    le_fields = [(''data_49'', 8), (''data_50'', 8), (''data_51'', 8), (''data_52'', 8)],
    be_fields = [(''data_52'', 8), (''data_51'', 8), (''data_50'', 8), (''data_49'', 8)]\<rparr>"

definition ctu_can_fd_data_53_56_w :: union_layout where
  "ctu_can_fd_data_53_56_w = \<lparr>
    le_fields = [(''data_53'', 8), (''data_56'', 8), (''data_55'', 8), (''data_54'', 8)],
    be_fields = [(''data_54'', 8), (''data_55'', 8), (''data_56'', 8), (''data_53'', 8)]\<rparr>"

definition ctu_can_fd_data_57_60_w :: union_layout where
  "ctu_can_fd_data_57_60_w = \<lparr>
    le_fields = [(''data_57'', 8), (''data_58'', 8), (''data_59'', 8), (''data_60'', 8)],
    be_fields = [(''data_60'', 8), (''data_59'', 8), (''data_58'', 8), (''data_57'', 8)]\<rparr>"

definition ctu_can_fd_data_61_64_w :: union_layout where
  "ctu_can_fd_data_61_64_w = \<lparr>
    le_fields = [(''data_61'', 8), (''data_62'', 8), (''data_63'', 8), (''data_64'', 8)],
    be_fields = [(''data_64'', 8), (''data_63'', 8), (''data_62'', 8), (''data_61'', 8)]\<rparr>"

definition ctu_can_fd_frame_test_w :: union_layout where
  "ctu_can_fd_frame_test_w = \<lparr>
    le_fields = [(''fstc'', 1), (''fcrc'', 1), (''sdlc'', 1), (''reserved_7_3'', 5), (''tprm'', 5),
      (''reserved_31_13'', 19)],
    be_fields = [(''reserved_31_13'', 19), (''tprm'', 5), (''reserved_7_3'', 5), (''sdlc'', 1),
      (''fcrc'', 1), (''fstc'', 1)]\<rparr>"

section \<open>Tables of the headers\<close>

definition regs_offsets :: "(string \<times> u32) list" where
  "regs_offsets = [
     (''DEVICE_ID'', CTU_CAN_FD_DEVICE_ID), (''VERSION'', CTU_CAN_FD_VERSION),
     (''MODE'', CTU_CAN_FD_MODE), (''SETTINGS'', CTU_CAN_FD_SETTINGS),
     (''STATUS'', CTU_CAN_FD_STATUS), (''COMMAND'', CTU_CAN_FD_COMMAND),
     (''INT_STAT'', CTU_CAN_FD_INT_STAT), (''INT_ENA_SET'', CTU_CAN_FD_INT_ENA_SET),
     (''INT_ENA_CLR'', CTU_CAN_FD_INT_ENA_CLR), (''INT_MASK_SET'', CTU_CAN_FD_INT_MASK_SET),
     (''INT_MASK_CLR'', CTU_CAN_FD_INT_MASK_CLR), (''BTR'', CTU_CAN_FD_BTR),
     (''BTR_FD'', CTU_CAN_FD_BTR_FD), (''EWL'', CTU_CAN_FD_EWL), (''ERP'', CTU_CAN_FD_ERP),
     (''FAULT_STATE'', CTU_CAN_FD_FAULT_STATE), (''REC'', CTU_CAN_FD_REC),
     (''TEC'', CTU_CAN_FD_TEC), (''ERR_NORM'', CTU_CAN_FD_ERR_NORM),
     (''ERR_FD'', CTU_CAN_FD_ERR_FD), (''CTR_PRES'', CTU_CAN_FD_CTR_PRES),
     (''FILTER_A_MASK'', CTU_CAN_FD_FILTER_A_MASK), (''FILTER_A_VAL'', CTU_CAN_FD_FILTER_A_VAL),
     (''FILTER_B_MASK'', CTU_CAN_FD_FILTER_B_MASK), (''FILTER_B_VAL'', CTU_CAN_FD_FILTER_B_VAL),
     (''FILTER_C_MASK'', CTU_CAN_FD_FILTER_C_MASK), (''FILTER_C_VAL'', CTU_CAN_FD_FILTER_C_VAL),
     (''FILTER_RAN_LOW'', CTU_CAN_FD_FILTER_RAN_LOW),
     (''FILTER_RAN_HIGH'', CTU_CAN_FD_FILTER_RAN_HIGH),
     (''FILTER_CONTROL'', CTU_CAN_FD_FILTER_CONTROL),
     (''FILTER_STATUS'', CTU_CAN_FD_FILTER_STATUS), (''RX_MEM_INFO'', CTU_CAN_FD_RX_MEM_INFO),
     (''RX_POINTERS'', CTU_CAN_FD_RX_POINTERS), (''RX_STATUS'', CTU_CAN_FD_RX_STATUS),
     (''RX_SETTINGS'', CTU_CAN_FD_RX_SETTINGS), (''RX_DATA'', CTU_CAN_FD_RX_DATA),
     (''TX_STATUS'', CTU_CAN_FD_TX_STATUS), (''TX_COMMAND'', CTU_CAN_FD_TX_COMMAND),
     (''TXTB_INFO'', CTU_CAN_FD_TXTB_INFO), (''TX_PRIORITY'', CTU_CAN_FD_TX_PRIORITY),
     (''ERR_CAPT'', CTU_CAN_FD_ERR_CAPT), (''RETR_CTR'', CTU_CAN_FD_RETR_CTR),
     (''ALC'', CTU_CAN_FD_ALC), (''TS_INFO'', CTU_CAN_FD_TS_INFO),
     (''TRV_DELAY'', CTU_CAN_FD_TRV_DELAY), (''SSP_CFG'', CTU_CAN_FD_SSP_CFG),
     (''RX_FR_CTR'', CTU_CAN_FD_RX_FR_CTR), (''TX_FR_CTR'', CTU_CAN_FD_TX_FR_CTR),
     (''DEBUG_REGISTER'', CTU_CAN_FD_DEBUG_REGISTER), (''YOLO_REG'', CTU_CAN_FD_YOLO_REG),
     (''TIMESTAMP_LOW'', CTU_CAN_FD_TIMESTAMP_LOW),
     (''TIMESTAMP_HIGH'', CTU_CAN_FD_TIMESTAMP_HIGH)]"

definition regs_test_offsets :: "(string \<times> u32) list" where
  "regs_test_offsets = [
     (''TST_CONTROL'', CTU_CAN_FD_TST_CONTROL), (''TST_DEST'', CTU_CAN_FD_TST_DEST),
     (''TST_WDATA'', CTU_CAN_FD_TST_WDATA), (''TST_RDATA'', CTU_CAN_FD_TST_RDATA)]"

definition frame_offsets :: "(string \<times> u32) list" where
  "frame_offsets = [
     (''FRAME_FORMAT_W'', CTU_CAN_FD_FRAME_FORMAT_W), (''IDENTIFIER_W'', CTU_CAN_FD_IDENTIFIER_W),
     (''TIMESTAMP_L_W'', CTU_CAN_FD_TIMESTAMP_L_W), (''TIMESTAMP_U_W'', CTU_CAN_FD_TIMESTAMP_U_W),
     (''DATA_1_4_W'', CTU_CAN_FD_DATA_1_4_W), (''DATA_5_8_W'', CTU_CAN_FD_DATA_5_8_W),
     (''DATA_9_12_W'', CTU_CAN_FD_DATA_9_12_W), (''DATA_13_16_W'', CTU_CAN_FD_DATA_13_16_W),
     (''DATA_17_20_W'', CTU_CAN_FD_DATA_17_20_W), (''DATA_21_24_W'', CTU_CAN_FD_DATA_21_24_W),
     (''DATA_25_28_W'', CTU_CAN_FD_DATA_25_28_W), (''DATA_29_32_W'', CTU_CAN_FD_DATA_29_32_W),
     (''DATA_33_36_W'', CTU_CAN_FD_DATA_33_36_W), (''DATA_37_40_W'', CTU_CAN_FD_DATA_37_40_W),
     (''DATA_41_44_W'', CTU_CAN_FD_DATA_41_44_W), (''DATA_45_48_W'', CTU_CAN_FD_DATA_45_48_W),
     (''DATA_49_52_W'', CTU_CAN_FD_DATA_49_52_W), (''DATA_53_56_W'', CTU_CAN_FD_DATA_53_56_W),
     (''DATA_57_60_W'', CTU_CAN_FD_DATA_57_60_W), (''DATA_61_64_W'', CTU_CAN_FD_DATA_61_64_W),
     (''FRAME_TEST_W'', CTU_CAN_FD_FRAME_TEST_W)]"

definition regs_unions :: "union_layout list" where
  "regs_unions = [
    ctu_can_fd_device_id_version, ctu_can_fd_mode_settings, ctu_can_fd_status,
    ctu_can_fd_command, ctu_can_fd_int_stat, ctu_can_fd_int_ena_set, ctu_can_fd_int_ena_clr,
    ctu_can_fd_int_mask_set, ctu_can_fd_int_mask_clr, ctu_can_fd_btr, ctu_can_fd_btr_fd,
    ctu_can_fd_ewl_erp_fault_state, ctu_can_fd_rec_tec, ctu_can_fd_err_norm_err_fd,
    ctu_can_fd_ctr_pres, ctu_can_fd_filter_a_mask, ctu_can_fd_filter_a_val,
    ctu_can_fd_filter_b_mask, ctu_can_fd_filter_b_val, ctu_can_fd_filter_c_mask,
    ctu_can_fd_filter_c_val, ctu_can_fd_filter_ran_low, ctu_can_fd_filter_ran_high,
    ctu_can_fd_filter_control_filter_status, ctu_can_fd_rx_mem_info, ctu_can_fd_rx_pointers,
    ctu_can_fd_rx_status_rx_settings, ctu_can_fd_rx_data, ctu_can_fd_tx_status,
    ctu_can_fd_tx_command_txtb_info, ctu_can_fd_tx_priority,
    ctu_can_fd_err_capt_retr_ctr_alc_ts_info, ctu_can_fd_trv_delay_ssp_cfg,
    ctu_can_fd_rx_fr_ctr, ctu_can_fd_tx_fr_ctr, ctu_can_fd_debug_register,
    ctu_can_fd_yolo_reg, ctu_can_fd_timestamp_low, ctu_can_fd_timestamp_high,
    ctu_can_fd_tst_control, ctu_can_fd_tst_dest, ctu_can_fd_tst_wdata, ctu_can_fd_tst_rdata]"

definition frame_unions :: "union_layout list" where
  "frame_unions = [
    ctu_can_fd_frame_format_w, ctu_can_fd_identifier_w, ctu_can_fd_timestamp_l_w,
    ctu_can_fd_timestamp_u_w, ctu_can_fd_data_1_4_w, ctu_can_fd_data_5_8_w,
    ctu_can_fd_data_9_12_w, ctu_can_fd_data_13_16_w, ctu_can_fd_data_17_20_w,
    ctu_can_fd_data_21_24_w, ctu_can_fd_data_25_28_w, ctu_can_fd_data_29_32_w,
    ctu_can_fd_data_33_36_w, ctu_can_fd_data_37_40_w, ctu_can_fd_data_41_44_w,
    ctu_can_fd_data_45_48_w, ctu_can_fd_data_49_52_w, ctu_can_fd_data_53_56_w,
    ctu_can_fd_data_57_60_w, ctu_can_fd_data_61_64_w, ctu_can_fd_frame_test_w]"

text \<open>The kernel headers' field masks, listed next to the union of the same register.\<close>

definition kregs_fields_1 :: "(union_layout \<times> u32 list) list" where
  "kregs_fields_1 = [
    (ctu_can_fd_device_id_version,
      [REG_DEVICE_ID_DEVICE_ID, REG_DEVICE_ID_VER_MINOR, REG_DEVICE_ID_VER_MAJOR]),
    (ctu_can_fd_mode_settings,
      [REG_MODE_RST, REG_MODE_BMM, REG_MODE_STM, REG_MODE_AFM, REG_MODE_FDE, REG_MODE_TTTM,
       REG_MODE_ROM, REG_MODE_ACF, REG_MODE_TSTM, REG_MODE_RXBAM, REG_MODE_TXBBM, REG_MODE_SAM,
       REG_MODE_ERFM, REG_MODE_RTRLE, REG_MODE_RTRTH, REG_MODE_ILBP, REG_MODE_ENA,
       REG_MODE_NISOFD, REG_MODE_PEX, REG_MODE_TBFBO, REG_MODE_FDRF, REG_MODE_PCHKE]),
    (ctu_can_fd_status,
      [REG_STATUS_RXNE, REG_STATUS_DOR, REG_STATUS_TXNF, REG_STATUS_EFT, REG_STATUS_RXS,
       REG_STATUS_TXS, REG_STATUS_EWL, REG_STATUS_IDLE, REG_STATUS_PEXS, REG_STATUS_RXPE,
       REG_STATUS_TXPE, REG_STATUS_TXDPE, REG_STATUS_STCNT, REG_STATUS_STRGS, REG_STATUS_SPRT]),
    (ctu_can_fd_command,
      [REG_COMMAND_RXRPMV, REG_COMMAND_RRB, REG_COMMAND_CDO, REG_COMMAND_ERCRST,
       REG_COMMAND_RXFCRST, REG_COMMAND_TXFCRST, REG_COMMAND_CPEXS, REG_COMMAND_CRXPE,
       REG_COMMAND_CTXPE, REG_COMMAND_CTXDPE]),
    (ctu_can_fd_int_stat,
      [REG_INT_STAT_RXI, REG_INT_STAT_TXI, REG_INT_STAT_EWLI, REG_INT_STAT_DOI, REG_INT_STAT_FCSI,
       REG_INT_STAT_ALI, REG_INT_STAT_BEI, REG_INT_STAT_OFI, REG_INT_STAT_RXFI, REG_INT_STAT_BSI,
       REG_INT_STAT_RBNEI, REG_INT_STAT_TXBHCI]),
    (ctu_can_fd_int_ena_set,
      [REG_INT_ENA_SET_INT_ENA_SET]),
    (ctu_can_fd_int_ena_clr,
      [REG_INT_ENA_CLR_INT_ENA_CLR]),
    (ctu_can_fd_int_mask_set,
      [REG_INT_MASK_SET_INT_MASK_SET]),
    (ctu_can_fd_int_mask_clr,
      [REG_INT_MASK_CLR_INT_MASK_CLR]),
    (ctu_can_fd_btr,
      [REG_BTR_PROP, REG_BTR_PH1, REG_BTR_PH2, REG_BTR_BRP, REG_BTR_SJW]),
    (ctu_can_fd_btr_fd,
      [REG_BTR_FD_PROP_FD, REG_BTR_FD_PH1_FD, REG_BTR_FD_PH2_FD, REG_BTR_FD_BRP_FD,
       REG_BTR_FD_SJW_FD]),
    (ctu_can_fd_ewl_erp_fault_state,
      [REG_EWL_EW_LIMIT, REG_EWL_ERP_LIMIT, REG_EWL_ERA, REG_EWL_ERP, REG_EWL_BOF]),
    (ctu_can_fd_rec_tec,
      [REG_REC_REC_VAL, REG_REC_TEC_VAL]),
    (ctu_can_fd_err_norm_err_fd,
      [REG_ERR_NORM_ERR_NORM_VAL, REG_ERR_NORM_ERR_FD_VAL]),
    (ctu_can_fd_ctr_pres,
      [REG_CTR_PRES_CTPV, REG_CTR_PRES_PTX, REG_CTR_PRES_PRX, REG_CTR_PRES_ENORM, REG_CTR_PRES_EFD])]"

definition kregs_fields_2 :: "(union_layout \<times> u32 list) list" where
  "kregs_fields_2 = [
    (ctu_can_fd_filter_a_mask,
      [REG_FILTER_A_MASK_BIT_MASK_A_VAL]),
    (ctu_can_fd_filter_a_val,
      [REG_FILTER_A_VAL_BIT_VAL_A_VAL]),
    (ctu_can_fd_filter_b_mask,
      [REG_FILTER_B_MASK_BIT_MASK_B_VAL]),
    (ctu_can_fd_filter_b_val,
      [REG_FILTER_B_VAL_BIT_VAL_B_VAL]),
    (ctu_can_fd_filter_c_mask,
      [REG_FILTER_C_MASK_BIT_MASK_C_VAL]),
    (ctu_can_fd_filter_c_val,
      [REG_FILTER_C_VAL_BIT_VAL_C_VAL]),
    (ctu_can_fd_filter_ran_low,
      [REG_FILTER_RAN_LOW_BIT_RAN_LOW_VAL]),
    (ctu_can_fd_filter_ran_high,
      [REG_FILTER_RAN_HIGH_BIT_RAN_HIGH_VAL]),
    (ctu_can_fd_filter_control_filter_status,
      [REG_FILTER_CONTROL_FANB, REG_FILTER_CONTROL_FANE, REG_FILTER_CONTROL_FAFB,
       REG_FILTER_CONTROL_FAFE, REG_FILTER_CONTROL_FBNB, REG_FILTER_CONTROL_FBNE,
       REG_FILTER_CONTROL_FBFB, REG_FILTER_CONTROL_FBFE, REG_FILTER_CONTROL_FCNB,
       REG_FILTER_CONTROL_FCNE, REG_FILTER_CONTROL_FCFB, REG_FILTER_CONTROL_FCFE,
       REG_FILTER_CONTROL_FRNB, REG_FILTER_CONTROL_FRNE, REG_FILTER_CONTROL_FRFB,
       REG_FILTER_CONTROL_FRFE, REG_FILTER_CONTROL_SFA, REG_FILTER_CONTROL_SFB,
       REG_FILTER_CONTROL_SFC, REG_FILTER_CONTROL_SFR]),
    (ctu_can_fd_rx_mem_info,
      [REG_RX_MEM_INFO_RX_BUFF_SIZE, REG_RX_MEM_INFO_RX_MEM_FREE]),
    (ctu_can_fd_rx_pointers,
      [REG_RX_POINTERS_RX_WPP, REG_RX_POINTERS_RX_RPP]),
    (ctu_can_fd_rx_status_rx_settings,
      [REG_RX_STATUS_RXE, REG_RX_STATUS_RXF, REG_RX_STATUS_RXMOF, REG_RX_STATUS_RXFRC,
       REG_RX_STATUS_RTSOP]),
    (ctu_can_fd_rx_data,
      [REG_RX_DATA_RX_DATA]),
    (ctu_can_fd_tx_status,
      [REG_TX_STATUS_TX1S, REG_TX_STATUS_TX2S, REG_TX_STATUS_TX3S, REG_TX_STATUS_TX4S,
       REG_TX_STATUS_TX5S, REG_TX_STATUS_TX6S, REG_TX_STATUS_TX7S, REG_TX_STATUS_TX8S]),
    (ctu_can_fd_tx_command_txtb_info,
      [REG_TX_COMMAND_TXCE, REG_TX_COMMAND_TXCR, REG_TX_COMMAND_TXCA, REG_TX_COMMAND_TXB1,
       REG_TX_COMMAND_TXB2, REG_TX_COMMAND_TXB3, REG_TX_COMMAND_TXB4, REG_TX_COMMAND_TXB5,
       REG_TX_COMMAND_TXB6, REG_TX_COMMAND_TXB7, REG_TX_COMMAND_TXB8,
       REG_TX_COMMAND_TXT_BUFFER_COUNT]),
    (ctu_can_fd_tx_priority,
      [REG_TX_PRIORITY_TXT1P, REG_TX_PRIORITY_TXT2P, REG_TX_PRIORITY_TXT3P, REG_TX_PRIORITY_TXT4P,
       REG_TX_PRIORITY_TXT5P, REG_TX_PRIORITY_TXT6P, REG_TX_PRIORITY_TXT7P, REG_TX_PRIORITY_TXT8P]),
    (ctu_can_fd_err_capt_retr_ctr_alc_ts_info,
      [REG_ERR_CAPT_ERR_POS, REG_ERR_CAPT_ERR_ERP, REG_ERR_CAPT_ERR_TYPE,
       REG_ERR_CAPT_RETR_CTR_VAL, REG_ERR_CAPT_ALC_BIT, REG_ERR_CAPT_ALC_ID_FIELD,
       REG_ERR_CAPT_TS_BITS]),
    (ctu_can_fd_trv_delay_ssp_cfg,
      [REG_TRV_DELAY_TRV_DELAY_VALUE, REG_TRV_DELAY_SSP_OFFSET, REG_TRV_DELAY_SSP_SRC]),
    (ctu_can_fd_rx_fr_ctr,
      [REG_RX_FR_CTR_RX_FR_CTR_VAL]),
    (ctu_can_fd_tx_fr_ctr,
      [REG_TX_FR_CTR_TX_FR_CTR_VAL]),
    (ctu_can_fd_debug_register,
      [REG_DEBUG_REGISTER_STUFF_COUNT, REG_DEBUG_REGISTER_DESTUFF_COUNT,
       REG_DEBUG_REGISTER_PC_ARB, REG_DEBUG_REGISTER_PC_CON, REG_DEBUG_REGISTER_PC_DAT,
       REG_DEBUG_REGISTER_PC_STC, REG_DEBUG_REGISTER_PC_CRC, REG_DEBUG_REGISTER_PC_CRCD,
       REG_DEBUG_REGISTER_PC_ACK, REG_DEBUG_REGISTER_PC_ACKD, REG_DEBUG_REGISTER_PC_EOF,
       REG_DEBUG_REGISTER_PC_INT, REG_DEBUG_REGISTER_PC_SUSP, REG_DEBUG_REGISTER_PC_OVR,
       REG_DEBUG_REGISTER_PC_SOF]),
    (ctu_can_fd_yolo_reg,
      [REG_YOLO_REG_YOLO_VAL]),
    (ctu_can_fd_timestamp_low,
      [REG_TIMESTAMP_LOW_TIMESTAMP_LOW]),
    (ctu_can_fd_timestamp_high,
      [REG_TIMESTAMP_HIGH_TIMESTAMP_HIGH])]"

definition kregs_fields :: "(union_layout \<times> u32 list) list" where
  "kregs_fields = kregs_fields_1 @ kregs_fields_2"

definition kframe_fields :: "(union_layout \<times> u32 list) list" where
  "kframe_fields = [
    (ctu_can_fd_frame_format_w,
      [REG_FRAME_FORMAT_W_DLC, REG_FRAME_FORMAT_W_ERF, REG_FRAME_FORMAT_W_RTR,
       REG_FRAME_FORMAT_W_IDE, REG_FRAME_FORMAT_W_FDF, REG_FRAME_FORMAT_W_LBPF,
       REG_FRAME_FORMAT_W_BRS, REG_FRAME_FORMAT_W_ESI_RSV, REG_FRAME_FORMAT_W_RWCNT,
       REG_FRAME_FORMAT_W_ERF_POS, REG_FRAME_FORMAT_W_ERF_ERP, REG_FRAME_FORMAT_W_ERF_TYPE,
       REG_FRAME_FORMAT_W_IVLD, REG_FRAME_FORMAT_W_LBTBI]),
    (ctu_can_fd_identifier_w,
      [REG_IDENTIFIER_W_IDENTIFIER_EXT, REG_IDENTIFIER_W_IDENTIFIER_BASE]),
    (ctu_can_fd_timestamp_l_w,
      [REG_TIMESTAMP_L_W_TIME_STAMP_L_W]),
    (ctu_can_fd_timestamp_u_w,
      [REG_TIMESTAMP_U_W_TIMESTAMP_U_W]),
    (ctu_can_fd_data_1_4_w,
      [REG_DATA_1_4_W_DATA_1, REG_DATA_1_4_W_DATA_2, REG_DATA_1_4_W_DATA_3, REG_DATA_1_4_W_DATA_4]),
    (ctu_can_fd_data_5_8_w,
      [REG_DATA_5_8_W_DATA_5, REG_DATA_5_8_W_DATA_6, REG_DATA_5_8_W_DATA_7, REG_DATA_5_8_W_DATA_8]),
    (ctu_can_fd_data_9_12_w,
      [REG_DATA_9_12_W_DATA_9, REG_DATA_9_12_W_DATA_10, REG_DATA_9_12_W_DATA_11,
       REG_DATA_9_12_W_DATA_12]),
    (ctu_can_fd_data_13_16_w,
      [REG_DATA_13_16_W_DATA_13, REG_DATA_13_16_W_DATA_14, REG_DATA_13_16_W_DATA_15,
       REG_DATA_13_16_W_DATA_16]),
    (ctu_can_fd_data_17_20_w,
      [REG_DATA_17_20_W_DATA_17, REG_DATA_17_20_W_DATA_18, REG_DATA_17_20_W_DATA_19,
       REG_DATA_17_20_W_DATA_20]),
    (ctu_can_fd_data_21_24_w,
      [REG_DATA_21_24_W_DATA_21, REG_DATA_21_24_W_DATA_22, REG_DATA_21_24_W_DATA_23,
       REG_DATA_21_24_W_DATA_24]),
    (ctu_can_fd_data_25_28_w,
      [REG_DATA_25_28_W_DATA_25, REG_DATA_25_28_W_DATA_26, REG_DATA_25_28_W_DATA_27,
       REG_DATA_25_28_W_DATA_28]),
    (ctu_can_fd_data_29_32_w,
      [REG_DATA_29_32_W_DATA_29, REG_DATA_29_32_W_DATA_30, REG_DATA_29_32_W_DATA_31,
       REG_DATA_29_32_W_DATA_32]),
    (ctu_can_fd_data_33_36_w,
      [REG_DATA_33_36_W_DATA_33, REG_DATA_33_36_W_DATA_34, REG_DATA_33_36_W_DATA_35,
       REG_DATA_33_36_W_DATA_36]),
    (ctu_can_fd_data_37_40_w,
      [REG_DATA_37_40_W_DATA_37, REG_DATA_37_40_W_DATA_38, REG_DATA_37_40_W_DATA_39,
       REG_DATA_37_40_W_DATA_40]),
    (ctu_can_fd_data_41_44_w,
      [REG_DATA_41_44_W_DATA_41, REG_DATA_41_44_W_DATA_42, REG_DATA_41_44_W_DATA_43,
       REG_DATA_41_44_W_DATA_44]),
    (ctu_can_fd_data_45_48_w,
      [REG_DATA_45_48_W_DATA_45, REG_DATA_45_48_W_DATA_46, REG_DATA_45_48_W_DATA_47,
       REG_DATA_45_48_W_DATA_48]),
    (ctu_can_fd_data_49_52_w,
      [REG_DATA_49_52_W_DATA_49, REG_DATA_49_52_W_DATA_50, REG_DATA_49_52_W_DATA_51,
       REG_DATA_49_52_W_DATA_52]),
    (ctu_can_fd_data_53_56_w,
      [REG_DATA_53_56_W_DATA_53, REG_DATA_53_56_W_DATA_56, REG_DATA_53_56_W_DATA_55,
       REG_DATA_53_56_W_DATA_54]),
    (ctu_can_fd_data_57_60_w,
      [REG_DATA_57_60_W_DATA_57, REG_DATA_57_60_W_DATA_58, REG_DATA_57_60_W_DATA_59,
       REG_DATA_57_60_W_DATA_60]),
    (ctu_can_fd_data_61_64_w,
      [REG_DATA_61_64_W_DATA_61, REG_DATA_61_64_W_DATA_62, REG_DATA_61_64_W_DATA_63,
       REG_DATA_61_64_W_DATA_64]),
    (ctu_can_fd_frame_test_w,
      [REG_FRAME_TEST_W_FSTC, REG_FRAME_TEST_W_FCRC, REG_FRAME_TEST_W_SDLC, REG_FRAME_TEST_W_TPRM])]"

section \<open>Well-formed unions\<close>

definition wf_union :: "union_layout \<Rightarrow> bool" where
  "wf_union u \<longleftrightarrow>
     sum_list (map snd (le_fields u)) = 32 \<and>
     distinct (map fst (le_fields u)) \<and>
     alloc_be 32 (be_fields u) = rev (alloc_le 0 (le_fields u))"

definition is_reserved :: "string \<Rightarrow> bool" where
  "is_reserved n \<longleftrightarrow> take 9 n = ''reserved_''"

definition named_masks :: "union_layout \<Rightarrow> u32 list" where
  "named_masks u =
     map (\<lambda>(n, off, w). push_bit off (mask w))
       (filter (\<lambda>(n, off, w). \<not> is_reserved n) (alloc_le 0 (le_fields u)))"

lemmas union_defs = regs_unions_def frame_unions_def

lemmas layout_defs =
  ctu_can_fd_device_id_version_def ctu_can_fd_mode_settings_def ctu_can_fd_status_def
  ctu_can_fd_command_def ctu_can_fd_int_stat_def ctu_can_fd_int_ena_set_def
  ctu_can_fd_int_ena_clr_def ctu_can_fd_int_mask_set_def ctu_can_fd_int_mask_clr_def
  ctu_can_fd_btr_def ctu_can_fd_btr_fd_def ctu_can_fd_ewl_erp_fault_state_def
  ctu_can_fd_rec_tec_def ctu_can_fd_err_norm_err_fd_def ctu_can_fd_ctr_pres_def
  ctu_can_fd_filter_a_mask_def ctu_can_fd_filter_a_val_def ctu_can_fd_filter_b_mask_def
  ctu_can_fd_filter_b_val_def ctu_can_fd_filter_c_mask_def ctu_can_fd_filter_c_val_def
  ctu_can_fd_filter_ran_low_def ctu_can_fd_filter_ran_high_def
  ctu_can_fd_filter_control_filter_status_def ctu_can_fd_rx_mem_info_def
  ctu_can_fd_rx_pointers_def ctu_can_fd_rx_status_rx_settings_def ctu_can_fd_rx_data_def
  ctu_can_fd_tx_status_def ctu_can_fd_tx_command_txtb_info_def ctu_can_fd_tx_priority_def
  ctu_can_fd_err_capt_retr_ctr_alc_ts_info_def ctu_can_fd_trv_delay_ssp_cfg_def
  ctu_can_fd_rx_fr_ctr_def ctu_can_fd_tx_fr_ctr_def ctu_can_fd_debug_register_def
  ctu_can_fd_yolo_reg_def ctu_can_fd_timestamp_low_def ctu_can_fd_timestamp_high_def
  ctu_can_fd_tst_control_def ctu_can_fd_tst_dest_def ctu_can_fd_tst_wdata_def
  ctu_can_fd_tst_rdata_def ctu_can_fd_frame_format_w_def ctu_can_fd_identifier_w_def
  ctu_can_fd_timestamp_l_w_def ctu_can_fd_timestamp_u_w_def ctu_can_fd_data_1_4_w_def
  ctu_can_fd_data_5_8_w_def ctu_can_fd_data_9_12_w_def ctu_can_fd_data_13_16_w_def
  ctu_can_fd_data_17_20_w_def ctu_can_fd_data_21_24_w_def ctu_can_fd_data_25_28_w_def
  ctu_can_fd_data_29_32_w_def ctu_can_fd_data_33_36_w_def ctu_can_fd_data_37_40_w_def
  ctu_can_fd_data_41_44_w_def ctu_can_fd_data_45_48_w_def ctu_can_fd_data_49_52_w_def
  ctu_can_fd_data_53_56_w_def ctu_can_fd_data_57_60_w_def ctu_can_fd_data_61_64_w_def
  ctu_can_fd_frame_test_w_def

lemma regs_unions_wf: "list_all wf_union regs_unions"
  by (simp add: regs_unions_def wf_union_def layout_defs)

lemma frame_unions_wf: "list_all wf_union frame_unions"
  by (simp add: frame_unions_def wf_union_def layout_defs)

lemma kregs_fields_masks: "list_all (\<lambda>(u, ms). named_masks u = ms) kregs_fields"
  by (simp add: kregs_fields_def kregs_fields_1_def kregs_fields_2_def named_masks_def is_reserved_def layout_defs reg_masks
      GENMASK_def BIT_def mask_numeral)

lemma kframe_fields_masks: "list_all (\<lambda>(u, ms). named_masks u = ms) kframe_fields"
  by (simp add: kframe_fields_def named_masks_def is_reserved_def layout_defs reg_masks
      GENMASK_def BIT_def mask_numeral)

section \<open>Access to one field\<close>

lemma alloc_le_bounds:
  "(n, off, w) \<in> set (alloc_le k fs) \<Longrightarrow> k \<le> off \<and> off + w \<le> k + sum_list (map snd fs)"
  by (induction k fs rule: alloc_le.induct) force+

lemma alloc_le_names: "map fst (alloc_le k fs) = map fst fs"
  by (induction k fs rule: alloc_le.induct) auto

lemma alloc_le_disjoint:
  "(n, off, w) \<in> set (alloc_le k fs) \<Longrightarrow> (n', off', w') \<in> set (alloc_le k fs) \<Longrightarrow> n \<noteq> n'
   \<Longrightarrow> off + w \<le> off' \<or> off' + w' \<le> off"
  by (induction k fs rule: alloc_le.induct) (auto dest: alloc_le_bounds)

lemma field_pos_bounds:
  "wf_union u \<Longrightarrow> field_pos u n = Some (off, w) \<Longrightarrow> off + w \<le> 32"
  by (auto simp: wf_union_def field_pos_def dest!: map_of_SomeD alloc_le_bounds)

lemma field_pos_disjoint:
  assumes "field_pos u n = Some (off, w)" and "field_pos u n' = Some (off', w')" and "n \<noteq> n'"
  shows "off + w \<le> off' \<or> off' + w' \<le> off"
  using assms unfolding field_pos_def by (blast dest: map_of_SomeD alloc_le_disjoint)

lemma bit_bf_get: "bit (bf_get off w r) k \<longleftrightarrow> k < w \<and> bit r (off + k)"
  by (auto simp: bf_get_def bit_simps)

lemma bit_bf_set:
  "bit (bf_set off w v r) k \<longleftrightarrow>
     k < 32 \<and> (if off \<le> k \<and> k < off + w then bit v (k - off) else bit r k)"
  by (auto simp: bf_set_def bit_simps dest: bit_imp_le_length)

lemma bf_get_set_same: "off + w \<le> 32 \<Longrightarrow> bf_get off w (bf_set off w v r) = take_bit w v"
  by (rule bit_eqI) (auto simp: bit_bf_get bit_bf_set bit_take_bit_iff)

lemma bf_get_set_other:
  "off + w \<le> off' \<or> off' + w' \<le> off \<Longrightarrow> bf_get off' w' (bf_set off w v r) = bf_get off' w' r"
  by (rule bit_eqI) (auto simp: bit_bf_get bit_bf_set dest: bit_imp_le_length)

lemma get_set_s_same:
  assumes "wf_union u" and "field_pos u n = Some (off, w)"
  shows "get_s u n (set_s u n v r) = take_bit w v"
  using assms by (simp add: get_s_def set_s_def bf_get_set_same field_pos_bounds)

lemma get_set_s_other:
  assumes "n \<noteq> n'"
  shows "get_s u n' (set_s u n v r) = get_s u n' r"
  using assms field_pos_disjoint [of u n _ _ n']
  by (auto simp: get_s_def set_s_def bf_get_set_other split: option.split)

text \<open>A field of a union and the mask macros of the kernel header name the same bits.\<close>

lemma bf_get_FIELD_GET:
  "l \<le> h \<Longrightarrow> h < 32 \<Longrightarrow> bf_get l (Suc h - l) r = FIELD_GET (GENMASK h l) r"
  by (simp add: bf_get_def FIELD_GET_GENMASK)

lemma bf_set_FIELD_PREP:
  "l \<le> h \<Longrightarrow> h < 32 \<Longrightarrow>
   bf_set l (Suc h - l) v r = (r AND NOT (GENMASK h l)) OR FIELD_PREP (GENMASK h l) v"
  by (simp add: bf_set_def GENMASK_def FIELD_PREP_GENMASK [unfolded GENMASK_def])

section \<open>Properties\<close>

text \<open>Every register and frame word of the header \<open>ctu_can_fd_regs.h\<close> and \<open>ctu_can_fd_frame.h\<close> is
  laid out consistently: the fields fill exactly 32 bits, their names are distinct, and the two
  orders of declaration, for little and for big endian bit-fields, put every field at the same place.\<close>

lemma unions_layout:
  assumes "u \<in> set regs_unions \<union> set frame_unions"
  shows "sum_list (map snd (le_fields u)) = 32 \<and> distinct (map fst (le_fields u)) \<and>
    alloc_be 32 (be_fields u) = rev (alloc_le 0 (le_fields u))"
  using assms regs_unions_wf frame_unions_wf by (auto simp: list_all_iff wf_union_def)

text \<open>The two sets of headers describe the same hardware: every register, TXT
  buffer word and frame word has the same offset in both, and the masks of the kernel headers are, register by register and field by
  field, those of the bit-field unions.\<close>

lemma masks_agree:
  "kregs_offsets = regs_offsets \<and> kregs_test_offsets = regs_test_offsets \<and> kframe_offsets = frame_offsets \<and>
   ctucanfd_txtb_data_1_4 = ctu_can_fd_txtb_data_1_4 \<and> ctucanfd_txtb_data_5_8 = ctu_can_fd_txtb_data_5_8 \<and>
   list_all (\<lambda>(u, ms). named_masks u = ms) (kregs_fields @ kframe_fields)"
proof -
  have "kregs_offsets = regs_offsets" "kregs_test_offsets = regs_test_offsets" "kframe_offsets = frame_offsets"
    by (simp_all add: kregs_offsets_def regs_offsets_def kregs_test_offsets_def regs_test_offsets_def
        kframe_offsets_def frame_offsets_def reg_addrs)
  then show ?thesis using kregs_fields_masks kframe_fields_masks
    by (simp add: ctucanfd_txtb_data_1_4_def ctu_can_fd_txtb_data_1_4_def ctucanfd_txtb_data_5_8_def
        ctu_can_fd_txtb_data_5_8_def)
qed

text \<open>Assigning a field of a register union stores the value cut to the width of the field and
  leaves every other field as it was.\<close>

lemma field_assignment:
  assumes "u \<in> set regs_unions \<union> set frame_unions" "field_pos u n = Some (off, w)" "n \<noteq> n'"
  shows "get_s u n (set_s u n v r) = take_bit w v \<and> get_s u n' (set_s u n v r) = get_s u n' r"
proof -
  have "wf_union u" using assms(1) regs_unions_wf frame_unions_wf by (auto simp: list_all_iff)
  then show ?thesis using get_set_s_same assms(2) get_set_s_other [OF assms(3)] by blast
qed

end
