(* ===== verification/Ctu_Hw.thy ===== *)
theory Ctu_Hw
  imports Ctu_Regs Ctu_Irq
begin

text \<open>
  The low-level access library, \<open>driver/ctucanfd_hw.c\<close> and \<open>driver/ctucanfd_hw.h\<close>, which the
  userspace programs use on the same registers as the kernel driver. It works on the bit-field
  unions of \<open>Ctu_Regs\<close>; a union is its 32-bit value here, and \<open>get_s\<close>, \<open>set_s\<close> read and assign
  its fields.

  \<open>struct ctucan_hw_priv\<close> carries the accessors as function pointers. They are called with the
  structure itself, of which they use \<open>mem_base\<close>, so they are functions of that address. The state
  is the device alone, as everywhere behind an arbitrary bus.

  The properties compare the library with the kernel driver: the words of a frame, the frame read
  from the FIFO, the bit timing registers and the status of a TXT buffer.
\<close>

section \<open>Enumerators\<close>

named_theorems hw_enums

definition BMM_DISABLED :: u32 where [hw_enums]: "BMM_DISABLED = 0x0"
definition BMM_ENABLED :: u32 where [hw_enums]: "BMM_ENABLED = 0x1"
definition STM_DISABLED :: u32 where [hw_enums]: "STM_DISABLED = 0x0"
definition STM_ENABLED :: u32 where [hw_enums]: "STM_ENABLED = 0x1"
definition FDE_DISABLE :: u32 where [hw_enums]: "FDE_DISABLE = 0x0"
definition FDE_ENABLE :: u32 where [hw_enums]: "FDE_ENABLE = 0x1"
definition RTRLE_DISABLED :: u32 where [hw_enums]: "RTRLE_DISABLED = 0x0"
definition RTRLE_ENABLED :: u32 where [hw_enums]: "RTRLE_ENABLED = 0x1"
definition INT_LOOP_DISABLED :: u32 where [hw_enums]: "INT_LOOP_DISABLED = 0x0"
definition INT_LOOP_ENABLED :: u32 where [hw_enums]: "INT_LOOP_ENABLED = 0x1"
definition CTU_CAN_DISABLED :: u32 where [hw_enums]: "CTU_CAN_DISABLED = 0x0"
definition CTU_CAN_ENABLED :: u32 where [hw_enums]: "CTU_CAN_ENABLED = 0x1"
definition ISO_FD :: u32 where [hw_enums]: "ISO_FD = 0x0"
definition NON_ISO_FD :: u32 where [hw_enums]: "NON_ISO_FD = 0x1"
definition SSP_SRC_MEAS_N_OFFSET :: u32 where [hw_enums]: "SSP_SRC_MEAS_N_OFFSET = 0x0"
definition SSP_SRC_NO_SSP :: u32 where [hw_enums]: "SSP_SRC_NO_SSP = 0x1"
definition SSP_SRC_OFFSET :: u32 where [hw_enums]: "SSP_SRC_OFFSET = 0x2"
definition RTR_FRAME :: u32 where [hw_enums]: "RTR_FRAME = 0x1"
definition BASE :: u32 where [hw_enums]: "BASE = 0x0"
definition EXTENDED :: u32 where [hw_enums]: "EXTENDED = 0x1"
definition FD_CAN :: u32 where [hw_enums]: "FD_CAN = 0x1"
definition BR_SHIFT :: u32 where [hw_enums]: "BR_SHIFT = 0x1"
definition ESI_ERR_PASIVE :: u32 where [hw_enums]: "ESI_ERR_PASIVE = 0x1"

definition CTU_CAN_FD_RETR_MAX :: u8 where "CTU_CAN_FD_RETR_MAX = 15"
definition CTU_CAN_FD_FILTER_A :: u8 where [hw_enums]: "CTU_CAN_FD_FILTER_A = 0"
definition CTU_CAN_FD_FILTER_B :: u8 where [hw_enums]: "CTU_CAN_FD_FILTER_B = 1"
definition CTU_CAN_FD_FILTER_C :: u8 where [hw_enums]: "CTU_CAN_FD_FILTER_C = 2"
definition CTU_CAN_FD_TXT_BUFFER_COUNT :: u8 where "CTU_CAN_FD_TXT_BUFFER_COUNT = 4"
definition CTU_CAN_FD_TXT_BUFFER_1 :: u8 where [hw_enums]: "CTU_CAN_FD_TXT_BUFFER_1 = 0"
definition CTU_CAN_FD_TXT_BUFFER_2 :: u8 where [hw_enums]: "CTU_CAN_FD_TXT_BUFFER_2 = 1"
definition CTU_CAN_FD_TXT_BUFFER_3 :: u8 where [hw_enums]: "CTU_CAN_FD_TXT_BUFFER_3 = 2"
definition CTU_CAN_FD_TXT_BUFFER_4 :: u8 where [hw_enums]: "CTU_CAN_FD_TXT_BUFFER_4 = 3"

section \<open>Status and interrupt flags\<close>

text \<open>
  The macros of the header on values of the unions \<open>ctu_can_fd_status\<close> and \<open>ctu_can_fd_int_stat\<close>.
  \<open>CTU_CAN_FD_IS_TRANSMITTER\<close> and \<open>CTU_CAN_FD_LOGGER_FIN_INT\<close> name members the unions do not have
  and cannot be used.
\<close>

definition CTU_CAN_FD_IS_RECEIVER :: "u32 \<Rightarrow> bool" where
  "CTU_CAN_FD_IS_RECEIVER stat = (get_s ctu_can_fd_status ''rxs'' stat \<noteq> 0)"

definition CTU_CAN_FD_IS_IDLE :: "u32 \<Rightarrow> bool" where
  "CTU_CAN_FD_IS_IDLE stat = (get_s ctu_can_fd_status ''idle'' stat \<noteq> 0)"

definition CTU_CAN_FD_ERR_FRAME :: "u32 \<Rightarrow> bool" where
  "CTU_CAN_FD_ERR_FRAME stat = (get_s ctu_can_fd_status ''eft'' stat \<noteq> 0)"

definition CTU_CAN_FD_EWL_stat :: "u32 \<Rightarrow> bool" where
  "CTU_CAN_FD_EWL_stat stat = (get_s ctu_can_fd_status ''ewl'' stat \<noteq> 0)"

definition CTU_CAN_FD_TXTNF_stat :: "u32 \<Rightarrow> bool" where
  "CTU_CAN_FD_TXTNF_stat stat = (get_s ctu_can_fd_status ''txnf'' stat \<noteq> 0)"

definition CTU_CAN_FD_DATA_OVERRUN :: "u32 \<Rightarrow> bool" where
  "CTU_CAN_FD_DATA_OVERRUN stat = (get_s ctu_can_fd_status ''dor'' stat \<noteq> 0)"

definition CTU_CAN_FD_RX_BUF_NEMPTY :: "u32 \<Rightarrow> bool" where
  "CTU_CAN_FD_RX_BUF_NEMPTY stat = (get_s ctu_can_fd_status ''rxne'' stat \<noteq> 0)"

definition CTU_CAN_FD_RX_INT :: "u32 \<Rightarrow> bool" where
  "CTU_CAN_FD_RX_INT int_stat = (get_s ctu_can_fd_int_stat ''rxi'' int_stat \<noteq> 0)"

definition CTU_CAN_FD_TX_INT :: "u32 \<Rightarrow> bool" where
  "CTU_CAN_FD_TX_INT int_stat = (get_s ctu_can_fd_int_stat ''txi'' int_stat \<noteq> 0)"

definition CTU_CAN_FD_EWL_INT :: "u32 \<Rightarrow> bool" where
  "CTU_CAN_FD_EWL_INT int_stat = (get_s ctu_can_fd_int_stat ''ewli'' int_stat \<noteq> 0)"

definition CTU_CAN_FD_OVERRUN_INT :: "u32 \<Rightarrow> bool" where
  "CTU_CAN_FD_OVERRUN_INT int_stat = (get_s ctu_can_fd_int_stat ''doi'' int_stat \<noteq> 0)"

definition CTU_CAN_FD_FAULT_STATE_CHANGED_INT :: "u32 \<Rightarrow> bool" where
  "CTU_CAN_FD_FAULT_STATE_CHANGED_INT int_stat = (get_s ctu_can_fd_int_stat ''fcsi'' int_stat \<noteq> 0)"

definition CTU_CAN_FD_BUS_ERROR_INT :: "u32 \<Rightarrow> bool" where
  "CTU_CAN_FD_BUS_ERROR_INT int_stat = (get_s ctu_can_fd_int_stat ''bei'' int_stat \<noteq> 0)"

definition CTU_CAN_FD_RX_FULL_INT :: "u32 \<Rightarrow> bool" where
  "CTU_CAN_FD_RX_FULL_INT int_stat = (get_s ctu_can_fd_int_stat ''rxfi'' int_stat \<noteq> 0)"

definition CTU_CAN_FD_BIT_RATE_SHIFT_INT :: "u32 \<Rightarrow> bool" where
  "CTU_CAN_FD_BIT_RATE_SHIFT_INT int_stat = (get_s ctu_can_fd_int_stat ''bsi'' int_stat \<noteq> 0)"

definition CTU_CAN_FD_RX_BUF_NEPMTY_INT :: "u32 \<Rightarrow> bool" where
  "CTU_CAN_FD_RX_BUF_NEPMTY_INT int_stat = (get_s ctu_can_fd_int_stat ''rbnei'' int_stat \<noteq> 0)"

definition CTU_CAN_FD_TXT_BUF_HWCMD_INT :: "u32 \<Rightarrow> bool" where
  "CTU_CAN_FD_TXT_BUF_HWCMD_INT int_stat = (get_s ctu_can_fd_int_stat ''txbhci'' int_stat \<noteq> 0)"

definition CTU_CAN_FD_INT_ERROR :: "u32 \<Rightarrow> bool" where
  "CTU_CAN_FD_INT_ERROR i \<longleftrightarrow>
     get_s ctu_can_fd_int_stat ''ewli'' i \<noteq> 0 \<or> get_s ctu_can_fd_int_stat ''doi'' i \<noteq> 0 \<or>
     get_s ctu_can_fd_int_stat ''fcsi'' i \<noteq> 0 \<or> get_s ctu_can_fd_int_stat ''ali'' i \<noteq> 0"

section \<open>Accessors\<close>

record 'd ctucan_hw_priv =
  hw_mem_base :: iomem
  read_reg :: "iomem \<Rightarrow> u32 \<Rightarrow> 'd \<Rightarrow> u32 \<times> 'd"
  write_reg :: "iomem \<Rightarrow> u32 \<Rightarrow> u32 \<Rightarrow> 'd \<Rightarrow> 'd"

definition ctucan_hw_write32 :: "'d bus \<Rightarrow> iomem \<Rightarrow> u32 \<Rightarrow> u32 \<Rightarrow> 'd \<Rightarrow> 'd" where
  "ctucan_hw_write32 B base reg val d = st32 B d (base + ucast reg) val"

definition ctucan_hw_write32_be :: "'d bus \<Rightarrow> iomem \<Rightarrow> u32 \<Rightarrow> u32 \<Rightarrow> 'd \<Rightarrow> 'd" where
  "ctucan_hw_write32_be B base reg val d = st32 B d (base + ucast reg) (bswap32 val)"

definition ctucan_hw_read32 :: "'d bus \<Rightarrow> iomem \<Rightarrow> u32 \<Rightarrow> 'd \<Rightarrow> u32 \<times> 'd" where
  "ctucan_hw_read32 B base reg d = ld32 B d (base + ucast reg)"

definition ctucan_hw_read32_be :: "'d bus \<Rightarrow> iomem \<Rightarrow> u32 \<Rightarrow> 'd \<Rightarrow> u32 \<times> 'd" where
  "ctucan_hw_read32_be B base reg d = (let (v, d) = ld32 B d (base + ucast reg) in (bswap32 v, d))"

text \<open>The calls \<open>priv->read_reg(priv, reg)\<close> and \<open>priv->write_reg(priv, reg, val)\<close>.\<close>

definition hw_rd :: "'d ctucan_hw_priv \<Rightarrow> u32 \<Rightarrow> 'd \<Rightarrow> u32 \<times> 'd" where
  "hw_rd P reg d = read_reg P (hw_mem_base P) reg d"

definition hw_wr :: "'d ctucan_hw_priv \<Rightarrow> u32 \<Rightarrow> u32 \<Rightarrow> 'd \<Rightarrow> 'd" where
  "hw_wr P reg val d = write_reg P (hw_mem_base P) reg val d"

definition ctucan_hw_write_txt_buf :: "'d ctucan_hw_priv \<Rightarrow> u32 \<Rightarrow> u32 \<Rightarrow> u32 \<Rightarrow> 'd \<Rightarrow> 'd" where
  "ctucan_hw_write_txt_buf P buf_base offset val d = hw_wr P (buf_base + offset) val d"

section \<open>Identifiers\<close>

definition ctucan_hw_id_to_hwid :: "u32 \<Rightarrow> u32" where
  "ctucan_hw_id_to_hwid i =
     (let hwid = 0
      in if i AND CAN_EFF_FLAG \<noteq> 0
         then let hwid = set_s ctu_can_fd_identifier_w ''identifier_base'' (drop_bit 18 (i AND CAN_EFF_MASK)) hwid
              in set_s ctu_can_fd_identifier_w ''identifier_ext'' (i AND 0x3FFFF) hwid
         else set_s ctu_can_fd_identifier_w ''identifier_base'' (i AND CAN_SFF_MASK) hwid)"

definition ctucan_hw_hwid_to_id :: "u32 \<Rightarrow> u32 \<Rightarrow> u32" where
  "ctucan_hw_hwid_to_id hwid type =
     (if type = EXTENDED
      then let i = CAN_EFF_FLAG;
               i = i OR push_bit 18 (get_s ctu_can_fd_identifier_w ''identifier_base'' hwid)
           in i OR get_s ctu_can_fd_identifier_w ''identifier_ext'' hwid
      else get_s ctu_can_fd_identifier_w ''identifier_base'' hwid)"

section \<open>Identification, reset and modes\<close>

definition ctucan_hw_check_access :: "'d ctucan_hw_priv \<Rightarrow> 'd \<Rightarrow> bool \<times> 'd" where
  "ctucan_hw_check_access P d =
     (let (reg, d) = hw_rd P CTU_CAN_FD_DEVICE_ID d
      in (get_s ctu_can_fd_device_id_version ''device_id'' reg = CTU_CAN_FD_ID, d))"

definition ctucan_hw_get_version :: "'d ctucan_hw_priv \<Rightarrow> 'd \<Rightarrow> u32 \<times> 'd" where
  "ctucan_hw_get_version P d =
     (let (reg, d) = hw_rd P CTU_CAN_FD_DEVICE_ID d
      in (get_s ctu_can_fd_device_id_version ''ver_major'' reg * 10 +
          get_s ctu_can_fd_device_id_version ''ver_minor'' reg, d))"

definition ctucan_hw_enable :: "'d ctucan_hw_priv \<Rightarrow> bool \<Rightarrow> 'd \<Rightarrow> 'd" where
  "ctucan_hw_enable P enable d =
     (let (reg, d) = hw_rd P CTU_CAN_FD_MODE d;
          reg = set_s ctu_can_fd_mode_settings ''ena'' (if enable then CTU_CAN_ENABLED else CTU_CAN_DISABLED) reg
      in hw_wr P CTU_CAN_FD_MODE reg d)"

definition ctucan_hw_reset :: "'d ctucan_hw_priv \<Rightarrow> 'd \<Rightarrow> 'd" where
  "ctucan_hw_reset P d = hw_wr P CTU_CAN_FD_MODE (set_s ctu_can_fd_mode_settings ''rst'' 1 0) d"

definition ctucan_hw_set_ret_limit :: "'d ctucan_hw_priv \<Rightarrow> bool \<Rightarrow> u8 \<Rightarrow> 'd \<Rightarrow> bool \<times> 'd" where
  "ctucan_hw_set_ret_limit P enable limit d =
     (if limit > CTU_CAN_FD_RETR_MAX then (False, d)
      else
        let (reg, d) = hw_rd P CTU_CAN_FD_MODE d;
            reg = set_s ctu_can_fd_mode_settings ''rtrle'' (if enable then RTRLE_ENABLED else RTRLE_DISABLED) reg;
            reg = set_s ctu_can_fd_mode_settings ''rtrth'' (ucast (limit AND 0xF)) reg
        in (True, hw_wr P CTU_CAN_FD_MODE reg d))"

text \<open>One of the five conditional assignments of \<open>ctucan_hw_set_mode_reg\<close>.\<close>

definition hw_mode_bit :: "can_ctrlmode \<Rightarrow> u32 \<Rightarrow> string \<Rightarrow> u32 \<Rightarrow> u32 \<Rightarrow> u32 \<Rightarrow> u32" where
  "hw_mode_bit mode flag fld on off reg =
     (if cm_mask mode AND flag \<noteq> 0
      then set_s ctu_can_fd_mode_settings fld (if cm_flags mode AND flag \<noteq> 0 then on else off) reg
      else reg)"

definition ctucan_hw_set_mode_reg :: "'d ctucan_hw_priv \<Rightarrow> can_ctrlmode \<Rightarrow> 'd \<Rightarrow> 'd" where
  "ctucan_hw_set_mode_reg P mode d =
     (let (reg, d) = hw_rd P CTU_CAN_FD_MODE d;
          reg = hw_mode_bit mode CAN_CTRLMODE_LOOPBACK ''ilbp'' INT_LOOP_ENABLED INT_LOOP_DISABLED reg;
          reg = hw_mode_bit mode CAN_CTRLMODE_LISTENONLY ''bmm'' BMM_ENABLED BMM_DISABLED reg;
          reg = hw_mode_bit mode CAN_CTRLMODE_FD ''fde'' FDE_ENABLE FDE_DISABLE reg;
          reg = hw_mode_bit mode CAN_CTRLMODE_PRESUME_ACK ''stm'' STM_ENABLED STM_DISABLED reg;
          reg = hw_mode_bit mode CAN_CTRLMODE_FD_NON_ISO ''nisofd'' NON_ISO_FD ISO_FD reg
      in hw_wr P CTU_CAN_FD_MODE reg d)"

definition ctucan_hw_rel_rx_buf :: "'d ctucan_hw_priv \<Rightarrow> 'd \<Rightarrow> 'd" where
  "ctucan_hw_rel_rx_buf P d = hw_wr P CTU_CAN_FD_COMMAND (set_s ctu_can_fd_command ''rrb'' 1 0) d"

definition ctucan_hw_clr_overrun_flag :: "'d ctucan_hw_priv \<Rightarrow> 'd \<Rightarrow> 'd" where
  "ctucan_hw_clr_overrun_flag P d = hw_wr P CTU_CAN_FD_COMMAND (set_s ctu_can_fd_command ''cdo'' 1 0) d"

definition ctu_can_get_status :: "'d ctucan_hw_priv \<Rightarrow> 'd \<Rightarrow> u32 \<times> 'd" where
  "ctu_can_get_status P d = hw_rd P CTU_CAN_FD_STATUS d"

definition ctucan_hw_is_enabled :: "'d ctucan_hw_priv \<Rightarrow> 'd \<Rightarrow> bool \<times> 'd" where
  "ctucan_hw_is_enabled P d =
     (let (reg, d) = hw_rd P CTU_CAN_FD_MODE d
      in (get_s ctu_can_fd_mode_settings ''ena'' reg = CTU_CAN_ENABLED, d))"

section \<open>Interrupts\<close>

definition ctu_can_fd_int_sts :: "'d ctucan_hw_priv \<Rightarrow> 'd \<Rightarrow> u32 \<times> 'd" where
  "ctu_can_fd_int_sts P d = hw_rd P CTU_CAN_FD_INT_STAT d"

definition ctucan_hw_int_clr :: "'d ctucan_hw_priv \<Rightarrow> u32 \<Rightarrow> 'd \<Rightarrow> 'd" where
  "ctucan_hw_int_clr P msk d = hw_wr P CTU_CAN_FD_INT_STAT msk d"

definition ctucan_hw_int_ena_set :: "'d ctucan_hw_priv \<Rightarrow> u32 \<Rightarrow> 'd \<Rightarrow> 'd" where
  "ctucan_hw_int_ena_set P msk d = hw_wr P CTU_CAN_FD_INT_ENA_SET msk d"

definition ctucan_hw_int_ena_clr :: "'d ctucan_hw_priv \<Rightarrow> u32 \<Rightarrow> 'd \<Rightarrow> 'd" where
  "ctucan_hw_int_ena_clr P msk d = hw_wr P CTU_CAN_FD_INT_ENA_CLR msk d"

definition ctucan_hw_int_mask_set :: "'d ctucan_hw_priv \<Rightarrow> u32 \<Rightarrow> 'd \<Rightarrow> 'd" where
  "ctucan_hw_int_mask_set P msk d = hw_wr P CTU_CAN_FD_INT_MASK_SET msk d"

definition ctucan_hw_int_mask_clr :: "'d ctucan_hw_priv \<Rightarrow> u32 \<Rightarrow> 'd \<Rightarrow> 'd" where
  "ctucan_hw_int_mask_clr P msk d = hw_wr P CTU_CAN_FD_INT_MASK_CLR msk d"

definition ctucan_hw_int_conf :: "'d ctucan_hw_priv \<Rightarrow> u32 \<Rightarrow> u32 \<Rightarrow> u32 \<Rightarrow> u32 \<Rightarrow> 'd \<Rightarrow> 'd" where
  "ctucan_hw_int_conf P sreg creg msk val d = hw_wr P creg (msk AND NOT val) (hw_wr P sreg (msk AND val) d)"

definition ctucan_hw_int_ena :: "'d ctucan_hw_priv \<Rightarrow> u32 \<Rightarrow> u32 \<Rightarrow> 'd \<Rightarrow> 'd" where
  "ctucan_hw_int_ena P msk val d =
     ctucan_hw_int_conf P CTU_CAN_FD_INT_ENA_SET CTU_CAN_FD_INT_ENA_CLR msk val d"

definition ctucan_hw_int_mask :: "'d ctucan_hw_priv \<Rightarrow> u32 \<Rightarrow> u32 \<Rightarrow> 'd \<Rightarrow> 'd" where
  "ctucan_hw_int_mask P msk val d =
     ctucan_hw_int_conf P CTU_CAN_FD_INT_MASK_SET CTU_CAN_FD_INT_MASK_CLR msk val d"

definition ctucan_hw_set_mode :: "'d ctucan_hw_priv \<Rightarrow> can_ctrlmode \<Rightarrow> 'd \<Rightarrow> 'd" where
  "ctucan_hw_set_mode P mode d =
     (let d = ctucan_hw_set_mode_reg P mode d;
          d = (if cm_mask mode AND CAN_CTRLMODE_ONE_SHOT \<noteq> 0
               then snd (ctucan_hw_set_ret_limit P (cm_flags mode AND CAN_CTRLMODE_ONE_SHOT \<noteq> 0) 0 d)
               else d)
      in if cm_mask mode AND CAN_CTRLMODE_BERR_REPORTING \<noteq> 0
         then let ena = set_s ctu_can_fd_int_stat ''bei''
                          (of_bool (cm_flags mode AND CAN_CTRLMODE_ONE_SHOT \<noteq> 0)) 0;
                  msk = set_s ctu_can_fd_int_stat ''bei'' 1 0
              in ctucan_hw_int_ena P ena msk d
         else d)"

section \<open>Bit timing\<close>

text \<open>Both functions also return the structure they were given, with the segments redistributed.\<close>

definition ctucan_hw_set_nom_bittiming ::
  "'d ctucan_hw_priv \<Rightarrow> can_bittiming \<Rightarrow> 'd \<Rightarrow> can_bittiming \<times> 'd" where
  "ctucan_hw_set_nom_bittiming P nbt d =
     (let nbt = (if phase_seg1 nbt > 63
                 then nbt\<lparr>prop_seg := prop_seg nbt + (phase_seg1 nbt - 63), phase_seg1 := 63\<rparr> else nbt);
          btr = 0;
          btr = set_s ctu_can_fd_btr ''prop'' (prop_seg nbt) btr;
          btr = set_s ctu_can_fd_btr ''ph1'' (phase_seg1 nbt) btr;
          btr = set_s ctu_can_fd_btr ''ph2'' (phase_seg2 nbt) btr;
          btr = set_s ctu_can_fd_btr ''brp'' (brp nbt) btr;
          btr = set_s ctu_can_fd_btr ''sjw'' (sjw nbt) btr
      in (nbt, hw_wr P CTU_CAN_FD_BTR btr d))"

definition ctucan_hw_set_data_bittiming ::
  "'d ctucan_hw_priv \<Rightarrow> can_bittiming \<Rightarrow> 'd \<Rightarrow> can_bittiming \<times> 'd" where
  "ctucan_hw_set_data_bittiming P dbt d =
     (let dbt = (if phase_seg1 dbt > 31
                 then dbt\<lparr>prop_seg := prop_seg dbt + (phase_seg1 dbt - 31), phase_seg1 := 31\<rparr> else dbt);
          btr_fd = 0;
          btr_fd = set_s ctu_can_fd_btr_fd ''prop_fd'' (prop_seg dbt) btr_fd;
          btr_fd = set_s ctu_can_fd_btr_fd ''ph1_fd'' (phase_seg1 dbt) btr_fd;
          btr_fd = set_s ctu_can_fd_btr_fd ''ph2_fd'' (phase_seg2 dbt) btr_fd;
          btr_fd = set_s ctu_can_fd_btr_fd ''brp_fd'' (brp dbt) btr_fd;
          btr_fd = set_s ctu_can_fd_btr_fd ''sjw_fd'' (sjw dbt) btr_fd
      in (dbt, hw_wr P CTU_CAN_FD_BTR_FD btr_fd d))"

definition ctucan_hw_configure_ssp :: "'d ctucan_hw_priv \<Rightarrow> bool \<Rightarrow> bool \<Rightarrow> u32 \<Rightarrow> 'd \<Rightarrow> 'd" where
  "ctucan_hw_configure_ssp P enable_ssp use_trv_delay ssp_offset d =
     (let ssp_cfg = set_s ctu_can_fd_trv_delay_ssp_cfg ''ssp_src''
            (if enable_ssp then if use_trv_delay then SSP_SRC_MEAS_N_OFFSET else SSP_SRC_OFFSET
             else SSP_SRC_NO_SSP) 0;
          ssp_cfg = set_s ctu_can_fd_trv_delay_ssp_cfg ''ssp_offset'' ssp_offset ssp_cfg
      in hw_wr P CTU_CAN_FD_TRV_DELAY ssp_cfg d)"

definition ctucan_hw_get_tran_delay :: "'d ctucan_hw_priv \<Rightarrow> 'd \<Rightarrow> u16 \<times> 'd" where
  "ctucan_hw_get_tran_delay P d =
     (let (reg, d) = hw_rd P CTU_CAN_FD_TRV_DELAY d
      in (ucast (get_s ctu_can_fd_trv_delay_ssp_cfg ''trv_delay_value'' reg), d))"

section \<open>Error counters and error state\<close>

definition ctucan_hw_set_err_limits :: "'d ctucan_hw_priv \<Rightarrow> u8 \<Rightarrow> u8 \<Rightarrow> 'd \<Rightarrow> 'd" where
  "ctucan_hw_set_err_limits P ewl erp d =
     (let reg = 0;
          reg = set_s ctu_can_fd_ewl_erp_fault_state ''ew_limit'' (ucast ewl) reg;
          reg = set_s ctu_can_fd_ewl_erp_fault_state ''erp_limit'' (ucast erp) reg
      in hw_wr P CTU_CAN_FD_EWL reg d)"

definition ctucan_hw_set_def_err_limits :: "'d ctucan_hw_priv \<Rightarrow> 'd \<Rightarrow> 'd" where
  "ctucan_hw_set_def_err_limits P d = ctucan_hw_set_err_limits P 96 128 d"

definition ctucan_hw_read_err_ctrs :: "'d ctucan_hw_priv \<Rightarrow> 'd \<Rightarrow> can_berr_counter \<times> 'd" where
  "ctucan_hw_read_err_ctrs P d =
     (let (reg, d) = hw_rd P CTU_CAN_FD_REC d
      in (\<lparr>txerr = ucast (get_s ctu_can_fd_rec_tec ''tec_val'' reg),
           rxerr = ucast (get_s ctu_can_fd_rec_tec ''rec_val'' reg)\<rparr>, d))"

definition ctucan_hw_read_nom_errs :: "'d ctucan_hw_priv \<Rightarrow> 'd \<Rightarrow> u16 \<times> 'd" where
  "ctucan_hw_read_nom_errs P d =
     (let (reg, d) = hw_rd P CTU_CAN_FD_ERR_NORM d
      in (ucast (get_s ctu_can_fd_err_norm_err_fd ''err_norm_val'' reg), d))"

definition ctucan_hw_erase_nom_errs :: "'d ctucan_hw_priv \<Rightarrow> 'd \<Rightarrow> 'd" where
  "ctucan_hw_erase_nom_errs P d = hw_wr P CTU_CAN_FD_CTR_PRES (set_s ctu_can_fd_ctr_pres ''enorm'' 1 0) d"

definition ctucan_hw_read_fd_errs :: "'d ctucan_hw_priv \<Rightarrow> 'd \<Rightarrow> u16 \<times> 'd" where
  "ctucan_hw_read_fd_errs P d =
     (let (reg, d) = hw_rd P CTU_CAN_FD_ERR_NORM d
      in (ucast (get_s ctu_can_fd_err_norm_err_fd ''err_fd_val'' reg), d))"

definition ctucan_hw_erase_fd_errs :: "'d ctucan_hw_priv \<Rightarrow> 'd \<Rightarrow> 'd" where
  "ctucan_hw_erase_fd_errs P d = hw_wr P CTU_CAN_FD_CTR_PRES (set_s ctu_can_fd_ctr_pres ''efd'' 1 0) d"

text \<open>The message of \<open>WARN\<close> in the last case is left out.\<close>

definition ctucan_hw_read_error_state :: "'d ctucan_hw_priv \<Rightarrow> 'd \<Rightarrow> can_state \<times> 'd" where
  "ctucan_hw_read_error_state P d =
     (let (reg, d) = hw_rd P CTU_CAN_FD_EWL d;
          (err, d) = hw_rd P CTU_CAN_FD_REC d;
          fs = ctu_can_fd_ewl_erp_fault_state
      in (if get_s fs ''era'' reg \<noteq> 0
          then if get_s fs ''ew_limit'' reg > get_s ctu_can_fd_rec_tec ''rec_val'' err \<and>
                  get_s fs ''ew_limit'' reg > get_s ctu_can_fd_rec_tec ''tec_val'' err
               then CAN_STATE_ERROR_ACTIVE else CAN_STATE_ERROR_WARNING
          else if get_s fs ''erp'' reg \<noteq> 0 then CAN_STATE_ERROR_PASSIVE
          else if get_s fs ''bof'' reg \<noteq> 0 then CAN_STATE_BUS_OFF
          else CAN_STATE_ERROR_PASSIVE, d))"

definition ctucan_hw_set_err_ctrs :: "'d ctucan_hw_priv \<Rightarrow> can_berr_counter \<Rightarrow> 'd \<Rightarrow> 'd" where
  "ctucan_hw_set_err_ctrs P ctr d =
     (let reg = 0;
          reg = set_s ctu_can_fd_ctr_pres ''ctpv'' (ucast (txerr ctr)) reg;
          reg = set_s ctu_can_fd_ctr_pres ''ptx'' 1 reg;
          d = hw_wr P CTU_CAN_FD_CTR_PRES reg d;
          reg = set_s ctu_can_fd_ctr_pres ''ctpv'' (ucast (rxerr ctr)) reg;
          reg = set_s ctu_can_fd_ctr_pres ''ptx'' 0 reg;
          reg = set_s ctu_can_fd_ctr_pres ''prx'' 1 reg
      in hw_wr P CTU_CAN_FD_CTR_PRES reg d)"

definition ctu_can_fd_read_err_capt_alc :: "'d ctucan_hw_priv \<Rightarrow> 'd \<Rightarrow> u32 \<times> 'd" where
  "ctu_can_fd_read_err_capt_alc P d = hw_rd P CTU_CAN_FD_ERR_CAPT d"

section \<open>Filters\<close>

definition ctucan_hw_get_mask_filter_support :: "'d ctucan_hw_priv \<Rightarrow> u8 \<Rightarrow> 'd \<Rightarrow> bool \<times> 'd" where
  "ctucan_hw_get_mask_filter_support P fnum d =
     (let (reg, d) = hw_rd P CTU_CAN_FD_FILTER_CONTROL d;
          fc = ctu_can_fd_filter_control_filter_status
      in (if fnum = CTU_CAN_FD_FILTER_A then get_s fc ''sfa'' reg \<noteq> 0
          else if fnum = CTU_CAN_FD_FILTER_B then get_s fc ''sfb'' reg \<noteq> 0
          else if fnum = CTU_CAN_FD_FILTER_C then get_s fc ''sfc'' reg \<noteq> 0
          else False, d))"

definition ctucan_hw_get_range_filter_support :: "'d ctucan_hw_priv \<Rightarrow> 'd \<Rightarrow> bool \<times> 'd" where
  "ctucan_hw_get_range_filter_support P d =
     (let (reg, d) = hw_rd P CTU_CAN_FD_FILTER_CONTROL d
      in (get_s ctu_can_fd_filter_control_filter_status ''sfr'' reg \<noteq> 0, d))"

text \<open>What the switch of \<open>ctucan_hw_set_mask_filter\<close> selects: two addresses and four control bits.\<close>

definition mask_filter_regs :: "u8 \<Rightarrow> (u32 \<times> u32 \<times> string list) option" where
  "mask_filter_regs fnum =
     (if fnum = CTU_CAN_FD_FILTER_A
      then Some (CTU_CAN_FD_FILTER_A_MASK, CTU_CAN_FD_FILTER_A_VAL, [''fanb'', ''fane'', ''fafb'', ''fafe''])
      else if fnum = CTU_CAN_FD_FILTER_B
      then Some (CTU_CAN_FD_FILTER_B_MASK, CTU_CAN_FD_FILTER_B_VAL, [''fbnb'', ''fbne'', ''fbfb'', ''fbfe''])
      else if fnum = CTU_CAN_FD_FILTER_C
      then Some (CTU_CAN_FD_FILTER_C_MASK, CTU_CAN_FD_FILTER_C_VAL, [''fcnb'', ''fcne'', ''fcfb'', ''fcfe''])
      else None)"

definition ctucan_hw_set_mask_filter ::
  "'d ctucan_hw_priv \<Rightarrow> u8 \<Rightarrow> bool \<Rightarrow> can_filter \<Rightarrow> 'd \<Rightarrow> bool \<times> 'd" where
  "ctucan_hw_set_mask_filter P fnum enable flt d =
     (let (supported, d) = ctucan_hw_get_mask_filter_support P fnum d
      in if \<not> supported then (False, d)
      else
        let val = (if enable then 1 else 0);
            (creg, d) = hw_rd P CTU_CAN_FD_FILTER_CONTROL d
        in case mask_filter_regs fnum of
             None \<Rightarrow> (False, d)
           | Some (maddr, vaddr, bits) \<Rightarrow>
               let creg = foldl (\<lambda>r b. set_s ctu_can_fd_filter_control_filter_status b val r) creg bits;
                   hwid_mask = ctucan_hw_id_to_hwid (filter_can_id flt);
                   hwid_val = ctucan_hw_id_to_hwid (filter_can_mask flt);
                   d = hw_wr P CTU_CAN_FD_FILTER_CONTROL creg d;
                   d = hw_wr P maddr hwid_mask d;
                   d = hw_wr P vaddr hwid_val d
               in (True, d))"

definition ctucan_hw_set_range_filter :: "'d ctucan_hw_priv \<Rightarrow> u32 \<Rightarrow> u32 \<Rightarrow> bool \<Rightarrow> 'd \<Rightarrow> 'd" where
  "ctucan_hw_set_range_filter P low_th high_th enable d =
     (let hwid_low = ctucan_hw_id_to_hwid low_th;
          hwid_high = ctucan_hw_id_to_hwid high_th;
          (creg, d) = hw_rd P CTU_CAN_FD_FILTER_CONTROL d;
          creg = foldl (\<lambda>r b. set_s ctu_can_fd_filter_control_filter_status b (of_bool enable) r) creg
            [''frnb'', ''frne'', ''frfb'', ''frfe''];
          d = hw_wr P CTU_CAN_FD_FILTER_CONTROL creg d;
          d = hw_wr P CTU_CAN_FD_FILTER_RAN_LOW hwid_low d
      in hw_wr P CTU_CAN_FD_FILTER_RAN_HIGH hwid_high d)"

section \<open>Reception\<close>

definition ctucan_hw_get_rx_fifo_size :: "'d ctucan_hw_priv \<Rightarrow> 'd \<Rightarrow> u16 \<times> 'd" where
  "ctucan_hw_get_rx_fifo_size P d =
     (let (reg, d) = hw_rd P CTU_CAN_FD_RX_MEM_INFO d
      in (ucast (get_s ctu_can_fd_rx_mem_info ''rx_buff_size'' reg), d))"

definition ctucan_hw_get_rx_fifo_mem_free :: "'d ctucan_hw_priv \<Rightarrow> 'd \<Rightarrow> u16 \<times> 'd" where
  "ctucan_hw_get_rx_fifo_mem_free P d =
     (let (reg, d) = hw_rd P CTU_CAN_FD_RX_MEM_INFO d
      in (ucast (get_s ctu_can_fd_rx_mem_info ''rx_mem_free'' reg), d))"

definition ctucan_hw_is_rx_fifo_empty :: "'d ctucan_hw_priv \<Rightarrow> 'd \<Rightarrow> bool \<times> 'd" where
  "ctucan_hw_is_rx_fifo_empty P d =
     (let (reg, d) = hw_rd P CTU_CAN_FD_RX_STATUS d
      in (get_s ctu_can_fd_rx_status_rx_settings ''rxe'' reg \<noteq> 0, d))"

definition ctucan_hw_is_rx_fifo_full :: "'d ctucan_hw_priv \<Rightarrow> 'd \<Rightarrow> bool \<times> 'd" where
  "ctucan_hw_is_rx_fifo_full P d =
     (let (reg, d) = hw_rd P CTU_CAN_FD_RX_STATUS d
      in (get_s ctu_can_fd_rx_status_rx_settings ''rxf'' reg \<noteq> 0, d))"

definition ctucan_hw_get_rx_frame_count :: "'d ctucan_hw_priv \<Rightarrow> 'd \<Rightarrow> u16 \<times> 'd" where
  "ctucan_hw_get_rx_frame_count P d =
     (let (reg, d) = hw_rd P CTU_CAN_FD_RX_STATUS d
      in (ucast (get_s ctu_can_fd_rx_status_rx_settings ''rxfrc'' reg), d))"

definition ctucan_hw_set_rx_tsop :: "'d ctucan_hw_priv \<Rightarrow> u32 \<Rightarrow> 'd \<Rightarrow> 'd" where
  "ctucan_hw_set_rx_tsop P val d =
     hw_wr P CTU_CAN_FD_RX_STATUS (set_s ctu_can_fd_rx_status_rx_settings ''rtsop'' val 0) d"

definition ctu_can_fd_read_rx_ffw :: "'d ctucan_hw_priv \<Rightarrow> 'd \<Rightarrow> u32 \<times> 'd" where
  "ctu_can_fd_read_rx_ffw P d = hw_rd P CTU_CAN_FD_RX_DATA d"

definition ctucan_hw_read_rx_word :: "'d ctucan_hw_priv \<Rightarrow> 'd \<Rightarrow> u32 \<times> 'd" where
  "ctucan_hw_read_rx_word P d = hw_rd P CTU_CAN_FD_RX_DATA d"

text \<open>The identifier with its flags, the flags and the length of the frame from its first words.\<close>

definition hw_rx_can_id :: "u32 \<Rightarrow> u32 \<Rightarrow> u32" where
  "hw_rx_can_id ffw idw =
     (let i = ctucan_hw_hwid_to_id idw (get_s ctu_can_fd_frame_format_w ''ide'' ffw)
      in if get_s ctu_can_fd_frame_format_w ''fdf'' ffw \<noteq> FD_CAN \<and>
            get_s ctu_can_fd_frame_format_w ''rtr'' ffw = RTR_FRAME
         then i OR CAN_RTR_FLAG else i)"

definition hw_rx_flags :: "u32 \<Rightarrow> u8" where
  "hw_rx_flags ffw =
     (if get_s ctu_can_fd_frame_format_w ''fdf'' ffw = FD_CAN
      then let flags = 0;
               flags = (if get_s ctu_can_fd_frame_format_w ''brs'' ffw = BR_SHIFT
                        then flags OR CANFD_BRS else flags)
           in if get_s ctu_can_fd_frame_format_w ''esi_rsv'' ffw = ESI_ERR_PASIVE
              then flags OR CANFD_ESI else flags
      else 0)"

definition hw_rx_wc :: "u32 \<Rightarrow> u32" where
  "hw_rx_wc ffw = get_s ctu_can_fd_frame_format_w ''rwcnt'' ffw - 3"

definition hw_rx_len :: "u32 \<Rightarrow> u32" where
  "hw_rx_len ffw =
     (if get_s ctu_can_fd_frame_format_w ''dlc'' ffw \<le> 8 then get_s ctu_can_fd_frame_format_w ''dlc'' ffw
      else if get_s ctu_can_fd_frame_format_w ''fdf'' ffw = FD_CAN then push_bit 2 (hw_rx_wc ffw)
      else 8)"

function hw_rx_data_loop ::
  "'d ctucan_hw_priv \<Rightarrow> u32 \<Rightarrow> nat \<Rightarrow> u8 list \<Rightarrow> 'd \<Rightarrow> fault + nat \<times> u8 list \<times> 'd" where
  "hw_rx_data_loop P len i bs d =
     (if i < unat len
      then let (w, d) = hw_rd P CTU_CAN_FD_RX_DATA d
           in case put_le32 bs i w of
                None \<Rightarrow> Inl OutOfBounds
              | Some bs \<Rightarrow> hw_rx_data_loop P len (i + 4) bs d
      else Inr (i, bs, d))"
  by pat_completeness auto
termination
  by (relation "measure (\<lambda>(P, len, i, bs, d). unat len - i)") auto

declare hw_rx_data_loop.simps [simp del]

function hw_rx_skip_loop :: "'d ctucan_hw_priv \<Rightarrow> nat \<Rightarrow> nat \<Rightarrow> 'd \<Rightarrow> 'd" where
  "hw_rx_skip_loop P i bytes d =
     (if i < bytes
      then let (w, d) = hw_rd P CTU_CAN_FD_RX_DATA d in hw_rx_skip_loop P (i + 4) bytes d
      else d)"
  by pat_completeness auto
termination
  by (relation "measure (\<lambda>(P, i, bytes, d). bytes - i)") auto

declare hw_rx_skip_loop.simps [simp del]

definition ctucan_hw_read_rx_frame_ffw ::
  "'d ctucan_hw_priv \<Rightarrow> canfd_frame \<Rightarrow> u32 \<Rightarrow> 'd \<Rightarrow> fault + canfd_frame \<times> u64 \<times> 'd" where
  "ctucan_hw_read_rx_frame_ffw P cf ffw d =
     (let (idw, d) = hw_rd P CTU_CAN_FD_RX_DATA d;
          wc = hw_rx_wc ffw;
          cf = cf\<lparr>can_id := hw_rx_can_id ffw idw, flags := hw_rx_flags ffw, flen := ucast (hw_rx_len ffw)\<rparr>;
          len = (if hw_rx_len ffw > wc * 4 then wc * 4 else hw_rx_len ffw);
          (ts_l, d) = hw_rd P CTU_CAN_FD_RX_DATA d;
          (ts_u, d) = hw_rd P CTU_CAN_FD_RX_DATA d;
          ts = ucast ts_l OR push_bit 32 (ucast ts_u)
      in case hw_rx_data_loop P len 0 (data cf) d of
           Inl f \<Rightarrow> Inl f
         | Inr (i, bs, d) \<Rightarrow> Inr (cf\<lparr>data := bs\<rparr>, ts, hw_rx_skip_loop P i (unat (wc * 4)) d))"

definition ctucan_hw_read_rx_frame ::
  "'d ctucan_hw_priv \<Rightarrow> canfd_frame \<Rightarrow> 'd \<Rightarrow> fault + canfd_frame \<times> u64 \<times> 'd" where
  "ctucan_hw_read_rx_frame P cf d =
     (let (ffw, d) = hw_rd P CTU_CAN_FD_RX_DATA d in ctucan_hw_read_rx_frame_ffw P cf ffw d)"

section \<open>Transmission\<close>

definition ctucan_hw_get_tx_status :: "'d ctucan_hw_priv \<Rightarrow> u8 \<Rightarrow> 'd \<Rightarrow> u32 \<times> 'd" where
  "ctucan_hw_get_tx_status P buf d =
     (let (reg, d) = hw_rd P CTU_CAN_FD_TX_STATUS d
      in (if buf = CTU_CAN_FD_TXT_BUFFER_1 then get_s ctu_can_fd_tx_status ''tx1s'' reg
          else if buf = CTU_CAN_FD_TXT_BUFFER_2 then get_s ctu_can_fd_tx_status ''tx2s'' reg
          else if buf = CTU_CAN_FD_TXT_BUFFER_3 then get_s ctu_can_fd_tx_status ''tx3s'' reg
          else if buf = CTU_CAN_FD_TXT_BUFFER_4 then get_s ctu_can_fd_tx_status ''tx4s'' reg
          else NOT 0, d))"

definition ctucan_hw_is_txt_buf_accessible :: "'d ctucan_hw_priv \<Rightarrow> u8 \<Rightarrow> 'd \<Rightarrow> bool \<times> 'd" where
  "ctucan_hw_is_txt_buf_accessible P buf d =
     (let (buf_status, d) = ctucan_hw_get_tx_status P buf d
      in (\<not> (buf_status = TXT_RDY \<or> buf_status = TXT_TRAN \<or> buf_status = TXT_ABTP), d))"

definition ctucan_hw_txt_buf_give_command :: "'d ctucan_hw_priv \<Rightarrow> u32 \<Rightarrow> u8 \<Rightarrow> 'd \<Rightarrow> 'd" where
  "ctucan_hw_txt_buf_give_command P cmd buf d =
     (let reg = set_s ctu_can_fd_tx_command_txtb_info ''txb1'' 1 0;
          reg = push_bit (unat (buf - CTU_CAN_FD_TXT_BUFFER_1)) reg
      in hw_wr P CTU_CAN_FD_TX_COMMAND (reg OR cmd) d)"

definition ctucan_hw_txt_set_empty :: "'d ctucan_hw_priv \<Rightarrow> u8 \<Rightarrow> 'd \<Rightarrow> 'd" where
  "ctucan_hw_txt_set_empty P buf d =
     ctucan_hw_txt_buf_give_command P (set_s ctu_can_fd_tx_command_txtb_info ''txce'' 1 0) buf d"

definition ctucan_hw_txt_set_rdy :: "'d ctucan_hw_priv \<Rightarrow> u8 \<Rightarrow> 'd \<Rightarrow> 'd" where
  "ctucan_hw_txt_set_rdy P buf d =
     ctucan_hw_txt_buf_give_command P (set_s ctu_can_fd_tx_command_txtb_info ''txcr'' 1 0) buf d"

definition ctucan_hw_txt_set_abort :: "'d ctucan_hw_priv \<Rightarrow> u8 \<Rightarrow> 'd \<Rightarrow> 'd" where
  "ctucan_hw_txt_set_abort P buf d =
     ctucan_hw_txt_buf_give_command P (set_s ctu_can_fd_tx_command_txtb_info ''txca'' 1 0) buf d"

definition ctucan_hw_set_txt_priority :: "'d ctucan_hw_priv \<Rightarrow> u8 list \<Rightarrow> 'd \<Rightarrow> fault + 'd" where
  "ctucan_hw_set_txt_priority P prio d =
     (if length prio < 4 then Inl OutOfBounds
      else
        let reg = 0;
            reg = set_s ctu_can_fd_tx_priority ''txt1p'' (ucast (prio ! 0)) reg;
            reg = set_s ctu_can_fd_tx_priority ''txt2p'' (ucast (prio ! 1)) reg;
            reg = set_s ctu_can_fd_tx_priority ''txt3p'' (ucast (prio ! 2)) reg;
            reg = set_s ctu_can_fd_tx_priority ''txt4p'' (ucast (prio ! 3)) reg
        in Inr (hw_wr P CTU_CAN_FD_TX_PRIORITY reg d))"

definition tx_buf_bases :: "u32 list" where
  "tx_buf_bases = [ctu_can_fd_txtb_data_1_4 ! 0 ! 0, ctu_can_fd_txtb_data_1_4 ! 1 ! 0,
     ctu_can_fd_txtb_data_1_4 ! 2 ! 0, ctu_can_fd_txtb_data_1_4 ! 3 ! 0]"

definition hw_tx_ffw :: "canfd_frame \<Rightarrow> bool \<Rightarrow> u32" where
  "hw_tx_ffw cf isfdf =
     (let ffw = 0;
          ffw = (if can_id cf AND CAN_RTR_FLAG \<noteq> 0 then set_s ctu_can_fd_frame_format_w ''rtr'' RTR_FRAME ffw else ffw);
          ffw = set_s ctu_can_fd_frame_format_w ''ide'' (if can_id cf AND CAN_EFF_FLAG \<noteq> 0 then EXTENDED else BASE) ffw;
          ffw = set_s ctu_can_fd_frame_format_w ''dlc'' (ucast (can_len2dlc (flen cf))) ffw
      in if isfdf
         then let ffw = set_s ctu_can_fd_frame_format_w ''fdf'' FD_CAN ffw
              in if flags cf AND CANFD_BRS \<noteq> 0 then set_s ctu_can_fd_frame_format_w ''brs'' BR_SHIFT ffw else ffw
         else ffw)"

function hw_insert_data ::
  "'d ctucan_hw_priv \<Rightarrow> u32 \<Rightarrow> canfd_frame \<Rightarrow> nat \<Rightarrow> 'd \<Rightarrow> fault + 'd" where
  "hw_insert_data P buf_base cf i d =
     (if i < unat (flen cf)
      then case get_le32 (data cf) i of
             None \<Rightarrow> Inl OutOfBounds
           | Some w \<Rightarrow> hw_insert_data P buf_base cf (i + 4)
               (ctucan_hw_write_txt_buf P buf_base (CTU_CAN_FD_DATA_1_4_W + of_nat i) w d)
      else Inr d)"
  by pat_completeness auto
termination
  by (relation "measure (\<lambda>(P, b, cf, i, d). unat (flen cf) - i)") auto

declare hw_insert_data.simps [simp del]

definition ctucan_hw_insert_frame ::
  "'d ctucan_hw_priv \<Rightarrow> canfd_frame \<Rightarrow> u64 \<Rightarrow> u8 \<Rightarrow> bool \<Rightarrow> 'd \<Rightarrow> fault + bool \<times> 'd" where
  "ctucan_hw_insert_frame P cf ts buf isfdf d =
     (if buf \<ge> CTU_CAN_FD_TXT_BUFFER_COUNT then Inr (False, d)
      else
        let buf_base = tx_buf_bases ! unat buf;
            (accessible, d) = ctucan_hw_is_txt_buf_accessible P buf d
        in if \<not> accessible then Inr (False, d)
        else if unat (flen cf) > CANFD_MAX_DLEN then Inr (False, d)
        else
          let d = ctucan_hw_write_txt_buf P buf_base CTU_CAN_FD_FRAME_FORMAT_W (hw_tx_ffw cf isfdf) d;
              d = ctucan_hw_write_txt_buf P buf_base CTU_CAN_FD_IDENTIFIER_W (ctucan_hw_id_to_hwid (can_id cf)) d;
              d = ctucan_hw_write_txt_buf P buf_base CTU_CAN_FD_TIMESTAMP_L_W (ucast ts) d;
              d = ctucan_hw_write_txt_buf P buf_base CTU_CAN_FD_TIMESTAMP_U_W (ucast (drop_bit 32 ts)) d
          in if can_id cf AND CAN_RTR_FLAG = 0
             then case hw_insert_data P buf_base cf 0 d of
                    Inl f \<Rightarrow> Inl f
                  | Inr d \<Rightarrow> Inr (True, d)
             else Inr (True, d))"

definition ctucan_hw_get_tx_frame_ctr :: "'d ctucan_hw_priv \<Rightarrow> 'd \<Rightarrow> u32 \<times> 'd" where
  "ctucan_hw_get_tx_frame_ctr P d =
     (let (reg, d) = hw_rd P CTU_CAN_FD_TX_FR_CTR d in (get_s ctu_can_fd_tx_fr_ctr ''tx_fr_ctr_val'' reg, d))"

definition ctucan_hw_get_rx_frame_ctr :: "'d ctucan_hw_priv \<Rightarrow> 'd \<Rightarrow> u32 \<times> 'd" where
  "ctucan_hw_get_rx_frame_ctr P d =
     (let (reg, d) = hw_rd P CTU_CAN_FD_RX_FR_CTR d in (get_s ctu_can_fd_rx_fr_ctr ''rx_fr_ctr_val'' reg, d))"

definition ctu_can_fd_read_debug_info :: "'d ctucan_hw_priv \<Rightarrow> 'd \<Rightarrow> u32 \<times> 'd" where
  "ctu_can_fd_read_debug_info P d = hw_rd P CTU_CAN_FD_DEBUG_REGISTER d"

section \<open>Timestamp\<close>

definition ctucan_hw_read_timestamp :: "'d ctucan_hw_priv \<Rightarrow> 'd \<Rightarrow> u64 \<times> 'd" where
  "ctucan_hw_read_timestamp P d =
     (let (ts_high, d) = hw_rd P CTU_CAN_FD_TIMESTAMP_HIGH d;
          (ts_low, d) = hw_rd P CTU_CAN_FD_TIMESTAMP_LOW d;
          (ts_high_2, d) = hw_rd P CTU_CAN_FD_TIMESTAMP_HIGH d;
          (ts_low, d) = (if ts_high \<noteq> ts_high_2 then hw_rd P CTU_CAN_FD_TIMESTAMP_LOW d else (ts_low, d))
      in (push_bit 32 (ucast ts_high_2) OR ucast ts_low, d))"

section \<open>The library and the kernel driver\<close>

text \<open>The accessors of the library for the bus and the byte order of a driver.\<close>

definition hw_priv_of :: "'d bus \<Rightarrow> ctucan_priv \<Rightarrow> 'd ctucan_hw_priv" where
  "hw_priv_of B p = \<lparr>hw_mem_base = mem_base p,
     read_reg = (case reg_access p of IO_LE \<Rightarrow> ctucan_hw_read32 B | IO_BE \<Rightarrow> ctucan_hw_read32_be B),
     write_reg = (case reg_access p of IO_LE \<Rightarrow> ctucan_hw_write32 B | IO_BE \<Rightarrow> ctucan_hw_write32_be B)\<rparr>"

lemma hw_rd_driver:
  "ctucan_read32 B reg s = (let (v, d) = hw_rd (hw_priv_of B (priv s)) reg (hw s) in (v, s\<lparr>hw := d\<rparr>))"
  by (simp add: ctucan_read32_bus hw_rd_def hw_priv_of_def ctucan_hw_read32_def ctucan_hw_read32_be_def
      bus_order_def split_def Let_def split: io_access.split)

lemma hw_wr_driver: "ctucan_write32 B reg w s = s\<lparr>hw := hw_wr (hw_priv_of B (priv s)) reg w (hw s)\<rparr>"
  by (simp add: ctucan_write32_bus hw_wr_def hw_priv_of_def ctucan_hw_write32_def ctucan_hw_write32_be_def
      bus_order_def split: io_access.split)

lemmas field_simps_s = get_s_def set_s_def field_pos_def bf_get_def reg_masks BIT_GENMASK FIELD_GET_GENMASK

lemma ffw_fields:
  "get_s ctu_can_fd_frame_format_w ''dlc'' r = FIELD_GET REG_FRAME_FORMAT_W_DLC r"
  "get_s ctu_can_fd_frame_format_w ''rtr'' r = FIELD_GET REG_FRAME_FORMAT_W_RTR r"
  "get_s ctu_can_fd_frame_format_w ''ide'' r = FIELD_GET REG_FRAME_FORMAT_W_IDE r"
  "get_s ctu_can_fd_frame_format_w ''fdf'' r = FIELD_GET REG_FRAME_FORMAT_W_FDF r"
  "get_s ctu_can_fd_frame_format_w ''brs'' r = FIELD_GET REG_FRAME_FORMAT_W_BRS r"
  "get_s ctu_can_fd_frame_format_w ''esi_rsv'' r = FIELD_GET REG_FRAME_FORMAT_W_ESI_RSV r"
  "get_s ctu_can_fd_frame_format_w ''rwcnt'' r = FIELD_GET REG_FRAME_FORMAT_W_RWCNT r"
  by (simp_all add: field_simps_s ctu_can_fd_frame_format_w_def)

lemma ffw_flags:
  "(FIELD_GET REG_FRAME_FORMAT_W_RTR r = 1) = (FIELD_GET REG_FRAME_FORMAT_W_RTR r \<noteq> 0)"
  "(FIELD_GET REG_FRAME_FORMAT_W_IDE r = 1) = (FIELD_GET REG_FRAME_FORMAT_W_IDE r \<noteq> 0)"
  "(FIELD_GET REG_FRAME_FORMAT_W_FDF r = 1) = (FIELD_GET REG_FRAME_FORMAT_W_FDF r \<noteq> 0)"
  "(FIELD_GET REG_FRAME_FORMAT_W_BRS r = 1) = (FIELD_GET REG_FRAME_FORMAT_W_BRS r \<noteq> 0)"
  "(FIELD_GET REG_FRAME_FORMAT_W_ESI_RSV r = 1) = (FIELD_GET REG_FRAME_FORMAT_W_ESI_RSV r \<noteq> 0)"
  by (simp_all add: reg_masks FIELD_GET_BIT)

lemma can_masks:
  "CAN_EFF_MASK = mask 29" "CAN_SFF_MASK = mask 11" "CAN_EFF_FLAG = BIT 31" "CAN_RTR_FLAG = BIT 30"
  "(0x3FFFF :: u32) = mask 18"
  by (simp_all add: can_id_consts mask_eq_exp_minus_1 BIT_def push_bit_eq_mult)

lemma idw_fields:
  "get_s ctu_can_fd_identifier_w ''identifier_base'' r = take_bit 11 (drop_bit 18 r)"
  "get_s ctu_can_fd_identifier_w ''identifier_ext'' r = take_bit 18 r"
  "set_s ctu_can_fd_identifier_w ''identifier_base'' v r = bf_set 18 11 v r"
  "set_s ctu_can_fd_identifier_w ''identifier_ext'' v r = bf_set 0 18 v r"
  by (simp_all add: get_s_def set_s_def field_pos_def bf_get_def ctu_can_fd_identifier_w_def)

lemma hw_rx_words:
  "hw_rx_wc ffw = rx_wc ffw" "hw_rx_len ffw = rx_len ffw" "hw_rx_flags ffw = rx_flags ffw"
  "hw_rx_can_id ffw idw = rx_can_id ffw idw"
proof -
  show "hw_rx_wc ffw = rx_wc ffw" by (simp add: hw_rx_wc_def rx_wc_def ffw_fields)
  then show "hw_rx_len ffw = rx_len ffw"
    by (simp add: hw_rx_len_def rx_len_def ffw_fields hw_enums ffw_flags)
  show "hw_rx_flags ffw = rx_flags ffw"
    by (simp add: hw_rx_flags_def rx_flags_def ffw_fields hw_enums ffw_flags)
  have "CAN_EFF_FLAG OR push_bit 18 (take_bit 11 (drop_bit 18 idw)) OR take_bit 18 idw =
      (idw AND CAN_EFF_MASK) OR CAN_EFF_FLAG"
    unfolding can_masks by (intro bit_eqI) (auto simp: bit_simps bit_BIT)
  moreover have "take_bit 11 (drop_bit 18 idw) = drop_bit 18 idw AND CAN_SFF_MASK"
    by (simp add: can_masks take_bit_eq_mask)
  ultimately have "ctucan_hw_hwid_to_id idw (FIELD_GET REG_FRAME_FORMAT_W_IDE ffw) =
      (if FIELD_GET REG_FRAME_FORMAT_W_IDE ffw \<noteq> 0 then (idw AND CAN_EFF_MASK) OR CAN_EFF_FLAG
       else drop_bit 18 idw AND CAN_SFF_MASK)"
    by (simp add: ctucan_hw_hwid_to_id_def hw_enums ffw_flags idw_fields or.assoc)
  then show "hw_rx_can_id ffw idw = rx_can_id ffw idw"
    by (simp add: hw_rx_can_id_def rx_can_id_def ffw_fields hw_enums ffw_flags)
qed

lemma hw_rx_data_loop_driver:
  "rx_data_loop B len i bs s =
     (case hw_rx_data_loop (hw_priv_of B (priv s)) len i bs (hw s) of
        Inl f \<Rightarrow> Inl f | Inr (i, bs, d) \<Rightarrow> Inr (i, bs, s\<lparr>hw := d\<rparr>))"
proof (induction B len i bs s rule: rx_data_loop.induct)
  case (1 B len i bs s)
  show ?case
    unfolding rx_data_loop.simps [of B len i] hw_rx_data_loop.simps [of _ len i]
    using 1 by (auto simp: hw_rd_driver CTU_CAN_FD_RX_DATA_def CTUCANFD_RX_DATA_def split: option.splits prod.splits sum.splits)
qed

lemma hw_rx_skip_loop_driver:
  "rx_skip_loop B i n s = s\<lparr>hw := hw_rx_skip_loop (hw_priv_of B (priv s)) i n (hw s)\<rparr>"
proof (induction B i n s rule: rx_skip_loop.induct)
  case (1 B i n s)
  show ?case
    unfolding rx_skip_loop.simps [of B i] hw_rx_skip_loop.simps [of _ i]
    using 1 by (auto simp: hw_rd_driver CTU_CAN_FD_RX_DATA_def CTUCANFD_RX_DATA_def split: prod.splits)
qed

text \<open>C19: The two drivers read a frame from the RX FIFO alike: with the same first word, bus and byte
  order they fail together or leave the device in the same state with the same frame; the library
  also returns the timestamp.\<close>

theorem hw_read_frame_equiv:
  "ctucan_read_rx_frame B cf ffw s =
     (case ctucan_hw_read_rx_frame_ffw (hw_priv_of B (priv s)) cf ffw (hw s) of
        Inl f \<Rightarrow> Inl f
      | Inr (cf', ts, d) \<Rightarrow> Inr (cf', s\<lparr>hw := d\<rparr>))"
  unfolding ctucan_read_rx_frame_def ctucan_hw_read_rx_frame_ffw_def
  by (auto simp: hw_rd_driver Let_def hw_rx_words hw_rx_data_loop_driver hw_rx_skip_loop_driver
      CTU_CAN_FD_RX_DATA_def CTUCANFD_RX_DATA_def split: sum.splits prod.splits)

lemma ffw_sets:
  "set_s ctu_can_fd_frame_format_w ''dlc'' v r = bf_set 0 4 v r"
  "set_s ctu_can_fd_frame_format_w ''rtr'' v r = bf_set 5 1 v r"
  "set_s ctu_can_fd_frame_format_w ''ide'' v r = bf_set 6 1 v r"
  "set_s ctu_can_fd_frame_format_w ''fdf'' v r = bf_set 7 1 v r"
  "set_s ctu_can_fd_frame_format_w ''brs'' v r = bf_set 9 1 v r"
  by (simp_all add: set_s_def field_pos_def ctu_can_fd_frame_format_w_def)

lemma hw_tx_words:
  "hw_tx_ffw cf isfdf = tx_ffw (K\<lparr>k_fd_len2dlc := can_len2dlc\<rparr>) cf isfdf"
  "ctucan_hw_id_to_hwid (can_id cf) = tx_idw cf"
proof -
  show "hw_tx_ffw cf isfdf = tx_ffw (K\<lparr>k_fd_len2dlc := can_len2dlc\<rparr>) cf isfdf"
    unfolding hw_tx_ffw_def tx_ffw_def Let_def ffw_sets hw_enums
    by (intro bit_eqI)
      (auto simp: bit_bf_set bit_simps bit_BIT reg_masks BIT_GENMASK FIELD_PREP_GENMASK bit_GENMASK)
  show "ctucan_hw_id_to_hwid (can_id cf) = tx_idw cf"
    unfolding ctucan_hw_id_to_hwid_def tx_idw_def Let_def idw_fields can_masks
    by (intro bit_eqI) (auto simp: bit_bf_set bit_simps bit_BIT reg_masks FIELD_PREP_GENMASK)
qed

text \<open>The words of a frame do not depend on which of the two drivers writes it: frame format word
  and identifier word of the library are those of the kernel driver with the library's table of data
  length codes, and the library's conversion back gives the identifier without its request and error
  flags.\<close>

lemma hw_frame_words:
  "hw_tx_ffw cf isfdf = tx_ffw (K\<lparr>k_fd_len2dlc := can_len2dlc\<rparr>) cf isfdf \<and>
   ctucan_hw_id_to_hwid (can_id cf) = tx_idw cf \<and>
   ctucan_hw_hwid_to_id (ctucan_hw_id_to_hwid i) (if i AND CAN_EFF_FLAG \<noteq> 0 then EXTENDED else BASE) =
     (if i AND CAN_EFF_FLAG \<noteq> 0 then i AND (CAN_EFF_FLAG OR CAN_EFF_MASK) else i AND CAN_SFF_MASK)"
proof -
  have "ctucan_hw_hwid_to_id (ctucan_hw_id_to_hwid i) (if i AND CAN_EFF_FLAG \<noteq> 0 then EXTENDED else BASE) =
     (if i AND CAN_EFF_FLAG \<noteq> 0 then i AND (CAN_EFF_FLAG OR CAN_EFF_MASK) else i AND CAN_SFF_MASK)"
    unfolding ctucan_hw_hwid_to_id_def ctucan_hw_id_to_hwid_def idw_fields can_masks Let_def
    by (intro bit_eqI) (auto simp: hw_enums bit_bf_set bit_simps bit_BIT and_BIT)
  then show ?thesis using hw_tx_words by blast
qed

lemma ts_join: "unat (push_bit 32 (ucast (h :: u32)) OR ucast (l :: u32) :: u64) = unat h * 2 ^ 32 + unat l"
proof -
  have "push_bit 32 (ucast h) OR ucast l = (push_bit 32 (ucast h) + ucast l :: u64)"
    by (rule disjunctive_add [symmetric]) (auto simp: bit_simps dest: bit_imp_le_length)
  moreover have "unat h * 2 ^ 32 + unat l < 2 ^ 64"
    using unsigned_less [of h, where ?'a = nat] unsigned_less [of l, where ?'a = nat] by simp
  ultimately show ?thesis
    by (simp add: push_bit_eq_mult unat_word_ariths unat_u32_u64 mult.commute)
qed

lemma unat_high: "n < 2 ^ 64 \<Longrightarrow> unat (of_nat (n div 2 ^ 32) :: u32) = n div 2 ^ 32"
  by (simp add: unsigned_of_nat take_bit_nat_eq_self div_less_iff_less_mult)

lemma ts_word:
  assumes "a div 2 ^ 32 = b div 2 ^ 32" "b < 2 ^ 64"
  shows "unat (push_bit 32 (ucast (of_nat (a div 2 ^ 32) :: u32)) OR ucast (of_nat b :: u32) :: u64) = b"
proof -
  have "unat (of_nat b :: u32) = b mod 2 ^ 32" by (simp add: unsigned_of_nat take_bit_eq_mod)
  then show ?thesis unfolding ts_join assms(1) unat_high [OF assms(2)] by simp
qed

lemma div_between: "a \<le> b \<Longrightarrow> b \<le> c \<Longrightarrow> a div p = c div p \<Longrightarrow> c div p = (b :: nat) div p"
  by (metis div_le_mono le_antisym)

lemma div_once:
  assumes "a \<le> c" "c \<le> e" "e < a + p" "a div p \<noteq> (c :: nat) div p"
  shows "c div p = e div p"
proof -
  have "a div p \<le> c div p" "c div p \<le> e div p" using assms(1,2) by (simp_all add: div_le_mono)
  moreover have "e div p \<le> (a + p) div p" using assms(3) by (simp add: div_le_mono)
  moreover have "(a + p) div p \<le> a div p + 1" by (cases "p = 0") (simp_all add: div_add_self2)
  ultimately show ?thesis using assms(4) by linarith
qed

text \<open>C21: A free-running timestamp counter is read consistently although its two halves are read one
  after the other: the value returned is one the counter had during the call, if the call takes less
  than one period of the lower half.\<close>

theorem timestamp_consistent:
  assumes high: "\<And>d. fst (hw_rd P CTU_CAN_FD_TIMESTAMP_HIGH d) = of_nat (ts d div 2 ^ 32)"
    and low: "\<And>d. fst (hw_rd P CTU_CAN_FD_TIMESTAMP_LOW d) = of_nat (ts d)"
    and mono: "\<And>reg d. ts d \<le> ts (snd (hw_rd P reg d))"
    and fast: "ts (snd (ctucan_hw_read_timestamp P d)) < ts d + 2 ^ 32"
    and small: "ts (snd (ctucan_hw_read_timestamp P d)) < 2 ^ 64"
  shows "ts d \<le> unat (fst (ctucan_hw_read_timestamp P d)) \<and>
    unat (fst (ctucan_hw_read_timestamp P d)) \<le> ts (snd (ctucan_hw_read_timestamp P d))"
proof -
  define H L where "H = hw_rd P CTU_CAN_FD_TIMESTAMP_HIGH" and "L = hw_rd P CTU_CAN_FD_TIMESTAMP_LOW"
  define d1 d2 d3 d4 where "d1 = snd (H d)" and "d2 = snd (L d1)" and "d3 = snd (H d2)" and "d4 = snd (L d3)"
  have m: "ts d \<le> ts d1" "ts d1 \<le> ts d2" "ts d2 \<le> ts d3" "ts d3 \<le> ts d4"
    unfolding d1_def d2_def d3_def d4_def H_def L_def by (rule mono)+
  let ?h = "of_nat (ts d div 2 ^ 32) :: u32" and ?h2 = "of_nat (ts d2 div 2 ^ 32) :: u32"
  have v: "ctucan_hw_read_timestamp P d =
      (if ?h \<noteq> ?h2 then (push_bit 32 (ucast ?h2) OR ucast (of_nat (ts d3) :: u32), d4)
       else (push_bit 32 (ucast ?h2) OR ucast (of_nat (ts d1) :: u32), d3))"
    using high low unfolding ctucan_hw_read_timestamp_def d1_def d2_def d3_def d4_def H_def L_def
    by (auto simp: Let_def split_def)
  show ?thesis
  proof (cases "?h = ?h2")
    case True
    have b: "ts d3 < 2 ^ 64" using small unfolding v using True by simp
    have "ts d < 2 ^ 64" "ts d2 < 2 ^ 64" using m b by simp_all
    then have "ts d div 2 ^ 32 = ts d2 div 2 ^ 32" using True unat_high by metis
    from div_between [OF m(1,2) this] show ?thesis
      unfolding v using True ts_word [OF _ le_less_trans [OF order_trans [OF m(2,3)] b]] m by simp
  next
    case False
    have b: "ts d4 < 2 ^ 64" "ts d4 < ts d + 2 ^ 32" using small fast unfolding v using False by simp_all
    have "ts d3 < ts d + 2 ^ 32" "ts d \<le> ts d2" "ts d div 2 ^ 32 \<noteq> ts d2 div 2 ^ 32" using b(2) m False by auto
    from div_once [OF this(2) m(3) this(1,3)] show ?thesis
      unfolding v using False ts_word [OF _ le_less_trans [OF m(4) b(1)]] m by simp
  qed
qed

definition counter_regs :: "nat ctucan_hw_priv" where
  "counter_regs = \<lparr>hw_mem_base = 0,
     read_reg = (\<lambda>_ reg t. (if reg = CTU_CAN_FD_TIMESTAMP_HIGH then of_nat (t div 2 ^ 32) else of_nat t, t + 1)),
     write_reg = (\<lambda>_ _ _ t. t)\<rparr>"

theorem timestamp_consistent_witness:
  "2 ^ 32 - 1 \<le> unat (fst (ctucan_hw_read_timestamp counter_regs (2 ^ 32 - 1))) \<and>
   unat (fst (ctucan_hw_read_timestamp counter_regs (2 ^ 32 - 1))) \<le> 2 ^ 32 + 3"
proof -
  have e: "snd (ctucan_hw_read_timestamp counter_regs (2 ^ 32 - 1)) = 2 ^ 32 + 3"
    by (simp add: ctucan_hw_read_timestamp_def counter_regs_def hw_rd_def CTU_CAN_FD_TIMESTAMP_HIGH_def
        CTU_CAN_FD_TIMESTAMP_LOW_def)
  show ?thesis
    using timestamp_consistent [of counter_regs "\<lambda>t. t" "2 ^ 32 - 1"] unfolding e
    by (simp add: counter_regs_def hw_rd_def CTU_CAN_FD_TIMESTAMP_HIGH_def CTU_CAN_FD_TIMESTAMP_LOW_def)
qed

lemma btr_sets:
  "set_s ctu_can_fd_btr ''prop'' v r = bf_set 0 7 v r"
  "set_s ctu_can_fd_btr ''ph1'' v r = bf_set 7 6 v r"
  "set_s ctu_can_fd_btr ''ph2'' v r = bf_set 13 6 v r"
  "set_s ctu_can_fd_btr ''brp'' v r = bf_set 19 8 v r"
  "set_s ctu_can_fd_btr ''sjw'' v r = bf_set 27 5 v r"
  "set_s ctu_can_fd_btr_fd ''prop_fd'' v r = bf_set 0 6 v r"
  "set_s ctu_can_fd_btr_fd ''ph1_fd'' v r = bf_set 7 5 v r"
  "set_s ctu_can_fd_btr_fd ''ph2_fd'' v r = bf_set 13 5 v r"
  "set_s ctu_can_fd_btr_fd ''brp_fd'' v r = bf_set 19 8 v r"
  "set_s ctu_can_fd_btr_fd ''sjw_fd'' v r = bf_set 27 5 v r"
  by (simp_all add: set_s_def field_pos_def ctu_can_fd_btr_def ctu_can_fd_btr_fd_def)

lemma hw_btr_words:
  "bf_set 27 5 s (bf_set 19 8 b (bf_set 13 6 p2 (bf_set 7 6 p1 (bf_set 0 7 p 0)))) =
     FIELD_PREP REG_BTR_PROP p OR FIELD_PREP REG_BTR_PH1 p1 OR FIELD_PREP REG_BTR_PH2 p2
       OR FIELD_PREP REG_BTR_BRP b OR FIELD_PREP REG_BTR_SJW s"
  "bf_set 27 5 s (bf_set 19 8 b (bf_set 13 5 p2 (bf_set 7 5 p1 (bf_set 0 6 p 0)))) =
     FIELD_PREP REG_BTR_FD_PROP_FD p OR FIELD_PREP REG_BTR_FD_PH1_FD p1 OR FIELD_PREP REG_BTR_FD_PH2_FD p2
       OR FIELD_PREP REG_BTR_FD_BRP_FD b OR FIELD_PREP REG_BTR_FD_SJW_FD s"
  by (intro bit_eqI; auto simp: bit_bf_set bit_simps btr_masks field_algebra)+

lemma hw_bittiming:
  "ctucan_hw_set_nom_bittiming P bt d =
     (btr_split True bt, hw_wr P CTU_CAN_FD_BTR (btr_word True (btr_split True bt)) d)"
  "ctucan_hw_set_data_bittiming P bt d =
     (btr_split False bt, hw_wr P CTU_CAN_FD_BTR_FD (btr_word False (btr_split False bt)) d)"
  by (simp_all add: ctucan_hw_set_nom_bittiming_def ctucan_hw_set_data_bittiming_def btr_split_def btr_word_def
      Let_def btr_sets hw_btr_words)

lemma err_fields:
  "get_s ctu_can_fd_ewl_erp_fault_state ''ew_limit'' r = FIELD_GET REG_EWL_EW_LIMIT r"
  "get_s ctu_can_fd_ewl_erp_fault_state ''era'' r = FIELD_GET REG_EWL_ERA r"
  "get_s ctu_can_fd_ewl_erp_fault_state ''erp'' r = FIELD_GET REG_EWL_ERP r"
  "get_s ctu_can_fd_ewl_erp_fault_state ''bof'' r = FIELD_GET REG_EWL_BOF r"
  "get_s ctu_can_fd_rec_tec ''rec_val'' r = FIELD_GET REG_REC_REC_VAL r"
  "get_s ctu_can_fd_rec_tec ''tec_val'' r = FIELD_GET REG_REC_TEC_VAL r"
  by (simp_all add: field_simps_s ctu_can_fd_ewl_erp_fault_state_def ctu_can_fd_rec_tec_def)

lemma hw_error_state:
  "ctucan_hw_read_error_state (hw_priv_of B (priv s)) (hw s) =
   (case ctucan_read_fault_state B s of (st, s) \<Rightarrow> (st, hw s))"
  unfolding ctucan_hw_read_error_state_def ctucan_read_fault_state_def fault_state_def Let_def err_fields
  by (auto simp: hw_rd_driver kdo_def CTU_CAN_FD_EWL_def CTUCANFD_EWL_def CTU_CAN_FD_REC_def
      CTUCANFD_REC_def split: prod.splits)

lemma hw_err_ctrs:
  "ctucan_get_rec_tec B s =
     (let (c, d) = ctucan_hw_read_err_ctrs (hw_priv_of B (priv s)) (hw s) in (c, s\<lparr>hw := d\<rparr>))"
  unfolding ctucan_hw_read_err_ctrs_def ctucan_get_rec_tec_def err_fields
  by (simp add: hw_rd_driver Let_def split_def CTU_CAN_FD_REC_def CTUCANFD_REC_def)

text \<open>Bit timing and error handling of the library are those of the kernel driver: it redistributes
  and writes the same timing, gives the same error state from the same two reads and the same error
  counters.\<close>

lemma hw_config_equiv:
  "ctucan_hw_set_nom_bittiming P bt d =
     (btr_split True bt, hw_wr P CTU_CAN_FD_BTR (btr_word True (btr_split True bt)) d) \<and>
   ctucan_hw_set_data_bittiming P bt d =
     (btr_split False bt, hw_wr P CTU_CAN_FD_BTR_FD (btr_word False (btr_split False bt)) d) \<and>
   ctucan_hw_read_error_state (hw_priv_of B (priv s)) (hw s) =
     (case ctucan_read_fault_state B s of (st, s) \<Rightarrow> (st, hw s)) \<and>
   ctucan_get_rec_tec B s =
     (let (c, d) = ctucan_hw_read_err_ctrs (hw_priv_of B (priv s)) (hw s) in (c, s\<lparr>hw := d\<rparr>))"
  by (intro conjI hw_bittiming hw_error_state hw_err_ctrs)

section \<open>Where they differ\<close>

definition TXT_PER :: u32 where "TXT_PER = 0x9"

lemma tx_status_fields:
  "get_s ctu_can_fd_tx_status ''tx1s'' r = take_bit 4 r"
  "get_s ctu_can_fd_tx_status ''tx2s'' r = take_bit 4 (drop_bit 4 r)"
  "get_s ctu_can_fd_tx_status ''tx3s'' r = take_bit 4 (drop_bit 8 r)"
  "get_s ctu_can_fd_tx_status ''tx4s'' r = take_bit 4 (drop_bit 12 r)"
  by (simp_all add: get_s_def field_pos_def bf_get_def ctu_can_fd_tx_status_def)

lemma u8_below_4: "b < 4 \<Longrightarrow> b = 0 \<or> b = 1 \<or> b = 2 \<or> b = (3 :: u8)"
proof -
  assume "b < 4"
  then have "unat b < 4" by (simp add: word_less_nat_alt)
  then have "unat b = 0 \<or> unat b = 1 \<or> unat b = 2 \<or> unat b = 3" by linarith
  then show ?thesis by (simp add: word_unat_eq_iff)
qed

lemma hw_tx_status_word:
  assumes "buf < CTU_CAN_FD_TXT_BUFFER_COUNT"
  shows "ctucan_hw_get_tx_status P buf d =
    (let (r, d) = hw_rd P CTU_CAN_FD_TX_STATUS d in (take_bit 4 (drop_bit (unat buf * 4) r), d))"
  using u8_below_4 [of buf] assms
  by (auto simp: CTU_CAN_FD_TXT_BUFFER_COUNT_def ctucan_hw_get_tx_status_def hw_enums tx_status_fields Let_def split_def)

lemma take_4_and_7: "take_bit 4 r AND 7 = (r AND 7 :: u32)"
proof -
  have m: "(7 :: u32) = mask 3" by (simp add: mask_eq_exp_minus_1)
  show ?thesis unfolding m by (intro bit_eqI) (auto simp: bit_simps)
qed

lemma hw_tx_status_driver:
  assumes "buf < CTU_CAN_FD_TXT_BUFFER_COUNT"
  shows "ctucan_get_tx_status B buf s =
    (let (st, d) = ctucan_hw_get_tx_status (hw_priv_of B (priv s)) buf (hw s) in (st AND 7, s\<lparr>hw := d\<rparr>))"
  by (simp add: hw_tx_status_word [OF assms] ctucan_get_tx_status_def hw_rd_driver Let_def split_def
      CTU_CAN_FD_TX_STATUS_def CTUCANFD_TX_STATUS_def take_4_and_7)

text \<open>The library reads four bits of a buffer's status, the kernel driver three. They agree on which
  buffers may be written for every status up to \<open>TXT_ETY\<close>; a buffer with a parity error is free
  for the library, but reads as \<open>TXT_RDY\<close> in the kernel driver and is never written again.\<close>

lemma tx_status_parity:
  assumes "buf < CTU_CAN_FD_TXT_BUFFER_COUNT"
    and st: "fst (ctucan_hw_get_tx_status (hw_priv_of B (priv s)) buf (hw s)) = st"
  shows "fst (ctucan_get_tx_status B buf s) = st AND 7 \<and>
    (st \<le> TXT_ETY \<longrightarrow> fst (ctucan_is_txt_buf_writable B buf s) =
       fst (ctucan_hw_is_txt_buf_accessible (hw_priv_of B (priv s)) buf (hw s))) \<and>
    (st = TXT_PER \<longrightarrow> fst (ctucan_get_tx_status B buf s) = TXT_RDY \<and>
       \<not> fst (ctucan_is_txt_buf_writable B buf s) \<and>
       fst (ctucan_hw_is_txt_buf_accessible (hw_priv_of B (priv s)) buf (hw s)))"
proof -
  have w: "fst (ctucan_get_tx_status B buf s) = st AND 7"
    "fst (ctucan_is_txt_buf_writable B buf s) \<longleftrightarrow> st AND 7 \<notin> {TXT_RDY, TXT_TRAN, TXT_ABTP}"
    "fst (ctucan_hw_is_txt_buf_accessible (hw_priv_of B (priv s)) buf (hw s)) \<longleftrightarrow>
       st \<notin> {TXT_RDY, TXT_TRAN, TXT_ABTP}"
    using st by (auto simp: ctucan_is_txt_buf_writable_def ctucan_hw_is_txt_buf_accessible_def
        hw_tx_status_driver [OF assms(1)] Let_def split_def)
  have agree: "st AND 7 \<in> {TXT_RDY, TXT_TRAN, TXT_ABTP} \<longleftrightarrow> st \<in> {TXT_RDY, TXT_TRAN, TXT_ABTP}" if "st \<le> TXT_ETY"
  proof -
    have "unat st \<le> 8" using that by (simp add: word_le_nat_alt TXT_ETY_def)
    then have "unat st = 0 \<or> unat st = 1 \<or> unat st = 2 \<or> unat st = 3 \<or> unat st = 4 \<or> unat st = 5 \<or>
      unat st = 6 \<or> unat st = 7 \<or> unat st = 8" by linarith
    then have "st = 0 \<or> st = 1 \<or> st = 2 \<or> st = 3 \<or> st = 4 \<or> st = 5 \<or> st = 6 \<or> st = 7 \<or> st = 8"
      by (simp add: word_unat_eq_iff)
    then show ?thesis by (elim disjE) (simp_all add: txt_status_defs)
  qed
  have per: "st AND 7 = TXT_RDY" "st \<notin> {TXT_RDY, TXT_TRAN, TXT_ABTP}" if "st = TXT_PER"
    using that by (simp_all add: TXT_PER_def txt_status_defs)
  show ?thesis unfolding w(2,3) using w(1) agree per by (intro conjI impI) (simp_all only: not_not not_False_eq_True insertI1)
qed

lemma tx_status_parity_witness:
  "fst (ctucan_get_tx_status regfile 1 (demo_ndev [] (\<lambda>_. 0x90))) = TXT_RDY \<and>
   \<not> fst (ctucan_is_txt_buf_writable regfile 1 (demo_ndev [] (\<lambda>_. 0x90)))"
proof -
  have "fst (ctucan_hw_get_tx_status (hw_priv_of regfile (priv (demo_ndev [] (\<lambda>_. 0x90)))) 1
      (hw (demo_ndev [] (\<lambda>_. 0x90)))) = TXT_PER"
    by (simp add: ctucan_hw_get_tx_status_def hw_enums tx_status_fields hw_rd_def hw_priv_of_def demo_ndev_def
        demo_priv_def ctucan_hw_read32_def regfile_def TXT_PER_def take_bit_eq_mod drop_bit_eq_div)
  from tx_status_parity [OF _ this] show ?thesis by (auto simp: CTU_CAN_FD_TXT_BUFFER_COUNT_def)
qed

lemma and_disjoint:
  fixes a b c :: u32
  assumes "b AND c = 0"
  shows "(a AND NOT b) AND c = a AND c" "(a XOR b) AND c = a AND c"
proof -
  have "\<not> (bit b n \<and> bit c n)" for n using assms by (metis bit_and_iff bit_0_eq bot_apply bot_bool_def)
  then show "(a AND NOT b) AND c = a AND c" "(a XOR b) AND c = a AND c"
    by (auto intro!: bit_eqI simp: bit_simps)
qed

text \<open>In the library the request for bus error reporting has no influence on the controller: the
  value of its flag is never used. When it is among the requested changes, the bus error interrupt
  is enabled if the one-shot flag is set, and it is never disabled.\<close>

lemma hw_bus_error_reporting:
  assumes "cm_mask mode AND CAN_CTRLMODE_BERR_REPORTING \<noteq> 0"
  shows "ctucan_hw_set_mode P mode d =
     hw_wr P CTU_CAN_FD_INT_ENA_CLR 0 (hw_wr P CTU_CAN_FD_INT_ENA_SET
       (if cm_flags mode AND CAN_CTRLMODE_ONE_SHOT \<noteq> 0 then REG_INT_STAT_BEI else 0)
       (ctucan_hw_set_mode P (mode\<lparr>cm_mask := cm_mask mode AND NOT CAN_CTRLMODE_BERR_REPORTING\<rparr>) d)) \<and>
   ctucan_hw_set_mode P (mode\<lparr>cm_flags := cm_flags mode XOR CAN_CTRLMODE_BERR_REPORTING\<rparr>) d =
     ctucan_hw_set_mode P mode d"
proof -
  have disj: "CAN_CTRLMODE_BERR_REPORTING AND CAN_CTRLMODE_LOOPBACK = 0"
    "CAN_CTRLMODE_BERR_REPORTING AND CAN_CTRLMODE_LISTENONLY = 0"
    "CAN_CTRLMODE_BERR_REPORTING AND CAN_CTRLMODE_FD = 0"
    "CAN_CTRLMODE_BERR_REPORTING AND CAN_CTRLMODE_PRESUME_ACK = 0"
    "CAN_CTRLMODE_BERR_REPORTING AND CAN_CTRLMODE_FD_NON_ISO = 0"
    "CAN_CTRLMODE_BERR_REPORTING AND CAN_CTRLMODE_ONE_SHOT = 0"
    by (simp_all add: ctrlmode_consts)
  have bei: "set_s ctu_can_fd_int_stat ''bei'' v 0 = push_bit 6 (take_bit 1 v)" for v
    by (simp add: set_s_def field_pos_def ctu_can_fd_int_stat_def bf_set_def push_bit_eq_mult)
  have reg: "ctucan_hw_set_mode_reg P (mode\<lparr>cm_mask := cm_mask mode AND NOT CAN_CTRLMODE_BERR_REPORTING\<rparr>) d =
      ctucan_hw_set_mode_reg P mode d"
    "ctucan_hw_set_mode_reg P (mode\<lparr>cm_flags := cm_flags mode XOR CAN_CTRLMODE_BERR_REPORTING\<rparr>) d =
      ctucan_hw_set_mode_reg P mode d" for d
    by (simp_all add: ctucan_hw_set_mode_reg_def hw_mode_bit_def and_disjoint disj)
  have "(cm_mask mode AND NOT CAN_CTRLMODE_BERR_REPORTING) AND CAN_CTRLMODE_BERR_REPORTING = 0"
    by (simp add: and.assoc)
  then show ?thesis using assms
    by (simp add: ctucan_hw_set_mode_def reg and_disjoint disj ctucan_hw_int_ena_def ctucan_hw_int_conf_def
        Let_def bei REG_INT_STAT_BEI_def BIT_def)
qed

lemma hw_bus_error_reporting_witness:
  "ctucan_hw_set_mode (hw_priv_of regfile demo_priv) \<lparr>cm_mask = 0x10, cm_flags = 0x10\<rparr> (\<lambda>_. 0) =
   ctucan_hw_set_mode (hw_priv_of regfile demo_priv) \<lparr>cm_mask = 0x10, cm_flags = 0\<rparr> (\<lambda>_. 0)"
  using hw_bus_error_reporting [of "\<lparr>cm_mask = 0x10, cm_flags = 0x10\<rparr>" "hw_priv_of regfile demo_priv" "\<lambda>_. 0"]
  by (simp add: ctrlmode_consts)

end
