(* ===== verification/Ctu_Filters.thy ===== *)
theory Ctu_Filters
  imports Ctu_Hw
begin

text \<open>
  Acceptance filters: the hardware of \<open>src/frame_filters\<close> (three mask filters and a range filter
  on the received identifier) together with the library functions that program them. The registers
  are a plain store here, which is what the filter registers of the controller are. The properties
  say which frames pass the filters the library has programmed.
\<close>

section \<open>Hardware\<close>

definition bit_filter :: "bool \<Rightarrow> u32 \<Rightarrow> u32 \<Rightarrow> u32 \<Rightarrow> bool \<Rightarrow> bool" where
  "bit_filter is_present filter_mask filter_value filter_input enable =
     (let masked_input = filter_input AND filter_mask;
          masked_value = filter_value AND filter_mask
      in is_present \<and> masked_input = masked_value \<and> enable)"

definition ID_reg_to_decimal :: "u32 \<Rightarrow> nat" where
  "ID_reg_to_decimal ID_reg =
     (let base = get_s ctu_can_fd_identifier_w ''identifier_base'' ID_reg;
          ext = get_s ctu_can_fd_identifier_w ''identifier_ext'' ID_reg
      in unat (push_bit 18 base OR ext))"

definition range_filter :: "bool \<Rightarrow> u32 \<Rightarrow> u32 \<Rightarrow> u32 \<Rightarrow> bool \<Rightarrow> bool" where
  "range_filter is_present filter_upp_th filter_low_th filter_input enable =
     (let value_dec = ID_reg_to_decimal filter_input;
          upper_th_dec = ID_reg_to_decimal filter_upp_th;
          lower_th_dec = ID_reg_to_decimal filter_low_th
      in is_present \<and> value_dec \<le> upper_th_dec \<and> value_dec \<ge> lower_th_dec \<and> enable)"

record filter_generics =
  G_SUP_FILTA :: bool
  G_SUP_FILTB :: bool
  G_SUP_FILTC :: bool
  G_SUP_RANGE :: bool

record filter_mr =
  mr_filter_control :: u32
  mr_filter_a_mask :: u32
  mr_filter_a_val :: u32
  mr_filter_b_mask :: u32
  mr_filter_b_val :: u32
  mr_filter_c_mask :: u32
  mr_filter_c_val :: u32
  mr_filter_ran_high :: u32
  mr_filter_ran_low :: u32
  mr_settings_fdrf :: bool
  mr_mode_afm :: bool

record rec_frame =
  rec_ident :: u32
  rec_ident_type :: bool
  rec_frame_type :: bool
  rec_is_rtr :: bool

definition int_data_type :: "rec_frame \<Rightarrow> u32" where
  "int_data_type fr =
     (if rec_frame_type fr then if rec_ident_type fr then 8 else 4
      else if rec_ident_type fr then 2 else 1)"

text \<open>Control bits of a filter, concatenated with the first as the most significant one.\<close>

definition mask_filter :: "string list \<Rightarrow> u32 \<Rightarrow> u32" where
  "mask_filter bits ctl =
     foldl (\<lambda>v b. push_bit 1 v OR get_s ctu_can_fd_filter_control_filter_status b ctl) 0 bits"

definition mask_filter_a :: "filter_mr \<Rightarrow> u32" where
  "mask_filter_a mr = mask_filter [''fafe'', ''fafb'', ''fane'', ''fanb''] (mr_filter_control mr)"

definition mask_filter_b :: "filter_mr \<Rightarrow> u32" where
  "mask_filter_b mr = mask_filter [''fbfe'', ''fbfb'', ''fbne'', ''fbnb''] (mr_filter_control mr)"

definition mask_filter_c :: "filter_mr \<Rightarrow> u32" where
  "mask_filter_c mr = mask_filter [''fcfe'', ''fcfb'', ''fcne'', ''fcnb''] (mr_filter_control mr)"

definition mask_filter_range :: "filter_mr \<Rightarrow> u32" where
  "mask_filter_range mr = mask_filter [''frfe'', ''frfb'', ''frne'', ''frnb''] (mr_filter_control mr)"

definition filter_result :: "filter_generics \<Rightarrow> filter_mr \<Rightarrow> rec_frame \<Rightarrow> bool" where
  "filter_result G mr fr =
     (let t = int_data_type fr;
          drop_rtr_frame = (mr_settings_fdrf mr \<and> rec_is_rtr fr);
          a_valid = bit_filter (G_SUP_FILTA G) (mr_filter_a_mask mr) (mr_filter_a_val mr) (rec_ident fr)
            (mask_filter_a mr AND t \<noteq> 0);
          b_valid = bit_filter (G_SUP_FILTB G) (mr_filter_b_mask mr) (mr_filter_b_val mr) (rec_ident fr)
            (mask_filter_b mr AND t \<noteq> 0);
          c_valid = bit_filter (G_SUP_FILTC G) (mr_filter_c_mask mr) (mr_filter_c_val mr) (rec_ident fr)
            (mask_filter_c mr AND t \<noteq> 0);
          ran_valid = range_filter (G_SUP_RANGE G) (mr_filter_ran_high mr) (mr_filter_ran_low mr) (rec_ident fr)
            (mask_filter_range mr AND t \<noteq> 0)
      in if drop_rtr_frame then False else a_valid \<or> b_valid \<or> c_valid \<or> ran_valid)"

definition ident_valid_d :: "filter_generics \<Rightarrow> filter_mr \<Rightarrow> rec_frame \<Rightarrow> bool" where
  "ident_valid_d G mr fr =
     (if \<not> G_SUP_FILTA G \<and> \<not> G_SUP_FILTB G \<and> \<not> G_SUP_FILTC G \<and> \<not> G_SUP_RANGE G then True
      else if mr_mode_afm mr then filter_result G mr fr else True)"

text \<open>The commands to the RX buffer, passed on when the registered result is set.\<close>

record rx_commands =
  store_metadata :: bool
  store_data :: bool
  rec_valid :: bool
  rec_abort :: bool

definition frame_filters ::
  "filter_generics \<Rightarrow> filter_mr \<Rightarrow> rec_frame \<Rightarrow> rx_commands \<Rightarrow> bool \<Rightarrow> rx_commands \<times> bool" where
  "frame_filters G mr fr c ident_valid_q =
     (\<lparr>store_metadata = store_metadata c \<and> ident_valid_q, store_data = store_data c \<and> ident_valid_q,
       rec_valid = rec_valid c \<and> ident_valid_q, rec_abort = rec_abort c \<and> ident_valid_q\<rparr>,
      ident_valid_d G mr fr)"

section \<open>The registers as a store\<close>

definition plain_regs :: "(u32 \<Rightarrow> u32) ctucan_hw_priv" where
  "plain_regs = \<lparr>hw_mem_base = 0, read_reg = (\<lambda>_ reg m. (m reg, m)), write_reg = (\<lambda>_ reg v m. m(reg := v))\<rparr>"

definition filter_mr_of :: "(u32 \<Rightarrow> u32) \<Rightarrow> filter_mr" where
  "filter_mr_of m =
     \<lparr>mr_filter_control = m CTU_CAN_FD_FILTER_CONTROL,
      mr_filter_a_mask = get_s ctu_can_fd_filter_a_mask ''bit_mask_a_val'' (m CTU_CAN_FD_FILTER_A_MASK),
      mr_filter_a_val = get_s ctu_can_fd_filter_a_val ''bit_val_a_val'' (m CTU_CAN_FD_FILTER_A_VAL),
      mr_filter_b_mask = get_s ctu_can_fd_filter_b_mask ''bit_mask_b_val'' (m CTU_CAN_FD_FILTER_B_MASK),
      mr_filter_b_val = get_s ctu_can_fd_filter_b_val ''bit_val_b_val'' (m CTU_CAN_FD_FILTER_B_VAL),
      mr_filter_c_mask = get_s ctu_can_fd_filter_c_mask ''bit_mask_c_val'' (m CTU_CAN_FD_FILTER_C_MASK),
      mr_filter_c_val = get_s ctu_can_fd_filter_c_val ''bit_val_c_val'' (m CTU_CAN_FD_FILTER_C_VAL),
      mr_filter_ran_high = get_s ctu_can_fd_filter_ran_high ''bit_ran_high_val'' (m CTU_CAN_FD_FILTER_RAN_HIGH),
      mr_filter_ran_low = get_s ctu_can_fd_filter_ran_low ''bit_ran_low_val'' (m CTU_CAN_FD_FILTER_RAN_LOW),
      mr_settings_fdrf = (get_s ctu_can_fd_mode_settings ''fdrf'' (m CTU_CAN_FD_MODE) \<noteq> 0),
      mr_mode_afm = (get_s ctu_can_fd_mode_settings ''afm'' (m CTU_CAN_FD_MODE) \<noteq> 0)\<rparr>"

section \<open>Control bits\<close>

definition ctl_nibble :: "nat \<Rightarrow> u32 \<Rightarrow> u32" where
  "ctl_nibble k ctl = take_bit 4 (drop_bit (4 * k) ctl)"

lemma filter_bit_pos:
  "field_pos ctu_can_fd_filter_control_filter_status ''fanb'' = Some (0, 1)"
  "field_pos ctu_can_fd_filter_control_filter_status ''fane'' = Some (1, 1)"
  "field_pos ctu_can_fd_filter_control_filter_status ''fafb'' = Some (2, 1)"
  "field_pos ctu_can_fd_filter_control_filter_status ''fafe'' = Some (3, 1)"
  "field_pos ctu_can_fd_filter_control_filter_status ''fbnb'' = Some (4, 1)"
  "field_pos ctu_can_fd_filter_control_filter_status ''fbne'' = Some (5, 1)"
  "field_pos ctu_can_fd_filter_control_filter_status ''fbfb'' = Some (6, 1)"
  "field_pos ctu_can_fd_filter_control_filter_status ''fbfe'' = Some (7, 1)"
  "field_pos ctu_can_fd_filter_control_filter_status ''fcnb'' = Some (8, 1)"
  "field_pos ctu_can_fd_filter_control_filter_status ''fcne'' = Some (9, 1)"
  "field_pos ctu_can_fd_filter_control_filter_status ''fcfb'' = Some (10, 1)"
  "field_pos ctu_can_fd_filter_control_filter_status ''fcfe'' = Some (11, 1)"
  "field_pos ctu_can_fd_filter_control_filter_status ''frnb'' = Some (12, 1)"
  "field_pos ctu_can_fd_filter_control_filter_status ''frne'' = Some (13, 1)"
  "field_pos ctu_can_fd_filter_control_filter_status ''frfb'' = Some (14, 1)"
  "field_pos ctu_can_fd_filter_control_filter_status ''frfe'' = Some (15, 1)"
  "field_pos ctu_can_fd_filter_control_filter_status ''sfa'' = Some (16, 1)"
  "field_pos ctu_can_fd_filter_control_filter_status ''sfb'' = Some (17, 1)"
  "field_pos ctu_can_fd_filter_control_filter_status ''sfc'' = Some (18, 1)"
  "field_pos ctu_can_fd_filter_control_filter_status ''sfr'' = Some (19, 1)"
  by (simp_all add: field_pos_def ctu_can_fd_filter_control_filter_status_def)

lemma concat_nibble:
  assumes "b0 = off" "b1 = off + 1" "b2 = off + 2" "b3 = off + 3"
  shows "push_bit 1 (push_bit 1 (push_bit 1 (push_bit 1 0 OR bf_get b3 1 ctl) OR bf_get b2 1 ctl)
      OR bf_get b1 1 ctl) OR bf_get b0 1 ctl = take_bit 4 (drop_bit off ctl)" (is "?l = ?r")
proof (rule bit_eqI)
  fix n :: nat
  consider "n = 0" | "n = 1" | "n = 2" | "n = 3" | "4 \<le> n" by linarith
  then show "bit ?l n = bit ?r n"
    unfolding assms bit_or_iff bit_push_bit_iff bit_bf_get bit_take_bit_iff bit_drop_bit_eq o_apply
    by cases (auto simp: numeral_2_eq_2 numeral_3_eq_3)
qed

lemma mask_filter_nibbles:
  "mask_filter [''fafe'', ''fafb'', ''fane'', ''fanb''] ctl = ctl_nibble 0 ctl"
  "mask_filter [''fbfe'', ''fbfb'', ''fbne'', ''fbnb''] ctl = ctl_nibble 1 ctl"
  "mask_filter [''fcfe'', ''fcfb'', ''fcne'', ''fcnb''] ctl = ctl_nibble 2 ctl"
  "mask_filter [''frfe'', ''frfb'', ''frne'', ''frnb''] ctl = ctl_nibble 3 ctl"
  unfolding mask_filter_def foldl.simps get_s_def filter_bit_pos option.case prod.case ctl_nibble_def
  by (rule concat_nibble; simp)+

lemma set_nibble:
  "bf_set (4 * k + 3) 1 1 (bf_set (4 * k + 2) 1 1 (bf_set (4 * k + 1) 1 1 (bf_set (4 * k) 1 1 ctl))) =
     ctl OR push_bit (4 * k) 15"
proof -
  have m: "(15 :: u32) = mask 4" by (simp add: mask_eq_exp_minus_1)
  show ?thesis unfolding m by (rule bit_eqI) (auto simp: bit_bf_set bit_simps)
qed

lemma nibble_or:
  assumes "k < 8" "j < 8"
  shows "ctl_nibble j (ctl OR push_bit (4 * k) 15) = (if j = k then 15 else ctl_nibble j ctl)"
proof -
  have m: "(15 :: u32) = mask 4" by (simp add: mask_eq_exp_minus_1)
  show ?thesis unfolding m ctl_nibble_def using assms by (intro bit_eqI) (auto simp: bit_simps)
qed

lemma nibble_enabled: "15 AND int_data_type fr \<noteq> 0"
  by (simp add: int_data_type_def)

lemma set_filter_bits:
  "foldl (\<lambda>r b. set_s ctu_can_fd_filter_control_filter_status b 1 r) ctl [''fanb'', ''fane'', ''fafb'', ''fafe''] =
     ctl OR push_bit (4 * 0) 15"
  "foldl (\<lambda>r b. set_s ctu_can_fd_filter_control_filter_status b 1 r) ctl [''fbnb'', ''fbne'', ''fbfb'', ''fbfe''] =
     ctl OR push_bit (4 * 1) 15"
  "foldl (\<lambda>r b. set_s ctu_can_fd_filter_control_filter_status b 1 r) ctl [''fcnb'', ''fcne'', ''fcfb'', ''fcfe''] =
     ctl OR push_bit (4 * 2) 15"
  "foldl (\<lambda>r b. set_s ctu_can_fd_filter_control_filter_status b 1 r) ctl [''frnb'', ''frne'', ''frfb'', ''frfe''] =
     ctl OR push_bit (4 * 3) 15"
  unfolding set_nibble [symmetric]
  by (simp_all add: set_s_def filter_bit_pos numeral_2_eq_2)

lemmas filter_regs_at = CTU_CAN_FD_FILTER_CONTROL_def CTU_CAN_FD_FILTER_A_MASK_def CTU_CAN_FD_FILTER_A_VAL_def
  CTU_CAN_FD_FILTER_B_MASK_def CTU_CAN_FD_FILTER_B_VAL_def CTU_CAN_FD_FILTER_C_MASK_def
  CTU_CAN_FD_FILTER_C_VAL_def CTU_CAN_FD_FILTER_RAN_LOW_def CTU_CAN_FD_FILTER_RAN_HIGH_def CTU_CAN_FD_MODE_def

lemma hwid_29: "take_bit 29 (ctucan_hw_id_to_hwid i) = ctucan_hw_id_to_hwid i"
  unfolding ctucan_hw_id_to_hwid_def idw_fields Let_def
  by (rule bit_eqI) (auto simp: bit_bf_set bit_simps)

lemma filter_fields:
  "get_s ctu_can_fd_filter_a_mask ''bit_mask_a_val'' r = take_bit 29 r"
  "get_s ctu_can_fd_filter_a_val ''bit_val_a_val'' r = take_bit 29 r"
  "get_s ctu_can_fd_filter_b_mask ''bit_mask_b_val'' r = take_bit 29 r"
  "get_s ctu_can_fd_filter_b_val ''bit_val_b_val'' r = take_bit 29 r"
  "get_s ctu_can_fd_filter_c_mask ''bit_mask_c_val'' r = take_bit 29 r"
  "get_s ctu_can_fd_filter_c_val ''bit_val_c_val'' r = take_bit 29 r"
  "get_s ctu_can_fd_filter_ran_high ''bit_ran_high_val'' r = take_bit 29 r"
  "get_s ctu_can_fd_filter_ran_low ''bit_ran_low_val'' r = take_bit 29 r"
  by (simp_all add: get_s_def field_pos_def bf_get_def ctu_can_fd_filter_a_mask_def ctu_can_fd_filter_a_val_def
      ctu_can_fd_filter_b_mask_def ctu_can_fd_filter_b_val_def ctu_can_fd_filter_c_mask_def
      ctu_can_fd_filter_c_val_def ctu_can_fd_filter_ran_low_def ctu_can_fd_filter_ran_high_def)

section \<open>Programmed filters\<close>

text \<open>The filters are in use, a frame of this kind is not dropped, and all filters but the \<open>k\<close>-th are off.\<close>

definition filtering :: "nat \<Rightarrow> filter_generics \<Rightarrow> (u32 \<Rightarrow> u32) \<Rightarrow> rec_frame \<Rightarrow> bool" where
  "filtering k G m fr \<longleftrightarrow>
     [G_SUP_FILTA G, G_SUP_FILTB G, G_SUP_FILTC G, G_SUP_RANGE G] ! k \<and>
     get_s ctu_can_fd_mode_settings ''afm'' (m CTU_CAN_FD_MODE) \<noteq> 0 \<and>
     \<not> (get_s ctu_can_fd_mode_settings ''fdrf'' (m CTU_CAN_FD_MODE) \<noteq> 0 \<and> rec_is_rtr fr) \<and>
     list_all (\<lambda>j. j = k \<or> ctl_nibble j (m CTU_CAN_FD_FILTER_CONTROL) = 0) [0, 1, 2, 3]"

lemmas filter_model = ident_valid_d_def filter_result_def filter_mr_of_def bit_filter_def range_filter_def
  mask_filter_a_def mask_filter_b_def mask_filter_c_def mask_filter_range_def mask_filter_nibbles Let_def

lemmas filter_step = filter_model filtering_def filter_regs_at filter_fields hwid_29 nibble_enabled hw_enums

lemma plain_rd [simp]: "hw_rd plain_regs reg m = (m reg, m)"
  and plain_wr [simp]: "hw_wr plain_regs reg v m = m(reg := v)"
  by (simp_all add: hw_rd_def hw_wr_def plain_regs_def)

lemma bf_get_bit: "bf_get k 1 r = of_bool (bit r k)"
  by (rule bit_eqI) (auto simp: bit_bf_get bit_of_bool_iff)

lemma u8_below_3: "b < 3 \<longleftrightarrow> b = 0 \<or> b = 1 \<or> b = (2 :: u8)"
  using u8_below_4 [of b] by (auto simp: word_less_nat_alt)

lemma support_bits:
  "ctucan_hw_get_mask_filter_support plain_regs fnum m =
     (fnum < 3 \<and> bit (m CTU_CAN_FD_FILTER_CONTROL) (16 + unat fnum), m)"
  by (auto simp: ctucan_hw_get_mask_filter_support_def hw_enums get_s_def filter_bit_pos bf_get_bit u8_below_3
      simp flip: One_nat_def)

lemma set_mask_filter_regs:
  assumes "fnum < 3" "bit (m CTU_CAN_FD_FILTER_CONTROL) (16 + unat fnum)"
    and "mask_filter_regs fnum = Some (maddr, vaddr, bits)"
  shows "ctucan_hw_set_mask_filter plain_regs fnum True flt m =
    (True, m(CTU_CAN_FD_FILTER_CONTROL := m CTU_CAN_FD_FILTER_CONTROL OR push_bit (4 * unat fnum) 15,
       maddr := ctucan_hw_id_to_hwid (filter_can_id flt), vaddr := ctucan_hw_id_to_hwid (filter_can_mask flt)))"
proof -
  have "foldl (\<lambda>r b. set_s ctu_can_fd_filter_control_filter_status b 1 r) (m CTU_CAN_FD_FILTER_CONTROL) bits =
      m CTU_CAN_FD_FILTER_CONTROL OR push_bit (4 * unat fnum) 15"
    using assms(3) set_filter_bits [of "m CTU_CAN_FD_FILTER_CONTROL"]
    by (auto simp: mask_filter_regs_def hw_enums split: if_splits)
  then show ?thesis using assms
    by (simp add: ctucan_hw_set_mask_filter_def support_bits Let_def)
qed

text \<open>C24: A mask filter programmed by the library as the only one in use accepts a frame exactly when its
  identifier agrees with \<open>can_mask\<close> in the bits of \<open>can_id\<close>: the two members of the filter are
  written to each other's register, so that the documented rule, agreement with \<open>can_id\<close> in the bits
  of \<open>can_mask\<close>, holds with the roles exchanged.\<close>

theorem mask_filter_swapped:
  assumes "fnum < 3" "bit (m CTU_CAN_FD_FILTER_CONTROL) (16 + unat fnum)" "filtering (unat fnum) G m fr"
  shows "fst (ctucan_hw_set_mask_filter plain_regs fnum True flt m) \<and>
    ident_valid_d G (filter_mr_of (snd (ctucan_hw_set_mask_filter plain_regs fnum True flt m))) fr =
      (rec_ident fr AND ctucan_hw_id_to_hwid (filter_can_id flt) =
       ctucan_hw_id_to_hwid (filter_can_mask flt) AND ctucan_hw_id_to_hwid (filter_can_id flt))"
proof -
  have c: "fnum = 0 \<or> fnum = 1 \<or> fnum = 2" using assms(1) by (simp add: u8_below_3)
  note set = set_mask_filter_regs [of fnum m, OF assms(1,2)]
  show ?thesis using c
  proof (elim disjE)
    assume "fnum = 0"
    with assms(3) set show ?thesis
      by (auto simp: mask_filter_regs_def filter_step nibble_or [of 0, simplified])
  next
    assume "fnum = 1"
    with assms(3) set show ?thesis
      by (auto simp: mask_filter_regs_def filter_step nibble_or [of 1, simplified])
  next
    assume "fnum = 2"
    with assms(3) set show ?thesis
      by (auto simp: mask_filter_regs_def filter_step nibble_or [of 2, simplified])
  qed
qed

definition exact_filter :: can_filter where
  "exact_filter = \<lparr>filter_can_id = 0x100, filter_can_mask = 0x7FF\<rparr>"

definition all_filters :: filter_generics where
  "all_filters = \<lparr>G_SUP_FILTA = True, G_SUP_FILTB = True, G_SUP_FILTC = True, G_SUP_RANGE = True\<rparr>"

text \<open>Registers with acceptance filters on, all of them supported and none in use.\<close>

definition filter_regs :: "u32 \<Rightarrow> u32" where
  "filter_regs = (\<lambda>_. 0)(CTU_CAN_FD_MODE := 0x8, CTU_CAN_FD_FILTER_CONTROL := 0xF0000)"

definition base_frame :: "u32 \<Rightarrow> rec_frame" where
  "base_frame i = \<lparr>rec_ident = ctucan_hw_id_to_hwid i, rec_ident_type = False, rec_frame_type = False,
     rec_is_rtr = False\<rparr>"

lemma filter_regs_ready: "k < 4 \<Longrightarrow> filtering k all_filters filter_regs (base_frame i)"
proof -
  assume "k < 4"
  then have "k = 0 \<or> k = 1 \<or> k = 2 \<or> k = 3" by linarith
  then show ?thesis
    by (elim disjE) (simp_all add: filtering_def all_filters_def filter_regs_def base_frame_def reg_addrs
        get_s_def field_pos_def ctu_can_fd_mode_settings_def bf_get_def ctl_nibble_def take_bit_eq_mod
        drop_bit_eq_div)
qed

theorem mask_filter_swapped_witness:
  "ident_valid_d all_filters (filter_mr_of (snd (ctucan_hw_set_mask_filter plain_regs CTU_CAN_FD_FILTER_B True
     exact_filter filter_regs))) (base_frame 0x1FF) \<and>
   0x1FF AND filter_can_mask exact_filter \<noteq> filter_can_id exact_filter AND filter_can_mask exact_filter"
proof -
  have "bit (0xF0000 :: u32) 17" by code_simp
  then have "bit (filter_regs CTU_CAN_FD_FILTER_CONTROL) (16 + unat CTU_CAN_FD_FILTER_B)"
    by (simp add: filter_regs_def hw_enums)
  moreover have "CTU_CAN_FD_FILTER_B < 3" "unat CTU_CAN_FD_FILTER_B = 1" by (simp_all add: hw_enums)
  moreover have "ctucan_hw_id_to_hwid 0x1FF AND ctucan_hw_id_to_hwid 0x100 =
      ctucan_hw_id_to_hwid 0x7FF AND ctucan_hw_id_to_hwid 0x100" by code_simp
  ultimately show ?thesis
    using mask_filter_swapped [of CTU_CAN_FD_FILTER_B filter_regs all_filters "base_frame 0x1FF" exact_filter]
      filter_regs_ready [of 1]
    by (simp add: exact_filter_def base_frame_def)
qed

lemma decimal_29: "ID_reg_to_decimal r = unat (take_bit 29 r)"
proof -
  have "push_bit 18 (take_bit 11 (drop_bit 18 r)) OR take_bit 18 r = take_bit 29 r"
    by (rule bit_eqI) (auto simp: bit_simps)
  then show ?thesis by (simp add: ID_reg_to_decimal_def idw_fields)
qed

text \<open>The number an identifier stands for.\<close>

definition id_value :: "u32 \<Rightarrow> nat" where
  "id_value i = unat (if i AND CAN_EFF_FLAG \<noteq> 0 then i AND CAN_EFF_MASK else i AND CAN_SFF_MASK)"

text \<open>The number it stands for on the bus, where an identifier of 11 bits comes before one of 29 bits.\<close>

definition id_aligned :: "u32 \<Rightarrow> nat" where
  "id_aligned i = (if i AND CAN_EFF_FLAG \<noteq> 0 then 1 else 2 ^ 18) * id_value i"

lemma decimal_hwid: "ID_reg_to_decimal (ctucan_hw_id_to_hwid i) = id_aligned i"
proof (cases "i AND CAN_EFF_FLAG = 0")
  case True
  have "ctucan_hw_id_to_hwid i = push_bit 18 (i AND CAN_SFF_MASK)"
    using True unfolding ctucan_hw_id_to_hwid_def idw_fields can_masks Let_def
    by (intro bit_eqI) (auto simp: bit_bf_set bit_simps)
  moreover have "unat (i AND CAN_SFF_MASK) < 2 ^ 11"
    unfolding can_masks take_bit_eq_mask [symmetric] unsigned_take_bit_eq by (rule take_bit_nat_less_exp)
  ultimately show ?thesis using True
    unfolding decimal_29 hwid_29 by (simp add: id_aligned_def id_value_def push_bit_eq_mult unat_word_ariths)
next
  case False
  have "ctucan_hw_id_to_hwid i = i AND CAN_EFF_MASK"
    using False unfolding ctucan_hw_id_to_hwid_def idw_fields can_masks Let_def
    by (intro bit_eqI) (auto simp: bit_bf_set bit_simps)
  then show ?thesis using False unfolding decimal_29 hwid_29 by (simp add: id_aligned_def id_value_def)
qed

definition same_length :: "u32 \<Rightarrow> u32 \<Rightarrow> bool" where
  "same_length i j \<longleftrightarrow> (i AND CAN_EFF_FLAG = 0) = (j AND CAN_EFF_FLAG = 0)"

text \<open>C22: The range filter programmed by the library as the only one in use accepts a frame exactly when its
  identifier lies between the two thresholds in the order of the bus, in which an identifier of 11 bits counts as
  the one of 29 bits that continues it with zeros. The documented rule, that the number of the identifier lies
  between the thresholds, holds for identifiers of the same length; a frame of the other length, which the
  library does not switch off, passes by another number: an extended one exactly when its number lies between the
  thresholds times \<open>2 ^ 18\<close>.
\<close>

theorem range_filter_accepts:
  fixes low_th high_th :: u32
  assumes "filtering 3 G m fr" "rec_ident fr = ctucan_hw_id_to_hwid i"
  defines "passes \<equiv> ident_valid_d G (filter_mr_of (ctucan_hw_set_range_filter plain_regs low_th high_th True m)) fr"
  shows "passes = (id_aligned low_th \<le> id_aligned i \<and> id_aligned i \<le> id_aligned high_th) \<and>
    (same_length low_th i \<and> same_length high_th i \<longrightarrow>
       passes = (id_value low_th \<le> id_value i \<and> id_value i \<le> id_value high_th)) \<and>
    (low_th AND CAN_EFF_FLAG = 0 \<and> high_th AND CAN_EFF_FLAG = 0 \<and> i AND CAN_EFF_FLAG \<noteq> 0 \<longrightarrow>
       passes = (2 ^ 18 * id_value low_th \<le> id_value i \<and> id_value i \<le> 2 ^ 18 * id_value high_th))"
proof -
  have "ctucan_hw_set_range_filter plain_regs low_th high_th True m =
      m(CTU_CAN_FD_FILTER_CONTROL := m CTU_CAN_FD_FILTER_CONTROL OR push_bit (4 * 3) 15,
        CTU_CAN_FD_FILTER_RAN_LOW := ctucan_hw_id_to_hwid low_th,
        CTU_CAN_FD_FILTER_RAN_HIGH := ctucan_hw_id_to_hwid high_th)"
    unfolding ctucan_hw_set_range_filter_def Let_def plain_rd plain_wr prod.case of_bool_eq set_filter_bits ..
  then have "passes = (id_aligned low_th \<le> id_aligned i \<and> id_aligned i \<le> id_aligned high_th)"
    using assms(1,2) nibble_or [of 3] by (auto simp: passes_def filter_step decimal_hwid)
  then show ?thesis by (auto simp: same_length_def id_aligned_def)
qed

definition ext_frame :: "u32 \<Rightarrow> rec_frame" where
  "ext_frame i = (base_frame i)\<lparr>rec_ident_type := True\<rparr>"

lemma ext_filter_regs_ready: "k < 4 \<Longrightarrow> filtering k all_filters filter_regs (ext_frame i)"
  using filter_regs_ready [of k i] by (simp add: filtering_def ext_frame_def base_frame_def)

theorem range_filter_accepts_witness:
  "\<not> ident_valid_d all_filters (filter_mr_of (ctucan_hw_set_range_filter plain_regs 0x100 0x1FF True filter_regs))
       (base_frame 0x200) \<and>
   ident_valid_d all_filters (filter_mr_of (ctucan_hw_set_range_filter plain_regs 0x100 0x1FF True filter_regs))
       (base_frame 0x1FF) \<and>
   \<not> ident_valid_d all_filters (filter_mr_of (ctucan_hw_set_range_filter plain_regs 0x100 0x1FF True filter_regs))
       (ext_frame 0x80000150) \<and>
   ident_valid_d all_filters (filter_mr_of (ctucan_hw_set_range_filter plain_regs 0x100 0x1FF True filter_regs))
       (ext_frame 0x84000000)"
proof -
  have v: "id_value 0x100 = 0x100" "id_value 0x1FF = 0x1FF" "id_value 0x200 = 0x200" "id_value 0x80000150 = 0x150"
    "id_value 0x84000000 = 0x4000000"
    by (simp_all add: id_value_def can_id_consts)
  show ?thesis
    using range_filter_accepts [OF filter_regs_ready [of 3 "0x200"], of "0x200" "0x100" "0x1FF"]
      range_filter_accepts [OF filter_regs_ready [of 3 "0x1FF"], of "0x1FF" "0x100" "0x1FF"]
      range_filter_accepts [OF ext_filter_regs_ready [of 3 "0x80000150"], of "0x80000150" "0x100" "0x1FF"]
      range_filter_accepts [OF ext_filter_regs_ready [of 3 "0x84000000"], of "0x84000000" "0x100" "0x1FF"]
    by (simp add: base_frame_def ext_frame_def can_id_consts same_length_def id_aligned_def v)
qed

end
