(* ===== verification/Ctu_User.thy ===== *)
theory Ctu_User
  imports Ctu_Hw
begin

text \<open>
  The user space program \<open>driver/ctucanfd_userspace.cpp\<close> with \<open>driver/userspace_utils.cpp\<close>: the search for
  a PCI device in \<open>sysfs\<close>, the mapping of its registers, and the main program, which configures the
  controller with the library of \<open>Ctu_Hw\<close> and then transmits one frame or polls the controller.

  The environment is a record: the directory tree, the contents of the resource files, the page size and the
  results of \<open>open\<close> and \<open>mmap\<close>. \<open>malloc\<close> is taken to succeed. What the main program prints once the
  registers are mapped is a list of events with the values printed; earlier messages are left out.
  \<open>getopt\<close> is represented by the options it returns, and integer options wrap at 32 bits.
\<close>

section \<open>Memory mapping\<close>

definition CANFD_ADDR_RANGE :: u64 where "CANFD_ADDR_RANGE = 4096"

text \<open>The offset and the length passed to \<open>mmap\<close>, and the address of the first byte in the window.\<close>

definition mem_window :: "u64 \<Rightarrow> u64 \<Rightarrow> u64 \<Rightarrow> u64 \<times> u64" where
  "mem_window pagesize mem_start mem_length =
     (mem_start AND NOT (pagesize - 1),
      ((mem_start AND (pagesize - 1)) + mem_length + pagesize - 1) AND NOT (pagesize - 1))"

definition mem_map :: "(u64 \<Rightarrow> u64 \<Rightarrow> iomem option) \<Rightarrow> u64 \<Rightarrow> u64 \<Rightarrow> u64 \<Rightarrow> iomem option" where
  "mem_map mmap pagesize mem_start mem_length =
     (let (offset, mem_window_size) = mem_window pagesize mem_start mem_length
      in map_option (\<lambda>mm. mm + (mem_start AND (pagesize - 1))) (mmap offset mem_window_size))"

definition ctu_can_fd_read8 :: "'d ctucan_hw_priv \<Rightarrow> u32 \<Rightarrow> 'd \<Rightarrow> u32 \<times> 'd" where
  "ctu_can_fd_read8 P reg d =
     (let (v, d) = hw_rd P (reg AND NOT 3) d in (drop_bit (unat (8 * (reg AND 3))) v, d))"

definition ctu_can_fd_read16 :: "'d ctucan_hw_priv \<Rightarrow> u32 \<Rightarrow> 'd \<Rightarrow> u32 \<times> 'd" where
  "ctu_can_fd_read16 P reg d =
     (let (v, d) = hw_rd P (reg AND NOT 1) d in (drop_bit (unat (8 * (reg AND 1))) v, d))"

section \<open>Search for a PCI device\<close>

text \<open>
  An entry of a directory: its name, whether it is a directory (\<open>d_type\<close>) and can be opened, the
  numbers in its files \<open>vendor\<close> and \<open>device\<close>, if these exist, and its entries in the order of \<open>readdir\<close>.
\<close>

datatype sysdir = Sysdir (d_name: string) (d_dir: bool) (d_openable: bool)
  (d_vendor: "u32 option") (d_device: "u32 option") (d_entries: "sysdir list")

text \<open>
  The state of the search. The chain of open directories holds for each its path and the entries not
  read yet; the variable \<open>level\<close> of the program is its length.
\<close>

record find_state =
  dir_stack :: "(string \<times> sysdir list) list"
  find_inst :: int
  clean_rest :: bool
  dev_dir :: "string option"

text \<open>The inner loop: directories without further entries are closed, all of them after a match.\<close>

fun close_dirs :: "bool \<Rightarrow> (string \<times> sysdir list) list \<Rightarrow> (string \<times> sysdir list) list" where
  "close_dirs c [] = []"
| "close_dirs c ((n, []) # st) = close_dirs c st"
| "close_dirs c ((n, e # es) # st) = (if c then close_dirs c st else (n, e # es) # st)"

definition skip_entry :: "nat \<Rightarrow> sysdir \<Rightarrow> bool" where
  "skip_entry level e \<longleftrightarrow> \<not> d_dir e \<or> d_name e = ''.'' \<or> d_name e = ''..'' \<or>
     level \<le> 1 \<and> take 3 (d_name e) \<noteq> ''pci''"

text \<open>Opening of a directory and the comparison of its numbers; \<open>Inl 1\<close> is the exit when it fails to open.\<close>

definition open_dir :: "u32 \<Rightarrow> u32 \<Rightarrow> string \<Rightarrow> sysdir \<Rightarrow> find_state \<Rightarrow> int + find_state" where
  "open_dir vid pid path e s =
     (if \<not> d_openable e then Inl 1
      else
        let s = s\<lparr>dir_stack := (path, d_entries e) # dir_stack s\<rparr>
        in if length (dir_stack s) \<le> 2 then Inr s
        else case (d_vendor e, d_device e) of
               (Some vid_act, Some pid_act) \<Rightarrow>
                 if vid \<noteq> vid_act \<or> pid \<noteq> pid_act then Inr s
                 else if find_inst s > 0 then Inr (s\<lparr>find_inst := find_inst s - 1\<rparr>)
                 else Inr (s\<lparr>find_inst := find_inst s - 1, dev_dir := Some path, clean_rest := True\<rparr>)
             | _ \<Rightarrow> Inr s)"

fun dir_nodes :: "sysdir \<Rightarrow> nat" where
  "dir_nodes (Sysdir _ _ _ _ _ es) = Suc (sum_list (map dir_nodes es))"

definition stack_nodes :: "(string \<times> sysdir list) list \<Rightarrow> nat" where
  "stack_nodes st = sum_list (map (\<lambda>(_, es). sum_list (map dir_nodes es)) st)"

lemma close_dirs_nodes: "stack_nodes (close_dirs c st) \<le> stack_nodes st"
  by (induction c st rule: close_dirs.induct) (auto simp: stack_nodes_def)

lemma open_dir_nodes:
  "open_dir vid pid path e s = Inr s' \<Longrightarrow> stack_nodes (dir_stack s') < dir_nodes e + stack_nodes (dir_stack s)"
  by (cases e) (auto simp: open_dir_def stack_nodes_def Let_def split: if_splits option.splits)

lemma dir_nodes_pos [simp]: "0 < dir_nodes e"
  by (cases e) simp

lemma close_dirs_top:
  "close_dirs c st = (n, e # es) # st' \<Longrightarrow> stack_nodes ((n, es) # st') + dir_nodes e \<le> stack_nodes st"
  using close_dirs_nodes [of c st] by (simp add: stack_nodes_def)

function find_loop :: "u32 \<Rightarrow> u32 \<Rightarrow> find_state \<Rightarrow> int + find_state" where
  "find_loop vid pid s =
     (case close_dirs (clean_rest s) (dir_stack s) of
        (dir_name, e # es) # st \<Rightarrow>
          let s = s\<lparr>dir_stack := (dir_name, es) # st\<rparr>
          in if skip_entry (length (dir_stack s)) e then find_loop vid pid s
             else case open_dir vid pid (dir_name @ ''/'' @ d_name e) e s of
                    Inl x \<Rightarrow> Inl x
                  | Inr s \<Rightarrow> find_loop vid pid s
      | _ \<Rightarrow> Inr (s\<lparr>dir_stack := []\<rparr>))"
  by pat_completeness auto
termination
proof (relation "measure (\<lambda>(vid, pid, s). stack_nodes (dir_stack s))")
  fix vid pid :: u32 and s a list aa b aaa lista x
  assume a: "close_dirs (clean_rest s) (dir_stack s) = a # list" "(aa, b) = a" "b = aaa # lista"
    and x: "(x :: find_state) = s\<lparr>dir_stack := (aa, lista) # list\<rparr>"
  have n: "stack_nodes (dir_stack x) + dir_nodes aaa \<le> stack_nodes (dir_stack s)"
    using close_dirs_top [of "clean_rest s" "dir_stack s" aa aaa lista list] a x by simp
  show "((vid, pid, x), vid, pid, s) \<in> measure (\<lambda>(vid, pid, s). stack_nodes (dir_stack s))"
    using n dir_nodes_pos [of aaa] by (simp del: dir_nodes_pos)
  fix y
  assume "open_dir vid pid (aa @ ''/'' @ d_name aaa) aaa x = Inr y"
  then show "((vid, pid, y), vid, pid, s) \<in> measure (\<lambda>(vid, pid, s). stack_nodes (dir_stack s))"
    using n open_dir_nodes by fastforce
qed simp

declare find_loop.simps [simp del]

text \<open>The root of the search is opened by the first round of the loop. The result is \<open>clean_rest\<close> and \<open>dev_dir\<close>.\<close>

definition pci_find_dev :: "sysdir \<Rightarrow> string \<Rightarrow> u32 \<Rightarrow> u32 \<Rightarrow> int \<Rightarrow> int + bool \<times> string option" where
  "pci_find_dev root dir_name vid pid inst =
     (case open_dir vid pid dir_name root
             \<lparr>dir_stack = [], find_inst = inst, clean_rest = False, dev_dir = None\<rparr> of
        Inl x \<Rightarrow> Inl x
      | Inr s \<Rightarrow> (case find_loop vid pid s of
                   Inl x \<Rightarrow> Inl x
                 | Inr s \<Rightarrow> Inr (clean_rest s, dev_dir s)))"

text \<open>
  \<open>pci_find_bar\<close>: \<open>resource\<close> gives for a path the numbers at the start of the lines of the file \<open>resource\<close>
  there. \<open>Inr None\<close> is the value of a variable that has not been set.
\<close>

definition pci_find_bar ::
  "sysdir \<Rightarrow> (string \<Rightarrow> u64 list option) \<Rightarrow> u32 \<Rightarrow> u32 \<Rightarrow> int \<Rightarrow> nat \<Rightarrow> int + u64 option" where
  "pci_find_bar root resource vid pid inst barnr =
     (case pci_find_dev root ''/sys/devices'' vid pid inst of
        Inl x \<Rightarrow> Inl x
      | Inr (True, Some dir) \<Rightarrow>
          (case resource (dir @ ''/resource'') of
             None \<Rightarrow> Inr (Some 0)
           | Some ls \<Rightarrow> Inr (if barnr < length ls then Some (ls ! barnr) else None))
      | Inr _ \<Rightarrow> Inr (Some 0))"

section \<open>The search finds the devices in order\<close>

text \<open>The paths of all matching devices, directory by directory, each before those below it.\<close>

definition dev_match :: "u32 \<Rightarrow> u32 \<Rightarrow> nat \<Rightarrow> sysdir \<Rightarrow> bool" where
  "dev_match vid pid level e \<longleftrightarrow> 2 \<le> level \<and> d_vendor e = Some vid \<and> d_device e = Some pid"

fun dev_paths :: "u32 \<Rightarrow> u32 \<Rightarrow> nat \<Rightarrow> string \<Rightarrow> sysdir \<Rightarrow> string list" where
  "dev_paths vid pid level dir (Sysdir n isdir op v d es) =
     (if skip_entry level (Sysdir n isdir op v d es) then []
      else (if dev_match vid pid level (Sysdir n isdir op v d es) then [dir @ ''/'' @ n] else []) @
        concat (map (dev_paths vid pid (Suc level) (dir @ ''/'' @ n)) es))"

text \<open>All directories that the search enters can be opened.\<close>

fun dirs_open :: "nat \<Rightarrow> sysdir \<Rightarrow> bool" where
  "dirs_open level (Sysdir n isdir op v d es) =
     (skip_entry level (Sysdir n isdir op v d es) \<or> op \<and> list_all (dirs_open (Suc level)) es)"

fun stack_paths :: "u32 \<Rightarrow> u32 \<Rightarrow> (string \<times> sysdir list) list \<Rightarrow> string list" where
  "stack_paths vid pid [] = []"
| "stack_paths vid pid ((n, es) # st) =
     concat (map (dev_paths vid pid (Suc (length st)) n) es) @ stack_paths vid pid st"

fun stack_open :: "(string \<times> sysdir list) list \<Rightarrow> bool" where
  "stack_open [] = True"
| "stack_open ((n, es) # st) = (list_all (dirs_open (Suc (length st))) es \<and> stack_open st)"

lemma close_dirs_paths:
  "stack_paths vid pid (close_dirs False st) = stack_paths vid pid st"
  "stack_open st \<Longrightarrow> stack_open (close_dirs False st)"
  by (induction False st rule: close_dirs.induct) auto

lemma close_dirs_all: "close_dirs True st = []"
  by (induction True st rule: close_dirs.induct) auto

lemma close_dirs_cases:
  obtains "close_dirs False st = []" | n e es st' where "close_dirs False st = (n, e # es) # st'"
  by (induction False st rule: close_dirs.induct) auto

lemma find_loop_clean: "clean_rest s \<Longrightarrow> find_loop vid pid s = Inr (s\<lparr>dir_stack := []\<rparr>)"
  by (simp add: find_loop.simps close_dirs_all)

definition nth_path :: "int \<Rightarrow> string list \<Rightarrow> string option" where
  "nth_path i ps = (if nat i < length ps then Some (ps ! nat i) else None)"

lemma open_dir_match:
  assumes "d_openable e"
  shows "open_dir vid pid path e s = Inr
    (if dev_match vid pid (length (dir_stack s)) e
     then if 0 < find_inst s
          then s\<lparr>dir_stack := (path, d_entries e) # dir_stack s, find_inst := find_inst s - 1\<rparr>
          else s\<lparr>dir_stack := (path, d_entries e) # dir_stack s, find_inst := find_inst s - 1,
                 dev_dir := Some path, clean_rest := True\<rparr>
     else s\<lparr>dir_stack := (path, d_entries e) # dir_stack s\<rparr>)"
  using assms by (cases "d_vendor e"; cases "d_device e") (auto simp: open_dir_def dev_match_def Let_def)

lemma nth_path_Cons: "nth_path i (p # ps) = (if i \<le> 0 then Some p else nth_path (i - 1) ps)"
  by (auto simp: nth_path_def nth_Cons' nat_diff_distrib)

text \<open>The paths at a directory that is entered.\<close>

lemma dev_paths_entered:
  "\<not> skip_entry level e \<Longrightarrow> dev_paths vid pid level n e =
     (if dev_match vid pid level e then [n @ ''/'' @ d_name e] else []) @
     concat (map (dev_paths vid pid (Suc level) (n @ ''/'' @ d_name e)) (d_entries e))"
  "\<not> skip_entry level e \<Longrightarrow> dirs_open level e \<Longrightarrow> d_openable e \<and> list_all (dirs_open (Suc level)) (d_entries e)"
  by (cases e; simp)+

lemma find_loop_paths:
  assumes "\<not> clean_rest s" "stack_open (dir_stack s)" "dev_dir s = None"
  shows "\<exists>s'. find_loop vid pid s = Inr s' \<and> dev_dir s' = nth_path (find_inst s) (stack_paths vid pid (dir_stack s)) \<and>
    clean_rest s' = (dev_dir s' \<noteq> None)"
  using assms
proof (induction vid pid s rule: find_loop.induct)
  case (1 vid pid s)
  show ?case
  proof (cases rule: close_dirs_cases [of "dir_stack s"])
    case 1
    then show ?thesis
      using "1.prems" close_dirs_paths(1) [of vid pid "dir_stack s"]
      by (auto simp: find_loop.simps [of vid pid s] nth_path_def)
  next
    case (2 n e es st)
    let ?s = "s\<lparr>dir_stack := (n, es) # st\<rparr>"
    have p: "stack_paths vid pid (dir_stack s) = dev_paths vid pid (Suc (length st)) n e @ stack_paths vid pid (dir_stack ?s)"
      and o: "dirs_open (Suc (length st)) e" "stack_open (dir_stack ?s)"
      using close_dirs_paths(2) [of "dir_stack s"] 2 "1.prems"(2) by (auto simp flip: close_dirs_paths(1) [of vid pid "dir_stack s"])
    have c: "close_dirs (clean_rest s) (dir_stack s) = (n, e # es) # st" using 2 "1.prems"(1) by simp
    show ?thesis
    proof (cases "skip_entry (Suc (length st)) e")
      case True
      then have "find_loop vid pid s = find_loop vid pid ?s" "dev_paths vid pid (Suc (length st)) n e = []"
        using c by (simp add: find_loop.simps [of vid pid s], cases e, simp)
      then show ?thesis using "1.IH"(1) [OF c refl refl refl] True o(2) p "1.prems" by simp
    next
      case False
      note e = dev_paths_entered [OF False] and e' = dev_paths_entered(2) [OF False o(1)]
      obtain s2 where s2: "open_dir vid pid (n @ ''/'' @ d_name e) e ?s = Inr s2"
        using open_dir_match e' by blast
      then have l: "find_loop vid pid s = find_loop vid pid s2"
        using c False by (simp add: find_loop.simps [of vid pid s])
      have i: "\<not> clean_rest s2 \<Longrightarrow> stack_open (dir_stack s2) \<Longrightarrow> dev_dir s2 = None \<Longrightarrow>
        \<exists>s'. find_loop vid pid s2 = Inr s' \<and> dev_dir s' = nth_path (find_inst s2) (stack_paths vid pid (dir_stack s2)) \<and>
          clean_rest s' = (dev_dir s' \<noteq> None)"
        using "1.IH"(2) [OF c refl refl refl _ s2] False by simp
      have m: "s2 = (if dev_match vid pid (Suc (length st)) e
         then if 0 < find_inst s
              then s\<lparr>dir_stack := (n @ ''/'' @ d_name e, d_entries e) # (n, es) # st, find_inst := find_inst s - 1\<rparr>
              else s\<lparr>dir_stack := (n @ ''/'' @ d_name e, d_entries e) # (n, es) # st, find_inst := find_inst s - 1,
                     dev_dir := Some (n @ ''/'' @ d_name e), clean_rest := True\<rparr>
         else s\<lparr>dir_stack := (n @ ''/'' @ d_name e, d_entries e) # (n, es) # st\<rparr>)"
        using open_dir_match [of e vid pid "n @ ''/'' @ d_name e" ?s] s2 e'
        by (cases "dev_match vid pid (Suc (length st)) e"; cases "0 < find_inst s") auto
      show ?thesis
      proof (cases "dev_match vid pid (Suc (length st)) e \<and> find_inst s \<le> 0")
        case True
        then have "clean_rest s2" "dev_dir s2 = Some (n @ ''/'' @ d_name e)" using m by simp_all
        then show ?thesis using True l find_loop_clean [of s2 vid pid] p by (simp add: e(1) nth_path_Cons)
      next
        case no: False
        then have "\<not> clean_rest s2" "stack_open (dir_stack s2)" "dev_dir s2 = None"
          "nth_path (find_inst s2) (stack_paths vid pid (dir_stack s2)) = nth_path (find_inst s) (stack_paths vid pid (dir_stack s))"
          using m e' o(2) p "1.prems" by (cases "dev_match vid pid (Suc (length st)) e"; simp add: e(1) nth_path_Cons)+
        then show ?thesis using i l by simp
      qed
    qed
  qed
qed

text \<open>C32: The search for a PCI device ends and yields the directory of the matching device with the given number, in
  the order in which a recursive walk through the tree meets them, or reports that there are not so many.
  Only directories below an entry \<open>pci*\<close> of the root are considered.\<close>

theorem pci_find_dev_walk:
  assumes "d_openable root" "list_all (dirs_open 1) (d_entries root)"
  shows "pci_find_dev root dir vid pid inst =
    (let p = nth_path inst (concat (map (dev_paths vid pid 1 dir) (d_entries root))) in Inr (p \<noteq> None, p))"
proof -
  let ?s = "\<lparr>dir_stack = [(dir, d_entries root)], find_inst = inst, clean_rest = False, dev_dir = None\<rparr>"
  have "open_dir vid pid dir root \<lparr>dir_stack = [], find_inst = inst, clean_rest = False, dev_dir = None\<rparr> = Inr ?s"
    using assms(1) by (simp add: open_dir_def)
  moreover have "\<exists>s'. find_loop vid pid ?s = Inr s' \<and> dev_dir s' = nth_path inst
      (concat (map (dev_paths vid pid 1 dir) (d_entries root))) \<and> clean_rest s' = (dev_dir s' \<noteq> None)"
    using find_loop_paths [of ?s vid pid] assms(2) by simp
  then obtain s' where "find_loop vid pid ?s = Inr s'" "dev_dir s' = nth_path inst
      (concat (map (dev_paths vid pid 1 dir) (d_entries root)))" "clean_rest s' = (dev_dir s' \<noteq> None)" by blast
  ultimately show ?thesis by (simp add: pci_find_dev_def Let_def)
qed

definition demo_sys :: sysdir where
  "demo_sys = Sysdir ''devices'' True True None None
     [Sysdir ''.'' True True None None [], Sysdir ''system'' True False None None [],
      Sysdir ''pci0000:00'' True True None None
        [Sysdir ''0000:00:1c.4'' True True (Some 0x8086) (Some 0x9d14)
           [Sysdir ''0000:05:00.0'' True True (Some 0x1760) (Some 0xff00) []]]]"

theorem pci_find_dev_walk_witness:
  "pci_find_dev demo_sys ''/sys/devices'' 0x1760 0xff00 0 =
     Inr (True, Some ''/sys/devices/pci0000:00/0000:00:1c.4/0000:05:00.0'')"
  using pci_find_dev_walk [of demo_sys "''/sys/devices''" "0x1760" "0xff00" 0]
  by (simp add: demo_sys_def skip_entry_def dev_match_def nth_path_def)

section \<open>Options\<close>

text \<open>\<open>strtoul(s, &e, 0)\<close>: the value and the rest of the string.\<close>

definition digit_of :: "char \<Rightarrow> nat" where
  "digit_of c =
     (let n = of_char c :: nat
      in if 48 \<le> n \<and> n \<le> 57 then n - 48
         else if 97 \<le> n \<and> n \<le> 122 then n - 87
         else if 65 \<le> n \<and> n \<le> 90 then n - 55
         else 99)"

definition strtoul :: "string \<Rightarrow> u64 \<times> string" where
  "strtoul s =
     (let t = dropWhile (\<lambda>c. of_char c \<in> {9, 10, 11, 12, 13, 32 :: nat}) s;
          (neg, t) = (case t of c # r \<Rightarrow> if c = CHR ''-'' then (True, r) else if c = CHR ''+'' then (False, r) else (False, t)
                      | [] \<Rightarrow> (False, t));
          (b, t) = (if take 1 t = ''0'' \<and> take 1 (drop 1 t) \<in> {''x'', ''X''} \<and> (\<exists>c \<in> set (take 1 (drop 2 t)). digit_of c < 16)
                    then (16, drop 2 t)
                    else if take 1 t = ''0'' then (8, t) else (10, t));
          ds = takeWhile (\<lambda>c. digit_of c < b) t;
          v = foldl (\<lambda>v c. v * b + digit_of c) 0 ds
      in if ds = [] then (0, s)
         else (if v \<ge> 2 ^ 64 then - 1 else if neg then - of_nat v else of_nat v, drop (length ds) t))"

record user_opts =
  o_addr_base :: u64
  o_ifc :: u32
  o_do_transmit :: bool
  o_gap :: u32
  o_bitrate :: u32
  o_dbitrate :: u32
  o_tx_can_id :: u32
  o_do_periodic_transmit :: bool
  o_transmit_fdf :: bool
  o_loopback_mode :: bool
  o_test_read_speed :: bool
  o_addrs :: "u64 \<times> u64"

definition default_opts :: user_opts where
  "default_opts = \<lparr>o_addr_base = 0, o_ifc = 0, o_do_transmit = False, o_gap = 1000, o_bitrate = 1000000,
     o_dbitrate = 0, o_tx_can_id = 0x1ff, o_do_periodic_transmit = False, o_transmit_fdf = False,
     o_loopback_mode = False, o_test_read_speed = False, o_addrs = (0x43C30000, 0x43C70000)\<rparr>"

record user_env =
  ue_sysfs :: sysdir
  ue_resource :: "string \<Rightarrow> u64 list option"
  ue_pagesize :: u64
  ue_mem_open :: bool
  ue_mmap :: "u64 \<Rightarrow> u64 \<Rightarrow> iomem option"

text \<open>The end of the program: an exit status, or an access the language does not define.\<close>

datatype user_exit = Exit int | Undefined

definition num_opt :: "string \<Rightarrow> (u64 \<Rightarrow> user_opts) \<Rightarrow> user_exit + user_opts" where
  "num_opt optarg f = (let (v, e) = strtoul optarg in if e \<noteq> [] then Inl (Exit 1) else Inr (f v))"

definition find_bar :: "user_env \<Rightarrow> u32 \<Rightarrow> u32 \<Rightarrow> user_exit + u64" where
  "find_bar E vid pid =
     (case pci_find_bar (ue_sysfs E) (ue_resource E) vid pid 0 1 of
        Inl x \<Rightarrow> Inl (Exit x) | Inr None \<Rightarrow> Inl Undefined | Inr (Some v) \<Rightarrow> Inr v)"

definition main_opt :: "user_env \<Rightarrow> char \<times> string \<Rightarrow> user_opts \<Rightarrow> user_exit + user_opts" where
  "main_opt E co p =
     (let (c, optarg) = co
      in if c = CHR ''i'' then num_opt optarg (\<lambda>v. p\<lparr>o_ifc := ucast v\<rparr>)
         else if c = CHR ''a'' then num_opt optarg (\<lambda>v. p\<lparr>o_addr_base := v\<rparr>)
         else if c = CHR ''g'' then num_opt optarg (\<lambda>v. p\<lparr>o_gap := ucast v\<rparr>)
         else if c = CHR ''b'' then num_opt optarg (\<lambda>v. p\<lparr>o_bitrate := ucast v\<rparr>)
         else if c = CHR ''B'' then num_opt optarg (\<lambda>v. p\<lparr>o_dbitrate := ucast v\<rparr>)
         else if c = CHR ''I'' then num_opt optarg (\<lambda>v. p\<lparr>o_tx_can_id := ucast v\<rparr>)
         else if c = CHR ''l'' then Inr (p\<lparr>o_loopback_mode := True\<rparr>)
         else if c = CHR ''t'' then Inr (p\<lparr>o_do_transmit := True\<rparr>)
         else if c = CHR ''T'' then Inr (p\<lparr>o_do_periodic_transmit := True\<rparr>)
         else if c = CHR ''f'' then Inr (p\<lparr>o_transmit_fdf := True\<rparr>)
         else if c = CHR ''r'' then Inr (p\<lparr>o_test_read_speed := True\<rparr>)
         else if c = CHR ''p''
         then (case find_bar E 0x1172 0xcafd of
                 Inl x \<Rightarrow> Inl x
               | Inr a \<Rightarrow>
                   (case if a = 0 then find_bar E 0x1760 0xff00 else Inr a of
                      Inl x \<Rightarrow> Inl x
                    | Inr a \<Rightarrow> if a = 0 then Inl (Exit 1) else Inr (p\<lparr>o_addrs := (a, a + 0x4000)\<rparr>)))
         else if c = CHR ''h'' then Inl (Exit 0)
         else Inr p)"

primrec main_opts :: "user_env \<Rightarrow> (char \<times> string) list \<Rightarrow> user_opts \<Rightarrow> user_exit + user_opts" where
  "main_opts E [] p = Inr p"
| "main_opts E (co # cos) p = (case main_opt E co p of Inl x \<Rightarrow> Inl x | Inr p \<Rightarrow> main_opts E cos p)"

definition main_addr :: "user_opts \<Rightarrow> user_exit + u64" where
  "main_addr p =
     (if o_ifc p \<ge> 2 then Inl (Exit 1)
      else Inr (if o_addr_base p = 0 then if o_ifc p = 0 then fst (o_addrs p) else snd (o_addrs p) else o_addr_base p))"

text \<open>The parameter of \<open>ctucanfd_init\<close> has 32 bits.\<close>

definition ctucanfd_init :: "'d bus \<Rightarrow> user_env \<Rightarrow> u32 \<Rightarrow> user_exit + 'd ctucan_hw_priv" where
  "ctucanfd_init B E addr =
     (if \<not> ue_mem_open E then Inl (Exit 1)
      else case mem_map (ue_mmap E) (ue_pagesize E) (ucast addr) CANFD_ADDR_RANGE of
             None \<Rightarrow> Inl (Exit 1)
           | Some base \<Rightarrow> Inr \<lparr>hw_mem_base = base, read_reg = ctucan_hw_read32 B, write_reg = ctucan_hw_write32 B\<rparr>)"

section \<open>The main program\<close>

record timespec =
  tv_sec :: int
  tv_nsec :: int

definition timespec_sub :: "timespec \<Rightarrow> timespec \<Rightarrow> timespec" where
  "timespec_sub left right =
     (let diff = \<lparr>tv_sec = tv_sec left - tv_sec right, tv_nsec = tv_nsec left - tv_nsec right\<rparr>
      in if tv_nsec diff < 0
         then diff\<lparr>tv_sec := tv_sec diff - 1, tv_nsec := tv_nsec diff + 1000000000\<rparr> else diff)"

text \<open>What is printed, one event per call, and the sleeps in milliseconds.\<close>

datatype uout =
    Out_DevID u32
  | Out_version u32
  | Out_time nat timespec
  | Out_enabled
  | Out_timing can_bittiming
  | Out_MODE u32
  | Out_TX_failed
  | Out_status "u32 list"
  | Out_error "u32 list"
  | Out_frame u64 u32 u8 "u8 list"
  | Usleep_ms u32

definition main_identify :: "'d ctucan_hw_priv \<Rightarrow> 'd \<Rightarrow> (user_exit \<times> uout list + uout list) \<times> 'd" where
  "main_identify P d =
     (let (reg, d) = hw_rd P CTU_CAN_FD_DEVICE_ID d;
          out = [Out_DevID (get_s ctu_can_fd_device_id_version ''device_id'' reg)];
          (ok, d) = ctucan_hw_check_access P d
      in if \<not> ok then (Inl (Exit 1, out), d)
         else let (version, d) = ctucan_hw_get_version P d
              in (Inr (out @ [Out_version version]), d))"

text \<open>The clock is read before and after either loop.\<close>

definition main_read_speed ::
  "'d ctucan_hw_priv \<Rightarrow> timespec \<times> timespec \<Rightarrow> timespec \<times> timespec \<Rightarrow> 'd \<Rightarrow> uout list \<times> 'd" where
  "main_read_speed P rd wr d =
     (let d = ((\<lambda>d. snd (hw_rd P CTU_CAN_FD_RX_DATA d)) ^^ (1000 * 1000)) d;
          d = (hw_wr P CTU_CAN_FD_FILTER_C_VAL 0 ^^ (1000 * 1000)) d
      in ([Out_time (1000 * 1000) (timespec_sub (snd rd) (fst rd)),
           Out_time (1000 * 1000) (timespec_sub (snd wr) (fst wr))], d))"

definition ctu_can_fd_bit_timing_max :: can_bittiming_const where
  "ctu_can_fd_bit_timing_max = \<lparr>name = ''ctu_can_fd'', tseg1_min = 2, tseg1_max = 190, tseg2_min = 1,
     tseg2_max = 63, sjw_max = 31, brp_min = 1, brp_max = 8, brp_inc = 1\<rparr>"

definition ctu_can_fd_bit_timing_data_max :: can_bittiming_const where
  "ctu_can_fd_bit_timing_data_max = \<lparr>name = ''ctu_can_fd'', tseg1_min = 2, tseg1_max = 94, tseg2_min = 1,
     tseg2_max = 31, sjw_max = 31, brp_min = 1, brp_max = 2, brp_inc = 1\<rparr>"

definition timing_of :: "u32 \<Rightarrow> can_bittiming" where
  "timing_of r = \<lparr>bitrate = r, sample_point = 0, tq = 0, prop_seg = 0, phase_seg1 = 0, phase_seg2 = 0,
     sjw = 0, brp = 0\<rparr>"

text \<open>\<open>err\<close> ends the program with the status the shell sees of its argument.\<close>

definition main_timing :: "u32 \<Rightarrow> can_bittiming_const \<Rightarrow> user_exit + can_bittiming" where
  "main_timing r btc =
     (case can_get_bittiming 100000000 0 (timing_of r) (Some btc) None 0 of
        None \<Rightarrow> Inl Undefined
      | Some (res, bt) \<Rightarrow> if res \<noteq> 0 then Inl (Exit (res mod 256)) else Inr bt)"

definition main_reset :: "'d ctucan_hw_priv \<Rightarrow> 'd \<Rightarrow> uout list \<times> 'd" where
  "main_reset P d =
     (let d = ctucan_hw_reset P d;
          (mode, d) = hw_rd P CTU_CAN_FD_MODE d
      in (if get_s ctu_can_fd_mode_settings ''ena'' mode \<noteq> 0 then [Out_enabled] else [], d))"

definition main_configure ::
  "'d ctucan_hw_priv \<Rightarrow> user_opts \<Rightarrow> can_bittiming \<Rightarrow> can_bittiming \<Rightarrow> 'd \<Rightarrow> uout list \<times> 'd" where
  "main_configure P p nom_timing data_timing d =
     (let (_, d) = ctucan_hw_set_nom_bittiming P nom_timing d;
          (_, d) = ctucan_hw_set_data_bittiming P data_timing d;
          m = CAN_CTRLMODE_LOOPBACK OR CAN_CTRLMODE_PRESUME_ACK;
          d = (if o_loopback_mode p then ctucan_hw_set_mode P \<lparr>cm_mask = m, cm_flags = m\<rparr> d else d);
          d = ctucan_hw_enable P True d;
          (mode, d) = hw_rd P CTU_CAN_FD_MODE d
      in ([Usleep_ms 10, Out_MODE mode], d))"

text \<open>Both places that transmit: the buffer is set ready whether or not the frame has been inserted.\<close>

definition main_insert ::
  "'d ctucan_hw_priv \<Rightarrow> canfd_frame \<Rightarrow> bool \<Rightarrow> 'd \<Rightarrow> fault + uout list \<times> 'd" where
  "main_insert P txf isfdf d =
     (case ctucan_hw_insert_frame P txf 0 CTU_CAN_FD_TXT_BUFFER_1 isfdf d of
        Inl f \<Rightarrow> Inl f
      | Inr (res, d) \<Rightarrow>
          Inr (if \<not> res then [Out_TX_failed] else [], ctucan_hw_txt_set_rdy P CTU_CAN_FD_TXT_BUFFER_1 d))"

text \<open>The frame of \<open>-t\<close>; the bytes behind the first four have not been set.\<close>

definition transmit_frame :: "user_opts \<Rightarrow> u8 list \<Rightarrow> canfd_frame" where
  "transmit_frame p rest =
     \<lparr>can_id = o_tx_can_id p, flen = 4, flags = 0, data = [0xDE, 0xAD, 0xBE, 0xEF] @ rest\<rparr>"

definition periodic_frame :: "user_opts \<Rightarrow> canfd_frame" where
  "periodic_frame p =
     (if o_transmit_fdf p
      then \<lparr>can_id = o_tx_can_id p, flen = 14, flags = 0 OR CANFD_BRS,
             data = [0x11, 0x22, 0x33, 0x44, 0x55, 0x66, 0x77, 0x88, 0x99, 0xaa, 0xbb, 0xcc, 0xdd, 0xee] @ replicate 50 0\<rparr>
      else \<lparr>can_id = o_tx_can_id p, flen = 8, flags = 0,
             data = [0x11, 0x22, 0x33, 0x44, 0x55, 0x66, 0x77, 0xEE] @ replicate 56 0\<rparr>)"

definition print_frame :: "canfd_frame \<Rightarrow> u64 \<Rightarrow> uout" where
  "print_frame cf ts = Out_frame ts (can_id cf) (flen cf) (take (unat (flen cf)) (data cf))"

text \<open>
  The loop over the received frames; \<open>cf\<close> is the variable it declares, not set at first. It runs as
  long as the controller reports frames, so that it need not end.
\<close>

partial_function (option) main_rx_loop ::
  "'d ctucan_hw_priv \<Rightarrow> canfd_frame \<Rightarrow> u16 \<Rightarrow> u32 \<Rightarrow> uout list \<Rightarrow> 'd \<Rightarrow> (fault + uout list \<times> 'd) option" where
  "main_rx_loop P cf nrxf rxsz out d =
     (if nrxf \<noteq> 0 \<or> rxsz \<noteq> 0
      then case ctucan_hw_read_rx_frame P cf d of
             Inl f \<Rightarrow> Some (Inl f)
           | Inr (fr, ts, d) \<Rightarrow>
               let (nrxf, d) = ctucan_hw_get_rx_frame_count P d
               in main_rx_loop P cf nrxf 0 (out @ [print_frame fr ts]) d
      else Some (Inr (out, d)))"

definition main_status :: "'d ctucan_hw_priv \<Rightarrow> 'd \<Rightarrow> u16 \<times> u32 \<times> uout list \<times> 'd" where
  "main_status P d =
     (let (nrxf, d) = ctucan_hw_get_rx_frame_count P d;
          (reg, d) = hw_rd P CTU_CAN_FD_RX_MEM_INFO d;
          rxsz = get_s ctu_can_fd_rx_mem_info ''rx_buff_size'' reg - get_s ctu_can_fd_rx_mem_info ''rx_mem_free'' reg;
          (status, d) = ctu_can_get_status P d;
          (int_stat, d) = ctu_can_fd_int_sts P d;
          d = ctucan_hw_int_clr P int_stat d;
          (settings, d) = ctu_can_fd_read16 P CTU_CAN_FD_SETTINGS d;
          (int_ena, d) = hw_rd P CTU_CAN_FD_INT_ENA_SET d;
          (int_mask, d) = hw_rd P CTU_CAN_FD_INT_MASK_SET d;
          (tx_status, d) = hw_rd P CTU_CAN_FD_TX_STATUS d;
          (trv_delay, d) = hw_rd P CTU_CAN_FD_TRV_DELAY d;
          out = [Out_status [ucast nrxf, rxsz, status, settings, int_stat, int_ena, int_mask, tx_status, trv_delay]]
      in if get_s ctu_can_fd_status ''ewl'' status \<noteq> 0
         then let (e, d) = ctu_can_fd_read_err_capt_alc P d
              in (nrxf, rxsz, out @ [Out_error
                   [get_s ctu_can_fd_err_capt_retr_ctr_alc_ts_info ''err_type'' e,
                    get_s ctu_can_fd_err_capt_retr_ctr_alc_ts_info ''err_pos'' e,
                    get_s ctu_can_fd_err_capt_retr_ctr_alc_ts_info ''alc_id_field'' e,
                    get_s ctu_can_fd_err_capt_retr_ctr_alc_ts_info ''alc_bit'' e]], d)
         else (nrxf, rxsz, out, d))"

text \<open>One round of the endless loop; the order of the reads is that of the calls.\<close>

definition main_round ::
  "'d ctucan_hw_priv \<Rightarrow> user_opts \<Rightarrow> canfd_frame \<Rightarrow> u32 \<Rightarrow> 'd \<Rightarrow> (fault + uout list \<times> 'd) option" where
  "main_round P p cf loop_cycle d =
     (let (nrxf, rxsz, out, d) = main_status P d
      in case main_rx_loop P cf nrxf rxsz out d of
           None \<Rightarrow> None
         | Some (Inl f) \<Rightarrow> Some (Inl f)
         | Some (Inr (out, d)) \<Rightarrow>
             if o_do_periodic_transmit p \<and> loop_cycle AND 1 \<noteq> 0
             then (case main_insert P (periodic_frame p) (o_transmit_fdf p) d of
                     Inl f \<Rightarrow> Some (Inl f)
                   | Inr (o2, d) \<Rightarrow> Some (Inr (out @ o2 @ [Usleep_ms (o_gap p)], d)))
             else Some (Inr (out @ [Usleep_ms (o_gap p)], d)))"

primrec main_rounds ::
  "'d ctucan_hw_priv \<Rightarrow> user_opts \<Rightarrow> canfd_frame \<Rightarrow> u32 \<Rightarrow> nat \<Rightarrow> 'd \<Rightarrow> (fault + uout list \<times> 'd) option" where
  "main_rounds P p cf loop_cycle 0 d = Some (Inr ([], d))"
| "main_rounds P p cf loop_cycle (Suc n) d =
     (case main_round P p cf loop_cycle d of
        None \<Rightarrow> None
      | Some (Inl f) \<Rightarrow> Some (Inl f)
      | Some (Inr (out, d)) \<Rightarrow>
          (case main_rounds P p cf (loop_cycle + 1) n d of
             Some (Inr (out2, d)) \<Rightarrow> Some (Inr (out @ out2, d))
           | r \<Rightarrow> r))"

text \<open>
  The program: the result is how it ends, or \<open>Inr\<close> with the events of \<open>n\<close> rounds of its loop. The
  times are those of the clock for \<open>-r\<close>.
\<close>

definition main_run ::
  "'d ctucan_hw_priv \<Rightarrow> user_opts \<Rightarrow> canfd_frame \<Rightarrow> nat \<Rightarrow> 'd \<Rightarrow> (user_exit \<times> uout list + uout list) option" where
  "main_run P p cf n d =
     (let (out1, d) = main_reset P d
      in case main_timing (o_bitrate p) ctu_can_fd_bit_timing_max of
           Inl x \<Rightarrow> Some (Inl (x, out1))
         | Inr nom_timing \<Rightarrow>
             let out2 = out1 @ [Out_timing nom_timing];
                 dbitrate = (if o_dbitrate p = 0 then 10 * o_bitrate p else o_dbitrate p)
             in case main_timing dbitrate ctu_can_fd_bit_timing_data_max of
                  Inl x \<Rightarrow> Some (Inl (x, out2))
                | Inr data_timing \<Rightarrow>
                    let (out3, d) = main_configure P p nom_timing data_timing d;
                        out4 = out2 @ [Out_timing data_timing] @ out3
                    in if o_do_transmit p
                       then (case main_insert P (transmit_frame p (drop 4 (data cf))) False d of
                               Inl f \<Rightarrow> Some (Inl (Undefined, out4))
                             | Inr (o5, d) \<Rightarrow> Some (Inl (Exit 0, out4 @ o5)))
                       else (case main_rounds P p cf 0 n d of
                               None \<Rightarrow> None
                             | Some (Inl f) \<Rightarrow> Some (Inl (Undefined, out4))
                             | Some (Inr (o5, d)) \<Rightarrow> Some (Inr (out4 @ o5))))"

definition user_main ::
  "'d bus \<Rightarrow> user_env \<Rightarrow> timespec \<times> timespec \<Rightarrow> timespec \<times> timespec \<Rightarrow> (char \<times> string) list \<Rightarrow> canfd_frame \<Rightarrow> nat \<Rightarrow> 'd
   \<Rightarrow> (user_exit \<times> uout list + uout list) option" where
  "user_main B E rd wr args cf n d =
     (case main_opts E args default_opts of
        Inl x \<Rightarrow> Some (Inl (x, []))
      | Inr p \<Rightarrow>
          (case main_addr p of
             Inl x \<Rightarrow> Some (Inl (x, []))
           | Inr addr_base \<Rightarrow>
               (case ctucanfd_init B E (ucast addr_base) of
                  Inl x \<Rightarrow> Some (Inl (x, []))
                | Inr P \<Rightarrow>
                    (case main_identify P d of
                       (Inl x, d) \<Rightarrow> Some (Inl x)
                     | (Inr out, d) \<Rightarrow>
                         if o_test_read_speed p
                         then Some (Inl (Exit 0, out @ fst (main_read_speed P rd wr d)))
                         else map_option (map_sum (\<lambda>(x, o1). (x, out @ o1)) (\<lambda>o1. out @ o1)) (main_run P p cf n d)))))"

section \<open>The mapped window\<close>

lemma page_floor: "unat (x AND NOT (mask k :: u64)) = unat x div 2 ^ k * 2 ^ k"
proof -
  have e: "x AND NOT (mask k) = push_bit k (drop_bit k x)"
    by (rule bit_word_eqI) (auto simp: bit_simps dest: bit_imp_le_length)
  have x: "unat x < 2 ^ LENGTH(64)" by (rule unsigned_less)
  then have "unat x div 2 ^ k * 2 ^ k < 2 ^ LENGTH(64)"
    by (rule le_less_trans [OF div_times_less_eq_dividend])
  then show ?thesis
    unfolding e unsigned_push_bit_eq unsigned_drop_bit_eq
    unfolding push_bit_eq_mult drop_bit_eq_div take_bit_eq_mod
    using x by simp
qed

lemma page_rest: "unat (x AND (mask k :: u64)) = unat x mod 2 ^ k"
proof -
  have "x AND mask k = take_bit k x" by (simp only: take_bit_eq_mask)
  then have "unat (x AND mask k) = take_bit k (unat x)" by (simp only: unsigned_take_bit_eq)
  then show ?thesis by (simp only: take_bit_eq_mod)
qed

lemma unat_sum_64: "unat x + unat y < 2 ^ 64 \<Longrightarrow> unat (x + y) = unat x + unat (y :: u64)"
  by (simp add: unat_word_ariths)

lemma window_fits: "a \<le> b \<Longrightarrow> b + c + p \<le> N \<Longrightarrow> 0 < p \<Longrightarrow> a + c + (p - 1) < (N :: nat)"
  by linarith

lemma window_arith:
  fixes a b p :: nat
  assumes "0 < p"
  shows "a mod p + b \<le> (a mod p + b + p - 1) div p * p" "(a mod p + b + p - 1) div p * p < b + 2 * p"
proof -
  have m: "a mod p < p" using assms by simp
  let ?x = "a mod p + b + p - 1"
  have d: "?x div p * p + ?x mod p = ?x" "?x mod p < p" using assms by simp_all
  show "a mod p + b \<le> ?x div p * p" using d assms by linarith
  show "?x div p * p < b + 2 * p" using d m assms by linarith
qed

text \<open>The window mapped for a range of addresses starts on a page boundary, is a whole number of pages, contains
  the range and is less than two pages longer.\<close>

lemma mem_window_covers:
  assumes "mem_window (2 ^ k) start len = (off, wsize)" "unat start + unat len + 2 ^ k \<le> 2 ^ 64" "k < 64"
  shows "2 ^ k dvd unat off \<and> 2 ^ k dvd unat wsize \<and> unat off \<le> unat start \<and>
    unat start + unat len \<le> unat off + unat wsize \<and> unat wsize < unat len + 2 * 2 ^ k"
proof -
  have m: "2 ^ k - 1 = (mask k :: u64)" by (simp add: mask_eq_exp_minus_1)
  let ?s = "(start AND mask k) + len + 2 ^ k - 1"
  have r: "unat (start AND mask k) = unat start mod 2 ^ k" by (rule page_rest)
  have p: "unat (mask k :: u64) = 2 ^ k - 1"
  proof -
    have "unat (mask k :: u64) = take_bit k (unat (- 1 :: u64))"
      by (simp only: take_bit_minus_one_eq_mask [symmetric] unsigned_take_bit_eq)
    also have "\<dots> = mask k" using assms(3) by (simp add: unsigned_minus_1_eq_mask take_bit_of_mask min_def)
    finally show ?thesis by (simp add: mask_eq_exp_minus_1)
  qed
  have e: "?s = (start AND mask k) + len + mask k" unfolding m [symmetric] by simp
  have f: "unat start mod 2 ^ k + unat len + (2 ^ k - 1) < 2 ^ 64"
    by (rule window_fits [OF mod_less_eq_dividend assms(2)]) simp
  have "unat ((start AND mask k) + len) = unat start mod 2 ^ k + unat len"
    using unat_sum_64 [of "start AND mask k" len] add_lessD1 [OF f] unfolding r by blast
  then have s: "unat ?s = unat start mod 2 ^ k + unat len + 2 ^ k - 1"
    using unat_sum_64 [of "(start AND mask k) + len" "mask k"] f unfolding e p by simp
  have o: "unat off = unat start div 2 ^ k * 2 ^ k" "unat wsize = unat ?s div 2 ^ k * 2 ^ k"
    using assms(1) unfolding mem_window_def m by (auto simp: page_floor)
  have q: "unat off + unat start mod 2 ^ k = unat start" unfolding o by (rule div_mult_mod_eq)
  have w: "unat start mod 2 ^ k + unat len \<le> unat wsize" "unat wsize < unat len + 2 * 2 ^ k"
    using window_arith [of "2 ^ k" "unat start" "unat len"] unfolding o(2) s by simp_all
  have "2 ^ k dvd unat off" "2 ^ k dvd unat wsize" unfolding o by simp_all
  then show ?thesis using q w by (intro conjI) linarith+
qed

end
