(* ===== verification/Ctu_Regtest.thy ===== *)
theory Ctu_Regtest
  imports Ctu_Hw
begin

text \<open>
  The register access test of \<open>driver/regtest.cpp\<close> and the register it is run on: \<open>BTR\<close>, which the
  generated register map builds from instances of \<open>memory_reg_rw_lock\<close>, one write enable per byte.

  The test uses stores of 8, 16 and 32 bits, so that the device has a store for each width. Its
  messages are left out; what they count is kept.
\<close>

section \<open>The test program\<close>

record 'd iobus =
  io_ld32 :: "'d \<Rightarrow> iomem \<Rightarrow> u32 \<times> 'd"
  io_st32 :: "'d \<Rightarrow> iomem \<Rightarrow> u32 \<Rightarrow> 'd"
  io_st16 :: "'d \<Rightarrow> iomem \<Rightarrow> u16 \<Rightarrow> 'd"
  io_st8 :: "'d \<Rightarrow> iomem \<Rightarrow> u8 \<Rightarrow> 'd"

record 'd regtest =
  s_apb_prdata :: u32
  rt_base :: iomem
  rt_error :: u32
  rt_dev :: 'd

definition CHECK :: "u32 \<Rightarrow> 'd regtest \<Rightarrow> 'd regtest" where
  "CHECK expected s = (if s_apb_prdata s \<noteq> expected then s\<lparr>rt_error := rt_error s + 1\<rparr> else s)"

datatype apb_access = U8 | U16 | U32

definition apb_lanes :: "u8 \<Rightarrow> (apb_access \<times> iomem) option" where
  "apb_lanes be =
     (if be = 0b0001 then Some (U8, 0)
      else if be = 0b0010 then Some (U8, 1)
      else if be = 0b0100 then Some (U8, 2)
      else if be = 0b1000 then Some (U8, 3)
      else if be = 0b0011 then Some (U16, 0)
      else if be = 0b1100 then Some (U16, 2)
      else if be = 0b1111 then Some (U32, 0)
      else None)"

text \<open>\<open>None\<close>: the assertion on the byte enable has failed.\<close>

definition apb_write :: "'d iobus \<Rightarrow> u32 \<Rightarrow> u32 \<Rightarrow> u8 \<Rightarrow> 'd regtest \<Rightarrow> 'd regtest option" where
  "apb_write B reg v be s =
     (case apb_lanes be of
        None \<Rightarrow> None
      | Some (access, offset) \<Rightarrow>
          let addr = rt_base s + ucast reg
          in Some (s\<lparr>rt_dev :=
               (case access of
                  U8 \<Rightarrow> io_st8 B (rt_dev s) (addr + offset) (ucast v)
                | U16 \<Rightarrow> io_st16 B (rt_dev s) (addr + offset) (ucast v)
                | U32 \<Rightarrow> io_st32 B (rt_dev s) (addr + offset) v)\<rparr>))"

definition apb_read :: "'d iobus \<Rightarrow> u32 \<Rightarrow> 'd regtest \<Rightarrow> 'd regtest" where
  "apb_read B reg s =
     (let (v, d) = io_ld32 B (rt_dev s) (rt_base s + ucast reg) in s\<lparr>s_apb_prdata := v, rt_dev := d\<rparr>)"

definition apb_test_pattern :: "'d iobus \<Rightarrow> u32 \<Rightarrow> u32 \<Rightarrow> 'd regtest \<Rightarrow> 'd regtest option" where
  "apb_test_pattern B reg v s =
     do {
       s \<leftarrow> apb_write B reg v 0b1111 s;
       let s = apb_read B reg s;
       Some (if s_apb_prdata s \<noteq> v then s\<lparr>rt_error := rt_error s + 1\<rparr> else s)
     }"

text \<open>The sequence of accesses and checks of \<open>main\<close>.\<close>

definition regtest_checks :: "'d iobus \<Rightarrow> 'd regtest \<Rightarrow> 'd regtest option" where
  "regtest_checks B s =
     do {
       let s = CHECK 0x0204CAFD (apb_read B CTU_CAN_FD_DEVICE_ID s);
       s \<leftarrow> apb_write B CTU_CAN_FD_BTR 0xFFFFFFFF 0b1111 s;
       let s = CHECK 0x0204CAFD (apb_read B CTU_CAN_FD_DEVICE_ID s);
       let s = CHECK 0xFFFFFFFF (apb_read B CTU_CAN_FD_BTR s);
       s \<leftarrow> apb_write B CTU_CAN_FD_BTR 0x00000000 0b0011 s;
       let s = CHECK 0xFFFF0000 (apb_read B CTU_CAN_FD_BTR s);
       s \<leftarrow> apb_write B CTU_CAN_FD_BTR 0xFFFFFFFF 0b1111 s;
       s \<leftarrow> apb_write B CTU_CAN_FD_BTR 0x00000000 0b1100 s;
       let s = CHECK 0x0000FFFF (apb_read B CTU_CAN_FD_BTR s);
       s \<leftarrow> apb_test_pattern B CTU_CAN_FD_BTR 0xAAAAAAAA s;
       s \<leftarrow> apb_test_pattern B CTU_CAN_FD_BTR 0x55555555 s;
       s \<leftarrow> apb_test_pattern B CTU_CAN_FD_BTR 0x92492492 s;
       s \<leftarrow> apb_test_pattern B CTU_CAN_FD_BTR 0x49249249 s;
       s \<leftarrow> apb_test_pattern B CTU_CAN_FD_BTR 0x24924924 s;
       s \<leftarrow> apb_write B CTU_CAN_FD_BTR 0x87654321 0b1111 s;
       let s = CHECK 0x87654321 (apb_read B CTU_CAN_FD_BTR s);
       s \<leftarrow> apb_write B CTU_CAN_FD_BTR 0x000055aa 0b0011 s;
       Some (CHECK 0x876555aa (apb_read B CTU_CAN_FD_BTR s))
     }"

text \<open>
  The program for the address given with \<open>-a\<close>; \<open>base\<close> is where the range has been mapped. The
  result is the exit status.
\<close>

definition regtest_main :: "'d iobus \<Rightarrow> u32 \<Rightarrow> iomem \<Rightarrow> 'd \<Rightarrow> (int \<times> 'd) option" where
  "regtest_main B addr_base base d =
     (if addr_base < 0x40000000 \<or> addr_base > 0xBFFFFFFF then Some (1, d)
      else if addr_base AND 0xFFF \<noteq> 0 then Some (1, d)
      else do {
        let (reg, d) = io_ld32 B d (base + ucast CTU_CAN_FD_DEVICE_ID);
        s \<leftarrow> regtest_checks B \<lparr>s_apb_prdata = 0, rt_base = base, rt_error = 0, rt_dev = d\<rparr>;
        Some (if rt_error s \<noteq> 0 then 1 else 0, rt_dev s)
      })"

section \<open>The register\<close>

text \<open>
  One instance of \<open>memory_reg_rw_lock\<close>. Its bits are those of the mask \<open>m\<close> in the word of the bus.
\<close>

definition memory_reg_rw_lock :: "u32 \<Rightarrow> bool \<Rightarrow> bool \<Rightarrow> bool \<Rightarrow> u32 \<Rightarrow> u32 \<Rightarrow> u32" where
  "memory_reg_rw_lock m wr cs lock data_in reg_value =
     (if wr \<and> cs \<and> \<not> lock then (data_in AND m) OR (reg_value AND NOT m) else reg_value)"

text \<open>The instances that make up \<open>BTR\<close>: highest and lowest bit and the write enable used.\<close>

definition btr_slices :: "(nat \<times> nat \<times> nat) list" where
  "btr_slices =
     [(6, 0, 0), (7, 7, 0), (12, 8, 1), (15, 13, 1), (18, 16, 2), (23, 19, 2), (26, 24, 3), (31, 27, 3)]"

definition btr_reg_comp :: "(nat \<Rightarrow> bool) \<Rightarrow> bool \<Rightarrow> u32 \<Rightarrow> u32 \<Rightarrow> u32" where
  "btr_reg_comp write_en lock_2 w_data v =
     foldl (\<lambda>v (h, l, be). memory_reg_rw_lock (GENMASK h l) (write_en be) True lock_2 w_data v) v btr_slices"

text \<open>
  The controller as the test sees it: \<open>BTR\<close>, its lock and the word at the address of the
  identification. The bus puts a short store on the lanes its address selects.
\<close>

record btr_dev =
  bd_btr :: u32
  bd_locked :: bool
  bd_id :: u32

definition btr_write :: "iomem \<Rightarrow> btr_dev \<Rightarrow> iomem \<Rightarrow> nat list \<Rightarrow> u32 \<Rightarrow> btr_dev" where
  "btr_write base d a be w_data =
     (if a AND NOT 3 = base + ucast CTU_CAN_FD_BTR
      then d\<lparr>bd_btr := btr_reg_comp (\<lambda>i. i \<in> set be) (bd_locked d) w_data (bd_btr d)\<rparr> else d)"

definition btr_iobus :: "iomem \<Rightarrow> btr_dev iobus" where
  "btr_iobus base =
     \<lparr>io_ld32 = (\<lambda>d a. (if a = base + ucast CTU_CAN_FD_BTR then bd_btr d
                        else if a = base + ucast CTU_CAN_FD_DEVICE_ID then bd_id d else 0, d)),
      io_st32 = (\<lambda>d a v. btr_write base d a [0, 1, 2, 3] v),
      io_st16 = (\<lambda>d a v. let k = unat (a AND 3) in btr_write base d a [k, k + 1] (push_bit (8 * k) (ucast v))),
      io_st8 = (\<lambda>d a v. let k = unat (a AND 3) in btr_write base d a [k] (push_bit (8 * k) (ucast v)))\<rparr>"

section \<open>The contract of a register with byte lanes\<close>

text \<open>What the test relies on: the register keeps what is stored, short stores change their half only.\<close>

locale lane_reg =
  fixes B :: "'d iobus" and base :: iomem and ok :: "'d \<Rightarrow> bool" and reg_val :: "'d \<Rightarrow> u32" and ident :: "'d \<Rightarrow> u32"
  assumes ld_reg: "ok d \<Longrightarrow> \<exists>d'. io_ld32 B d (base + ucast CTU_CAN_FD_BTR) = (reg_val d, d') \<and>
      ok d' \<and> reg_val d' = reg_val d \<and> ident d' = ident d"
    and ld_id: "ok d \<Longrightarrow> \<exists>d'. io_ld32 B d (base + ucast CTU_CAN_FD_DEVICE_ID) = (ident d, d') \<and>
      ok d' \<and> reg_val d' = reg_val d \<and> ident d' = ident d"
    and st32: "ok d \<Longrightarrow> d' = io_st32 B d (base + ucast CTU_CAN_FD_BTR) v \<Longrightarrow>
      ok d' \<and> reg_val d' = v \<and> ident d' = ident d"
    and st16_lo: "ok d \<Longrightarrow> d' = io_st16 B d (base + ucast CTU_CAN_FD_BTR) w \<Longrightarrow>
      ok d' \<and> reg_val d' = (reg_val d AND 0xFFFF0000) OR ucast w \<and> ident d' = ident d"
    and st16_hi: "ok d \<Longrightarrow> d' = io_st16 B d (base + ucast CTU_CAN_FD_BTR + 2) w \<Longrightarrow>
      ok d' \<and> reg_val d' = (reg_val d AND 0xFFFF) OR push_bit 16 (ucast w) \<and> ident d' = ident d"
begin

definition sees :: "u32 \<Rightarrow> u32 \<Rightarrow> u32 \<Rightarrow> 'd regtest \<Rightarrow> bool" where
  "sees i v e s \<longleftrightarrow> ok (rt_dev s) \<and> rt_base s = base \<and> ident (rt_dev s) = i \<and> reg_val (rt_dev s) = v \<and> rt_error s = e"

lemma sees_read_reg: "sees i v e s \<Longrightarrow> sees i v (if v = x then e else e + 1) (CHECK x (apb_read B CTU_CAN_FD_BTR s))"
  using ld_reg [of "rt_dev s"] by (auto simp: sees_def CHECK_def apb_read_def)

lemma sees_read_id: "sees i v e s \<Longrightarrow> sees i v (if i = x then e else e + 1) (CHECK x (apb_read B CTU_CAN_FD_DEVICE_ID s))"
  using ld_id [of "rt_dev s"] by (auto simp: sees_def CHECK_def apb_read_def)

lemma sees_write: "sees i v e s \<Longrightarrow> \<exists>s'. apb_write B CTU_CAN_FD_BTR w 0b1111 s = Some s' \<and> sees i w e s'"
  using st32 [of "rt_dev s" _ w] by (auto simp: sees_def apb_write_def apb_lanes_def)

lemma sees_write_lo: "sees i v e s \<Longrightarrow>
    \<exists>s'. apb_write B CTU_CAN_FD_BTR w 0b0011 s = Some s' \<and> sees i ((v AND 0xFFFF0000) OR ucast (ucast w :: u16)) e s'"
  using st16_lo [of "rt_dev s" _ "ucast w"] by (auto simp: sees_def apb_write_def apb_lanes_def)

lemma sees_write_hi: "sees i v e s \<Longrightarrow>
    \<exists>s'. apb_write B CTU_CAN_FD_BTR w 0b1100 s = Some s' \<and> sees i ((v AND 0xFFFF) OR push_bit 16 (ucast (ucast w :: u16))) e s'"
  using st16_hi [of "rt_dev s" _ "ucast w"] by (auto simp: sees_def apb_write_def apb_lanes_def)

lemma sees_pattern: "sees i v e s \<Longrightarrow> \<exists>s'. apb_test_pattern B CTU_CAN_FD_BTR w s = Some s' \<and> sees i w e s'"
proof -
  assume "sees i v e s"
  then obtain s1 where s1: "apb_write B CTU_CAN_FD_BTR w 0b1111 s = Some s1" "sees i w e s1"
    using sees_write by blast
  moreover have "apb_test_pattern B CTU_CAN_FD_BTR w s = Some (CHECK w (apb_read B CTU_CAN_FD_BTR s1))"
    using s1(1) by (simp add: apb_test_pattern_def CHECK_def Let_def)
  ultimately show ?thesis using sees_read_reg [of i w e s1 w] by simp
qed

lemma sees_checks:
  assumes "sees i v 0 s"
  shows "\<exists>s' v'. regtest_checks B s = Some s' \<and> sees i v' (if i = 0x0204CAFD then 0 else 2) s'"
proof -
  let ?e = "if i = 0x0204CAFD then 0 else 1" and ?f = "if i = 0x0204CAFD then 0 else (2 :: u32)"
  obtain s1 where s1: "s1 = CHECK 0x0204CAFD (apb_read B CTU_CAN_FD_DEVICE_ID s)" "sees i v ?e s1"
    using sees_read_id [OF assms, of "0x0204CAFD"] by (cases "i = 0x0204CAFD") auto
  obtain s2 where s2: "apb_write B CTU_CAN_FD_BTR 0xFFFFFFFF 0b1111 s1 = Some s2" "sees i 0xFFFFFFFF ?e s2"
    using sees_write [OF s1(2)] by blast
  obtain s3 where s3: "s3 = CHECK 0xFFFFFFFF (apb_read B CTU_CAN_FD_BTR (CHECK 0x0204CAFD (apb_read B CTU_CAN_FD_DEVICE_ID s2)))"
      "sees i 0xFFFFFFFF ?f s3"
    using sees_read_reg [OF sees_read_id [OF s2(2), of "0x0204CAFD"], of "0xFFFFFFFF"] by (cases "i = 0x0204CAFD") auto
  obtain s4 where s4: "apb_write B CTU_CAN_FD_BTR 0 0b0011 s3 = Some s4" "sees i 0xFFFF0000 ?f s4"
    using sees_write_lo [OF s3(2), of 0] by auto
  obtain s5 where s5: "apb_write B CTU_CAN_FD_BTR 0xFFFFFFFF 0b1111 (CHECK 0xFFFF0000 (apb_read B CTU_CAN_FD_BTR s4)) = Some s5"
      "sees i 0xFFFFFFFF ?f s5"
    using sees_write [OF sees_read_reg [OF s4(2), of "0xFFFF0000"]] by auto
  obtain s6 where s6: "apb_write B CTU_CAN_FD_BTR 0 0b1100 s5 = Some s6" "sees i 0xFFFF ?f s6"
    using sees_write_hi [OF s5(2), of 0] by auto
  obtain s7 where s7: "s7 = CHECK 0x0000FFFF (apb_read B CTU_CAN_FD_BTR s6)" "sees i 0xFFFF ?f s7"
    using sees_read_reg [OF s6(2), of "0xFFFF"] by auto
  obtain p1 where p1: "apb_test_pattern B CTU_CAN_FD_BTR 0xAAAAAAAA s7 = Some p1" "sees i 0xAAAAAAAA ?f p1"
    using sees_pattern [OF s7(2)] by blast
  obtain p2 where p2: "apb_test_pattern B CTU_CAN_FD_BTR 0x55555555 p1 = Some p2" "sees i 0x55555555 ?f p2"
    using sees_pattern [OF p1(2)] by blast
  obtain p3 where p3: "apb_test_pattern B CTU_CAN_FD_BTR 0x92492492 p2 = Some p3" "sees i 0x92492492 ?f p3"
    using sees_pattern [OF p2(2)] by blast
  obtain p4 where p4: "apb_test_pattern B CTU_CAN_FD_BTR 0x49249249 p3 = Some p4" "sees i 0x49249249 ?f p4"
    using sees_pattern [OF p3(2)] by blast
  obtain p5 where p5: "apb_test_pattern B CTU_CAN_FD_BTR 0x24924924 p4 = Some p5" "sees i 0x24924924 ?f p5"
    using sees_pattern [OF p4(2)] by blast
  obtain s8 where s8: "apb_write B CTU_CAN_FD_BTR 0x87654321 0b1111 p5 = Some s8" "sees i 0x87654321 ?f s8"
    using sees_write [OF p5(2)] by blast
  obtain s9 where s9: "apb_write B CTU_CAN_FD_BTR 0x55aa 0b0011 (CHECK 0x87654321 (apb_read B CTU_CAN_FD_BTR s8)) = Some s9"
      "sees i 0x876555aa ?f s9"
    using sees_write_lo [OF sees_read_reg [OF s8(2), of "0x87654321"], of "0x55aa"] by auto
  have "sees i 0x876555aa ?f (CHECK 0x876555aa (apb_read B CTU_CAN_FD_BTR s9))"
    using sees_read_reg [OF s9(2), of "0x876555aa"] by simp
  then show ?thesis
    using s1(1) s2(1) s3(1) s4(1) s5(1) s6(1) s7(1) p1(1) p2(1) p3(1) p4(1) p5(1) s8(1) s9(1)
    by (auto simp: regtest_checks_def Let_def)
qed

end

section \<open>The hardware register keeps the contract\<close>

lemma memory_reg_bit:
  "bit (memory_reg_rw_lock (GENMASK h l) wr True lock w v) n =
     (if wr \<and> \<not> lock \<and> n < 32 \<and> l \<le> n \<and> n \<le> h then bit w n else bit v n)"
  by (auto simp: memory_reg_rw_lock_def bit_simps bit_GENMASK dest: bit_imp_le_length)

lemma slices_bit:
  "bit (foldl (\<lambda>v (h, l, be). memory_reg_rw_lock (GENMASK h l) (we be) True lock w v) v xs) n =
     (if \<not> lock \<and> n < 32 \<and> (\<exists>(h, l, be) \<in> set xs. we be \<and> l \<le> n \<and> n \<le> h) then bit w n else bit v n)"
  by (induction xs arbitrary: v) (auto simp: memory_reg_bit)

lemma div8_eq: "n div 8 = k \<longleftrightarrow> 8 * k \<le> n \<and> n < 8 * k + (8 :: nat)"
  using div_mult_mod_eq [of n 8] mod_less_divisor [of 8 n] by (auto intro!: div_nat_eqI)

lemma div8_lanes:
  fixes n :: nat
  shows "n < 32 \<Longrightarrow> n div 8 \<in> {0, 1, 2, 3}" and "n div 8 \<in> {0, 1} \<longleftrightarrow> n < 16"
    and "n < 32 \<Longrightarrow> n div 8 \<in> {2, 3} \<longleftrightarrow> 16 \<le> n"
  unfolding insert_iff div8_eq by auto

lemma btr_slices_cover: "n < 32 \<Longrightarrow> (\<exists>(h, l, be) \<in> set btr_slices. we be \<and> l \<le> n \<and> n \<le> h) = we (n div 8)"
proof -
  assume "n < 32"
  then have "n div 8 = 0 \<and> n \<le> 7 \<or> n div 8 = 1 \<and> 8 \<le> n \<and> n \<le> 15 \<or> n div 8 = 2 \<and> 16 \<le> n \<and> n \<le> 23 \<or>
      n div 8 = 3 \<and> 24 \<le> n \<and> n \<le> 31" unfolding div8_eq by linarith
  then show ?thesis
    by (elim disjE conjE) (simp_all add: btr_slices_def, auto)
qed

lemma btr_reg_comp_bit:
  "bit (btr_reg_comp we lock w v) n = (if \<not> lock \<and> n < 32 \<and> we (n div 8) then bit w n else bit v n)"
  unfolding btr_reg_comp_def slices_bit by (cases "n < 32") (simp_all add: btr_slices_cover)

lemma btr_word: "btr_reg_comp (\<lambda>i. i \<in> set [0, 1, 2, 3]) False w v = w"
  by (rule bit_word_eqI) (use div8_lanes(1) in \<open>simp add: btr_reg_comp_bit\<close>)

lemma btr_low: "btr_reg_comp (\<lambda>i. i \<in> set [0, 0 + 1]) False (ucast (w :: u16)) v = (v AND 0xFFFF0000) OR ucast w"
proof (rule bit_word_eqI)
  fix n
  assume n: "n < LENGTH(32)"
  have m: "bit (0xFFFF0000 :: u32) n \<longleftrightarrow> 16 \<le> n"
    using bit_GENMASK [of 31 16 n] n by (simp add: GENMASK_def mask_eq_exp_minus_1 push_bit_eq_mult)
  show "bit (btr_reg_comp (\<lambda>i. i \<in> set [0, 0 + 1]) False (ucast w) v) n = bit ((v AND 0xFFFF0000) OR ucast w) n"
    using n m div8_lanes(2) [of n] by (auto simp: btr_reg_comp_bit bit_and_iff bit_or_iff bit_unsigned_iff dest: bit_imp_le_length)
qed

lemma btr_high: "btr_reg_comp (\<lambda>i. i \<in> set [2, 2 + 1]) False (push_bit 16 (ucast (w :: u16))) v =
    (v AND 0xFFFF) OR push_bit 16 (ucast w)"
proof (rule bit_word_eqI)
  fix n
  assume n: "n < LENGTH(32)"
  have m: "bit (0xFFFF :: u32) n \<longleftrightarrow> n \<le> 15"
    using bit_GENMASK [of 15 0 n] n by (simp add: GENMASK_def mask_eq_exp_minus_1)
  show "bit (btr_reg_comp (\<lambda>i. i \<in> set [2, 2 + 1]) False (push_bit 16 (ucast w)) v) n =
      bit ((v AND 0xFFFF) OR push_bit 16 (ucast w)) n"
    using n m div8_lanes(3) [of n] by (auto simp: btr_reg_comp_bit bit_and_iff bit_or_iff bit_push_bit_iff bit_unsigned_iff dest: bit_imp_le_length)
qed

lemma page_or:
  assumes "c = take_bit 12 c"
  shows "push_bit 12 k + c = push_bit 12 k OR (c :: iomem)"
proof (rule disjunctive_add)
  fix n
  have "n < 12" if "bit c n" using that assms by (metis bit_take_bit_iff)
  then show "\<not> bit (push_bit 12 k) n \<or> \<not> bit c n" by (auto simp: bit_push_bit_iff)
qed

lemma page_masks: "push_bit 12 k AND 3 = (0 :: iomem)" "push_bit 12 k AND NOT 3 = (push_bit 12 k :: iomem)"
proof -
  have h: "bit (3 :: iomem) n \<longleftrightarrow> n < 2" for n
    using bit_mask_iff [of 2 n, where 'a = iomem] by (auto simp: mask_eq_exp_minus_1)
  show "push_bit 12 k AND 3 = (0 :: iomem)"
    by (rule bit_word_eqI) (unfold bit_and_iff bit_push_bit_iff h, auto)
  show "push_bit 12 k AND NOT 3 = (push_bit 12 k :: iomem)"
    by (rule bit_word_eqI) (unfold bit_and_iff bit_not_iff bit_push_bit_iff h, auto)
qed

lemma page_lanes:
  "(push_bit 12 k + 36) AND 3 = (0 :: iomem)" "(push_bit 12 k + 36) AND NOT 3 = push_bit 12 k + (36 :: iomem)"
  "(push_bit 12 k + 38) AND 3 = (2 :: iomem)" "(push_bit 12 k + 38) AND NOT 3 = push_bit 12 k + (36 :: iomem)"
proof -
  have o: "push_bit 12 k + 36 = push_bit 12 k OR (36 :: iomem)" "push_bit 12 k + 38 = push_bit 12 k OR (38 :: iomem)"
    by (rule page_or; simp add: take_bit_eq_mod)+
  show "(push_bit 12 k + 36) AND 3 = (0 :: iomem)" "(push_bit 12 k + 36) AND NOT 3 = push_bit 12 k + (36 :: iomem)"
    "(push_bit 12 k + 38) AND 3 = (2 :: iomem)" "(push_bit 12 k + 38) AND NOT 3 = push_bit 12 k + (36 :: iomem)"
    unfolding o bit.conj_disj_distrib2 page_masks by simp_all
qed

interpretation btr: lane_reg "btr_iobus (push_bit 12 k)" "push_bit 12 k" "\<lambda>d. \<not> bd_locked d" bd_btr bd_id for k
  using btr_word btr_low btr_high
  by unfold_locales (simp_all add: btr_iobus_def btr_write_def CTU_CAN_FD_BTR_def CTU_CAN_FD_DEVICE_ID_def page_lanes [simplified]
      add.assoc)

text \<open>The word of the identification register in the present version of the controller.\<close>

definition C_CTU_CAN_FD_VERSION_MINOR :: u8 where "C_CTU_CAN_FD_VERSION_MINOR = 0x06"
definition C_CTU_CAN_FD_VERSION_MAJOR :: u8 where "C_CTU_CAN_FD_VERSION_MAJOR = 0x02"
definition C_CAN_DEVICE_ID :: u16 where "C_CAN_DEVICE_ID = 0xCAFD"

definition core_id_word :: u32 where
  "core_id_word = push_bit 24 (ucast C_CTU_CAN_FD_VERSION_MAJOR) OR push_bit 16 (ucast C_CTU_CAN_FD_VERSION_MINOR) OR
     ucast C_CAN_DEVICE_ID"

text \<open>C33: The register test on the hardware register: with the controller disabled every check on \<open>BTR\<close> passes, short
  stores included, and the exit status depends only on the identification, which has to be that of
  version 2.4. The identification of the present version is another one.\<close>

theorem regtest_result:
  assumes "0x40000000 \<le> addr" "addr \<le> 0xBFFFFFFF" "addr AND 0xFFF = 0" "\<not> bd_locked d"
  shows "\<exists>d'. regtest_main (btr_iobus (push_bit 12 k)) addr (push_bit 12 k) d =
    Some (if bd_id d = 0x0204CAFD then 0 else 1, d') \<and> core_id_word \<noteq> 0x0204CAFD"
proof -
  let ?s = "\<lparr>s_apb_prdata = 0, rt_base = push_bit 12 k, rt_error = 0, rt_dev = d\<rparr>"
  have "btr.sees k (bd_id d) (bd_btr d) 0 ?s"
    using assms(4) by (simp add: btr.sees_def)
  from btr.sees_checks [OF this] obtain s v where "regtest_checks (btr_iobus (push_bit 12 k)) ?s = Some s"
    "btr.sees k (bd_id d) v (if bd_id d = 0x0204CAFD then 0 else 2) s" by blast
  moreover have "\<exists>x. io_ld32 (btr_iobus (push_bit 12 k)) d (push_bit 12 k + ucast CTU_CAN_FD_DEVICE_ID) = (x, d)"
    by (simp add: btr_iobus_def)
  ultimately show ?thesis
    using assms by (auto simp: regtest_main_def btr.sees_def not_less core_id_word_def
        C_CTU_CAN_FD_VERSION_MINOR_def C_CTU_CAN_FD_VERSION_MAJOR_def C_CAN_DEVICE_ID_def)
qed

theorem regtest_result_witness:
  "\<exists>d'. regtest_main (btr_iobus (push_bit 12 5)) 0x43C30000 (push_bit 12 5)
     \<lparr>bd_btr = 0x10A0A185, bd_locked = False, bd_id = core_id_word\<rparr> = Some (1, d')"
  using regtest_result [of "0x43C30000" "\<lparr>bd_btr = 0x10A0A185, bd_locked = False, bd_id = core_id_word\<rparr>" 5]
  by (simp add: core_id_word_def C_CTU_CAN_FD_VERSION_MINOR_def C_CTU_CAN_FD_VERSION_MAJOR_def C_CAN_DEVICE_ID_def)

end
