(* ===== verification/Ctu_Stuff.thy ===== *)
theory Ctu_Stuff
  imports Ctu_Prelude
begin

text \<open>
  The coding of a frame on the bus, from \<open>src/can_core\<close>: bit stuffing, bit destuffing, the triggers
  that stop the protocol control for a stuff bit, and the CRC.

  Each circuit is a record of its registers and a function for one clock cycle, whose inputs are a record as
  well. A signal is a truth value, \<open>True\<close> for \<open>'1'\<close>. The properties speak of bit times: one cycle
  with the trigger and any number of cycles without.
\<close>

definition DOMINANT :: bool where "DOMINANT = False"
definition RECESSIVE :: bool where "RECESSIVE = True"

section \<open>Bit stuffing\<close>

record bst_in =
  bst_data_in :: bool
  bst_trigger :: bool
  stuff_enable :: bool
  bst_fixed_stuff :: bool
  tx_frame_no_sof :: bool

record bst_regs =
  bst_enable_prev :: bool
  fixed_reg_q :: bool
  bst_ctr_q :: "3 word"
  bst_same_bits_q :: "3 word"
  data_out_i :: bool
  data_halt_q :: bool

definition bst_reset :: bst_regs where
  "bst_reset = \<lparr>bst_enable_prev = False, fixed_reg_q = False, bst_ctr_q = 0, bst_same_bits_q = 1,
     data_out_i = RECESSIVE, data_halt_q = False\<rparr>"

definition bst_non_fix_to_fix_chng :: "bst_in \<Rightarrow> bst_regs \<Rightarrow> bool" where
  "bst_non_fix_to_fix_chng i r \<longleftrightarrow> bst_fixed_stuff i \<and> \<not> fixed_reg_q r"

definition bst_stuff_lvl_reached :: "bst_regs \<Rightarrow> bool" where
  "bst_stuff_lvl_reached r \<longleftrightarrow> bst_same_bits_q r = 0b101"

definition insert_stuff_bit :: "bst_in \<Rightarrow> bst_regs \<Rightarrow> bool" where
  "insert_stuff_bit i r \<longleftrightarrow> bst_non_fix_to_fix_chng i r \<or> bst_stuff_lvl_reached r"

definition same_bits_rst :: "bst_in \<Rightarrow> bst_regs \<Rightarrow> bool" where
  "same_bits_rst i r \<longleftrightarrow> \<not> bst_enable_prev r \<or>
     bst_trigger i \<and> (bst_non_fix_to_fix_chng i r \<or> bst_stuff_lvl_reached r \<or>
       bst_data_in i \<noteq> data_out_i r \<and> \<not> bst_fixed_stuff i)"

definition bst_same_bits_d :: "bst_in \<Rightarrow> bst_regs \<Rightarrow> 3 word" where
  "bst_same_bits_d i r =
     (if tx_frame_no_sof i then (if bst_data_in i = DOMINANT then 2 else 1)
      else if same_bits_rst i r then 1
      else if bst_trigger i then bst_same_bits_q r + 1
      else bst_same_bits_q r)"

definition data_out_d :: "bst_in \<Rightarrow> bst_regs \<Rightarrow> bool" where
  "data_out_d i r =
     (if stuff_enable i
      then if bst_trigger i \<and> insert_stuff_bit i r then \<not> data_out_i r
           else if bst_trigger i then bst_data_in i
           else data_out_i r
      else if bst_trigger i then bst_data_in i
      else data_out_i r)"

definition data_halt_d :: "bst_in \<Rightarrow> bst_regs \<Rightarrow> bool" where
  "data_halt_d i r =
     (if \<not> bst_enable_prev r \<or> \<not> stuff_enable i then False
      else if bst_trigger i \<and> insert_stuff_bit i r then True
      else if bst_trigger i then False
      else data_halt_q r)"

definition data_halt :: "bst_in \<Rightarrow> bst_regs \<Rightarrow> bool" where
  "data_halt i r = (if data_halt_q r = data_halt_d i r then data_halt_q r else data_halt_d i r)"

definition bst_cycle :: "bst_in \<Rightarrow> bst_regs \<Rightarrow> bst_regs" where
  "bst_cycle i r =
     \<lparr>bst_enable_prev = stuff_enable i,
      fixed_reg_q =
        (if stuff_enable i
         then if \<not> bst_enable_prev r then False else if bst_trigger i then bst_fixed_stuff i else fixed_reg_q r
         else fixed_reg_q r),
      bst_ctr_q =
        (if stuff_enable i
         then if \<not> bst_enable_prev r then 0
              else if bst_trigger i \<and> bst_stuff_lvl_reached r \<and> \<not> bst_fixed_stuff i then bst_ctr_q r + 1
              else bst_ctr_q r
         else bst_ctr_q r),
      bst_same_bits_q = (if stuff_enable i then bst_same_bits_d i r else 1),
      data_out_i = (if stuff_enable i \<or> bst_trigger i then data_out_d i r else data_out_i r),
      data_halt_q = data_halt_d i r\<rparr>"

section \<open>Bit destuffing\<close>

record bds_in =
  bds_data_in :: bool
  bds_trigger :: bool
  destuff_enable :: bool
  bds_fixed_stuff :: bool

record bds_regs =
  bds_enable_prev :: bool
  fixed_prev_q :: bool
  dst_ctr_q :: "3 word"
  bds_same_bits_q :: "3 word"
  destuffed_q :: bool
  stuff_err_q :: bool
  prev_val_q :: bool
  bds_data_out :: bool

definition bds_reset :: bds_regs where
  "bds_reset = \<lparr>bds_enable_prev = False, fixed_prev_q = False, dst_ctr_q = 0, bds_same_bits_q = 1,
     destuffed_q = False, stuff_err_q = False, prev_val_q = RECESSIVE, bds_data_out = RECESSIVE\<rparr>"

definition bds_non_fix_to_fix_chng :: "bds_in \<Rightarrow> bds_regs \<Rightarrow> bool" where
  "bds_non_fix_to_fix_chng i r \<longleftrightarrow> bds_fixed_stuff i \<and> \<not> fixed_prev_q r"

definition bds_stuff_lvl_reached :: "bds_regs \<Rightarrow> bool" where
  "bds_stuff_lvl_reached r \<longleftrightarrow> bds_same_bits_q r = 0b101"

definition discard_stuff_bit :: "bds_in \<Rightarrow> bds_regs \<Rightarrow> bool" where
  "discard_stuff_bit i r \<longleftrightarrow> bds_non_fix_to_fix_chng i r \<or> bds_stuff_lvl_reached r"

definition stuff_rule_violate :: "bds_in \<Rightarrow> bds_regs \<Rightarrow> bool" where
  "stuff_rule_violate i r \<longleftrightarrow> discard_stuff_bit i r \<and> prev_val_q r = bds_data_in i \<and> destuff_enable i"

definition same_bits_erase :: "bds_in \<Rightarrow> bds_regs \<Rightarrow> bool" where
  "same_bits_erase i r \<longleftrightarrow> \<not> destuff_enable i \<or> \<not> bds_enable_prev r \<or>
     bds_trigger i \<and> discard_stuff_bit i r \<or>
     bds_trigger i \<and> bds_data_in i \<noteq> prev_val_q r \<and> \<not> bds_fixed_stuff i"

definition bds_cycle :: "bds_in \<Rightarrow> bds_regs \<Rightarrow> bds_regs" where
  "bds_cycle i r =
     \<lparr>bds_enable_prev = destuff_enable i,
      fixed_prev_q =
        (if destuff_enable i
         then if \<not> bds_enable_prev r then False else if bds_trigger i then bds_fixed_stuff i else fixed_prev_q r
         else fixed_prev_q r),
      dst_ctr_q =
        (if destuff_enable i
         then if \<not> bds_enable_prev r then 0
              else if bds_trigger i \<and> bds_stuff_lvl_reached r \<and> \<not> bds_fixed_stuff i then dst_ctr_q r + 1
              else dst_ctr_q r
         else dst_ctr_q r),
      bds_same_bits_q =
        (if same_bits_erase i r then 1 else if bds_trigger i then bds_same_bits_q r + 1 else bds_same_bits_q r),
      destuffed_q =
        (if \<not> destuff_enable i then False
         else if bds_trigger i \<and> discard_stuff_bit i r then True
         else if bds_trigger i then False
         else destuffed_q r),
      stuff_err_q = (bds_trigger i \<and> stuff_rule_violate i r),
      prev_val_q =
        (if bds_trigger i \<and> bds_non_fix_to_fix_chng i r then RECESSIVE
         else if bds_trigger i then bds_data_in i else prev_val_q r),
      bds_data_out = (if bds_trigger i then bds_data_in i else bds_data_out r)\<rparr>"

section \<open>Triggers of the pipeline\<close>

text \<open>
  The protocol control of a transmitter does not see the trigger of a stuff bit it sends, that of a receiver
  not the trigger of a stuff bit it has discarded.
\<close>

definition pc_tx_trigger :: "bool \<Rightarrow> bool \<Rightarrow> bool" where
  "pc_tx_trigger tx_trigger halt \<longleftrightarrow> tx_trigger \<and> \<not> halt"

definition pc_rx_trigger :: "bool \<Rightarrow> bool \<Rightarrow> bool" where
  "pc_rx_trigger rx_trigger destuffed \<longleftrightarrow> rx_trigger \<and> \<not> destuffed"

section \<open>A frame on the wire\<close>

text \<open>
  A bit time is the cycle with the trigger and \<open>k\<close> cycles without. Stuffing is switched on after a bit that
  is sent as it is. The stuffing method of a bit is a function \<open>fl\<close> of the bits of the frame before it,
  for transmitter and receiver alike.
\<close>

definition bst_inp :: "bool \<Rightarrow> bool \<Rightarrow> bool \<Rightarrow> bool \<Rightarrow> bst_in" where
  "bst_inp d tr en fx = \<lparr>bst_data_in = d, bst_trigger = tr, stuff_enable = en, bst_fixed_stuff = fx,
     tx_frame_no_sof = False\<rparr>"

definition bds_inp :: "bool \<Rightarrow> bool \<Rightarrow> bool \<Rightarrow> bool \<Rightarrow> bds_in" where
  "bds_inp d tr en fx = \<lparr>bds_data_in = d, bds_trigger = tr, destuff_enable = en, bds_fixed_stuff = fx\<rparr>"

definition bst_bit :: "nat \<Rightarrow> bool \<Rightarrow> bool \<Rightarrow> bst_regs \<Rightarrow> bst_regs" where
  "bst_bit k d fx r = (bst_cycle (bst_inp d False True fx) ^^ k) (bst_cycle (bst_inp d True True fx) r)"

definition bst_start :: "bool \<Rightarrow> bst_regs \<Rightarrow> bst_regs" where
  "bst_start d r = bst_cycle (bst_inp d False True False) (bst_cycle (bst_inp d True False False) r)"

definition bds_bit :: "nat \<Rightarrow> bool \<Rightarrow> bool \<Rightarrow> bds_regs \<Rightarrow> bds_regs" where
  "bds_bit k d fx r = bds_cycle (bds_inp d True True fx) ((bds_cycle (bds_inp d False True fx) ^^ k) r)"

definition bds_start :: "bool \<Rightarrow> bds_regs \<Rightarrow> bds_regs" where
  "bds_start d r = bds_cycle (bds_inp d False True False) (bds_cycle (bds_inp d True False False) r)"

lemmas bst_cycle_defs = bst_cycle_def bst_inp_def data_out_d_def data_halt_d_def insert_stuff_bit_def
  bst_non_fix_to_fix_chng_def bst_stuff_lvl_reached_def bst_same_bits_d_def same_bits_rst_def

lemmas bds_cycle_defs = bds_cycle_def bds_inp_def discard_stuff_bit_def bds_non_fix_to_fix_chng_def
  bds_stuff_lvl_reached_def stuff_rule_violate_def same_bits_erase_def

lemma data_halt_eq [simp]: "data_halt i r = data_halt_d i r"
  by (simp add: data_halt_def)

lemma bst_inp_simps [simp]:
  "bst_data_in (bst_inp d tr en fx) = d" "bst_trigger (bst_inp d tr en fx) = tr"
  "stuff_enable (bst_inp d tr en fx) = en" "bst_fixed_stuff (bst_inp d tr en fx) = fx"
  by (simp_all add: bst_inp_def)

lemma bst_idle: "bst_enable_prev r \<Longrightarrow> bst_cycle (bst_inp d False True fx) r = r"
  by (simp add: bst_cycle_defs)

lemma bst_idles: "bst_enable_prev r \<Longrightarrow> (bst_cycle (bst_inp d False True fx) ^^ k) r = r"
  by (induction k) (simp_all add: bst_idle)

lemma bst_bit_eq: "bst_bit k d fx r = bst_cycle (bst_inp d True True fx) r"
  unfolding bst_bit_def by (rule bst_idles) (simp add: bst_cycle_def)

lemma bds_idle: "bds_enable_prev r \<Longrightarrow> bds_cycle (bds_inp d False True fx) r = r\<lparr>stuff_err_q := False\<rparr>"
  by (simp add: bds_cycle_defs)

lemma bds_idles:
  "bds_enable_prev r \<Longrightarrow>
     (bds_cycle (bds_inp d False True fx) ^^ k) r = (if k = 0 then r else r\<lparr>stuff_err_q := False\<rparr>)"
  by (induction k) (simp_all add: bds_idle)

lemma bds_clear_err: "bds_cycle i (r\<lparr>stuff_err_q := False\<rparr>) = bds_cycle i r"
  by (simp add: bds_cycle_defs)

lemma bds_bit_eq:
  "bds_enable_prev r \<Longrightarrow> bds_bit k d fx r = bds_cycle (bds_inp d True True fx) r"
  by (simp add: bds_bit_def bds_idles bds_clear_err)

text \<open>
  A transmitter that has just inserted a stuff bit does not insert another one: it gets on with its frame.
\<close>

lemma halt_then_data:
  "data_halt_d (bst_inp d True True fx) r \<Longrightarrow> \<not> insert_stuff_bit (bst_inp d True True fx) (bst_bit k d fx r)"
  unfolding bst_bit_eq by (auto simp: bst_cycle_defs split: if_splits)

lemma halt_insert: "data_halt_d (bst_inp d True True fx) r \<Longrightarrow> insert_stuff_bit (bst_inp d True True fx) r"
  by (auto simp: data_halt_d_def split: if_splits)

definition send_measure :: "(bool list \<Rightarrow> bool) \<Rightarrow> bool list \<Rightarrow> bool list \<Rightarrow> bst_regs \<Rightarrow> nat" where
  "send_measure fl hs xs r =
     (case xs of [] \<Rightarrow> 0
      | x # _ \<Rightarrow> 2 * length xs + (if insert_stuff_bit (bst_inp x True True (fl hs)) r then 1 else 0))"

function bst_send ::
  "nat \<Rightarrow> (bool list \<Rightarrow> bool) \<Rightarrow> bool list \<Rightarrow> bool list \<Rightarrow> bst_regs \<Rightarrow> bool list \<times> bst_regs"
where
  "bst_send k fl hs [] r = ([], r)"
| "bst_send k fl hs (x # xs) r =
     (let fx = fl hs;
          halt = data_halt (bst_inp x True True fx) r;
          r' = bst_bit k x fx r;
          (ws, rf) = (if pc_tx_trigger True halt then bst_send k fl (hs @ [x]) xs r'
                      else bst_send k fl hs (x # xs) r')
      in (data_out_i r' # ws, rf))"
  by pat_completeness auto
termination
  by (relation "measure (\<lambda>(k, fl, hs, xs, r). send_measure fl hs xs r)")
    (auto simp: send_measure_def pc_tx_trigger_def halt_then_data halt_insert split: list.split)

fun bds_recv ::
  "nat \<Rightarrow> (bool list \<Rightarrow> bool) \<Rightarrow> bool list \<Rightarrow> bool list \<Rightarrow> bds_regs \<Rightarrow> bool list \<times> bool \<times> bds_regs"
where
  "bds_recv k fl hs [] r = (hs, False, r)"
| "bds_recv k fl hs (w # ws) r =
     (let r' = bds_bit k w (fl hs) r
      in if stuff_err_q r' then (hs, True, r')
         else if pc_rx_trigger True (destuffed_q r') then bds_recv k fl (hs @ [bds_data_out r']) ws r'
         else bds_recv k fl hs ws r')"

declare bst_send.simps(2) [simp del]
declare bds_recv.simps(2) [simp del]

section \<open>Destuffing undoes stuffing\<close>

text \<open>
  The registers of transmitter and receiver agree between two bits. The receiver's last bit is the one on
  the wire, but for the stuff bit at the change to fixed stuffing, after which it is recessive.
\<close>

definition link_inv :: "bool \<Rightarrow> bst_regs \<Rightarrow> bds_regs \<Rightarrow> bool" where
  "link_inv fx t r \<longleftrightarrow> bst_enable_prev t \<and> bds_enable_prev r \<and> fixed_prev_q r = fixed_reg_q t \<and>
     dst_ctr_q r = bst_ctr_q t \<and> bds_same_bits_q r = bst_same_bits_q t \<and>
     (prev_val_q r = data_out_i t \<or> fixed_reg_q t \<and> fx \<and> bst_same_bits_q t = 1)"

lemma link_start: "link_inv fx (bst_start b t) (bds_start b r)"
  by (simp add: link_inv_def bst_start_def bds_start_def bst_cycle_defs bds_cycle_defs)

lemma link_stuff_bit:
  fixes k k' :: nat
  assumes "link_inv fx t r" "data_halt_d (bst_inp x True True fx) t"
  defines "t' \<equiv> bst_bit k x fx t"
  defines "r' \<equiv> bds_bit k' (data_out_i t') fx r"
  shows "link_inv fx t' r'" "destuffed_q r'" "\<not> stuff_err_q r'"
  using assms(1,2) unfolding t'_def r'_def
  by (auto simp: link_inv_def bst_bit_eq bds_bit_eq bst_cycle_defs bds_cycle_defs split: if_splits)

lemma link_data_bit:
  fixes k k' :: nat
  assumes "link_inv fx t r" "\<not> data_halt_d (bst_inp x True True fx) t"
  defines "t' \<equiv> bst_bit k x fx t"
  defines "r' \<equiv> bds_bit k' (data_out_i t') fx r"
  shows "link_inv fx' t' r'" "\<not> destuffed_q r'" "\<not> stuff_err_q r'" "bds_data_out r' = x"
  using assms(1,2) unfolding t'_def r'_def
  by (auto simp: link_inv_def bst_bit_eq bds_bit_eq bst_cycle_defs bds_cycle_defs split: if_splits)

lemma link_frame:
  assumes "link_inv (fl hs) t r"
  shows "\<exists>ws t' r'. bst_send k fl hs xs t = (ws, t') \<and> bds_recv k' fl hs ws r = (hs @ xs, False, r') \<and>
    bst_ctr_q t' = dst_ctr_q r'"
  using assms
proof (induction k fl hs xs t arbitrary: r rule: bst_send.induct)
  case (1 k fl hs t)
  then show ?case by (simp add: link_inv_def)
next
  case (2 k fl hs x xs t)
  let ?i = "bst_inp x True True (fl hs)" and ?t = "bst_bit k x (fl hs) t"
  let ?r = "bds_bit k' (data_out_i ?t) (fl hs) r"
  show ?case
  proof (cases "data_halt_d ?i t")
    case True
    note l = link_stuff_bit [OF "2.prems" True, where k = k and k' = k']
    obtain ws t' r' where "bst_send k fl hs (x # xs) ?t = (ws, t')"
      "bds_recv k' fl hs ws ?r = (hs @ x # xs, False, r')" "bst_ctr_q t' = dst_ctr_q r'"
      using "2.IH"(2) [OF refl refl refl _ l(1)] True by (auto simp: pc_tx_trigger_def)
    then show ?thesis
      using l True
      by (simp add: bst_send.simps(2) [of k fl hs x xs t] bds_recv.simps(2) pc_tx_trigger_def
        pc_rx_trigger_def Let_def)
  next
    case False
    note l = link_data_bit [OF "2.prems" False, where k = k and k' = k']
    obtain ws t' r' where "bst_send k fl (hs @ [x]) xs ?t = (ws, t')"
      "bds_recv k' fl (hs @ [x]) ws ?r = (hs @ x # xs, False, r')" "bst_ctr_q t' = dst_ctr_q r'"
      using "2.IH"(1) [OF refl refl refl _ l(1) [of "fl (hs @ [x])"]] False by (auto simp: pc_tx_trigger_def)
    then show ?thesis
      using l False
      by (simp add: bst_send.simps(2) [of k fl hs x xs t] bds_recv.simps(2) pc_tx_trigger_def
        pc_rx_trigger_def Let_def)
  qed
qed

section \<open>Six equal bits\<close>

lemma bds_bit_enabled [simp]: "bds_enable_prev (bds_bit k d fx r)"
  by (simp add: bds_bit_def bds_cycle_defs)

text \<open>The counter of equal bits stays between one and five in every cycle.\<close>

lemma bds_cycle_count:
  assumes "bds_same_bits_q r \<in> {1, 2, 3, 4, 5}"
  shows "bds_same_bits_q (bds_cycle i r) \<in> {1, 2, 3, 4, 5}"
  using assms by (auto simp: bds_cycle_defs)

text \<open>Without fixed stuffing a bit equal to the last one counts up, at five it is an error.\<close>

lemma bds_same:
  assumes "bds_enable_prev r" "prev_val_q r = b"
  shows "bds_same_bits_q r = 5 \<Longrightarrow> stuff_err_q (bds_bit k b False r)"
    and "bds_same_bits_q r \<noteq> 5 \<Longrightarrow> bds_same_bits_q (bds_bit k b False r) = bds_same_bits_q r + 1"
    and "prev_val_q (bds_bit k b False r) = b"
  using assms by (simp_all add: bds_bit_eq bds_cycle_defs)

lemma bds_differs:
  assumes "bds_enable_prev r" "prev_val_q r \<noteq> b"
  shows "bds_same_bits_q (bds_bit k b False r) = 1" "prev_val_q (bds_bit k b False r) = b"
  using assms by (auto simp: bds_bit_eq bds_cycle_defs)

text \<open>Whether an error is seen does not depend on the bits before when the method is fixed.\<close>

lemma recv_err_hist:
  "fst (snd (bds_recv k (\<lambda>_. False) hs ws r)) = fst (snd (bds_recv k (\<lambda>_. False) hs' ws r))"
  by (induction ws arbitrary: hs hs' r) (auto simp: bds_recv.simps(2) Let_def)

lemma recv_err_Cons:
  "fst (snd (bds_recv k (\<lambda>_. False) hs (w # ws) r)) \<longleftrightarrow>
     stuff_err_q (bds_bit k w False r) \<or>
     fst (snd (bds_recv k (\<lambda>_. False) hs ws (bds_bit k w False r)))"
  by (auto simp: bds_recv.simps(2) Let_def intro: iffD1 [OF recv_err_hist])

lemma recv_run:
  assumes "bds_enable_prev r" "prev_val_q r = b" "bds_same_bits_q r = of_nat c" "c \<le> 5" "5 < c + n"
  shows "fst (snd (bds_recv k (\<lambda>_. False) hs (replicate n b @ ws) r))"
  using assms
proof (induction n arbitrary: c r)
  case (Suc n)
  note same = bds_same [OF Suc.prems(1,2), of k]
  show ?case
  proof (cases "c = 5")
    case True
    then show ?thesis using same(1) Suc.prems(3) by (simp add: recv_err_Cons)
  next
    case False
    then have c: "c < 5" using Suc.prems(4) by simp
    then have "c = 0 \<or> c = 1 \<or> c = 2 \<or> c = 3 \<or> c = 4" by arith
    then have "bds_same_bits_q r \<noteq> 5"
      using Suc.prems(3) by (elim disjE) simp_all
    then have "bds_same_bits_q (bds_bit k b False r) = of_nat (Suc c)"
      using same(2) Suc.prems(3) by (simp add: add.commute)
    then have "fst (snd (bds_recv k (\<lambda>_. False) hs (replicate n b @ ws) (bds_bit k b False r)))"
      using Suc.IH [of "bds_bit k b False r" "Suc c"] same(3) c Suc.prems(5) by simp
    then show ?thesis by (simp add: recv_err_Cons)
  qed
qed simp

lemma recv_six:
  assumes "bds_enable_prev r" "bds_same_bits_q r \<in> {1, 2, 3, 4, 5}"
  shows "fst (snd (bds_recv k (\<lambda>_. False) hs (replicate 6 b @ ws) r))"
proof (cases "prev_val_q r = b")
  case True
  obtain c where "bds_same_bits_q r = of_nat c" "c \<le> 5" "1 \<le> c"
    using assms(2) that [of 1] that [of 2] that [of 3] that [of 4] that [of 5] by auto
  then show ?thesis using recv_run [OF assms(1) True, of c 6] by simp
next
  case False
  note d = bds_differs [OF assms(1) False, of k]
  have "fst (snd (bds_recv k (\<lambda>_. False) hs (replicate 5 b @ ws) (bds_bit k b False r)))"
    using recv_run [OF bds_bit_enabled d(2), of 1 5] d(1) by simp
  then show ?thesis by (simp add: recv_err_Cons eval_nat_numeral)
qed

lemma recv_six_anywhere:
  assumes "bds_enable_prev r" "bds_same_bits_q r \<in> {1, 2, 3, 4, 5}"
  shows "fst (snd (bds_recv k (\<lambda>_. False) hs (vs @ replicate 6 b @ ws) r))"
  using assms
proof (induction vs arbitrary: r)
  case (Cons v vs)
  have "bds_same_bits_q (bds_bit k v False r) \<in> {1, 2, 3, 4, 5}"
    unfolding bds_bit_eq [OF Cons.prems(1)] by (rule bds_cycle_count [OF Cons.prems(2)])
  then show ?case using Cons.IH [OF bds_bit_enabled] by (simp add: recv_err_Cons)
qed (simp add: recv_six)

section \<open>The cost of stuffing\<close>

lemma bst_bit_enabled [simp]: "bst_enable_prev (bst_bit k d fx r)"
  by (simp add: bst_bit_eq bst_cycle_defs)

lemma bst_stuff_count:
  assumes "bst_enable_prev t" "data_halt_d (bst_inp x True True False) t"
  shows "bst_same_bits_q t = 5" "bst_same_bits_q (bst_bit k x False t) = 1"
  using assms by (auto simp: bst_bit_eq bst_cycle_defs split: if_splits)

lemma bst_data_count:
  assumes "bst_enable_prev t" "\<not> data_halt_d (bst_inp x True True False) t"
  shows "bst_same_bits_q t \<noteq> 5"
    "bst_same_bits_q (bst_bit k x False t) = 1 \<or>
     bst_same_bits_q (bst_bit k x False t) = bst_same_bits_q t + 1"
  using assms by (auto simp: bst_bit_eq bst_cycle_defs split: if_splits)

lemma count_next:
  fixes w :: "3 word"
  assumes "1 \<le> c" "c \<le> 5" "unat w = c" "w \<noteq> 5"
  shows "c < 5" "unat (w + 1) = Suc c"
proof -
  have "w = of_nat c" using assms(3) by auto
  moreover have "c = 1 \<or> c = 2 \<or> c = 3 \<or> c = 4 \<or> c = 5" using assms(1,2) by arith
  ultimately show "c < 5" "unat (w + 1) = Suc c" using assms(4) by auto
qed

lemma send_length:
  assumes "\<And>hs. \<not> fl hs" "bst_enable_prev t" "unat (bst_same_bits_q t) = c" "1 \<le> c" "c \<le> 5"
  shows "4 * length (fst (bst_send k fl hs xs t)) \<le> 5 * length xs + (c - 1)"
  using assms
proof (induction k fl hs xs t arbitrary: c rule: bst_send.induct)
  case (2 k fl hs x xs t)
  note fl = "2.prems"(1)
  show ?case
  proof (cases "data_halt_d (bst_inp x True True False) t")
    case True
    note h = bst_stuff_count [OF "2.prems"(2) True]
    have "4 * length (fst (bst_send k fl hs (x # xs) (bst_bit k x (fl hs) t))) \<le> 5 * length (x # xs) + (1 - 1)"
      by (rule "2.IH"(2) [OF refl refl refl _ fl]) (use True fl h in \<open>simp_all add: pc_tx_trigger_def\<close>)
    moreover have "c = 5" using h(1) "2.prems"(3) by simp
    ultimately show ?thesis
      using True fl [of hs]
      by (simp add: bst_send.simps(2) [of k fl hs x xs t] pc_tx_trigger_def Let_def case_prod_beta)
  next
    case False
    note d = bst_data_count [OF "2.prems"(2) False]
    note n = count_next [OF "2.prems"(4,5,3) d(1)]
    obtain c' where c': "unat (bst_same_bits_q (bst_bit k x (fl hs) t)) = c'" "1 \<le> c'" "c' \<le> c + 1" "c' \<le> 5"
      using d(2) [of k] n fl "2.prems"(4) by fastforce
    have "4 * length (fst (bst_send k fl (hs @ [x]) xs (bst_bit k x (fl hs) t))) \<le> 5 * length xs + (c' - 1)"
      by (rule "2.IH"(1) [OF refl refl refl _ fl]) (use False fl c' in \<open>simp_all add: pc_tx_trigger_def\<close>)
    then show ?thesis
      using False fl [of hs] c' "2.prems"(4)
      by (simp add: bst_send.simps(2) [of k fl hs x xs t] pc_tx_trigger_def Let_def case_prod_beta)
  qed
qed simp

lemma bst_start_regs: "bst_enable_prev (bst_start b t)" "bst_same_bits_q (bst_start b t) = 1"
  by (simp_all add: bst_start_def bst_cycle_defs)

lemma bds_start_regs: "bds_enable_prev (bds_start b r)" "bds_same_bits_q (bds_start b r) = 1"
  by (simp_all add: bds_start_def bds_cycle_defs)

text \<open>C8: Whatever the registers held before, whatever the data, the rule \<open>fl\<close> that switches between normal
  and fixed stuffing and the length of the bit times on both sides: the destuffed bits are the bits sent, no stuff
  error is raised, and the counts of stuff bits, which an ISO CAN FD frame carries, agree.
\<close>

theorem stuffing_roundtrip:
  "\<exists>ws t' r'. bst_send k fl [] xs (bst_start b t) = (ws, t') \<and>
     bds_recv k' fl [] ws (bds_start b r) = (xs, False, r') \<and> bst_ctr_q t' = dst_ctr_q r'"
  using link_frame [where hs = "[]" and xs = xs and k = k and k' = k', OF link_start] by simp

text \<open>C23: With normal stuffing a receiver raises a stuff error for any six equal bits in a row, wherever they
  stand; no transmitter sends such a row, and at most one stuff bit in four bits of data.
\<close>

theorem six_equal_bits:
  "fst (snd (bds_recv k (\<lambda>_. False) [] (vs @ replicate 6 c @ us) (bds_start b r))) \<and>
   fst (bst_send k (\<lambda>_. False) [] xs (bst_start b t)) \<noteq> vs @ replicate 6 c @ us \<and>
   4 * length (fst (bst_send k (\<lambda>_. False) [] xs (bst_start b t))) \<le> 5 * length xs"
proof -
  have six: "fst (snd (bds_recv k (\<lambda>_. False) [] (vs @ replicate 6 c @ us) (bds_start b r)))"
    by (rule recv_six_anywhere) (simp_all add: bds_start_regs)
  moreover have "fst (bst_send k (\<lambda>_. False) [] xs (bst_start b t)) \<noteq> vs @ replicate 6 c @ us"
    using six link_frame [where hs = "[]" and xs = xs and k = k and k' = k and fl = "\<lambda>_. False",
      OF link_start [of _ b t r]] by auto
  moreover have "4 * length (fst (bst_send k (\<lambda>_. False) [] xs (bst_start b t))) \<le> 5 * length xs"
    using send_length [where fl = "\<lambda>_. False" and t = "bst_start b t" and c = 1 and hs = "[]" and k = k and xs = xs]
    by (simp add: bst_start_regs)
  ultimately show ?thesis by blast
qed

end
