(* ===== verification/Ctu_Crc.thy ===== *)
theory Ctu_Crc
  imports Ctu_Stuff
begin

text \<open>
  The CRC of a frame: the shift register \<open>crc_calc\<close>, the three registers \<open>can_crc\<close> keeps side by side, the
  field of the stuff count, and the comparison a receiver makes at the end of the frame (\<open>err_detector\<close>).

  The interface between the register and its users is the locale \<open>crc_poly\<close>: a polynomial whose lowest
  coefficient is one. The three polynomials of the core are its instances.
\<close>

unbundle bit_operations_syntax

section \<open>The register\<close>

record crc_in =
  crc_data_in :: bool
  crc_trig :: bool
  crc_enable_in :: bool
  init_vect_msb :: bool
  crc_load_init :: bool

definition crc_nxt :: "bool \<Rightarrow> 'a::len word \<Rightarrow> bool" where
  "crc_nxt d q \<longleftrightarrow> d \<noteq> bit q (LENGTH('a) - 1)"

definition crc_shift :: "'a::len word \<Rightarrow> bool \<Rightarrow> 'a word \<Rightarrow> 'a word" where
  "crc_shift pol d q = (if crc_nxt d q then push_bit 1 q XOR pol else push_bit 1 q)"

definition crc_d :: "'a::len word \<Rightarrow> crc_in \<Rightarrow> 'a word \<Rightarrow> 'a word" where
  "crc_d pol i q =
     (if crc_load_init i then (if init_vect_msb i then set_bit (LENGTH('a) - 1) 0 else 0)
      else crc_shift pol (crc_data_in i) q)"

definition crc_ce :: "crc_in \<Rightarrow> bool" where
  "crc_ce i \<longleftrightarrow> crc_load_init i \<or> crc_enable_in i \<and> crc_trig i"

definition crc_calc :: "'a::len word \<Rightarrow> crc_in \<Rightarrow> 'a word \<Rightarrow> 'a word" where
  "crc_calc pol i q = (if crc_ce i then crc_d pol i q else q)"

section \<open>The three registers\<close>

definition CRC15_POL :: "15 word" where "CRC15_POL = ucast (0xC599 :: 16 word)"
definition CRC17_POL :: "17 word" where "CRC17_POL = ucast (0x3685B :: 20 word)"
definition CRC21_POL :: "21 word" where "CRC21_POL = ucast (0x302899 :: 24 word)"

record can_crc_in =
  crc_nisofd :: bool
  data_tx_wbs :: bool
  data_tx_nbs :: bool
  data_rx_wbs :: bool
  data_rx_nbs :: bool
  trig_tx_wbs :: bool
  trig_tx_nbs :: bool
  trig_rx_wbs :: bool
  trig_rx_nbs :: bool
  crc_enable :: bool
  crc_spec_enable :: bool
  crc_calc_from_rx :: bool
  load_init_vect :: bool

record can_crc_regs =
  crc_15 :: "15 word"
  crc_17 :: "17 word"
  crc_21 :: "21 word"

definition crc_17_21_in :: "can_crc_in \<Rightarrow> crc_in" where
  "crc_17_21_in i =
     (let d = (if crc_calc_from_rx i then data_rx_wbs i else data_tx_wbs i) in
      \<lparr>crc_data_in = d,
       crc_trig = (if crc_calc_from_rx i then trig_rx_wbs i else trig_tx_wbs i),
       crc_enable_in = (crc_enable i \<or> crc_spec_enable i \<and> d = DOMINANT),
       init_vect_msb = (\<not> crc_nisofd i),
       crc_load_init = load_init_vect i\<rparr>)"

definition crc_15_in :: "can_crc_in \<Rightarrow> crc_in" where
  "crc_15_in i =
     (let d = (if crc_calc_from_rx i then data_rx_nbs i else data_tx_nbs i) in
      \<lparr>crc_data_in = d,
       crc_trig = (if crc_calc_from_rx i then trig_rx_nbs i else trig_tx_nbs i),
       crc_enable_in = (crc_enable i \<or> crc_spec_enable i \<and> d = DOMINANT),
       init_vect_msb = False,
       crc_load_init = load_init_vect i\<rparr>)"

definition can_crc :: "can_crc_in \<Rightarrow> can_crc_regs \<Rightarrow> can_crc_regs" where
  "can_crc i r =
     \<lparr>crc_15 = crc_calc CRC15_POL (crc_15_in i) (crc_15 r),
      crc_17 = crc_calc CRC17_POL (crc_17_21_in i) (crc_17 r),
      crc_21 = crc_calc CRC21_POL (crc_17_21_in i) (crc_21 r)\<rparr>"

section \<open>Stuff count and comparison\<close>

definition ctr_grey :: "3 word \<Rightarrow> 3 word" where
  "ctr_grey c =
     (if c = 0b001 then 0b001 else if c = 0b010 then 0b011 else if c = 0b011 then 0b010
      else if c = 0b100 then 0b110 else if c = 0b101 then 0b111 else if c = 0b110 then 0b101
      else if c = 0b111 then 0b100 else 0b000)"

definition stuff_count :: "3 word \<Rightarrow> bool list" where
  "stuff_count c = (let g = ctr_grey c in
     [bit g 2, bit g 1, bit g 0, (bit g 0 \<noteq> bit g 1) \<noteq> bit g 2])"

datatype crc_src = C_CRC15_SRC | C_CRC17_SRC | C_CRC21_SRC

definition stuff_count_check :: "bool \<Rightarrow> crc_src \<Rightarrow> bool" where
  "stuff_count_check nisofd src \<longleftrightarrow> \<not> nisofd \<and> (src = C_CRC17_SRC \<or> src = C_CRC21_SRC)"

definition crc_match_c :: "bool \<Rightarrow> crc_src \<Rightarrow> bool list \<Rightarrow> 3 word \<Rightarrow> 21 word \<Rightarrow> can_crc_regs \<Rightarrow> bool" where
  "crc_match_c nisofd src rx_stuff_count dst_ctr rx_crc r \<longleftrightarrow>
     \<not> (ucast rx_crc \<noteq> crc_15 r \<and> src = C_CRC15_SRC \<or>
        ucast rx_crc \<noteq> crc_17 r \<and> src = C_CRC17_SRC \<or>
        rx_crc \<noteq> crc_21 r \<and> src = C_CRC21_SRC \<or>
        rx_stuff_count \<noteq> stuff_count dst_ctr \<and> stuff_count_check nisofd src)"

section \<open>What a CRC register detects\<close>

text \<open>The bits of a word as they are sent, the highest first.\<close>

definition crc_bits :: "'a::len word \<Rightarrow> bool list" where
  "crc_bits q = map (\<lambda>i. bit q (LENGTH('a) - 1 - i)) [0..<LENGTH('a)]"

definition crc_run :: "'a::len word \<Rightarrow> bool list \<Rightarrow> 'a word \<Rightarrow> 'a word" where
  "crc_run pol xs q = fold (crc_shift pol) xs q"

lemma crc_run_Nil [simp]: "crc_run pol [] q = q"
  and crc_run_Cons [simp]: "crc_run pol (x # xs) q = crc_run pol xs (crc_shift pol x q)"
  and crc_run_append [simp]: "crc_run pol (xs @ ys) q = crc_run pol ys (crc_run pol xs q)"
  by (simp_all add: crc_run_def)

text \<open>The register is linear in its content and its input.\<close>

lemma crc_shift_xor:
  "crc_shift pol a p XOR crc_shift pol b q = crc_shift pol (a \<noteq> b) (p XOR q)"
  by (auto simp: crc_shift_def crc_nxt_def bit_xor_iff push_bit_xor ac_simps intro!: bit_word_eqI)

lemma crc_run_xor:
  "length xs = length ys \<Longrightarrow>
     crc_run pol xs p XOR crc_run pol ys q = crc_run pol (map2 (\<noteq>) xs ys) (p XOR q)"
  by (induction xs ys arbitrary: p q rule: list_induct2) (simp_all add: crc_shift_xor)

lemma crc_shift_zero [simp]: "crc_shift pol False 0 = 0"
  by (simp add: crc_shift_def crc_nxt_def)

lemma crc_bits_eq_iff: "crc_bits p = crc_bits q \<longleftrightarrow> p = (q :: 'a::len word)"
proof
  assume eq: "crc_bits p = crc_bits q"
  show "p = q"
  proof (rule bit_word_eqI)
    fix n assume n: "n < LENGTH('a)"
    have "crc_bits p ! (LENGTH('a) - 1 - n) = crc_bits q ! (LENGTH('a) - 1 - n)" by (simp only: eq)
    then show "bit p n \<longleftrightarrow> bit q n" using n by (simp add: crc_bits_def)
  qed
qed simp

lemma length_crc_bits [simp]: "length (crc_bits (q :: 'a::len word)) = LENGTH('a)"
  by (simp add: crc_bits_def)

text \<open>A register fed with its own content is empty.\<close>

lemma crc_run_own_from:
  fixes q :: "'a::len word"
  assumes "k \<le> LENGTH('a)"
  shows "crc_run pol (map (\<lambda>i. bit q (LENGTH('a) - 1 - i)) [k..<LENGTH('a)]) (push_bit k q) = 0"
  using assms
proof (induction "LENGTH('a) - k" arbitrary: k)
  case 0
  then show ?case by (auto intro: bit_word_eqI simp: bit_push_bit_iff)
next
  case (Suc m)
  then have k: "k < LENGTH('a)" by simp
  have "bit (push_bit k q) (LENGTH('a) - 1) = bit q (LENGTH('a) - 1 - k)"
    using k by (simp add: bit_push_bit_iff)
  then have "crc_shift pol (bit q (LENGTH('a) - 1 - k)) (push_bit k q) = push_bit (Suc k) q"
    by (simp add: crc_shift_def crc_nxt_def push_bit_push_bit)
  then show ?case
    using Suc.hyps(1) [of "Suc k"] Suc.hyps(2) k by (simp add: upt_conv_Cons)
qed

lemma crc_run_own: "crc_run pol (crc_bits q) q = 0"
  using crc_run_own_from [of 0 pol q] by (simp add: crc_bits_def)

lemma bit_crc_shift:
  "bit (crc_shift pol a d) n \<longleftrightarrow>
     n < LENGTH('a) \<and> ((1 \<le> n \<and> bit d (n - 1)) \<noteq> (crc_nxt a d \<and> bit pol n))"
  for d :: "'a::len word"
  unfolding crc_shift_def
  by (cases "crc_nxt a d") (auto simp only: if_True if_False bit_xor_iff bit_push_bit_iff possible_bit_word dest: bit_imp_le_length)

locale crc_poly =
  fixes pol :: "'a::len word"
  assumes pol_odd: "bit pol 0"
begin

lemma shift_low_zero:
  assumes "\<And>n. n < Suc m \<Longrightarrow> \<not> bit (crc_shift pol a d) n" "m < LENGTH('a)" "n < m"
  shows "\<not> bit d n"
proof -
  have "\<not> crc_nxt a d"
    using assms(1) [of 0] pol_odd by (simp add: bit_crc_shift)
  then show ?thesis
    using assms(1) [of "Suc n"] assms(2,3) by (simp add: bit_crc_shift)
qed

text \<open>If the register ends empty, its lower bits were empty some steps before.\<close>

lemma run_low_zero:
  assumes "crc_run pol e d = 0" "n + length e < LENGTH('a)"
  shows "\<not> bit d n"
  using assms
proof (induction e arbitrary: d n)
  case (Cons a e)
  have "\<not> bit (crc_shift pol a d) k" if "k < Suc (LENGTH('a) - Suc (length e))" for k
    using Cons.IH [of "crc_shift pol a d" k] Cons.prems that by simp
  then show ?case
    using shift_low_zero [of "LENGTH('a) - Suc (length e)" a d n] Cons.prems(2) by simp
qed simp

lemma run_zero_burst:
  assumes "crc_run pol e 0 = 0" "length e \<le> LENGTH('a)"
  shows "True \<notin> set e"
  using assms
proof (induction e)
  case (Cons a e)
  show ?case
  proof (cases a)
    case True
    have "crc_shift pol True 0 = pol" by (simp add: crc_shift_def crc_nxt_def)
    then show ?thesis
      using run_low_zero [of e pol 0] pol_odd Cons.prems True by simp
  qed (use Cons in auto)
qed simp

text \<open>Within the width of the register, different bits leave different registers.\<close>

lemma run_inj:
  assumes "crc_run pol u q = crc_run pol v q" "length u = length v" "length u \<le> LENGTH('a)"
  shows "u = v"
proof -
  have "crc_run pol (map2 (\<noteq>) u v) 0 = 0"
    using crc_run_xor [OF assms(2), of pol q q] assms(1) by simp
  then have "True \<notin> set (map2 (\<noteq>) u v)"
    using run_zero_burst [of "map2 (\<noteq>) u v"] assms(3) by simp
  with assms(2) show ?thesis by (induction u v rule: list_induct2) auto
qed

text \<open>One step loses nothing of the register.\<close>

lemma shift_inj:
  assumes "crc_shift pol a p = crc_shift pol a q"
  shows "p = q"
proof -
  have z: "crc_shift pol False (p XOR q) = 0"
    using crc_shift_xor [of pol a p a q] assms by simp
  then have "\<not> crc_nxt False (p XOR q)"
    using bit_crc_shift [of pol False "p XOR q" 0] pol_odd by simp
  then have "\<not> bit (p XOR q) n" if "n < LENGTH('a)" for n
    using shift_low_zero [of "LENGTH('a) - 1" False "p XOR q" n] z that
    by (cases "n = LENGTH('a) - 1") (auto simp: crc_nxt_def)
  then show ?thesis by (intro bit_word_eqI) (simp add: bit_xor_iff)
qed

lemma run_reg_inj: "crc_run pol xs p = crc_run pol xs q \<Longrightarrow> p = q"
  by (induction xs arbitrary: p q) (auto dest: shift_inj)

text \<open>
  A frame of data and CRC that was hit by a burst no longer than the CRC fails the comparison: the CRC
  of the data that arrived is not the CRC that arrived.
\<close>

lemma burst_detected:
  assumes "xs @ crc_bits (crc_run pol xs q) = p @ u @ s" "ys @ crc_bits c = p @ v @ s"
    and "length ys = length xs" "length u \<le> LENGTH('a)" "u \<noteq> v"
  shows "c \<noteq> crc_run pol ys q"
proof
  assume "c = crc_run pol ys q"
  then have "crc_run pol (p @ v @ s) q = 0"
    using crc_run_own [of pol c] by (simp flip: assms(2))
  moreover have "crc_run pol (p @ u @ s) q = 0"
    using crc_run_own [of pol "crc_run pol xs q"] by (simp flip: assms(1))
  ultimately have "crc_run pol u (crc_run pol p q) = crc_run pol v (crc_run pol p q)"
    using run_reg_inj [of s "crc_run pol u (crc_run pol p q)" "crc_run pol v (crc_run pol p q)"]
    by (simp only: crc_run_append)
  moreover have "length u = length v"
    using arg_cong [OF assms(1), of length] arg_cong [OF assms(2), of length] assms(3) by simp
  ultimately have "u = v" using assms(4) by (rule run_inj)
  with assms(5) show False ..
qed

end

section \<open>The polynomials of the core\<close>

interpretation crc15: crc_poly CRC15_POL
  by unfold_locales (simp add: CRC15_POL_def)

interpretation crc17: crc_poly CRC17_POL
  by unfold_locales (simp add: CRC17_POL_def)

interpretation crc21: crc_poly CRC21_POL
  by unfold_locales (simp add: CRC21_POL_def)

text \<open>
  A receiver loads the initial vectors and then feeds the bits it samples, with or without the stuff bits
  according to the register.
\<close>

definition crc_rx_in :: "bool \<Rightarrow> bool \<Rightarrow> bool \<Rightarrow> bool \<Rightarrow> can_crc_in" where
  "crc_rx_in nisofd ld d tr =
     \<lparr>crc_nisofd = nisofd, data_tx_wbs = RECESSIVE, data_tx_nbs = RECESSIVE, data_rx_wbs = d, data_rx_nbs = d,
      trig_tx_wbs = False, trig_tx_nbs = False, trig_rx_wbs = tr, trig_rx_nbs = tr, crc_enable = True,
      crc_spec_enable = False, crc_calc_from_rx = True, load_init_vect = ld\<rparr>"

definition can_crc_rx :: "bool \<Rightarrow> bool list \<Rightarrow> can_crc_regs \<Rightarrow> can_crc_regs" where
  "can_crc_rx nisofd xs r =
     fold (\<lambda>d. can_crc (crc_rx_in nisofd False d True)) xs (can_crc (crc_rx_in nisofd True RECESSIVE False) r)"

definition crc_init :: "bool \<Rightarrow> 'a::len word" where
  "crc_init nisofd = (if nisofd then 0 else set_bit (LENGTH('a) - 1) 0)"

lemmas can_crc_defs = can_crc_def crc_rx_in_def crc_15_in_def crc_17_21_in_def crc_calc_def crc_ce_def crc_d_def

lemma can_crc_fold:
  "fold (\<lambda>d. can_crc (crc_rx_in nisofd False d True)) xs r =
     \<lparr>crc_15 = crc_run CRC15_POL xs (crc_15 r), crc_17 = crc_run CRC17_POL xs (crc_17 r),
      crc_21 = crc_run CRC21_POL xs (crc_21 r)\<rparr>"
  by (induction xs arbitrary: r) (simp_all add: can_crc_defs)

lemma can_crc_rx_regs:
  "can_crc_rx nisofd xs r =
     \<lparr>crc_15 = crc_run CRC15_POL xs 0, crc_17 = crc_run CRC17_POL xs (crc_init nisofd),
      crc_21 = crc_run CRC21_POL xs (crc_init nisofd)\<rparr>"
  unfolding can_crc_rx_def can_crc_fold by (simp add: can_crc_defs crc_init_def)

text \<open>
  On the wire the CRC is the front of the transmitter's 21 bit value \<open>tx_crc\<close>; in the receiver's shift register it
  ends up in the lower bits.
\<close>

definition crc_width :: "crc_src \<Rightarrow> nat" where
  "crc_width src = (case src of C_CRC15_SRC \<Rightarrow> 15 | C_CRC17_SRC \<Rightarrow> 17 | C_CRC21_SRC \<Rightarrow> 21)"

definition tx_crc :: "crc_src \<Rightarrow> can_crc_regs \<Rightarrow> 21 word" where
  "tx_crc src r =
     (if src = C_CRC15_SRC then push_bit 6 (ucast (crc_15 r))
      else if src = C_CRC17_SRC then push_bit 4 (ucast (crc_17 r))
      else crc_21 r)"

definition tx_crc_field :: "crc_src \<Rightarrow> can_crc_regs \<Rightarrow> bool list" where
  "tx_crc_field src r = take (crc_width src) (crc_bits (tx_crc src r))"

definition rx_crc_field :: "crc_src \<Rightarrow> 21 word \<Rightarrow> bool list" where
  "rx_crc_field src rx = drop (21 - crc_width src) (crc_bits rx)"

lemma front_bits:
  fixes q :: "'a::len word"
  assumes "k + LENGTH('a) = 21"
  shows "take LENGTH('a) (crc_bits (push_bit k (ucast q) :: 21 word)) = crc_bits q"
proof -
  have "20 - (i + k) = LENGTH('a) - Suc i" for i using assms by arith
  then show ?thesis
    using assms by (intro nth_equalityI) (auto simp: crc_bits_def bit_push_bit_iff bit_ucast_iff)
qed

lemma rear_bits:
  assumes "k + LENGTH('a) = 21"
  shows "drop k (crc_bits (w :: 21 word)) = crc_bits (ucast w :: 'a::len word)"
proof -
  have "20 - (i + k) = LENGTH('a) - Suc i" for i using assms by arith
  then show ?thesis
    using assms by (intro nth_equalityI) (auto simp: crc_bits_def bit_ucast_iff add.commute [of k])
qed

lemma tx_crc_field_eq:
  "tx_crc_field src r = (case src of C_CRC15_SRC \<Rightarrow> crc_bits (crc_15 r) | C_CRC17_SRC \<Rightarrow> crc_bits (crc_17 r)
     | C_CRC21_SRC \<Rightarrow> crc_bits (crc_21 r))"
  using front_bits [of 6 "crc_15 r"] front_bits [of 4 "crc_17 r"] 
  by (simp add: tx_crc_field_def tx_crc_def crc_width_def split: crc_src.split)

lemma rx_crc_field_eq:
  "rx_crc_field src w = (case src of C_CRC15_SRC \<Rightarrow> crc_bits (ucast w :: 15 word)
     | C_CRC17_SRC \<Rightarrow> crc_bits (ucast w :: 17 word) | C_CRC21_SRC \<Rightarrow> crc_bits w)"
  using rear_bits [of 6 w, where 'a = 15] rear_bits [of 4 w, where 'a = 17]
  by (simp add: rx_crc_field_def crc_width_def split: crc_src.split)

lemmas crc_field_eqs = crc_match_c_def can_crc_rx_regs tx_crc_field_eq rx_crc_field_eq crc_width_def

text \<open>A frame that arrives as it was sent passes when the stuff counts agree.\<close>

lemma crc_match_error_free:
  assumes "rx_crc_field src rx = tx_crc_field src (can_crc_rx nisofd xs t)"
  shows "crc_match_c nisofd src (stuff_count ctr) ctr rx (can_crc_rx nisofd xs r)"
  using assms by (auto simp: crc_field_eqs crc_bits_eq_iff split: crc_src.splits)

text \<open>C14: If data and CRC arrive with an error burst no longer than the CRC in use, the comparison at the
  end of the frame fails, whatever was in the registers before. The CRC that was sent is the one of the bits
  sent, the receiver compares what arrived with the CRC of the bits that arrived.
\<close>

theorem crc_detects_burst:
  assumes "xs @ tx_crc_field src (can_crc_rx nisofd xs t) = p @ u @ s"
    and "ys @ rx_crc_field src rx = p @ v @ s"
    and "length ys = length xs" "length u \<le> crc_width src" "u \<noteq> v"
  shows "\<not> crc_match_c nisofd src sc ctr rx (can_crc_rx nisofd ys r)"
  using assms crc15.burst_detected [of xs 0 p u s ys "ucast rx" v]
    crc17.burst_detected [of xs "crc_init nisofd" p u s ys "ucast rx" v]
    crc21.burst_detected [of xs "crc_init nisofd" p u s ys rx v]
  by (cases src) (simp_all add: crc_field_eqs)

theorem crc_detects_burst_witness:
  "rx_crc_field C_CRC15_SRC 0x4599 = tx_crc_field C_CRC15_SRC (can_crc_rx False [True] \<lparr>crc_15 = 1, crc_17 = 2, crc_21 = 3\<rparr>) \<and>
   \<not> crc_match_c False C_CRC15_SRC [] 0 0x4599 (can_crc_rx False [False] \<lparr>crc_15 = 3, crc_17 = 2, crc_21 = 1\<rparr>)"
proof -
  have f: "rx_crc_field C_CRC15_SRC 0x4599 =
      tx_crc_field C_CRC15_SRC (can_crc_rx False [True] \<lparr>crc_15 = 1, crc_17 = 2, crc_21 = 3\<rparr>)"
    by (simp add: crc_field_eqs crc_bits_eq_iff crc_shift_def crc_nxt_def CRC15_POL_def)
  show ?thesis
    using crc_detects_burst [of "[True]" C_CRC15_SRC False "\<lparr>crc_15 = 1, crc_17 = 2, crc_21 = 3\<rparr>" "[]" "[True]"
      "rx_crc_field C_CRC15_SRC 0x4599" "[False]" "0x4599" "[False]" "[]" 0 "\<lparr>crc_15 = 3, crc_17 = 2, crc_21 = 1\<rparr>"] f
    by (simp add: crc_width_def)
qed

end
