(* ===== verification/Ctu_Fault.thy ===== *)
theory Ctu_Fault
  imports Ctu_Irq
begin

text \<open>
  Fault confinement of the CAN core, from \<open>src/can_core\<close>: the rules that turn events of the protocol into
  counter steps, the error counters, and the state machine of the node. One function of a record of
  registers is one clock cycle (\<open>fault_confinement\<close>). The two status words are those the driver reads, so
  the state the driver reports can be compared with the counters.
\<close>

unbundle bit_operations_syntax

section \<open>Rules\<close>

record fc_in =
  is_transmitter :: bool
  is_receiver :: bool
  err_detected :: bool
  err_ctrs_unchanged :: bool
  primary_err :: bool
  act_err_ovr_flag :: bool
  err_delim_late :: bool
  tran_valid :: bool
  decrement_rec :: bool
  bit_err_after_ack_err :: bool
  mr_mode_rom :: bool
  set_err_active :: bool
  sp_control :: "2 word"
  mr_ctr_pres_ctpv :: "9 word"
  mr_ctr_pres_ptx :: bool
  mr_ctr_pres_prx :: bool
  mr_ctr_pres_enorm :: bool
  mr_ctr_pres_efd :: bool
  mr_ewl_ew_limit :: u8
  mr_erp_erp_limit :: u8

definition inc_one :: "fc_in \<Rightarrow> bool" where
  "inc_one i \<longleftrightarrow> (err_detected i \<and> \<not> act_err_ovr_flag i \<and> is_receiver i) \<and> \<not> mr_mode_rom i"

definition inc_eight :: "fc_in \<Rightarrow> bool" where
  "inc_eight i \<longleftrightarrow>
     (primary_err i \<and> is_receiver i \<or>
      act_err_ovr_flag i \<and> err_detected i \<or>
      is_transmitter i \<and> err_detected i \<and> \<not> err_ctrs_unchanged i \<or>
      err_delim_late i \<or> bit_err_after_ack_err i) \<and> \<not> mr_mode_rom i"

definition dec_one :: "fc_in \<Rightarrow> bool" where
  "dec_one i \<longleftrightarrow> decrement_rec i \<or> tran_valid i"

section \<open>Counters\<close>

datatype t_fault_conf_state = S_fc_err_active | S_fc_err_passive | S_fc_bus_off

text \<open>The field \<open>res_err_ctrs_q\<close> is the registered reset of the counters, active low.\<close>

record fc_regs =
  ctr_pres_ptx_q :: bool
  ctr_pres_prx_q :: bool
  ctr_pres_enorm_q :: bool
  ctr_pres_efd_q :: bool
  res_err_ctrs_q :: bool
  tx_err_ctr_q :: "9 word"
  rx_err_ctr_q :: "9 word"
  nom_err_ctr_q :: "16 word"
  data_err_ctr_q :: "16 word"
  err_warning_limit_q :: bool
  fc_curr_state :: t_fault_conf_state

definition fc_reset :: fc_regs where
  "fc_reset = \<lparr>ctr_pres_ptx_q = False, ctr_pres_prx_q = False, ctr_pres_enorm_q = False, ctr_pres_efd_q = False,
     res_err_ctrs_q = False, tx_err_ctr_q = 0, rx_err_ctr_q = 0, nom_err_ctr_q = 0, data_err_ctr_q = 0,
     err_warning_limit_q = False, fc_curr_state = S_fc_bus_off\<rparr>"

definition tx_err_ctr_dec :: "9 word \<Rightarrow> 9 word" where
  "tx_err_ctr_dec q = (if q > 0 then q - 1 else q)"

definition tx_err_ctr_d :: "fc_in \<Rightarrow> fc_regs \<Rightarrow> 9 word" where
  "tx_err_ctr_d i r =
     (if ctr_pres_ptx_q r then mr_ctr_pres_ctpv i
      else if inc_eight i then tx_err_ctr_q r + 8
      else tx_err_ctr_dec (tx_err_ctr_q r))"

definition tx_err_ctr_ce :: "fc_in \<Rightarrow> fc_regs \<Rightarrow> bool" where
  "tx_err_ctr_ce i r \<longleftrightarrow> (inc_eight i \<or> dec_one i) \<and> is_transmitter i \<or> ctr_pres_ptx_q r"

definition rx_err_ctr_dec :: "9 word \<Rightarrow> 9 word" where
  "rx_err_ctr_dec q = (if q > 127 then 120 else if q > 0 then q - 1 else q)"

definition rx_err_ctr_sat :: "fc_in \<Rightarrow> 9 word \<Rightarrow> 9 word" where
  "rx_err_ctr_sat i q = (let inc = (if inc_one i then q + 1 else q + 8) in if inc < q then mask 9 else inc)"

definition rx_err_ctr_d :: "fc_in \<Rightarrow> fc_regs \<Rightarrow> 9 word" where
  "rx_err_ctr_d i r =
     (if ctr_pres_prx_q r then mr_ctr_pres_ctpv i
      else if inc_one i \<or> inc_eight i then rx_err_ctr_sat i (rx_err_ctr_q r)
      else rx_err_ctr_dec (rx_err_ctr_q r))"

definition rx_err_ctr_ce :: "fc_in \<Rightarrow> fc_regs \<Rightarrow> bool" where
  "rx_err_ctr_ce i r \<longleftrightarrow> (inc_one i \<or> inc_eight i \<or> dec_one i) \<and> is_receiver i \<or> ctr_pres_prx_q r"

definition NOMINAL_SAMPLE :: "2 word" where "NOMINAL_SAMPLE = 0b00"
definition DATA_SAMPLE :: "2 word" where "DATA_SAMPLE = 0b01"
definition SECONDARY_SAMPLE :: "2 word" where "SECONDARY_SAMPLE = 0b10"

definition nom_dat_sel_ctr_add :: "fc_in \<Rightarrow> fc_regs \<Rightarrow> 16 word" where
  "nom_dat_sel_ctr_add i r =
     (if sp_control i = NOMINAL_SAMPLE then nom_err_ctr_q r else data_err_ctr_q r) + 1"

definition nom_err_ctr_ce :: "fc_in \<Rightarrow> fc_regs \<Rightarrow> bool" where
  "nom_err_ctr_ce i r \<longleftrightarrow> ctr_pres_enorm_q r \<or> (inc_one i \<or> inc_eight i) \<and> sp_control i = NOMINAL_SAMPLE"

definition data_err_ctr_ce :: "fc_in \<Rightarrow> fc_regs \<Rightarrow> bool" where
  "data_err_ctr_ce i r \<longleftrightarrow> ctr_pres_efd_q r \<or>
     (inc_one i \<or> inc_eight i) \<and> (sp_control i = DATA_SAMPLE \<or> sp_control i = SECONDARY_SAMPLE)"

text \<open>
  A counter is cleared asynchronously by the registered reset: in the cycle that sets the reset, and in the
  cycle that ends it.
\<close>

definition ctr_reg :: "fc_in \<Rightarrow> fc_regs \<Rightarrow> bool \<Rightarrow> 'a::len word \<Rightarrow> 'a word \<Rightarrow> 'a word" where
  "ctr_reg i r ce d q = (if set_err_active i \<or> \<not> res_err_ctrs_q r then 0 else if ce then d else q)"

section \<open>State of the node\<close>

definition tx_err_ctr_mt_erp :: "fc_in \<Rightarrow> fc_regs \<Rightarrow> bool" where
  "tx_err_ctr_mt_erp i r \<longleftrightarrow> unat (tx_err_ctr_q r) \<ge> unat (mr_erp_erp_limit i)"

definition rx_err_ctr_mt_erp :: "fc_in \<Rightarrow> fc_regs \<Rightarrow> bool" where
  "rx_err_ctr_mt_erp i r \<longleftrightarrow> unat (rx_err_ctr_q r) \<ge> unat (mr_erp_erp_limit i)"

definition tx_err_ctr_mt_255 :: "fc_regs \<Rightarrow> bool" where
  "tx_err_ctr_mt_255 r \<longleftrightarrow> unat (tx_err_ctr_q r) > 255"

definition err_warning_limit_d :: "fc_in \<Rightarrow> fc_regs \<Rightarrow> bool" where
  "err_warning_limit_d i r \<longleftrightarrow> unat (tx_err_ctr_q r) \<ge> unat (mr_ewl_ew_limit i) \<or>
     unat (rx_err_ctr_q r) \<ge> unat (mr_ewl_ew_limit i)"

definition err_warning_limit_pulse :: "fc_in \<Rightarrow> fc_regs \<Rightarrow> bool" where
  "err_warning_limit_pulse i r \<longleftrightarrow> err_warning_limit_d i r \<noteq> err_warning_limit_q r"

definition fc_next_state :: "fc_in \<Rightarrow> fc_regs \<Rightarrow> t_fault_conf_state" where
  "fc_next_state i r =
     (case fc_curr_state r of
        S_fc_err_active \<Rightarrow>
          if tx_err_ctr_mt_erp i r \<or> rx_err_ctr_mt_erp i r then S_fc_err_passive else S_fc_err_active
      | S_fc_err_passive \<Rightarrow>
          if tx_err_ctr_mt_255 r then S_fc_bus_off
          else if \<not> tx_err_ctr_mt_erp i r \<and> \<not> rx_err_ctr_mt_erp i r then S_fc_err_active
          else S_fc_err_passive
      | S_fc_bus_off \<Rightarrow> if set_err_active i then S_fc_err_active else S_fc_bus_off)"

definition fcs_changed :: "fc_in \<Rightarrow> fc_regs \<Rightarrow> bool" where
  "fcs_changed i r \<longleftrightarrow> fc_curr_state r \<noteq> fc_next_state i r"

definition fault_confinement :: "fc_in \<Rightarrow> fc_regs \<Rightarrow> fc_regs" where
  "fault_confinement i r =
     \<lparr>ctr_pres_ptx_q = mr_ctr_pres_ptx i, ctr_pres_prx_q = mr_ctr_pres_prx i,
      ctr_pres_enorm_q = mr_ctr_pres_enorm i, ctr_pres_efd_q = mr_ctr_pres_efd i,
      res_err_ctrs_q = (\<not> set_err_active i),
      tx_err_ctr_q = ctr_reg i r (tx_err_ctr_ce i r) (tx_err_ctr_d i r) (tx_err_ctr_q r),
      rx_err_ctr_q = ctr_reg i r (rx_err_ctr_ce i r) (rx_err_ctr_d i r) (rx_err_ctr_q r),
      nom_err_ctr_q = ctr_reg i r (nom_err_ctr_ce i r)
        (if \<not> ctr_pres_enorm_q r then nom_dat_sel_ctr_add i r else 0) (nom_err_ctr_q r),
      data_err_ctr_q = ctr_reg i r (data_err_ctr_ce i r)
        (if \<not> ctr_pres_efd_q r then nom_dat_sel_ctr_add i r else 0) (data_err_ctr_q r),
      err_warning_limit_q = err_warning_limit_d i r,
      fc_curr_state = fc_next_state i r\<rparr>"

section \<open>Status words\<close>

definition fault_word :: "fc_in \<Rightarrow> fc_regs \<Rightarrow> u32" where
  "fault_word i r =
     push_bit 18 (of_bool (fc_curr_state r = S_fc_bus_off)) OR
     push_bit 17 (of_bool (fc_curr_state r = S_fc_err_passive)) OR
     push_bit 16 (of_bool (fc_curr_state r = S_fc_err_active)) OR
     push_bit 8 (ucast (mr_erp_erp_limit i)) OR ucast (mr_ewl_ew_limit i)"

definition rec_tec_word :: "fc_regs \<Rightarrow> u32" where
  "rec_tec_word r = push_bit 16 (ucast (tx_err_ctr_q r)) OR ucast (rx_err_ctr_q r)"

section \<open>What the driver reads\<close>

lemma fault_word_fields:
  "FIELD_GET REG_EWL_EW_LIMIT (fault_word i r) = ucast (mr_ewl_ew_limit i)"
  "FIELD_GET REG_EWL_ERA (fault_word i r) = of_bool (fc_curr_state r = S_fc_err_active)"
  "FIELD_GET REG_EWL_ERP (fault_word i r) = of_bool (fc_curr_state r = S_fc_err_passive)"
  "FIELD_GET REG_EWL_BOF (fault_word i r) = of_bool (fc_curr_state r = S_fc_bus_off)"
proof -
  show "FIELD_GET REG_EWL_EW_LIMIT (fault_word i r) = ucast (mr_ewl_ew_limit i)"
    by (intro bit_word_eqI)
      (auto simp: REG_EWL_EW_LIMIT_def FIELD_GET_GENMASK fault_word_def bit_simps dest: bit_imp_le_length)
qed (auto simp: REG_EWL_ERA_def REG_EWL_ERP_def REG_EWL_BOF_def FIELD_GET_BIT fault_word_def bit_simps
  dest: bit_imp_le_length)

lemma rec_tec_fields:
  "FIELD_GET REG_REC_REC_VAL (rec_tec_word r) = ucast (rx_err_ctr_q r)"
  "FIELD_GET REG_REC_TEC_VAL (rec_tec_word r) = ucast (tx_err_ctr_q r)"
  by (intro bit_word_eqI;
      auto simp: REG_REC_REC_VAL_def REG_REC_TEC_VAL_def FIELD_GET_GENMASK rec_tec_word_def bit_simps
        dest: bit_imp_le_length)+

lemma limit_less_ctr: "(ucast (l :: u8) :: u32) > ucast (c :: 9 word) \<longleftrightarrow> unat c < unat l"
proof -
  have "unat (ucast c :: u32) = unat c"
    using order_less_trans [OF unsigned_less [of c, where ?'a = nat]]
    by (simp add: unsigned_ucast_eq take_bit_nat_eq_self)
  then show ?thesis by (simp add: word_less_nat_alt unat_u8_u32)
qed

text \<open>C17: The state the driver derives from the two status words is the state of the core's machine, with the
  warning level split off the error active state by the same comparison that raises the warning status. The
  branch of the driver for an invalid state is never taken.
\<close>

theorem driver_fault_state:
  "fault_state (fault_word i r) (rec_tec_word r) =
     Some (case fc_curr_state r of
         S_fc_err_active \<Rightarrow> if err_warning_limit_d i r then CAN_STATE_ERROR_WARNING else CAN_STATE_ERROR_ACTIVE
       | S_fc_err_passive \<Rightarrow> CAN_STATE_ERROR_PASSIVE
       | S_fc_bus_off \<Rightarrow> CAN_STATE_BUS_OFF)"
  by (auto simp: fault_state_def fault_word_fields rec_tec_fields limit_less_ctr err_warning_limit_d_def
      split: t_fault_conf_state.split)

section \<open>Bus off\<close>

text \<open>Reachable registers, with a fixed limit and without the presets of the test mode.\<close>

inductive fc_reach :: "u8 \<Rightarrow> fc_regs \<Rightarrow> bool" for erp where
  fc_init: "fc_reach erp fc_reset"
| fc_step: "fc_reach erp r \<Longrightarrow> mr_erp_erp_limit i = erp \<Longrightarrow> \<not> mr_ctr_pres_ptx i \<Longrightarrow>
    fc_reach erp (fault_confinement i r)"

definition fc_inv :: "u8 \<Rightarrow> fc_regs \<Rightarrow> bool" where
  "fc_inv erp r \<longleftrightarrow> \<not> ctr_pres_ptx_q r \<and>
     (fc_curr_state r = S_fc_err_active \<longrightarrow> unat (tx_err_ctr_q r) < unat erp + 8) \<and>
     (fc_curr_state r = S_fc_err_passive \<longrightarrow> unat (tx_err_ctr_q r) < 272)"

lemma unat_erp: "unat (erp :: u8) \<le> 255"
  using unsigned_less [of erp, where ?'a = nat] by simp

lemma tx_add_8: "unat (q :: 9 word) < 504 \<Longrightarrow> unat (q + 8) = unat q + 8"
  by (simp add: unat_word_ariths)

text \<open>In a cycle without a preset the counter grows by eight at most.\<close>

lemma tx_ctr_grows:
  assumes "\<not> ctr_pres_ptx_q r" "unat (tx_err_ctr_q r) < 504"
  shows "unat (tx_err_ctr_q (fault_confinement i r)) \<le> unat (tx_err_ctr_q r) + 8"
proof -
  have "unat (tx_err_ctr_dec q) \<le> unat q" for q :: "9 word"
    by (auto simp: tx_err_ctr_dec_def unat_minus_one word_greater_zero_iff)
  then show ?thesis
    using assms tx_add_8 [of "tx_err_ctr_q r"]
    by (auto simp: fault_confinement_def ctr_reg_def tx_err_ctr_d_def intro: trans_le_add1)
qed

lemma fc_inv_step:
  assumes "fc_inv erp r" "mr_erp_erp_limit i = erp" "\<not> mr_ctr_pres_ptx i"
  shows "fc_inv erp (fault_confinement i r)"
proof -
  let ?r = "fault_confinement i r"
  have "\<not> ctr_pres_ptx_q ?r" using assms(3) by (simp add: fault_confinement_def)
  moreover have "unat (tx_err_ctr_q ?r) < unat erp + 8" if "fc_curr_state ?r = S_fc_err_active"
  proof (cases "fc_curr_state r = S_fc_bus_off")
    case True
    then have "tx_err_ctr_q ?r = 0"
      using that by (auto simp: fault_confinement_def fc_next_state_def ctr_reg_def split: if_splits)
    then show ?thesis by simp
  next
    case False
    then have "unat (tx_err_ctr_q r) < unat erp"
      using that assms(2)
      by (auto simp: fault_confinement_def fc_next_state_def tx_err_ctr_mt_erp_def split: if_splits t_fault_conf_state.splits)
    then show ?thesis
      using tx_ctr_grows [of r i] assms(1) unat_erp [of erp] by (simp add: fc_inv_def)
  qed
  moreover have "unat (tx_err_ctr_q ?r) < 272" if "fc_curr_state ?r = S_fc_err_passive"
  proof -
    have "unat (tx_err_ctr_q r) < 264"
      using that assms(1) unat_erp [of erp]
      by (auto simp: fault_confinement_def fc_next_state_def tx_err_ctr_mt_255_def fc_inv_def split: if_splits t_fault_conf_state.splits)
    then show ?thesis using tx_ctr_grows [of r i] assms(1) by (simp add: fc_inv_def)
  qed
  ultimately show ?thesis by (simp add: fc_inv_def)
qed

lemma fc_reach_inv: "fc_reach erp r \<Longrightarrow> fc_inv erp r"
  by (induction rule: fc_reach.induct) (auto simp: fc_inv_step, simp add: fc_inv_def fc_reset_def)

lemma fc_reach_no_wrap:
  assumes "fc_reach erp r" "fc_curr_state r \<noteq> S_fc_bus_off"
  shows "unat (tx_err_ctr_q r) < 272"
  using fc_reach_inv [OF assms(1)] assms(2) unat_erp [of erp]
  by (cases "fc_curr_state r") (auto simp: fc_inv_def)

text \<open>C16: Until the node is off the bus, its transmit error counter stays below 272, so that the step by eight
  never wraps around the nine bits. The node leaves the bus only when it is error passive with a transmit counter
  above 255, and comes back only on request, error active and with all counters at zero.
\<close>

theorem bus_off_rules:
  assumes "fc_reach erp r"
  shows "(fc_curr_state r \<noteq> S_fc_bus_off \<longrightarrow>
      unat (tx_err_ctr_q r) < 272 \<and> unat (tx_err_ctr_q r + 8) = unat (tx_err_ctr_q r) + 8) \<and>
    (fc_curr_state r \<noteq> S_fc_bus_off \<and> fc_curr_state (fault_confinement i r) = S_fc_bus_off \<longrightarrow>
      fc_curr_state r = S_fc_err_passive \<and> 255 < unat (tx_err_ctr_q r)) \<and>
    (fc_curr_state r = S_fc_bus_off \<and> fc_curr_state (fault_confinement i r) \<noteq> S_fc_bus_off \<longrightarrow>
      set_err_active i \<and> fc_curr_state (fault_confinement i r) = S_fc_err_active \<and>
      tx_err_ctr_q (fault_confinement i r) = 0 \<and> rx_err_ctr_q (fault_confinement i r) = 0 \<and>
      nom_err_ctr_q (fault_confinement i r) = 0 \<and> data_err_ctr_q (fault_confinement i r) = 0)"
  using fc_reach_no_wrap [OF assms] tx_add_8 [of "tx_err_ctr_q r"]
  by (auto simp: fault_confinement_def fc_next_state_def tx_err_ctr_mt_255_def ctr_reg_def
      split: if_splits t_fault_conf_state.splits)

definition fc_idle :: fc_in where
  "fc_idle = \<lparr>is_transmitter = True, is_receiver = False, err_detected = False, err_ctrs_unchanged = False,
     primary_err = False, act_err_ovr_flag = False, err_delim_late = False, tran_valid = False,
     decrement_rec = False, bit_err_after_ack_err = False, mr_mode_rom = False, set_err_active = False,
     sp_control = NOMINAL_SAMPLE, mr_ctr_pres_ctpv = 0, mr_ctr_pres_ptx = False, mr_ctr_pres_prx = False,
     mr_ctr_pres_enorm = False, mr_ctr_pres_efd = False, mr_ewl_ew_limit = 0x60, mr_erp_erp_limit = 0x80\<rparr>"

definition fc_active :: fc_regs where
  "fc_active = fault_confinement fc_idle (fault_confinement (fc_idle\<lparr>set_err_active := True\<rparr>) fc_reset)"

lemma fc_active_reach: "fc_reach 0x80 fc_active"
  unfolding fc_active_def by (intro fc_step fc_init) (simp_all add: fc_idle_def)

lemma fc_active_regs: "res_err_ctrs_q fc_active" "fc_curr_state fc_active = S_fc_err_active" "tx_err_ctr_q fc_active = 0"
  by (simp_all add: fc_active_def fault_confinement_def fc_idle_def fc_reset_def fc_next_state_def ctr_reg_def
    tx_err_ctr_mt_erp_def rx_err_ctr_mt_erp_def)

theorem bus_off_rules_witness:
  "fc_curr_state fc_active = S_fc_err_active \<and> unat (tx_err_ctr_q fc_active + 8) = 8"
  using bus_off_rules [OF fc_active_reach, of fc_idle] by (simp add: fc_active_regs)

text \<open>A cycle in which a transmitter has an error or nothing to report.\<close>

definition tx_err_cycle :: "u8 \<Rightarrow> fc_in \<Rightarrow> bool" where
  "tx_err_cycle erp i \<longleftrightarrow> mr_erp_erp_limit i = erp \<and> \<not> mr_ctr_pres_ptx i \<and> is_transmitter i \<and>
     \<not> dec_one i \<and> \<not> set_err_active i"

lemma tx_err_cycle_step:
  assumes "fc_reach erp r" "res_err_ctrs_q r" "tx_err_cycle erp i"
  shows "fc_reach erp (fault_confinement i r)" "res_err_ctrs_q (fault_confinement i r)"
    "fc_curr_state r = S_fc_bus_off \<Longrightarrow> fc_curr_state (fault_confinement i r) = S_fc_bus_off"
    "fc_curr_state r \<noteq> S_fc_bus_off \<Longrightarrow> unat (tx_err_ctr_q (fault_confinement i r)) =
       unat (tx_err_ctr_q r) + (if inc_eight i then 8 else 0)"
proof -
  show "fc_reach erp (fault_confinement i r)"
    using assms(1,3) by (auto simp: tx_err_cycle_def intro: fc_step)
  show "unat (tx_err_ctr_q (fault_confinement i r)) = unat (tx_err_ctr_q r) + (if inc_eight i then 8 else 0)"
    if "fc_curr_state r \<noteq> S_fc_bus_off"
    using fc_reach_no_wrap [OF assms(1) that] fc_reach_inv [OF assms(1)] assms(2,3) tx_add_8 [of "tx_err_ctr_q r"]
    by (auto simp: fault_confinement_def ctr_reg_def tx_err_ctr_ce_def tx_err_ctr_d_def tx_err_cycle_def fc_inv_def)
qed (use assms(3) in \<open>auto simp: fault_confinement_def fc_next_state_def tx_err_cycle_def\<close>)

lemma tx_err_cycles:
  assumes "fc_reach erp r" "res_err_ctrs_q r" "list_all (tx_err_cycle erp) es"
  defines "r' \<equiv> fold fault_confinement es r"
  shows "fc_reach erp r' \<and> res_err_ctrs_q r' \<and>
    (fc_curr_state r' = S_fc_bus_off \<or> 8 * length (filter inc_eight es) \<le> unat (tx_err_ctr_q r'))"
  using assms(3) unfolding r'_def
proof (induction es rule: rev_induct)
  case (snoc e es)
  then show ?case
    using tx_err_cycle_step [of erp "fold fault_confinement es r" e]
    by (cases "fc_curr_state (fold fault_confinement es r) = S_fc_bus_off") auto
qed (use assms in simp)

lemma over_255_bus_off:
  assumes "fc_reach erp r" "res_err_ctrs_q r" "tx_err_cycle erp a" "tx_err_cycle erp b"
    and "fc_curr_state r = S_fc_bus_off \<or> 256 \<le> unat (tx_err_ctr_q r)"
  shows "fc_curr_state (fault_confinement b (fault_confinement a r)) = S_fc_bus_off"
proof -
  have one: "fc_curr_state (fault_confinement i s) = S_fc_bus_off"
    if "fc_curr_state s = S_fc_bus_off \<or> fc_curr_state s = S_fc_err_passive \<and> 256 \<le> unat (tx_err_ctr_q s)"
      "tx_err_cycle erp i" for i s
    using that by (auto simp: fault_confinement_def fc_next_state_def tx_err_ctr_mt_255_def tx_err_cycle_def)
  have act: "fc_curr_state (fault_confinement a r) = S_fc_err_passive"
    if "fc_curr_state r = S_fc_err_active" "256 \<le> unat (tx_err_ctr_q r)"
    using that assms(3) unat_erp [of erp]
    by (simp add: fault_confinement_def fc_next_state_def tx_err_ctr_mt_erp_def tx_err_cycle_def)
  show ?thesis
  proof (cases "fc_curr_state r")
    case S_fc_err_active
    then show ?thesis
      using act assms(5) tx_err_cycle_step(4) [OF assms(1-3)] by (intro one assms(4)) auto
  qed (use assms(3,4,5) one in auto)
qed

text \<open>C15: A transmitter that has thirty-two errors and no success in between is off the bus two cycles after the
  last of them, whatever its counters were and however many cycles without an event lie between.
\<close>

theorem transmit_errors_bus_off:
  assumes "fc_reach erp r" "res_err_ctrs_q r" "list_all (tx_err_cycle erp) (es @ [a, b])"
    and "32 \<le> length (filter inc_eight es)"
  shows "fc_curr_state (fold fault_confinement (es @ [a, b]) r) = S_fc_bus_off"
  using tx_err_cycles [OF assms(1,2), of es] over_255_bus_off [of erp "fold fault_confinement es r" a b] assms(3,4)
  by auto

theorem transmit_errors_bus_off_witness:
  "fc_curr_state (fold fault_confinement (replicate 32 (fc_idle\<lparr>err_detected := True\<rparr>) @ [fc_idle, fc_idle]) fc_active) =
     S_fc_bus_off"
  by (rule transmit_errors_bus_off [OF fc_active_reach])
    (simp_all add: fc_active_regs tx_err_cycle_def fc_idle_def dec_one_def inc_eight_def list_all_iff)

end
