(* ===== verification/Ctu_Logger.thy ===== *)
theory Ctu_Logger
  imports Ctu_Dev
begin

text \<open>
  The logger of \<open>tools/Kvaser_logger\<close>: it sends random frames through a Kvaser interface
  (\<open>kvaser.c\<close>), records the bus with the Signal Tap analyzer, which it drives through a pipe (\<open>stp.c\<close>), and
  writes the recorded bit sequence to a file (\<open>data_processor.c\<close>, \<open>kvalt_logger.c\<close>).

  The library \<open>canlib\<close>, the system calls and \<open>rand\<close> are parameters: a record of functions of the calls made so
  far. Calls and output are logged, the newest first. Where a string outgrows its array, or a null stream is
  written, the result is a fault.
\<close>

unbundle bit_operations_syntax

section \<open>Environment\<close>

record kvalt_can_frame =
  kv_data_length :: u32
  kv_id :: int
  kv_id_type :: u8
  kv_fr_type :: u8
  kv_brs :: u8
  kv_rtr :: u8
  kv_data :: "u8 list"

datatype lcall =
    Siginterrupt
  | CanInitializeLibrary
  | CanOpenChannel int u32
  | CanSetBusParams int int
  | CanSetBusParamsFd int int
  | CanBusOn int
  | CanBusOff int
  | CanClose int
  | CanUnloadLibrary
  | CanGetErrorText int
  | CanWrite int int "u8 list" u32 u32
  | CanWriteSync int nat
  | CanReadWait int nat
  | Pipe
  | Fork
  | CloseFd int
  | Dup2 int int
  | Execv string "string list"
  | Exit_call int
  | Kill int
  | Waitpid int
  | System string
  | WriteFd int string
  | Usleep nat
  | Srand
  | Regcomp string
  | Fopen string string
  | Fclose string
  | Stdout string
  | Stderr string
  | Perror string
  | Put string string

text \<open>
  The constants of \<open>canlib.h\<close>, and what the calls return. \<open>l_rand\<close> gives the numbers of \<open>rand\<close> one after the
  other, \<open>l_read\<close> what a read leaves in the identifier, the data and the length of the frame, \<open>l_write\<close> how many
  bytes a write takes, \<open>l_file\<close> the contents of a file, if it can be opened.
\<close>

record llib =
  canOK :: int
  canOPEN_CAN_FD :: u32
  canOPEN_EXCLUSIVE :: u32
  canOPEN_REQUIRE_EXTENDED :: u32
  canFD_BITRATE_500K_80P :: int
  canFD_BITRATE_2M_80P :: int
  canMSG_RTR :: u32
  canMSG_EXT :: u32
  canMSG_STD :: u32
  canFDMSG_FDF :: u32
  canFDMSG_BRS :: u32
  l_open :: "int \<Rightarrow> lcall list \<Rightarrow> int"
  l_status :: "lcall \<Rightarrow> lcall list \<Rightarrow> int"
  l_errtext :: "int \<Rightarrow> string"
  l_read :: "int \<times> u8 list \<times> u32 \<Rightarrow> lcall list \<Rightarrow> int \<times> u8 list \<times> u32"
  l_rand :: "nat \<Rightarrow> nat"
  l_pipe :: "lcall list \<Rightarrow> (int \<times> int) option"
  l_fork :: "lcall list \<Rightarrow> int"
  l_syscall :: "lcall \<Rightarrow> lcall list \<Rightarrow> int"
  l_write :: "string \<Rightarrow> lcall list \<Rightarrow> int"
  l_regcomp :: "lcall list \<Rightarrow> bool"
  l_file :: "string \<Rightarrow> lcall list \<Rightarrow> string option"
  l_append :: "string \<Rightarrow> lcall list \<Rightarrow> bool"

record lg =
  lg_log :: "lcall list"
  hnd_chn_1 :: int
  hnd_chn_2 :: int
  stp_pid :: int
  lg_pipes :: "int \<times> int"
  lg_rands :: nat

definition ldo :: "lcall \<Rightarrow> lg \<Rightarrow> lg" where
  "ldo c s = s\<lparr>lg_log := c # lg_log s\<rparr>"

definition EXIT_SUCCESS :: int where "EXIT_SUCCESS = 0"
definition EXIT_FAILURE :: int where "EXIT_FAILURE = 1"

section \<open>Formatted output\<close>

definition NL :: string where "NL = [CHR 0x0A]"
definition TAB :: string where "TAB = [CHR 0x09]"
definition QUOTE :: string where "QUOTE = [CHR 0x22]"

definition digit_char :: "nat \<Rightarrow> char" where
  "digit_char n = ''0123456789abcdef'' ! n"

fun print_base :: "nat \<Rightarrow> nat \<Rightarrow> string" where
  "print_base b n =
     (if b \<le> 1 \<or> n < b then [digit_char n] else print_base b (n div b) @ [digit_char (n mod b)])"

declare print_base.simps [simp del]

definition fmt_d :: "int \<Rightarrow> string" where
  "fmt_d i = (if i < 0 then CHR ''-'' # print_base 10 (nat (- i)) else print_base 10 (nat i))"

definition fmt_x :: "nat \<Rightarrow> string" where
  "fmt_x n = print_base 16 n"

definition pad :: "char \<Rightarrow> nat \<Rightarrow> string \<Rightarrow> string" where
  "pad c w t = replicate (w - length t) c @ t"

section \<open>Kvaser access\<close>

definition kvalt_dlc :: "nat list" where
  "kvalt_dlc = [0, 1, 2, 3, 4, 5, 6, 7, 8, 12, 16, 20, 24, 32, 48, 64]"

definition check :: "llib \<Rightarrow> string \<Rightarrow> int \<Rightarrow> lg \<Rightarrow> lg" where
  "check L ident stat s =
     (if stat \<noteq> canOK L
      then ldo (Stdout (ident @ '': failed, stat='' @ fmt_d stat @ '' ('' @ l_errtext L stat @ '')'' @ NL))
             (ldo (CanGetErrorText stat) s)
      else s)"

text \<open>A call of \<open>canlib\<close> that returns a status.\<close>

definition can_call :: "llib \<Rightarrow> lcall \<Rightarrow> lg \<Rightarrow> int \<times> lg" where
  "can_call L c s = (l_status L c (lg_log s), ldo c s)"

definition can_checked :: "llib \<Rightarrow> string \<Rightarrow> lcall \<Rightarrow> lg \<Rightarrow> int \<times> lg" where
  "can_checked L ident c s = (let (stat, s) = can_call L c s in (stat, check L ident stat s))"

definition kvaser_error_exit :: "llib \<Rightarrow> lg \<Rightarrow> int \<times> lg" where
  "kvaser_error_exit L s =
     (let (stat, s) = can_call L (CanBusOff (hnd_chn_1 s)) s;
          (stat, s) = can_checked L ''canBusOff'' (CanBusOff (hnd_chn_2 s)) s;
          (stat, s) = can_call L (CanClose (hnd_chn_1 s)) s;
          (stat, s) = can_checked L ''canClose'' (CanClose (hnd_chn_2 s)) s;
          (stat, s) = can_checked L ''canUnloadLibrary'' CanUnloadLibrary s
      in (1, s))"

text \<open>The steps of the initialization after the channels are open: the first that fails leads to the exit.\<close>

fun kvaser_steps :: "llib \<Rightarrow> (string \<times> lcall) list \<Rightarrow> lg \<Rightarrow> int \<times> lg" where
  "kvaser_steps L [] s = (EXIT_SUCCESS, s)"
| "kvaser_steps L ((ident, c) # cs) s =
     (let (stat, s) = can_checked L ident c s
      in if stat \<noteq> canOK L then kvaser_error_exit L s else kvaser_steps L cs s)"

definition kvaser_open :: "llib \<Rightarrow> int \<Rightarrow> lg \<Rightarrow> int \<times> lg" where
  "kvaser_open L chn s =
     (l_open L chn (lg_log s),
      ldo (CanOpenChannel chn (canOPEN_CAN_FD L OR canOPEN_EXCLUSIVE L OR canOPEN_REQUIRE_EXTENDED L)) s)"

definition kvaser_init :: "llib \<Rightarrow> lg \<Rightarrow> int \<times> lg" where
  "kvaser_init L s =
     (let s = ldo CanInitializeLibrary (ldo Siginterrupt s);
          (h, s) = kvaser_open L 0 s;
          s = s\<lparr>hnd_chn_1 := h\<rparr>;
          (h, s) = kvaser_open L 1 s;
          s = s\<lparr>hnd_chn_2 := h\<rparr>
      in if hnd_chn_1 s < 0 then (-1, ldo (Stdout ''canOpenChannel 0'') s)
         else if hnd_chn_2 s < 0 then (-1, ldo (Stdout ''canOpenChannel 1'') s)
         else kvaser_steps L
           [(''canSetBusParams'', CanSetBusParams (hnd_chn_1 s) (canFD_BITRATE_500K_80P L)),
            (''canSetBusParamsFd'', CanSetBusParamsFd (hnd_chn_1 s) (canFD_BITRATE_2M_80P L)),
            (''canBusOn'', CanBusOn (hnd_chn_1 s)),
            (''canSetBusParams'', CanSetBusParams (hnd_chn_2 s) (canFD_BITRATE_500K_80P L)),
            (''canSetBusParamsFd'', CanSetBusParamsFd (hnd_chn_2 s) (canFD_BITRATE_2M_80P L)),
            (''canBusOn'', CanBusOn (hnd_chn_2 s))] s)"

definition print_can_frame :: "kvalt_can_frame \<Rightarrow> lg \<Rightarrow> lg" where
  "print_can_frame frame s =
     fold (\<lambda>t. ldo (Stdout (t @ NL)))
       [''CAN Frame: '',
        TAB @ ''Data length: '' @ fmt_d (sint (kv_data_length frame)),
        TAB @ ''RTR: 0x'' @ fmt_x (unat (kv_rtr frame)),
        TAB @ ''BRS: 0x'' @ fmt_x (unat (kv_brs frame)),
        TAB @ ''Frame Type: 0x'' @ fmt_x (unat (kv_fr_type frame)),
        TAB @ ''ID Type: 0x'' @ fmt_x (unat (kv_id_type frame)),
        TAB @ ''ID: '' @ fmt_d (kv_id frame mod 2 ^ 64) @ '' ''] s"

text \<open>A random number, and the bytes of the payload.\<close>

definition rand_next :: "llib \<Rightarrow> lg \<Rightarrow> nat \<times> lg" where
  "rand_next L s = (l_rand L (lg_rands s), s\<lparr>lg_rands := Suc (lg_rands s)\<rparr>)"

fun fill_data :: "llib \<Rightarrow> nat \<Rightarrow> nat \<Rightarrow> u8 list \<Rightarrow> lg \<Rightarrow> u8 list \<times> lg" where
  "fill_data L i 0 d s = (d, s)"
| "fill_data L i (Suc n) d s =
     (let (rval, s) = rand_next L s in fill_data L (Suc i) n (d[i := of_nat (rval mod 0xFF)]) s)"

definition frame_length :: "bool \<Rightarrow> bool \<Rightarrow> bool \<Rightarrow> nat \<Rightarrow> nat" where
  "frame_length fd brs rtr rval =
     (if fd then (if brs then kvalt_dlc ! (rval mod 16) else kvalt_dlc ! (rval mod 11))
      else if rtr then 0 else kvalt_dlc ! (rval mod 8))"

definition generate_can_frame :: "llib \<Rightarrow> kvalt_can_frame option \<Rightarrow> lg \<Rightarrow> int \<times> kvalt_can_frame option \<times> lg" where
  "generate_can_frame L frame s =
     (case frame of
        None \<Rightarrow> (EXIT_FAILURE, None, ldo (Stderr (''Invalid CAN frame pointer'' @ NL)) s)
      | Some f \<Rightarrow>
          let (r1, s) = rand_next L s; idt = of_nat (r1 mod 2);
              (r2, s) = rand_next L s; frt = of_nat (r2 mod 2);
              (r3, s) = rand_next L s;
              (brs, rtr) = (if frt \<noteq> 0 then (of_nat (r3 mod 2), 0) else (0, of_nat (r3 mod 2)));
              (r4, s) = rand_next L s;
              len = frame_length (frt \<noteq> 0) (brs \<noteq> 0) (rtr \<noteq> 0) r4;
              (r5, s) = rand_next L s;
              ident = (if idt \<noteq> 0 then int (r5 mod 536870912) else int (r5 mod 2048));
              (d, s) = fill_data L 0 len (replicate 64 0) s
          in (EXIT_SUCCESS,
              Some \<lparr>kv_data_length = of_nat len, kv_id = ident, kv_id_type = idt, kv_fr_type = frt,
                kv_brs = brs, kv_rtr = rtr, kv_data = d\<rparr>, s))"

definition kvaser_flags :: "llib \<Rightarrow> kvalt_can_frame \<Rightarrow> u32" where
  "kvaser_flags L frame =
     (let flag = 0;
          flag = (if kv_rtr frame \<noteq> 0 then flag OR canMSG_RTR L else flag);
          flag = (if kv_id_type frame \<noteq> 0 then flag OR canMSG_EXT L else flag OR canMSG_STD L);
          flag = (if kv_fr_type frame \<noteq> 0 then flag OR canFDMSG_FDF L else flag)
      in if kv_brs frame \<noteq> 0 then flag OR canFDMSG_BRS L else flag)"

definition kvaser_handle :: "int \<Rightarrow> lg \<Rightarrow> int option" where
  "kvaser_handle channel s =
     (if channel = 0 then Some (hnd_chn_1 s) else if channel = 1 then Some (hnd_chn_2 s) else None)"

definition kvaser_send_frame :: "llib \<Rightarrow> kvalt_can_frame \<Rightarrow> int \<Rightarrow> lg \<Rightarrow> int \<times> lg" where
  "kvaser_send_frame L frame channel s =
     (case kvaser_handle channel s of
        None \<Rightarrow> (EXIT_FAILURE, ldo (Stderr (''Invalid Kvaser Channel!'' @ NL)) s)
      | Some h \<Rightarrow>
          let (stat, s) = can_checked L ''canWrite''
                (CanWrite h (kv_id frame) (kv_data frame) (kv_data_length frame) (kvaser_flags L frame)) s
          in if stat \<noteq> canOK L then (EXIT_FAILURE, ldo (Stderr (''Failed to send CAN Frame'' @ NL)) s)
             else let (stat, s) = can_checked L ''canWriteSync'' (CanWriteSync h 1000) s
                  in if stat \<noteq> canOK L then (EXIT_FAILURE, ldo (Stderr (''Failed to send CAN Frame'' @ NL)) s)
                     else (EXIT_SUCCESS, s))"

definition kvaser_read_frame :: "llib \<Rightarrow> kvalt_can_frame \<Rightarrow> int \<Rightarrow> lg \<Rightarrow> int \<times> kvalt_can_frame \<times> lg" where
  "kvaser_read_frame L frame channel s =
     (case kvaser_handle channel s of
        None \<Rightarrow> (EXIT_FAILURE, frame, ldo (Stderr (''Invalid Kvaser Channel!'' @ NL)) s)
      | Some h \<Rightarrow>
          let (ident, d, len) = l_read L (kv_id frame, kv_data frame, kv_data_length frame) (lg_log s);
              frame = frame\<lparr>kv_id := ident, kv_data := d, kv_data_length := len\<rparr>;
              (stat, s) = can_call L (CanReadWait h 100) s
          in if stat = canOK L then (EXIT_SUCCESS, frame, s)
             else (EXIT_FAILURE, frame, ldo (Stderr ''Error in reading CAN Frame'') s))"

section \<open>Signal Tap\<close>

definition QUARTUS_STP_PATH :: string where
  "QUARTUS_STP_PATH = ''/opt/quartus/bin/quartus_stp''"

definition stp_args :: "string list" where
  "stp_args = [''quartus_stp'', ''--shell'']"

text \<open>\<open>sprintf\<close> into an array of \<open>n\<close> characters, the final null character included.\<close>

definition sprintf_buf :: "nat \<Rightarrow> string \<Rightarrow> fault + string" where
  "sprintf_buf n t = (if length t < n then Inr t else Inl OutOfBounds)"

definition prepare_child_pipes :: "llib \<Rightarrow> lg \<Rightarrow> int \<times> lg" where
  "prepare_child_pipes L s =
     (let c = CloseFd (snd (lg_pipes s)); r = l_syscall L c (lg_log s); s = ldo c s
      in if r = -1 then (EXIT_FAILURE, ldo (Perror ''CHILD: close write'') s)
         else let c = Dup2 (fst (lg_pipes s)) 0; r = l_syscall L c (lg_log s); s = ldo c s
              in if r = -1 then (EXIT_FAILURE, ldo (Perror ''CHILD: dup2 read STDIN_FILENO'') s)
                 else let c = CloseFd (fst (lg_pipes s)); r = l_syscall L c (lg_log s); s = ldo c s
                      in if r = -1 then (EXIT_FAILURE, ldo (Perror ''CHILD: close read'') s)
                         else (EXIT_SUCCESS, s))"

text \<open>How a function ends: it returns, its process runs another program, or its process exits.\<close>

datatype proc_end = Returned int | Execed | Exited int

definition stp_init :: "llib \<Rightarrow> string option \<Rightarrow> lg \<Rightarrow> proc_end \<times> lg" where
  "stp_init L stp_path s =
     (case stp_path of
        None \<Rightarrow> (Returned EXIT_FAILURE, ldo (Stderr (''Invalid path pointer!'' @ NL)) s)
      | Some path \<Rightarrow>
          (case l_pipe L (lg_log s) of
             None \<Rightarrow> (Returned EXIT_FAILURE, ldo (Stderr (''Pipe error!'' @ NL)) (ldo Pipe s))
           | Some pp \<Rightarrow>
               let s = (ldo Pipe s)\<lparr>lg_pipes := pp\<rparr>;
                   pid = l_fork L (lg_log s);
                   s = (ldo Fork s)\<lparr>stp_pid := pid\<rparr>
               in if pid = 0
                  then let (r, s) = prepare_child_pipes L s
                       in if r \<noteq> 0 then (Returned EXIT_FAILURE, s)
                          else let c = Execv path stp_args; r = l_syscall L c (lg_log s); s = ldo c s
                               in if r \<noteq> -1 then (Execed, s)
                                  else (Exited 127,
                                    ldo (Exit_call 127) (ldo (Stderr (''Unable to start Signal TAP II!'' @ NL)) s))
                  else if pid > 0
                  then (Returned EXIT_SUCCESS, ldo (Stdout (''Started Signal TAP II. PID: '' @ fmt_d pid @ NL)) s)
                  else (Returned EXIT_SUCCESS, ldo (Stdout (''Unable to start Signal TAP II! '' @ fmt_d pid @ NL)) s)))"

definition stp_exit :: "lg \<Rightarrow> lg" where
  "stp_exit s =
     (let s = ldo (Stdout NL) (ldo (Stdout (''Killing Signal Tap II analyzer...'' @ NL)) s)
      in ldo (Waitpid (stp_pid s)) (ldo (Kill (stp_pid s)) s))"

definition stp_create_temp_session :: "string \<Rightarrow> string \<Rightarrow> lg \<Rightarrow> fault + int \<times> lg" where
  "stp_create_temp_session in_session out_session s =
     (case sprintf_buf 100 (''cp '' @ in_session @ '' '' @ out_session) of
        Inl f \<Rightarrow> Inl f
      | Inr cmd \<Rightarrow> Inr (EXIT_SUCCESS, ldo (System cmd) s))"

text \<open>A command written to the analyzer; a short write is a failure.\<close>

definition stp_command :: "llib \<Rightarrow> string \<Rightarrow> string \<Rightarrow> nat \<Rightarrow> lg \<Rightarrow> int \<times> lg" where
  "stp_command L cmd msg delay s =
     (let c = WriteFd (snd (lg_pipes s)) cmd; nbytes = l_write L cmd (lg_log s); s = ldo c s
      in if nbytes \<noteq> int (length cmd) then (EXIT_FAILURE, ldo (Stderr (msg @ NL)) s)
         else (EXIT_SUCCESS, ldo (Usleep delay) s))"

definition stp_start_session :: "llib \<Rightarrow> string \<Rightarrow> lg \<Rightarrow> fault + int \<times> lg" where
  "stp_start_session L session s =
     (case sprintf_buf 300 (''open_session -name '' @ session @ NL) of
        Inl f \<Rightarrow> Inl f
      | Inr cmd \<Rightarrow>
          let s = ldo (Stdout (''Sending command to start Signal tap II session...'' @ NL)) s;
              (r, s) = stp_command L cmd ''Session not started properly!'' 1000000 s
          in Inr (r, if r = EXIT_SUCCESS then ldo (Stdout (''Signal tap II session started...'' @ NL)) s else s))"

definition quoted :: "string \<Rightarrow> string" where
  "quoted t = QUOTE @ t @ QUOTE"

definition stp_run_aquisition :: "llib \<Rightarrow> int \<Rightarrow> string \<Rightarrow> string \<Rightarrow> string \<Rightarrow> lg \<Rightarrow> fault + int \<times> lg" where
  "stp_run_aquisition L log inst signals trigger s =
     (case sprintf_buf 400 (''run -instance '' @ quoted inst @ '' -signal_set '' @ quoted signals @
          '' -trigger '' @ quoted trigger @ '' -data_log log_'' @ fmt_d log @ NL) of
        Inl f \<Rightarrow> Inl f
      | Inr cmd \<Rightarrow> Inr (stp_command L cmd ''Aquisition not started!'' 200000 s))"

definition stp_wait_aquisition_end :: "lg \<Rightarrow> lg" where
  "stp_wait_aquisition_end s = ldo (Usleep 200000) s"

definition stp_export_log ::
  "llib \<Rightarrow> int \<Rightarrow> string \<Rightarrow> string \<Rightarrow> string \<Rightarrow> string \<Rightarrow> lg \<Rightarrow> fault + int \<times> lg" where
  "stp_export_log L log inst signals trigger dest s =
     (case sprintf_buf 200 (''export_data_log -instance '' @ inst @ '' -signal_set '' @ quoted signals @
          '' -trigger '' @ quoted trigger @ '' -data_log log_'' @ fmt_d log @ '' -filename '' @ dest @
          '' -format tlb'' @ NL) of
        Inl f \<Rightarrow> Inl f
      | Inr cmd \<Rightarrow> Inr (stp_command L cmd ''Data not exported properly!'' 200000 s))"

definition stp_close_session :: "llib \<Rightarrow> lg \<Rightarrow> int \<times> lg" where
  "stp_close_session L s =
     stp_command L (''close_session'' @ NL) ''Session not closed!'' 1000000
       (ldo (Stdout (''Closing session from Signal tap II...'' @ NL)) s)"

section \<open>Data processor\<close>

text \<open>
  The regular expression as a list of elements: one character of a class, or any number of them. \<open>regexec\<close>
  searches for it anywhere in the line.
\<close>

datatype re_elem = One "char \<Rightarrow> bool" | Many "char \<Rightarrow> bool"

fun match_at :: "re_elem list \<Rightarrow> string \<Rightarrow> bool" where
  "match_at [] cs = True"
| "match_at (One p # es) [] = False"
| "match_at (One p # es) (c # cs) = (p c \<and> match_at es cs)"
| "match_at (Many p # es) [] = match_at es []"
| "match_at (Many p # es) (c # cs) = (match_at es (c # cs) \<or> p c \<and> match_at (Many p # es) cs)"

fun regexec :: "re_elem list \<Rightarrow> string \<Rightarrow> bool" where
  "regexec es [] = match_at es []"
| "regexec es (c # cs) = (match_at es (c # cs) \<or> regexec es cs)"

definition is_digit :: "char \<Rightarrow> bool" where
  "is_digit c \<longleftrightarrow> c \<in> set ''0123456789''"

text \<open>The pattern \<open>[ ]*[0-9]*.[0-9]> [0-9] = [0-9]*\<close>.\<close>

definition sample_regex :: "re_elem list" where
  "sample_regex = [Many ((=) CHR '' ''), Many is_digit, One (\<lambda>_. True), One is_digit, One ((=) CHR ''>''), One ((=) CHR '' ''),
     One is_digit, One ((=) CHR '' ''), One ((=) CHR ''=''), One ((=) CHR '' ''), Many is_digit]"

text \<open>
  \<open>fgets\<close> with room for \<open>n\<close> characters: the characters read, the rest of the file, and whether the end of the
  file was met.
\<close>

fun fgets :: "nat \<Rightarrow> string \<Rightarrow> string \<times> string \<times> bool" where
  "fgets 0 cs = ([], cs, False)"
| "fgets (Suc n) [] = ([], [], True)"
| "fgets (Suc n) (c # cs) =
     (if c = CHR 0x0A then ([c], cs, False)
      else let (l, r, e) = fgets n cs in (c # l, r, e))"

definition store_line :: "string \<Rightarrow> char list \<Rightarrow> char list" where
  "store_line l buf = l @ [CHR 0x00] @ drop (Suc (length l)) buf"

definition c_str :: "char list \<Rightarrow> string" where
  "c_str buf = takeWhile (\<lambda>c. c \<noteq> CHR 0x00) buf"

definition strcspn_eq :: "string \<Rightarrow> nat" where
  "strcspn_eq t = length (takeWhile (\<lambda>c. c \<noteq> CHR ''='') t)"

record parse_st =
  ps_first :: bool
  ps_eq_pos :: nat
  ps_prev :: char
  ps_count :: nat

text \<open>One line of the file, in the array \<open>buf\<close>; the result is the text written for it.\<close>

definition parse_line :: "char list \<Rightarrow> parse_st \<Rightarrow> fault + string \<times> parse_st" where
  "parse_line buf st =
     (if \<not> regexec sample_regex (c_str buf) then Inr ([], st)
      else if \<not> ps_first st then Inr ([], st\<lparr>ps_eq_pos := strcspn_eq (c_str buf), ps_first := True\<rparr>)
      else if ps_eq_pos st + 2 \<ge> length buf then Inl OutOfBounds
      else let v = buf ! (ps_eq_pos st + 2)
           in if ps_prev st \<noteq> v
              then Inr (fmt_d (int (ps_count st)) @ '' '' @ [ps_prev st] @ '' '', st\<lparr>ps_count := 0, ps_prev := v\<rparr>)
              else Inr ([], st\<lparr>ps_count := ps_count st + 1, ps_prev := v\<rparr>))"

lemma fgets_shorter:
  "fgets n cs = (l, r, False) \<Longrightarrow> 0 < n \<Longrightarrow> length r < length cs"
proof (induction n cs arbitrary: l r rule: fgets.induct)
  case (3 n c cs)
  then show ?case by (cases n) (auto split: if_splits prod.splits)
qed simp_all

function parse_loop :: "string \<Rightarrow> char list \<Rightarrow> parse_st \<Rightarrow> fault + string \<times> parse_st" where
  "parse_loop cs buf st =
     (case fgets 29 cs of (l, r, eof) \<Rightarrow>
        if eof then Inr ([], st)
        else case parse_line (store_line l buf) st of
               Inl f \<Rightarrow> Inl f
             | Inr (t, st) \<Rightarrow>
                 (case parse_loop r (store_line l buf) st of
                    Inl f \<Rightarrow> Inl f
                  | Inr (ts, st) \<Rightarrow> Inr (t @ ts, st)))"
  by pat_completeness auto
termination
  by (relation "measure (\<lambda>(cs, buf, st). length cs)") (auto dest: fgets_shorter [OF sym])

declare parse_loop.simps [simp del]

definition parse_stp_output :: "llib \<Rightarrow> char list \<Rightarrow> string \<Rightarrow> string \<Rightarrow> lg \<Rightarrow> fault + int \<times> lg" where
  "parse_stp_output L buf0 stp out s =
     (let ok = l_regcomp L (lg_log s);
          s = ldo (Regcomp ''[ ]*[0-9]*.[0-9]> [0-9] = [0-9]*'') s
      in if \<not> ok then Inr (EXIT_FAILURE, ldo (Stderr (''Unable to compile Regex'' @ NL)) s)
         else case parse_loop stp buf0 \<lparr>ps_first = False, ps_eq_pos = 0, ps_prev = CHR ''0'', ps_count = 0\<rparr> of
                Inl f \<Rightarrow> Inl f
              | Inr (t, st) \<Rightarrow>
                  Inr (EXIT_SUCCESS,
                    ldo (Put out (''Bit sequence: '' @ t @ fmt_d (int (ps_count st)) @ '' '' @ [ps_prev st] @ '' '' @ NL)) s))"

definition store_frame_info :: "kvalt_can_frame \<Rightarrow> string \<Rightarrow> lg \<Rightarrow> int \<times> lg" where
  "store_frame_info frame out s =
     (EXIT_SUCCESS,
      ldo (Put out
        ((if kv_fr_type frame \<noteq> 0 then ''CAN FD  '' else ''CAN 2.0 '') @
         (if kv_id_type frame \<noteq> 0 then ''EXTENDED '' else ''BASE     '') @
         (if kv_rtr frame \<noteq> 0 then ''RTR '' else ''    '') @
         (if kv_brs frame \<noteq> 0 then ''BRS '' else ''    '') @
         ''Data length: '' @ pad CHR '' '' 2 (fmt_d (sint (kv_data_length frame))) @ '' '' @
         ''ID: '' @ pad CHR '' '' 9 (fmt_d (kv_id frame)) @ '' '' @
         ''Data: '' @ concat (map (\<lambda>b. pad CHR ''0'' 2 (fmt_x (unat b)) @ '' '') (take 64 (kv_data frame))))) s)"

definition process_stp_output ::
  "llib \<Rightarrow> char list \<Rightarrow> string \<Rightarrow> string \<Rightarrow> kvalt_can_frame \<Rightarrow> lg \<Rightarrow> fault + int \<times> lg" where
  "process_stp_output L buf0 in_path out_path frame s =
     (case sprintf_buf 200 (''./'' @ in_path @ ''.tbl'') of
        Inl f \<Rightarrow> Inl f
      | Inr path_with_ext \<Rightarrow>
          (let stp = l_file L path_with_ext (lg_log s); s = ldo (Fopen path_with_ext ''r'') s
           in case stp of
                None \<Rightarrow>
                  Inr (EXIT_FAILURE,
                    ldo (Stderr (''Path: '' @ path_with_ext @ NL))
                      (ldo (Stderr (''Could not open Signal TAP II Exported file!'' @ NL)) s))
              | Some stp \<Rightarrow>
                  let out = l_append L out_path (lg_log s); s = ldo (Fopen out_path ''a'') s
                  in if \<not> out then Inl NullDeref
                     else case parse_stp_output L buf0 stp out_path (snd (store_frame_info frame out_path s)) of
                            Inl f \<Rightarrow> Inl f
                          | Inr (_, s) \<Rightarrow> Inr (EXIT_SUCCESS, ldo (Fclose out_path) (ldo (Fclose path_with_ext) s))))"

definition erase_file :: "string \<Rightarrow> lg \<Rightarrow> fault + lg" where
  "erase_file path s =
     (case sprintf_buf 100 (''rm '' @ path) of Inl f \<Rightarrow> Inl f | Inr cmd \<Rightarrow> Inr (ldo (System cmd) s))"

section \<open>The logger\<close>

definition ARG_CNT :: nat where "ARG_CNT = 6"

definition print_help :: "lg \<Rightarrow> lg" where
  "print_help s =
     fold (\<lambda>t. ldo (Stdout (t @ NL)))
       [''**************************'', ''*** Kvaalt logger help ***'', ''**************************'', ''Usage: '',
        TAB @ ''kvaalt_logger <frame_count> <stp_sesssion> <instance> <signal_set> <trigger> <out_file>'' @ NL,
        ''Example:'',
        TAB @ ''kvaalt_logger 10 /DOKUMENTY/Skola/CVUT-FEL/CAN_FD_PCIe/FPGA_design'' @
          ''/Quartus/CAN_FD_SoC/output_files/debug.stp '' @ quoted ''signal_set: 2018/06/14 15:19:43  #0'' @ '' '' @
          quoted ''trigger: 2018/06/14 15:19:43  #1'' @ '' '', ''''] s"

definition tmp_export :: string where "tmp_export = ''build/tmp_export''"
definition tmp_session :: string where "tmp_session = ''build/tmp_session.stp''"

text \<open>
  One iteration. Its only results are its calls; the frames and the array of the parser are locals whose
  contents are not defined at first (\<open>rx0\<close>, \<open>buf0\<close>).
\<close>

definition log_iteration ::
  "llib \<Rightarrow> kvalt_can_frame \<Rightarrow> char list \<Rightarrow> int \<Rightarrow> string \<Rightarrow> string \<Rightarrow> string \<Rightarrow> string \<Rightarrow> lg \<Rightarrow> fault + lg" where
  "log_iteration L rx0 buf0 i inst signals trigger outfile s =
     (case generate_can_frame L (Some rx0) s of (_, tx, s) \<Rightarrow>
      case tx of None \<Rightarrow> Inl NullDeref | Some tx_frame \<Rightarrow>
      case stp_run_aquisition L i inst signals trigger s of Inl f \<Rightarrow> Inl f | Inr (_, s) \<Rightarrow>
      case kvaser_send_frame L tx_frame 0 s of (_, s) \<Rightarrow>
      case kvaser_read_frame L rx0 1 s of (_, _, s) \<Rightarrow>
      case stp_export_log L i inst signals trigger tmp_export (stp_wait_aquisition_end s) of
        Inl f \<Rightarrow> Inl f | Inr (_, s) \<Rightarrow>
      case process_stp_output L buf0 tmp_export outfile tx_frame s of Inl f \<Rightarrow> Inl f | Inr (_, s) \<Rightarrow>
      Inr (ldo (Stdout (''Iteration nr: '' @ fmt_d (i + 1) @ NL)) s))"

fun log_loop ::
  "llib \<Rightarrow> kvalt_can_frame \<Rightarrow> char list \<Rightarrow> nat \<Rightarrow> nat \<Rightarrow> string \<Rightarrow> string \<Rightarrow> string \<Rightarrow> string \<Rightarrow> lg \<Rightarrow> fault + lg" where
  "log_loop L rx0 buf0 i 0 inst signals trigger outfile s = Inr s"
| "log_loop L rx0 buf0 i (Suc n) inst signals trigger outfile s =
     (case log_iteration L rx0 buf0 (int i) inst signals trigger outfile s of
        Inl f \<Rightarrow> Inl f
      | Inr s \<Rightarrow> log_loop L rx0 buf0 (Suc i) n inst signals trigger outfile s)"

definition kvaalt_start_log ::
  "llib \<Rightarrow> kvalt_can_frame \<Rightarrow> char list \<Rightarrow> int \<Rightarrow> string \<Rightarrow> string \<Rightarrow> string \<Rightarrow> string \<Rightarrow> string \<Rightarrow> lg \<Rightarrow>
     fault + proc_end \<times> lg" where
  "kvaalt_start_log L rx0 buf0 num_frames session inst signals trigger outfile s =
     (let s = ldo Srand s;
          (r, s) = kvaser_init L s
      in if r \<noteq> 0 then Inr (Returned 1, ldo (Stderr (''Error in Kvaser intialization'' @ NL)) s)
         else case stp_init L (Some QUARTUS_STP_PATH) s of (e, s) \<Rightarrow>
           (case e of
              Returned r \<Rightarrow>
                if r \<noteq> 0 then Inr (Returned 1, ldo (Stderr (''Error in Signal TAP II initialization'' @ NL)) s)
                else (case erase_file outfile s of Inl f \<Rightarrow> Inl f | Inr s \<Rightarrow>
                  case stp_create_temp_session session tmp_session s of Inl f \<Rightarrow> Inl f | Inr (_, s) \<Rightarrow>
                  case stp_start_session L tmp_session s of Inl f \<Rightarrow> Inl f | Inr (_, s) \<Rightarrow>
                  case log_loop L rx0 buf0 0 (nat num_frames) inst signals trigger outfile s of Inl f \<Rightarrow> Inl f | Inr s \<Rightarrow>
                  Inr (Returned 0, stp_exit (snd (stp_close_session L s))))
            | _ \<Rightarrow> Inr (e, s)))"

text \<open>\<open>atoi\<close>: blanks, a sign, and the digits that follow.\<close>

definition dec_val :: "string \<Rightarrow> int" where
  "dec_val cs = foldl (\<lambda>n c. 10 * n + (int (of_char c) - 48)) 0 (takeWhile is_digit cs)"

definition atoi :: "string \<Rightarrow> int" where
  "atoi cs =
     (let cs = dropWhile (\<lambda>c. c = CHR '' '' \<or> of_char c \<in> {9..13::nat}) cs
      in case cs of
           [] \<Rightarrow> 0
         | c # cs' \<Rightarrow> if c = CHR ''-'' then - dec_val cs' else if c = CHR ''+'' then dec_val cs' else dec_val cs)"

definition main :: "llib \<Rightarrow> kvalt_can_frame \<Rightarrow> char list \<Rightarrow> string list \<Rightarrow> lg \<Rightarrow> fault + proc_end \<times> lg" where
  "main L rx0 buf0 argv s =
     (if length argv \<noteq> ARG_CNT + 1 then Inr (Exited EXIT_FAILURE, ldo (Exit_call EXIT_FAILURE) (print_help s))
      else if argv ! 1 = ''--help'' \<or> argv ! 1 = ''-h''
      then Inr (Exited EXIT_FAILURE, ldo (Exit_call EXIT_FAILURE) (print_help s))
      else let s = fold (\<lambda>t. ldo (Stdout (t @ NL)))
                     ['''', ''Starting Kvaser / Altera CAN Logger...'', ''Number of frames: '' @ argv ! 1] s
           in case kvaalt_start_log L rx0 buf0 (atoi (argv ! 1)) (argv ! 2) (argv ! 3) (argv ! 4) (argv ! 5) (argv ! 6) s of
                Inl f \<Rightarrow> Inl f
              | Inr (e, s) \<Rightarrow>
                  (case e of Returned r \<Rightarrow> Inr (Exited r, ldo (Exit_call r) s) | _ \<Rightarrow> Inr (e, s)))"

section \<open>Random frames\<close>

text \<open>
  A frame the generator may produce: flags are 0 or 1; a remote frame is a classic one without data; the bit rate is
  switched in CAN FD frames only; the identifier fits its type; the length is one CAN allows, below eight for a classic
  frame and up to sixteen without switching; and the rest of the array is zero.
\<close>

definition kvalt_frame_ok :: "kvalt_can_frame \<Rightarrow> bool" where
  "kvalt_frame_ok g \<longleftrightarrow>
     kv_id_type g \<le> 1 \<and> kv_fr_type g \<le> 1 \<and> kv_brs g \<le> kv_fr_type g \<and> kv_rtr g \<le> 1 - kv_fr_type g \<and>
     length (kv_data g) = 64 \<and> unat (kv_data_length g) \<in> set kvalt_dlc \<and>
     (kv_fr_type g = 0 \<longrightarrow> unat (kv_data_length g) < 8) \<and>
     (kv_brs g = 0 \<longrightarrow> unat (kv_data_length g) \<le> 16) \<and>
     (kv_rtr g \<noteq> 0 \<longrightarrow> kv_data_length g = 0) \<and>
     0 \<le> kv_id g \<and> kv_id g < (if kv_id_type g \<noteq> 0 then 2 ^ 29 else 2 ^ 11) \<and>
     (\<forall>i < 64. unat (kv_data_length g) \<le> i \<longrightarrow> kv_data g ! i = 0)"

lemma fill_data_props:
  "i + n \<le> length d \<Longrightarrow>
     length (fst (fill_data L i n d s)) = length d \<and>
     (\<forall>k. k < i \<or> i + n \<le> k \<longrightarrow> fst (fill_data L i n d s) ! k = d ! k) \<and>
     lg_log (snd (fill_data L i n d s)) = lg_log s \<and> lg_rands (snd (fill_data L i n d s)) = lg_rands s + n"
proof (induction n arbitrary: i d s)
  case (Suc n)
  then show ?case
    using Suc.IH [of "Suc i" "d[i := of_nat (l_rand L (lg_rands s) mod 255)]" "s\<lparr>lg_rands := Suc (lg_rands s)\<rparr>"]
    by (auto simp: rand_next_def)
qed simp

lemma kvalt_dlc_bounds:
  "n < 16 \<Longrightarrow> kvalt_dlc ! n \<in> set kvalt_dlc" "n < 16 \<Longrightarrow> kvalt_dlc ! n \<le> 64"
  "n < 11 \<Longrightarrow> kvalt_dlc ! n \<le> 16" "n < 8 \<Longrightarrow> kvalt_dlc ! n < 8"
proof -
  show m: "n < 16 \<Longrightarrow> kvalt_dlc ! n \<in> set kvalt_dlc" by (intro nth_mem) (simp add: kvalt_dlc_def)
  show "n < 16 \<Longrightarrow> kvalt_dlc ! n \<le> 64" using m by (auto simp: kvalt_dlc_def)
  have t: "n < k \<Longrightarrow> k \<le> 16 \<Longrightarrow> kvalt_dlc ! n \<in> set (take k kvalt_dlc)" for k
    using nth_mem [of n "take k kvalt_dlc"] by (simp add: kvalt_dlc_def)
  show "n < 11 \<Longrightarrow> kvalt_dlc ! n \<le> 16" using t [of 11] by (auto simp: kvalt_dlc_def)
  show "n < 8 \<Longrightarrow> kvalt_dlc ! n < 8" using t [of 8] by (auto simp: kvalt_dlc_def)
qed

lemma frame_length_props:
  "frame_length fd brs rtr r \<in> set kvalt_dlc" "frame_length fd brs rtr r \<le> 64"
  "\<not> fd \<Longrightarrow> frame_length fd brs rtr r < 8" "\<not> brs \<Longrightarrow> frame_length fd brs rtr r \<le> 16"
  "\<not> fd \<Longrightarrow> rtr \<Longrightarrow> frame_length fd brs rtr r = 0"
proof -
  show "frame_length fd brs rtr r \<in> set kvalt_dlc" "frame_length fd brs rtr r \<le> 64"
    using kvalt_dlc_bounds(1,2) [of "r mod 16"] kvalt_dlc_bounds(1,2) [of "r mod 11"] kvalt_dlc_bounds(1,2) [of "r mod 8"]
    by (auto simp: frame_length_def kvalt_dlc_def)
  show "\<not> fd \<Longrightarrow> frame_length fd brs rtr r < 8" "\<not> brs \<Longrightarrow> frame_length fd brs rtr r \<le> 16"
    using kvalt_dlc_bounds(3) [of "r mod 11"] kvalt_dlc_bounds(4) [of "r mod 8"] by (auto simp: frame_length_def)
qed (simp add: frame_length_def)

lemma generate_frame_log:
  "\<exists>g s'. generate_can_frame L (Some f) s = (EXIT_SUCCESS, Some g, s') \<and> kvalt_frame_ok g \<and>
     lg_log s' = lg_log s \<and> lg_rands s' = lg_rands s + 5 + unat (kv_data_length g)"
proof -
  define r where "r k = l_rand L (lg_rands s + k)" for k
  define fd brs rtr where "fd = (r 1 mod 2 = 1)" and "brs = (fd \<and> r 2 mod 2 = 1)" and "rtr = (\<not> fd \<and> r 2 mod 2 = 1)"
  define n where "n = frame_length fd brs rtr (r 3)"
  define s5 where "s5 = s\<lparr>lg_rands := lg_rands s + 5\<rparr>"
  define d where "d = fst (fill_data L 0 n (replicate 64 0) s5)"
  define g where "g = \<lparr>kv_data_length = of_nat n,
     kv_id = (if r 0 mod 2 = 1 then int (r 4 mod 536870912) else int (r 4 mod 2048)),
     kv_id_type = of_bool (r 0 mod 2 = 1), kv_fr_type = of_bool fd, kv_brs = of_bool brs, kv_rtr = of_bool rtr, kv_data = d\<rparr>"
  have bools: "brs \<Longrightarrow> fd" "rtr \<Longrightarrow> \<not> fd" by (simp_all add: brs_def rtr_def)
  have len: "n \<in> set kvalt_dlc" "n \<le> 64" "\<not> fd \<Longrightarrow> n < 8" "\<not> brs \<Longrightarrow> n \<le> 16" "rtr \<Longrightarrow> n = 0"
    unfolding n_def
    by (rule frame_length_props(1), rule frame_length_props(2), erule frame_length_props(3),
        erule frame_length_props(4), rule frame_length_props(5) [OF bools(2)])
  have f: "length d = 64" "\<And>k. n \<le> k \<Longrightarrow> k < 64 \<Longrightarrow> d ! k = 0"
    "lg_log (snd (fill_data L 0 n (replicate 64 0) s5)) = lg_log s"
    "lg_rands (snd (fill_data L 0 n (replicate 64 0) s5)) = lg_rands s + 5 + n"
    using fill_data_props [of 0 n "replicate 64 0" L s5] len(2) by (auto simp: d_def s5_def)
  have un: "unat (of_nat n :: u32) = n" using len(2) by (simp add: unat_of_nat take_bit_nat_eq_self)
  have b: "(of_nat (k mod 2) :: u8) = of_bool (k mod 2 = 1)" for k by (cases "even k") (simp_all add: mod2_eq_if)
  have r: "l_rand L (lg_rands s) = r 0" "l_rand L (Suc (lg_rands s)) = r 1" "l_rand L (Suc (Suc (lg_rands s))) = r 2"
    "l_rand L (Suc (Suc (Suc (lg_rands s)))) = r 3" "l_rand L (Suc (Suc (Suc (Suc (lg_rands s))))) = r 4"
    "s\<lparr>lg_rands := Suc (Suc (Suc (Suc (Suc (lg_rands s)))))\<rparr> = s5"
    by (simp_all add: r_def s5_def eval_nat_numeral)
  have gen: "generate_can_frame L (Some f) s = (EXIT_SUCCESS, Some g, snd (fill_data L 0 n (replicate 64 0) s5))"
    unfolding g_def d_def n_def brs_def rtr_def fd_def
    by (cases "r 1 mod 2 = 1")
      (simp_all add: generate_can_frame_def rand_next_def b r Let_def case_prod_beta)
  have "kvalt_frame_ok g"
    using len f(1,2) un bools
    by (cases fd; cases brs; cases rtr) (simp_all add: kvalt_frame_ok_def g_def)
  then show ?thesis using gen f(3,4) un by (auto simp: g_def)
qed

text \<open>C35: Whatever numbers the generator draws, a frame it returns is well-formed in the sense of
  \<open>kvalt_frame_ok\<close>, and it draws five numbers and one for each byte of the payload.
\<close>

theorem generated_frame_typed:
  "\<exists>g s'. generate_can_frame L (Some f) s = (EXIT_SUCCESS, Some g, s') \<and> kvalt_frame_ok g \<and>
     lg_log s' = lg_log s \<and> lg_rands s' = lg_rands s + 5 + unat (kv_data_length g)"
  by (rule generate_frame_log)

section \<open>The recorded bits\<close>

lemma match_many: "match_at (Many p # es) cs \<Longrightarrow> \<exists>u v. cs = u @ v \<and> match_at es v"
proof (induction cs)
  case (Cons c cs)
  then show ?case by (cases "match_at es (c # cs)") (auto intro: exI [of _ "[]"], metis append_Cons)
qed auto

lemma match_ones:
  "match_at (map One ps @ es) cs \<Longrightarrow> \<exists>u v. cs = u @ v \<and> list_all2 (\<lambda>p. p) ps u \<and> match_at es v"
proof (induction ps arbitrary: cs)
  case (Cons p ps)
  then obtain c cs' where "cs = c # cs'" "p c" "match_at (map One ps @ es) cs'" by (cases cs) auto
  then show ?case using Cons.IH by (metis append_Cons list_all2_Cons)
qed simp

lemma regexec_suffix: "regexec es cs \<Longrightarrow> \<exists>u v. cs = u @ v \<and> match_at es v"
proof (induction cs)
  case (Cons c cs)
  then show ?case by (cases "match_at es (c # cs)") (auto intro: exI [of _ "[]"], metis append_Cons)
qed auto

text \<open>A line that matches has an equals sign with a character after it.\<close>

lemma sample_regex_eq:
  assumes "regexec sample_regex cs"
  shows "\<exists>u v. cs = u @ ''= '' @ v"
proof -
  let ?r = sample_regex
  have r: "?r = Many ((=) CHR '' '') # tl ?r" "tl ?r = Many is_digit # drop 2 ?r" by (simp_all add: sample_regex_def)
  obtain u v where 1: "cs = u @ v" "match_at ?r v" using regexec_suffix [OF assms] by blast
  obtain u2 v2 where 2: "v = u2 @ v2" "match_at (tl ?r) v2"
    using match_many [of "(=) CHR '' ''" "tl ?r" v] 1(2) r(1) by auto
  obtain u3 v3 where 3: "v2 = u3 @ v3" "match_at (drop 2 ?r) v3"
    using match_many [of is_digit "drop 2 ?r" v2] 2(2) r(2) by auto
  have "drop 2 ?r = map One [\<lambda>_. True, is_digit, (=) CHR ''>'', (=) CHR '' '', is_digit, (=) CHR '' '',
      (=) CHR ''='', (=) CHR '' ''] @ [Many is_digit]" by (simp add: sample_regex_def)
  with match_ones 3(2) obtain w v4 where w: "v3 = w @ v4" "list_all2 (\<lambda>p. p) [\<lambda>_. True, is_digit, (=) CHR ''>'',
      (=) CHR '' '', is_digit, (=) CHR '' '', (=) CHR ''='', (=) CHR '' ''] w" by metis
  then obtain a b c d e f where "w = [a, b, c, d, e, f, CHR ''='', CHR '' '']"
    by (auto simp: list_all2_Cons1)
  then have "cs = (u @ u2 @ u3 @ [a, b, c, d, e, f]) @ ''= '' @ v4" using 1 2 3 w by simp
  then show ?thesis by blast
qed

lemma strcspn_before: "strcspn_eq (u @ ''='' @ v) \<le> length u"
  by (induction u) (auto simp: strcspn_eq_def)

lemma fgets_length: "length (fst (fgets n cs)) \<le> n"
  by (induction n cs rule: fgets.induct) (auto split: prod.split)

lemma store_line_props:
  assumes "length l \<le> 29" "length buf = 30"
  shows "length (store_line l buf) = 30" "length (c_str (store_line l buf)) \<le> 29"
proof -
  show "length (store_line l buf) = 30" using assms by (simp add: store_line_def)
  have "length (takeWhile (\<lambda>c. c \<noteq> CHR 0x00) (l @ CHR 0x00 # vs)) \<le> length l" for vs
    by (induction l) auto
  then show "length (c_str (store_line l buf)) \<le> 29"
    using assms(1) le_trans unfolding c_str_def store_line_def by fastforce
qed

definition parse_ok :: "parse_st \<Rightarrow> bool" where
  "parse_ok st \<longleftrightarrow> (ps_first st \<longrightarrow> ps_eq_pos st + 2 < 30)"

lemma parse_line_ok:
  assumes "length buf = 30" "length (c_str buf) \<le> 29" "parse_ok st"
  shows "\<exists>t st'. parse_line buf st = Inr (t, st') \<and> parse_ok st'"
proof -
  have "strcspn_eq (c_str buf) + 2 < 30" if m: "regexec sample_regex (c_str buf)"
  proof -
    obtain u v where "c_str buf = u @ ''= '' @ v" using sample_regex_eq [OF m] by blast
    then have "strcspn_eq (c_str buf) \<le> length u" "length u + 2 \<le> length (c_str buf)"
      using strcspn_before [of u "CHR '' '' # v"] by simp_all
    then show ?thesis using assms(2) by linarith
  qed
  then show ?thesis using assms(1,3) by (auto simp: parse_line_def parse_ok_def Let_def)
qed

lemma parse_loop_ok:
  "length buf = 30 \<Longrightarrow> parse_ok st \<Longrightarrow> \<exists>t st'. parse_loop cs buf st = Inr (t, st') \<and> parse_ok st'"
proof (induction cs buf st rule: parse_loop.induct)
  case (1 cs buf st)
  obtain l r e where g: "fgets 29 cs = (l, r, e)" by (cases "fgets 29 cs")
  have l: "length l \<le> 29" using fgets_length [of 29 cs] g by simp
  note b = store_line_props [OF l "1.prems"(1)]
  obtain t st' where p: "parse_line (store_line l buf) st = Inr (t, st')" "parse_ok st'"
    using parse_line_ok [OF b "1.prems"(2)] by blast
  show ?case
  proof (cases e)
    case True
    then show ?thesis using g "1.prems"(2) by (simp add: parse_loop.simps [of cs])
  next
    case False
    then show ?thesis
      using "1.IH" [OF g [symmetric] refl False p(1) refl b(1) p(2)] g p(1) by (auto simp: parse_loop.simps [of cs])
  qed
qed

text \<open>What the parser writes for a sequence of values, and what such a text stands for according to its description.\<close>

fun stp_runs :: "char \<Rightarrow> nat \<Rightarrow> string \<Rightarrow> (nat \<times> char) list" where
  "stp_runs p k [] = [(k, p)]"
| "stp_runs p k (v # vs) = (if p \<noteq> v then (k, p) # stp_runs v 0 vs else stp_runs p (k + 1) vs)"

definition run_text :: "nat \<times> char \<Rightarrow> string" where
  "run_text r = fmt_d (int (fst r)) @ '' '' @ [snd r] @ '' ''"

definition expand_runs :: "(nat \<times> char) list \<Rightarrow> string" where
  "expand_runs rs = concat (map (\<lambda>(k, p). replicate k p) rs)"

fun changes :: "char \<Rightarrow> string \<Rightarrow> nat" where
  "changes p [] = 0"
| "changes p (v # vs) = (if p \<noteq> v then 1 else 0) + changes v vs"

lemma expand_runs_length: "length (expand_runs (stp_runs p k vs)) + changes p vs = k + length vs"
  by (induction p k vs rule: stp_runs.induct) (auto simp: expand_runs_def)

text \<open>A line of the exported table: a time, the number of the signal and its value.\<close>

definition sample_prefix :: "nat \<Rightarrow> string \<Rightarrow> bool" where
  "sample_prefix n t \<longleftrightarrow> length t = n \<and> n \<le> 25 \<and>
     list_all (\<lambda>c. c \<noteq> CHR ''='' \<and> c \<noteq> CHR 0x0A \<and> c \<noteq> CHR 0x00) t \<and>
     (case drop (n - 6) t of
        [c, d, g, b, e, b'] \<Rightarrow> is_digit d \<and> g = CHR ''>'' \<and> b = CHR '' '' \<and> is_digit e \<and> b' = CHR '' ''
      | _ \<Rightarrow> False)"

definition sample_line :: "string \<times> char \<Rightarrow> string" where
  "sample_line x = fst x @ ''= '' @ [snd x] @ NL"

lemma fgets_line:
  "list_all (\<lambda>c. c \<noteq> CHR 0x0A) l \<Longrightarrow> length l < n \<Longrightarrow> fgets n (l @ NL @ cs) = (l @ NL, cs, False)"
proof (induction l arbitrary: n)
  case Nil
  then show ?case by (cases n) (simp_all add: NL_def)
next
  case (Cons c l)
  then show ?case by (cases n) simp_all
qed

lemma is_digit_not [simp]:
  "is_digit c \<Longrightarrow> c \<noteq> CHR 0x0A" "is_digit c \<Longrightarrow> c \<noteq> CHR 0x00"
  by (auto simp: is_digit_def)

lemma fgets_sample:
  assumes "sample_prefix n (fst x)" "is_digit (snd x)"
  shows "fgets 29 (sample_line x @ cs) = (sample_line x, cs, False)"
  using fgets_line [of "fst x @ ''= '' @ [snd x]" 29 cs] assms
  by (auto simp: sample_line_def sample_prefix_def list_all_iff)

lemma regexec_append: "match_at es w \<Longrightarrow> regexec es (u @ w)"
proof (induction u)
  case Nil
  then show ?case by (cases w) auto
qed simp

lemma sample_matches:
  assumes "sample_prefix n (fst x)" "is_digit (snd x)"
  shows "regexec sample_regex (sample_line x)"
proof -
  let ?w = "drop (n - 6) (fst x)"
  obtain c d e where w: "?w = [c, d, CHR ''>'', CHR '' '', e, CHR '' '']" "is_digit d" "is_digit e"
    using assms(1) by (auto simp: sample_prefix_def split: list.splits)
  have "match_at sample_regex (?w @ ''= '' @ [snd x] @ NL)"
    using w by (simp add: sample_regex_def)
  then have "regexec sample_regex (take (n - 6) (fst x) @ ?w @ ''= '' @ [snd x] @ NL)" by (rule regexec_append)
  then show ?thesis by (simp add: sample_line_def flip: append_assoc)
qed

lemma sample_buffer:
  assumes "sample_prefix n (fst x)" "is_digit (snd x)" "length buf = 30"
  shows "c_str (store_line (sample_line x) buf) = sample_line x" "strcspn_eq (sample_line x) = n"
    "store_line (sample_line x) buf ! (n + 2) = snd x" "length (store_line (sample_line x) buf) = 30"
proof -
  have p: "length (fst x) = n" "n \<le> 25" "\<And>c. c \<in> set (fst x) \<Longrightarrow> c \<noteq> CHR ''='' \<and> c \<noteq> CHR 0x00"
    using assms(1) by (auto simp: sample_prefix_def list_all_iff)
  have z: "\<forall>c \<in> set (sample_line x). c \<noteq> CHR 0x00"
    using p(3) assms(2) by (auto simp: sample_line_def NL_def)
  show "c_str (store_line (sample_line x) buf) = sample_line x"
    unfolding c_str_def store_line_def using z by (simp add: takeWhile_append2)
  show "strcspn_eq (sample_line x) = n"
    unfolding strcspn_eq_def sample_line_def using p by (simp add: takeWhile_append2)
  show "store_line (sample_line x) buf ! (n + 2) = snd x"
    using p(1) by (simp add: store_line_def sample_line_def nth_append)
  show "length (store_line (sample_line x) buf) = 30"
    using p assms(3) by (simp add: store_line_def sample_line_def NL_def)
qed

lemma parse_samples:
  assumes "list_all (\<lambda>x. sample_prefix n (fst x) \<and> is_digit (snd x)) xs" "length buf = 30" "n \<le> 25"
  shows "\<exists>t st'. parse_loop (concat (map sample_line xs)) buf \<lparr>ps_first = True, ps_eq_pos = n, ps_prev = p, ps_count = k\<rparr> =
      Inr (t, st') \<and>
    t @ run_text (ps_count st', ps_prev st') = concat (map run_text (stp_runs p k (map snd xs)))"
  using assms
proof (induction xs arbitrary: buf p k)
  case Nil
  then show ?case by (simp add: parse_loop.simps [of "[]"] fgets.simps(2) [of 28, simplified])
next
  case (Cons x xs)
  let ?st = "\<lparr>ps_first = True, ps_eq_pos = n, ps_prev = p, ps_count = k\<rparr>"
  let ?b = "store_line (sample_line x) buf"
  have x: "sample_prefix n (fst x)" "is_digit (snd x)" using Cons.prems(1) by simp_all
  note b = sample_buffer [OF x Cons.prems(2)]
  have l: "parse_line ?b ?st = (if p \<noteq> snd x then Inr (run_text (k, p), \<lparr>ps_first = True, ps_eq_pos = n, ps_prev = snd x, ps_count = 0\<rparr>)
      else Inr ([], \<lparr>ps_first = True, ps_eq_pos = n, ps_prev = p, ps_count = k + 1\<rparr>))"
    using sample_matches [OF x] b Cons.prems(3) by (auto simp: parse_line_def Let_def run_text_def)
  have f: "fgets 29 (sample_line x @ concat (map sample_line xs)) = (sample_line x, concat (map sample_line xs), False)"
    by (rule fgets_sample [OF x])
  show ?case
    using Cons.IH [of ?b "snd x" "if p \<noteq> snd x then 0 else k + 1"] Cons.prems b(4)
    by (auto simp: parse_loop.simps [of "sample_line x @ _"] f l)
qed

text \<open>C36: For a file of lines of the exported form, whose first line only fixes the column, the parser writes the
  runs \<open>stp_runs\<close>. Read the way their description says, they stand for one value less for every change of
  value, the value before the first line being zero.
\<close>

theorem recorded_runs:
  assumes "list_all (\<lambda>x. sample_prefix n (fst x) \<and> is_digit (snd x)) (x # xs)"
    and "length buf0 = 30" "l_regcomp L (lg_log s)"
  shows "\<exists>s'. parse_stp_output L buf0 (concat (map sample_line (x # xs))) out s = Inr (EXIT_SUCCESS, s') \<and>
      hd (lg_log s') = Put out (''Bit sequence: '' @ concat (map run_text (stp_runs CHR ''0'' 0 (map snd xs))) @ NL) \<and>
      length (expand_runs (stp_runs CHR ''0'' 0 (map snd xs))) + changes CHR ''0'' (map snd xs) = length xs"
proof -
  let ?b = "store_line (sample_line x) buf0"
  let ?cs = "concat (map sample_line xs)"
  have x: "sample_prefix n (fst x)" "is_digit (snd x)" "n \<le> 25" using assms(1) by (simp_all add: sample_prefix_def)
  note b = sample_buffer [OF x(1,2) assms(2)]
  obtain t st' where p: "parse_loop ?cs ?b \<lparr>ps_first = True, ps_eq_pos = n, ps_prev = CHR ''0'', ps_count = 0\<rparr> = Inr (t, st')"
    "t @ run_text (ps_count st', ps_prev st') = concat (map run_text (stp_runs CHR ''0'' 0 (map snd xs)))"
    using parse_samples [of n xs ?b "CHR ''0''" 0] assms(1) b(4) x(3) by auto
  have "parse_loop (sample_line x @ ?cs) buf0 \<lparr>ps_first = False, ps_eq_pos = 0, ps_prev = CHR ''0'', ps_count = 0\<rparr> = Inr (t, st')"
    using sample_matches [OF x(1,2)] b(1,2) p(1)
    by (simp add: parse_loop.simps [of "sample_line x @ _"] fgets_sample [OF x(1,2)] parse_line_def)
  then show ?thesis
    using assms(3) p(2) expand_runs_length [of "CHR ''0''" 0 "map snd xs"]
    by (auto simp: parse_stp_output_def Let_def ldo_def run_text_def)
qed

text \<open>An environment in which every call succeeds, and the state at the start of the program.\<close>

definition demo_llib :: llib where
  "demo_llib = \<lparr>canOK = 0, canOPEN_CAN_FD = 1, canOPEN_EXCLUSIVE = 2, canOPEN_REQUIRE_EXTENDED = 4,
     canFD_BITRATE_500K_80P = -1000, canFD_BITRATE_2M_80P = -1001, canMSG_RTR = 1, canMSG_EXT = 2, canMSG_STD = 4,
     canFDMSG_FDF = 8, canFDMSG_BRS = 16, l_open = (\<lambda>c _. c), l_status = (\<lambda>_ _. 0), l_errtext = (\<lambda>_. []),
     l_read = (\<lambda>f _. f), l_rand = (\<lambda>n. n), l_pipe = (\<lambda>_. Some (3, 4)), l_fork = (\<lambda>_. 77), l_syscall = (\<lambda>_ _. 0),
     l_write = (\<lambda>c _. int (length c)), l_regcomp = (\<lambda>_. True), l_file = (\<lambda>_ _. Some []), l_append = (\<lambda>_ _. True)\<rparr>"

definition demo_lg :: lg where
  "demo_lg = \<lparr>lg_log = [], hnd_chn_1 = 0, hnd_chn_2 = 0, stp_pid = 0, lg_pipes = (0, 0), lg_rands = 0\<rparr>"

lemma demo_runs: "concat (map run_text (stp_runs CHR ''0'' 0 ''0110'')) = ''1 0 1 1 0 0 ''"
  by (simp add: run_text_def fmt_d_def print_base.simps digit_char_def)

lemma demo_samples: "list_all (\<lambda>x. sample_prefix 8 (fst x) \<and> is_digit (snd x)) (map (Pair ''10.5> 0 '') ''10110'')"
  by (simp add: sample_prefix_def is_digit_def)

theorem recorded_runs_witness:
  "\<exists>s'. parse_stp_output demo_llib (replicate 30 CHR 0x00)
      (concat (map sample_line (map (Pair ''10.5> 0 '') ''10110''))) ''o'' demo_lg = Inr (EXIT_SUCCESS, s') \<and>
    hd (lg_log s') = Put ''o'' (''Bit sequence: '' @ ''1 0 1 1 0 0 '' @ NL)"
proof -
  have l: "l_regcomp demo_llib (lg_log demo_lg)" by (simp add: demo_llib_def)
  have m: "map (Pair ''10.5> 0 '') ''10110'' = (''10.5> 0 '', CHR ''1'') # map (Pair ''10.5> 0 '') ''0110''" by simp
  have v: "map snd (map (Pair ''10.5> 0 '') ''0110'') = ''0110''" by simp
  show ?thesis
    using recorded_runs [OF demo_samples [unfolded m], of "replicate 30 CHR 0x00" demo_llib demo_lg "''o''"] l
    unfolding m v demo_runs by auto
qed

section \<open>Strings and arrays\<close>

text \<open>
  The strings the user passes fit the arrays of the program. The longest command is the export of the log, which
  ends with the number of the iteration.
\<close>

definition logger_fits :: "int \<Rightarrow> string \<Rightarrow> string \<Rightarrow> string \<Rightarrow> string \<Rightarrow> string \<Rightarrow> bool" where
  "logger_fits num session inst signals trigger outfile \<longleftrightarrow>
     length session \<le> 74 \<and> length outfile \<le> 96 \<and>
     length inst + length signals + length trigger + length (fmt_d num) \<le> 91"

lemma print_base_mono: "m \<le> n \<Longrightarrow> length (print_base 10 m) \<le> length (print_base 10 n)"
proof (induction n arbitrary: m rule: less_induct)
  case (less n)
  show ?case
  proof (cases "m < 10")
    case True
    then show ?thesis by (simp add: print_base.simps [of 10 m] print_base.simps [of 10 n])
  next
    case False
    then have "length (print_base 10 (m div 10)) \<le> length (print_base 10 (n div 10))"
      using less.prems by (intro less.IH) (auto simp: div_le_mono)
    then show ?thesis
      using False less.prems by (simp add: print_base.simps [of 10 m] print_base.simps [of 10 n])
  qed
qed

lemma fmt_d_mono: "0 \<le> i \<Longrightarrow> i \<le> j \<Longrightarrow> length (fmt_d i) \<le> length (fmt_d j)"
  by (simp add: fmt_d_def print_base_mono)

text \<open>The frames written to the bus so far.\<close>

definition is_write :: "lcall \<Rightarrow> bool" where
  "is_write c \<longleftrightarrow> (case c of CanWrite _ _ _ _ _ \<Rightarrow> True | _ \<Rightarrow> False)"

definition writes :: "lg \<Rightarrow> nat" where
  "writes s = length (filter is_write (lg_log s))"

lemma writes_ldo [simp]: "writes (ldo c s) = (if is_write c then 1 else 0) + writes s"
  by (simp add: writes_def ldo_def)

lemma writes_upd [simp]:
  "writes (s\<lparr>hnd_chn_1 := h\<rparr>) = writes s" "writes (s\<lparr>hnd_chn_2 := h\<rparr>) = writes s"
  "writes (s\<lparr>stp_pid := p\<rparr>) = writes s" "writes (s\<lparr>lg_pipes := pp\<rparr>) = writes s"
  by (simp_all add: writes_def)

lemma writes_check [simp]: "writes (check L t st s) = writes s"
  by (simp add: check_def is_write_def)

lemma writes_command [simp]: "writes (snd (stp_command L cmd msg d s)) = writes s"
  by (simp add: stp_command_def Let_def is_write_def)

lemma writes_send: "writes (snd (kvaser_send_frame L f 0 s)) = Suc (writes s)"
  by (simp add: kvaser_send_frame_def kvaser_handle_def can_checked_def can_call_def Let_def is_write_def case_prod_beta)

lemma writes_read: "writes (snd (snd (kvaser_read_frame L f 1 s))) = writes s"
  by (simp add: kvaser_read_frame_def kvaser_handle_def can_call_def Let_def is_write_def case_prod_beta)

lemma writes_checked: "\<not> is_write c \<Longrightarrow> writes (snd (can_checked L t c s)) = writes s"
  by (simp add: can_checked_def can_call_def)

lemma writes_error_exit [simp]: "writes (snd (kvaser_error_exit L s)) = writes s"
  by (simp add: kvaser_error_exit_def can_checked_def can_call_def is_write_def)

lemma writes_steps:
  "list_all (\<lambda>x. \<not> is_write (snd x)) cs \<Longrightarrow> writes (snd (kvaser_steps L cs s)) = writes s"
proof (induction cs arbitrary: s)
  case (Cons x cs)
  obtain t c where x: "x = (t, c)" by (cases x)
  then show ?case
    using Cons writes_checked [of c L t s] by (simp add: case_prod_beta)
qed simp

lemma writes_kvaser_init [simp]: "writes (snd (kvaser_init L s)) = writes s"
  by (simp add: kvaser_init_def kvaser_open_def Let_def writes_steps is_write_def del: kvaser_steps.simps)

lemma sprintf_ok: "length t < n \<Longrightarrow> sprintf_buf n t = Inr t"
  by (simp add: sprintf_buf_def)

lemma process_ok:
  assumes "length buf0 = 30" "\<And>p l. l_append L p l"
  shows "\<exists>r s'. process_stp_output L buf0 tmp_export out f s = Inr (r, s') \<and> writes s' = writes s"
proof -
  define P where "P = ''./'' @ tmp_export @ ''.tbl''"
  have p: "sprintf_buf 200 (''./'' @ tmp_export @ ''.tbl'') = Inr P"
    by (simp add: sprintf_buf_def tmp_export_def P_def)
  have parse: "\<exists>r s'. parse_stp_output L buf0 stp out s = Inr (r, s') \<and> writes s' = writes s" for stp s
    using parse_loop_ok [OF assms(1), of "\<lparr>ps_first = False, ps_eq_pos = 0, ps_prev = CHR ''0'', ps_count = 0\<rparr>" stp]
    by (auto simp: parse_stp_output_def Let_def parse_ok_def is_write_def)
  show ?thesis
  proof (cases "l_file L P (lg_log s)")
    case None
    then show ?thesis unfolding process_stp_output_def p by (simp add: is_write_def)
  next
    case (Some stp)
    let ?s = "snd (store_frame_info f out (ldo (Fopen out ''a'') (ldo (Fopen P ''r'') s)))"
    obtain r s' where "parse_stp_output L buf0 stp out ?s = Inr (r, s')" "writes s' = writes ?s" using parse by blast
    then show ?thesis
      unfolding process_stp_output_def p using Some assms(2) by (simp add: is_write_def store_frame_info_def)
  qed
qed

lemma writes_generate:
  "\<exists>g s'. generate_can_frame L (Some f) s = (EXIT_SUCCESS, Some g, s') \<and> writes s' = writes s"
  using generate_frame_log [of L f s] by (auto simp: writes_def)

lemma command_ok:
  assumes "length t < n"
  shows "\<exists>r s'. (case sprintf_buf n t of Inl f \<Rightarrow> Inl f | Inr cmd \<Rightarrow> Inr (stp_command L cmd msg d s)) = Inr (r, s') \<and>
    writes s' = writes s"
  using writes_command [of L t msg d s] by (cases "stp_command L t msg d s") (simp add: sprintf_ok [OF assms])

lemma run_aquisition_ok:
  assumes "length inst + length signals + length trigger + length (fmt_d i) \<le> 91"
  shows "\<exists>r s'. stp_run_aquisition L i inst signals trigger s = Inr (r, s') \<and> writes s' = writes s"
  unfolding stp_run_aquisition_def using assms by (intro command_ok) (simp add: quoted_def QUOTE_def NL_def)

lemma export_log_ok:
  assumes "length inst + length signals + length trigger + length (fmt_d i) \<le> 91"
  shows "\<exists>r s'. stp_export_log L i inst signals trigger tmp_export s = Inr (r, s') \<and> writes s' = writes s"
  unfolding stp_export_log_def using assms by (intro command_ok) (simp add: quoted_def QUOTE_def NL_def tmp_export_def)

lemma iteration_ok:
  assumes "logger_fits num session inst signals trigger outfile" "0 \<le> i" "i \<le> num"
    and "length buf0 = 30" "\<And>p l. l_append L p l"
  shows "\<exists>s'. log_iteration L rx0 buf0 i inst signals trigger outfile s = Inr s' \<and> writes s' = Suc (writes s)"
proof -
  have d: "length inst + length signals + length trigger + length (fmt_d i) \<le> 91"
    using assms(1) fmt_d_mono [OF assms(2,3)] by (simp add: logger_fits_def)
  obtain g s1 where g: "generate_can_frame L (Some rx0) s = (EXIT_SUCCESS, Some g, s1)" "writes s1 = writes s"
    using writes_generate by blast
  obtain r2 s2 where a: "stp_run_aquisition L i inst signals trigger s1 = Inr (r2, s2)" "writes s2 = writes s1"
    using run_aquisition_ok [OF d] by blast
  obtain r3 s3 where b: "kvaser_send_frame L g 0 s2 = (r3, s3)" by fastforce
  obtain r4 f4 s4 where c: "kvaser_read_frame L rx0 1 s3 = (r4, f4, s4)" by (cases "kvaser_read_frame L rx0 1 s3")
  obtain r5 s5 where e: "stp_export_log L i inst signals trigger tmp_export (stp_wait_aquisition_end s4) = Inr (r5, s5)"
    "writes s5 = writes (stp_wait_aquisition_end s4)" using export_log_ok [OF d] by blast
  obtain r6 s6 where f: "process_stp_output L buf0 tmp_export outfile g s5 = Inr (r6, s6)" "writes s6 = writes s5"
    using process_ok [OF assms(4,5)] by blast
  have "writes s3 = Suc (writes s2)" "writes s4 = writes s3"
    using writes_send [of L g s2] writes_read [of L rx0 s3] b c by simp_all
  then show ?thesis
    using g a b c e f by (simp add: log_iteration_def is_write_def stp_wait_aquisition_end_def)
qed

lemma log_loop_ok:
  assumes "logger_fits num session inst signals trigger outfile" "int (i + n) \<le> num"
    and "length buf0 = 30" "\<And>p l. l_append L p l"
  shows "\<exists>s'. log_loop L rx0 buf0 i n inst signals trigger outfile s = Inr s' \<and> writes s' = writes s + n"
  using assms(2)
proof (induction n arbitrary: i s)
  case (Suc n)
  obtain s1 where 1: "log_iteration L rx0 buf0 (int i) inst signals trigger outfile s = Inr s1" "writes s1 = Suc (writes s)"
    using iteration_ok [OF assms(1) _ _ assms(3,4), of "int i"] Suc.prems by auto
  show ?case using Suc.IH [of "Suc i" s1] Suc.prems 1 by auto
qed simp

lemma writes_stp_init [simp]: "writes (snd (stp_init L p s)) = writes s"
  by (simp add: stp_init_def prepare_child_pipes_def Let_def is_write_def split: option.split)

lemma writes_exit [simp]: "writes (stp_exit s) = writes s" "writes (snd (stp_close_session L s)) = writes s"
  by (simp_all add: stp_exit_def stp_close_session_def Let_def is_write_def)

lemma erase_ok: "length path \<le> 96 \<Longrightarrow> erase_file path s = Inr (ldo (System (''rm '' @ path)) s)"
  unfolding erase_file_def by (subst sprintf_ok) simp_all

lemma create_temp_iff:
  "stp_create_temp_session a b s =
     (if length a + length b < 96 then Inr (EXIT_SUCCESS, ldo (System (''cp '' @ a @ '' '' @ b)) s) else Inl OutOfBounds)"
  by (simp add: stp_create_temp_session_def sprintf_buf_def)

lemma start_session_ok: "\<exists>r s'. stp_start_session L tmp_session s = Inr (r, s') \<and> writes s' = writes s"
proof -
  obtain c where c: "sprintf_buf 300 (''open_session -name '' @ tmp_session @ NL) = Inr c"
    by (simp add: sprintf_buf_def tmp_session_def NL_def)
  obtain s0 where s0: "s0 = ldo (Stdout (''Sending command to start Signal tap II session...'' @ NL)) s" "writes s0 = writes s"
    by (simp add: is_write_def)
  obtain r s1 where r: "stp_command L c ''Session not started properly!'' 1000000 s0 = (r, s1)" by fastforce
  have "writes s1 = writes s0" using writes_command r by (metis snd_conv)
  then show ?thesis
    unfolding stp_start_session_def c sum.case Let_def s0(1) [symmetric] r prod.case using s0(2) by (simp add: is_write_def)
qed

text \<open>C34: If both devices initialize, the output file can be opened and the strings fit, the logger ends with result 0
  after writing exactly the requested number of frames, whatever the later calls return: errors of sending, reading,
  recording and exporting do not stop it, and no array is overrun.
\<close>

theorem logger_completes:
  assumes "logger_fits num session inst signals trigger outfile" "length buf0 = 30" "\<And>p l. l_append L p l"
    and "fst (kvaser_init L (ldo Srand s)) = 0"
    and "fst (stp_init L (Some QUARTUS_STP_PATH) (snd (kvaser_init L (ldo Srand s)))) = Returned 0"
  shows "\<exists>s'. kvaalt_start_log L rx0 buf0 num session inst signals trigger outfile s = Inr (Returned 0, s') \<and>
    writes s' = writes s + nat num"
proof -
  obtain s1 where 1: "kvaser_init L (ldo Srand s) = (0, s1)" "writes s1 = writes s"
    using assms(4) writes_kvaser_init [of L "ldo Srand s"]
    by (cases "kvaser_init L (ldo Srand s)") (auto simp: is_write_def)
  obtain s2 where 2: "stp_init L (Some QUARTUS_STP_PATH) s1 = (Returned 0, s2)" "writes s2 = writes s1"
    using assms(5) 1(1) writes_stp_init [of L "Some QUARTUS_STP_PATH" s1]
    by (cases "stp_init L (Some QUARTUS_STP_PATH) s1") auto
  let ?s3 = "ldo (System (''cp '' @ session @ '' '' @ tmp_session)) (ldo (System (''rm '' @ outfile)) s2)"
  have 3: "erase_file outfile s2 = Inr (ldo (System (''rm '' @ outfile)) s2)"
    "stp_create_temp_session session tmp_session (ldo (System (''rm '' @ outfile)) s2) = Inr (EXIT_SUCCESS, ?s3)"
    using assms(1) by (simp_all add: erase_ok create_temp_iff logger_fits_def tmp_session_def)
  obtain r s4 where 4: "stp_start_session L tmp_session ?s3 = Inr (r, s4)" "writes s4 = writes ?s3"
    using start_session_ok by blast
  obtain s5 where 5: "log_loop L rx0 buf0 0 (nat num) inst signals trigger outfile s4 = Inr s5" "writes s5 = writes s4 + nat num"
  proof (cases "0 \<le> num")
    case True
    then show ?thesis using log_loop_ok [OF assms(1) _ assms(2,3), of 0 "nat num" rx0 s4] that by auto
  qed (use that in simp)
  have "writes ?s3 = writes s" using 1(2) 2(2) by (simp add: is_write_def)
  then show ?thesis
    using 1 2 3 4 5 by (simp add: kvaalt_start_log_def Let_def)
qed

text \<open>The frame on the stack before it is filled.\<close>

definition demo_frame :: kvalt_can_frame where
  "demo_frame = \<lparr>kv_data_length = 0, kv_id = 0, kv_id_type = 0, kv_fr_type = 0, kv_brs = 0, kv_rtr = 0, kv_data = replicate 64 0\<rparr>"

theorem logger_completes_witness:
  "\<exists>s'. kvaalt_start_log demo_llib demo_frame (replicate 30 CHR 0x00) 3 ''debug.stp'' ''i'' ''s'' ''t'' ''out.txt'' demo_lg =
     Inr (Returned 0, s') \<and> writes s' = 3"
proof -
  have "logger_fits 3 ''debug.stp'' ''i'' ''s'' ''t'' ''out.txt''"
    by (simp add: logger_fits_def fmt_d_def print_base.simps)
  moreover have "fst (kvaser_init demo_llib (ldo Srand demo_lg)) = 0"
    by (simp add: kvaser_init_def kvaser_open_def can_checked_def can_call_def check_def ldo_def demo_llib_def Let_def EXIT_SUCCESS_def)
  moreover have "fst (stp_init demo_llib (Some QUARTUS_STP_PATH) s) = Returned 0" for s
    by (simp add: stp_init_def demo_llib_def Let_def EXIT_SUCCESS_def)
  moreover have "l_append demo_llib p l" for p l by (simp add: demo_llib_def)
  ultimately show ?thesis
    using logger_completes [of 3 "''debug.stp''" "''i''" "''s''" "''t''" "''out.txt''" "replicate 30 CHR 0x00" demo_llib demo_lg demo_frame]
    by (auto simp: writes_def demo_lg_def)
qed

section \<open>Initialization\<close>

definition is_release :: "lcall \<Rightarrow> bool" where
  "is_release c \<longleftrightarrow> (case c of CanBusOff _ \<Rightarrow> True | CanClose _ \<Rightarrow> True | CanUnloadLibrary \<Rightarrow> True | _ \<Rightarrow> False)"

text \<open>The calls a step adds to the log; it leaves the handles alone.\<close>

definition adds :: "lcall list \<Rightarrow> lg \<Rightarrow> lg \<Rightarrow> bool" where
  "adds new s s' \<longleftrightarrow> lg_log s' = new @ lg_log s \<and> hnd_chn_1 s' = hnd_chn_1 s \<and> hnd_chn_2 s' = hnd_chn_2 s"

lemma adds_trans: "adds a s s1 \<Longrightarrow> adds b s1 s2 \<Longrightarrow> adds (b @ a) s s2"
  by (simp add: adds_def)

lemma checked_adds: "\<exists>new. adds (new @ [c]) s (snd (can_checked L t c s)) \<and> filter is_release new = []"
proof (cases "l_status L c (lg_log s) = canOK L")
  case True
  then show ?thesis
    by (intro exI [of _ "[]"]) (simp add: adds_def can_checked_def can_call_def check_def ldo_def)
next
  case False
  then show ?thesis
    by (intro exI [of _ "take 2 (lg_log (snd (can_checked L t c s)))"])
      (simp add: adds_def can_checked_def can_call_def check_def ldo_def is_release_def)
qed

lemma error_exit_adds:
  "\<exists>new. adds new s (snd (kvaser_error_exit L s)) \<and>
     {CanClose (hnd_chn_1 s), CanClose (hnd_chn_2 s), CanUnloadLibrary} \<subseteq> set new"
proof -
  let ?c1 = "CanBusOff (hnd_chn_1 s)" and ?c2 = "CanBusOff (hnd_chn_2 s)"
  let ?c3 = "CanClose (hnd_chn_1 s)" and ?c4 = "CanClose (hnd_chn_2 s)"
  have call: "adds [c] s' (snd (can_call L c s'))" for c s' by (simp add: adds_def can_call_def ldo_def)
  let ?s1 = "snd (can_call L ?c1 s)"
  let ?s2 = "snd (can_checked L ''canBusOff'' ?c2 ?s1)"
  let ?s3 = "snd (can_call L ?c3 ?s2)"
  let ?s4 = "snd (can_checked L ''canClose'' ?c4 ?s3)"
  let ?s5 = "snd (can_checked L ''canUnloadLibrary'' CanUnloadLibrary ?s4)"
  obtain n2 n4 n5 where n: "adds (n2 @ [?c2]) ?s1 ?s2" "adds (n4 @ [?c4]) ?s3 ?s4" "adds (n5 @ [CanUnloadLibrary]) ?s4 ?s5"
    using checked_adds by metis
  have h: "hnd_chn_1 ?s2 = hnd_chn_1 s" "hnd_chn_2 ?s1 = hnd_chn_2 s" "hnd_chn_2 ?s3 = hnd_chn_2 s"
    using n call [of ?c1 s] call [of ?c3 ?s2] by (auto simp: adds_def)
  have "snd (kvaser_error_exit L s) = ?s5"
    by (simp only: kvaser_error_exit_def Let_def case_prod_beta snd_conv h)
  moreover have "adds ((n5 @ [CanUnloadLibrary]) @ (n4 @ [?c4]) @ [?c3] @ (n2 @ [?c2]) @ [?c1]) s ?s5"
    using adds_trans [OF adds_trans [OF adds_trans [OF adds_trans [OF call [of ?c1 s] n(1)] call [of ?c3 ?s2]] n(2)] n(3)]
    by simp
  ultimately show ?thesis by (intro exI conjI) (assumption | simp)+
qed

lemma steps_adds:
  assumes "list_all (\<lambda>x. \<not> is_release (snd x)) cs"
  shows "\<exists>new. adds new s (snd (kvaser_steps L cs s)) \<and>
    (fst (kvaser_steps L cs s) = 0 \<and> set (map snd cs) \<subseteq> set new \<and> filter is_release new = [] \<or>
     fst (kvaser_steps L cs s) = 1 \<and> {CanClose (hnd_chn_1 s), CanClose (hnd_chn_2 s), CanUnloadLibrary} \<subseteq> set new)"
  using assms
proof (induction cs arbitrary: s)
  case Nil
  then show ?case by (simp add: adds_def EXIT_SUCCESS_def)
next
  case (Cons x cs)
  obtain t c where x: "x = (t, c)" by (cases x)
  obtain st s1 where c: "can_checked L t c s = (st, s1)" by fastforce
  obtain new where new: "adds (new @ [c]) s s1" "filter is_release new = []"
    using checked_adds [of c s L t] c by auto
  have h: "hnd_chn_1 s1 = hnd_chn_1 s" "hnd_chn_2 s1 = hnd_chn_2 s" using new(1) by (simp_all add: adds_def)
  show ?case
  proof (cases "st = canOK L")
    case True
    then have k: "kvaser_steps L (x # cs) s = kvaser_steps L cs s1" by (simp add: x c)
    obtain n2 where n2: "adds n2 s1 (snd (kvaser_steps L cs s1))"
      "fst (kvaser_steps L cs s1) = 0 \<and> set (map snd cs) \<subseteq> set n2 \<and> filter is_release n2 = [] \<or>
       fst (kvaser_steps L cs s1) = 1 \<and> {CanClose (hnd_chn_1 s), CanClose (hnd_chn_2 s), CanUnloadLibrary} \<subseteq> set n2"
      using Cons.IH [of s1] Cons.prems h by auto
    show ?thesis
      unfolding k using adds_trans [OF new(1) n2(1)] n2(2) new(2) Cons.prems x
      by (intro exI [of _ "n2 @ new @ [c]"]) auto
  next
    case False
    then have k: "kvaser_steps L (x # cs) s = kvaser_error_exit L s1" by (simp add: x c)
    obtain n2 where n2: "adds n2 s1 (snd (kvaser_error_exit L s1))"
      "{CanClose (hnd_chn_1 s), CanClose (hnd_chn_2 s), CanUnloadLibrary} \<subseteq> set n2"
      using error_exit_adds [of s1 L] h by auto
    have "fst (kvaser_error_exit L s1) = 1" by (simp add: kvaser_error_exit_def case_prod_beta Let_def)
    then show ?thesis
      unfolding k using adds_trans [OF new(1) n2(1)] n2(2) by (intro exI [of _ "n2 @ new @ [c]"]) auto
  qed
qed

text \<open>The initialization ends in one of three ways. With 0 both channels are on the bus and nothing was released.
  With 1 both channels were closed and the library unloaded. With -1 one of the channels could not be opened; then
  nothing is released, neither the other channel nor the library.
\<close>

lemma kvaser_init_results:
  "\<exists>new. lg_log (snd (kvaser_init L s)) = new @ lg_log s \<and>
    (let r = fst (kvaser_init L s); h1 = hnd_chn_1 (snd (kvaser_init L s)); h2 = hnd_chn_2 (snd (kvaser_init L s))
     in r = 0 \<and> {CanBusOn h1, CanBusOn h2} \<subseteq> set new \<and> filter is_release new = [] \<or>
        r = 1 \<and> {CanClose h1, CanClose h2, CanUnloadLibrary} \<subseteq> set new \<or>
        r = -1 \<and> (h1 < 0 \<or> h2 < 0) \<and> filter is_release new = [])"
proof -
  define fl where "fl = canOPEN_CAN_FD L OR canOPEN_EXCLUSIVE L OR canOPEN_REQUIRE_EXTENDED L"
  define pre where "pre = [CanOpenChannel 1 fl, CanOpenChannel 0 fl, CanInitializeLibrary, Siginterrupt]"
  define h1 where "h1 = l_open L 0 (CanInitializeLibrary # Siginterrupt # lg_log s)"
  define h2 where "h2 = l_open L 1 (CanOpenChannel 0 fl # CanInitializeLibrary # Siginterrupt # lg_log s)"
  define s1 where "s1 = (ldo (CanOpenChannel 1 fl)
     ((ldo (CanOpenChannel 0 fl) (ldo CanInitializeLibrary (ldo Siginterrupt s)))\<lparr>hnd_chn_1 := h1\<rparr>))\<lparr>hnd_chn_2 := h2\<rparr>"
  define cs where "cs = [(''canSetBusParams'', CanSetBusParams h1 (canFD_BITRATE_500K_80P L)),
     (''canSetBusParamsFd'', CanSetBusParamsFd h1 (canFD_BITRATE_2M_80P L)), (''canBusOn'', CanBusOn h1),
     (''canSetBusParams'', CanSetBusParams h2 (canFD_BITRATE_500K_80P L)),
     (''canSetBusParamsFd'', CanSetBusParamsFd h2 (canFD_BITRATE_2M_80P L)), (''canBusOn'', CanBusOn h2)]"
  have init: "kvaser_init L s =
    (if h1 < 0 then (-1, ldo (Stdout ''canOpenChannel 0'') s1)
     else if h2 < 0 then (-1, ldo (Stdout ''canOpenChannel 1'') s1) else kvaser_steps L cs s1)"
    unfolding kvaser_init_def kvaser_open_def Let_def prod.case ldo_def fl_def [symmetric]
    by (simp add: cs_def s1_def h1_def h2_def ldo_def del: kvaser_steps.simps)
  have s1: "lg_log s1 = pre @ lg_log s" "hnd_chn_1 s1 = h1" "hnd_chn_2 s1 = h2"
    by (simp_all add: s1_def ldo_def pre_def)
  have rel: "filter is_release pre = []" "list_all (\<lambda>x. \<not> is_release (snd x)) cs"
    by (simp_all add: pre_def cs_def is_release_def)
  obtain new where new: "adds new s1 (snd (kvaser_steps L cs s1))"
    "fst (kvaser_steps L cs s1) = 0 \<and> set (map snd cs) \<subseteq> set new \<and> filter is_release new = [] \<or>
     fst (kvaser_steps L cs s1) = 1 \<and> {CanClose h1, CanClose h2, CanUnloadLibrary} \<subseteq> set new"
    using steps_adds [OF rel(2), of s1 L] by (auto simp: s1)
  consider (fail) m where "kvaser_init L s = (-1, ldo (Stdout m) s1)" "h1 < 0 \<or> h2 < 0"
    | (steps) "kvaser_init L s = kvaser_steps L cs s1" using init by (metis (full_types))
  then show ?thesis
  proof cases
    case fail
    then show ?thesis
      using rel(1) by (intro exI [of _ "Stdout m # pre"]) (auto simp: ldo_def s1 is_release_def)
  next
    case steps
    have "set (map snd cs) \<supseteq> {CanBusOn h1, CanBusOn h2}" by (simp add: cs_def)
    then show ?thesis
      unfolding steps using new rel(1) by (intro exI [of _ "new @ pre"]) (auto simp: adds_def s1 Let_def)
  qed
qed

section \<open>The documented example\<close>

definition example_session :: string where
  "example_session = ''/DOKUMENTY/Skola/CVUT-FEL/CAN_FD_PCIe/FPGA_design/Quartus/CAN_FD_SoC/output_files/debug.stp''"

definition example_args :: "string list" where
  "example_args = [''kvaalt_logger'', ''10'', example_session, ''signal_set: 2018/06/14 15:19:43  #0'',
     ''trigger: 2018/06/14 15:19:43  #1'']"

definition example_full :: "string list" where
  "example_full = [''kvaalt_logger'', ''10'', example_session, ''auto_signaltap_0'', ''signal_set: 2018/06/14 15:19:43  #0'',
     ''trigger: 2018/06/14 15:19:43  #1'', ''out.txt'']"

lemma example_overruns: "stp_create_temp_session example_session tmp_session s = Inl OutOfBounds"
  by (simp add: create_temp_iff example_session_def tmp_session_def)

text \<open>The call the help text gives as an example passes four arguments: the program prints the help text and exits
  with a failure. With the missing arguments added, its session path is too long: once both devices are initialized,
  the command that copies the session overruns its array.
\<close>

lemma example_fails:
  assumes "\<And>s. fst (kvaser_init L s) = 0" "\<And>p s. fst (stp_init L (Some p) s) = Returned 0"
  shows "main L rx0 buf0 example_args s = Inr (Exited EXIT_FAILURE, ldo (Exit_call EXIT_FAILURE) (print_help s)) \<and>
    main L rx0 buf0 example_full s = Inl OutOfBounds"
proof -
  have nth: "example_full ! 1 = ''10''" "example_full ! 2 = example_session" "example_full ! 6 = ''out.txt''"
    "length example_full = 7" "length example_args = 5"
    by (simp_all add: example_full_def example_args_def)
  have log: "kvaalt_start_log L rx0 buf0 n example_session i si t ''out.txt'' s = Inl OutOfBounds" for n i si t s
  proof -
    obtain s1 where 1: "kvaser_init L (ldo Srand s) = (0, s1)" using assms(1) by (metis prod.collapse)
    obtain s2 where 2: "stp_init L (Some QUARTUS_STP_PATH) s1 = (Returned 0, s2)" using assms(2) by (metis prod.collapse)
    have 3: "erase_file ''out.txt'' s2 = Inr (ldo (System (''rm '' @ ''out.txt'')) s2)" by (rule erase_ok) simp
    show ?thesis unfolding kvaalt_start_log_def Let_def 1 prod.case 2 by (simp add: 3 example_overruns)
  qed
  have "main L rx0 buf0 example_full s = Inl OutOfBounds"
    unfolding main_def Let_def nth log by (simp add: ARG_CNT_def)
  then show ?thesis by (simp add: main_def nth(5) ARG_CNT_def)
qed

lemma example_fails_witness:
  "main demo_llib demo_frame (replicate 30 CHR 0x00) example_full demo_lg = Inl OutOfBounds"
proof -
  have "fst (kvaser_init demo_llib s) = 0" for s
    by (simp add: kvaser_init_def kvaser_open_def can_checked_def can_call_def check_def ldo_def demo_llib_def Let_def EXIT_SUCCESS_def)
  moreover have "fst (stp_init demo_llib (Some p) s) = Returned 0" for p s
    by (simp add: stp_init_def demo_llib_def Let_def EXIT_SUCCESS_def)
  ultimately show ?thesis
    using example_fails [of demo_llib demo_frame "replicate 30 CHR 0x00" demo_lg] by blast
qed

end
