(* ===== verification/Spec2Isabelle.thy ===== *)
theory Spec2Isabelle
  imports Ctu_Link Ctu_Pci Ctu_Filters Ctu_User Ctu_Regtest Ctu_Crc Ctu_Fault Ctu_Logger
begin

text \<open>
  CTU CAN FD: the driver of a CAN FD controller and the parts of the controller it works with.
  Paths are relative to the root of the repository.

  The program. \<open>driver/ctucanfd_base.c\<close> is the Linux network driver: it configures the controller,
  puts frames into its TXT buffers, collects finished ones in the completion interrupt, reads received
  frames from the RX FIFO in a NAPI poll and reports errors. \<open>driver/ctucanfd_pci.c\<close> and
  \<open>driver/ctucanfd_platform.c\<close> attach it to a bus. \<open>driver/ctucanfd_hw.c\<close> is an older library for the
  same controller on bit-field unions. \<open>driver/ctucanfd_linux_defs.c\<close> holds the bit timing
  calculation. The controller is VHDL under \<open>src/\<close>: TXT buffers, priority decoder, interrupt
  module, RX buffer and frame filters are the parts the driver sees through its registers; bit stuffing,
  CRC and fault confinement are parts of the CAN core between the buffers and the bus. \<open>tools/Kvaser_logger\<close>
  is a test bench tool that sends random frames with another controller and records the bus.

  The model. A driver function becomes a function on the record \<open>'d ndev\<close>: private data, statistics, the
  log of calls into the kernel, and the device. The device has an arbitrary type \<open>'d\<close> behind a
  record \<open>'d bus\<close> of a 32-bit load and store, so that a device may change at any access. Answers of
  the kernel come from a record \<open>kern\<close> of functions of the log. Error returns are negated error numbers
  as in C, memory faults are the left side of a sum type, and machine integers are words of their width.
  A circuit becomes a record of its registers and a function for one clock cycle, with a record of its input
  signals as an argument; a signal is \<open>True\<close> where it is '1'.

  The theories, in the order of their imports:

  \<^item> \<open>Ctu_Prelude\<close>: types, \<open>BIT\<close>, \<open>GENMASK\<close>, \<open>FIELD_GET\<close>, \<open>FIELD_PREP\<close>, byte order, shared lemmas.
  \<^item> \<open>Ctu_Kregs\<close>: offsets and masks of \<open>ctucanfd_kregs.h\<close> and \<open>ctucanfd_kframe.h\<close>.
  \<^item> \<open>Ctu_Regs\<close>: the bit-field unions of \<open>ctucanfd_regs.h\<close> and \<open>ctucanfd_frame.h\<close> as lists of fields in
    declaration order; both generations of headers describe the same registers.
  \<^item> \<open>Ctu_Linux\<close>: \<open>ctucanfd_linux_defs.h\<close> and \<open>ctucanfd_linux_defs.c\<close>: data length codes, bit timing
    search, fix-up and validation. The search is a \<open>partial_function\<close>; \<open>Ctu_Config\<close> shows that it
    returns for the limits of the controller, without a division by zero.
  \<^item> \<open>Ctu_Dev\<close>: state of the driver, kernel calls, register access in both byte orders.
  \<^item> \<open>Ctu_Tx\<close>, \<open>Ctu_Rx\<close>, \<open>Ctu_Config\<close>, \<open>Ctu_Irq\<close>, \<open>Ctu_Life\<close>: the functions of \<open>ctucanfd_base.c\<close> in
    groups, with the properties that hold on any device: register sequences, decoded settings,
    bounded reset, interrupt results, and balanced resources on every path of open, close and probe.
  \<^item> \<open>Ctu_Pci\<close>: probe and removal of the two bus layers, with several cores on one card, and the power
    management entry points. The resources held are counted from the log of calls.
  \<^item> \<open>Ctu_Txt_Spec\<close>: the abstract view of the TXT buffers, the step relation \<open>hwstep\<close> of the hardware on it
    and the driver's commands; the finished, active and waiting buffers form a window of the ring.
  \<^item> \<open>Ctu_TxSys\<close>: the locale \<open>txt_core\<close>, the contract of a device that behaves like the view, and the
    transmit path of the driver verified against it.
  \<^item> \<open>Ctu_Core\<close>: the VHDL of the TXT buffer state machine, the priority decoder and the interrupt status
    bit as one device \<open>core_bus\<close> that takes any number of clock cycles between two accesses; it
    interprets \<open>txt_core\<close> for four buffers.
  \<^item> \<open>Ctu_System\<close>: the step relation \<open>sys_step\<close> of driver entry points, polls, interrupts and clock cycles in
    any order, split where an interrupt may come between, and its invariant.
  \<^item> \<open>Ctu_RxBuf\<close>: the ring of the RX buffer from \<open>src/rx_buffer\<close> and its refinement to a queue of frames.
  \<^item> \<open>Ctu_RxFsm\<close>: the state machine that stores a frame into that ring, with the words it writes, the timestamps
    written at the end of the frame and the commit register. It refines a specification by lists, for any
    order of its inputs and reads in between; a whole frame is stored or left out. Its lengths are those the driver
    computes. One error frame can be stored too short.
  \<^item> \<open>Ctu_RxSys\<close>: the locale \<open>rx_fifo\<close>, the receive path of the driver verified against it, and its
    interpretation by the ring behind the bus, for the buffer of 32 words.
  \<^item> \<open>Ctu_Wire\<close>: from the words of a TXT buffer to the words a receiver stores and back to a frame.
  \<^item> \<open>Ctu_Link\<close>: the same way through the loader of \<open>Ctu_RxFsm\<close>: a frame sent becomes the newest entry of the
    receiver's queue and is read back from it.
  \<^item> \<open>Ctu_Stuff\<close>: bit stuffing and destuffing of \<open>src/can_core\<close> against each other, for any bit times and any
    switch to fixed stuffing.
  \<^item> \<open>Ctu_Crc\<close>: the three CRC registers, the comparison at the end of the CRC field and the stuff count. The locale
    \<open>crc_poly\<close> holds what follows from an odd polynomial; the three polynomials interpret it.
  \<^item> \<open>Ctu_Fault\<close>: rules, error counters and state machine of the fault confinement, and what
    \<open>Ctu_Irq\<close> reads of them.
  \<^item> \<open>Ctu_Hw\<close>: all functions of \<open>ctucanfd_hw.c\<close> and the macros of \<open>ctucanfd_hw.h\<close>; the library against the kernel
    driver, function by function, and where they differ.
  \<^item> \<open>Ctu_Filters\<close>: the frame filters of \<open>src/frame_filters\<close> programmed by the library.
  \<^item> \<open>Ctu_User\<close>: the program \<open>ctucanfd_userspace.cpp\<close> with \<open>userspace_utils.cpp\<close>. Its search for a PCI device with an
    explicit stack equals a recursive walk. The loop over received frames is a \<open>partial_function\<close>, since it runs as
    long as the controller reports frames; the endless main loop is given for any number of rounds.
  \<^item> \<open>Ctu_Regtest\<close>: the register test \<open>regtest.cpp\<close> against the locale \<open>lane_reg\<close>, a register with byte lanes, which
    the slices of \<open>BTR\<close> in the generated register map interpret.
  \<^item> \<open>Ctu_Logger\<close>: all functions of the four files of \<open>tools/Kvaser_logger\<close>, on a log of calls. The vendor library, the
    child process and the contents of the exported files are a record \<open>llib\<close> of functions of that log; strings,
    buffers with their sizes and the regular expression are modelled.

  This theory holds the properties of the whole transmit side: the FIFO invariant, the acceptance
  of frames, progress of the completion handler, the order on the bus, and the refinement and
  equivalence results of the hardware.

  Bounds. The loops of the driver keep their own bounds: 100 tries of the reset, 10000 rounds of the
  interrupt routine, the quota of the poll. The loops of the completion handler have no bound in C; the
  model proves that they end on every device, since each processed buffer moves the tail towards the
  head. No function of the driver needs fuel. The ring has the four buffers that both bus layers
  configure.

  The logger's loop over the lines of a file is a function with a termination proof: each round consumes
  characters of the file. The circuits need no fuel: a run is a fold over a list of inputs; the transmission of bits
  in \<open>Ctu_Stuff\<close> ends since at most one stuff bit comes between two bits of data.

  Not modelled. The protocol control of the CAN core, the prescaler and the bus sampling: a state machine of more than
  3000 lines for the fields of a frame, and the timing of bits. What they do is an arbitrary input of the
  circuits that are modelled; where a theorem needs more of them, it is a hypothesis in its statement: the
  signals of the core to the loader in \<open>rxl_env\<close> and \<open>rx_carries\<close>. The state machine that fetches words from
  the TXT buffers, the parity of the memories, and the generated register map, of which the registers the driver uses
  are given by hand. Socket buffers are represented by the frames they hold, locks by the points at
  which other steps may come in, and debug output is left out.
\<close>

section \<open>Transmission on the running controller\<close>



text \<open>C5: In every reachable state with the queue awake, \<open>ctucan_start_xmit\<close> takes a frame of
  valid length: it returns \<open>NETDEV_TX_OK\<close>, one more buffer is pending, the frame is stored in the
  echo slot of the buffer at \<open>txb_head\<close>, and the state it leaves is a reachable one.\<close>

theorem start_xmit_accepted:
  assumes "core_ok C" "sys_reach C acc base K (s, None)" "queue_awake (klog s)"
    "payload_ok (skb_frame skb)" "unat (flen (skb_frame skb)) \<le> 64" "\<not> k_dropped_skb K (klog s) skb"
  shows "\<exists>s'. ctucan_start_xmit (core_bus C acc base) K skb s = Inr (NETDEV_TX_OK, s') \<and>
    sys_reach C acc base K (s', None) \<and> tx_t (priv s') = tx_t (priv s) \<and>
    tx_m (priv s') = Suc (tx_m (priv s)) \<and> stats s' = stats s \<and>
    Can_put_echo_skb skb (txb_head (priv s) mod ntxbufs (priv s)) \<in> set (klog s')"
  using sys_start_xmit [OF assms] .

theorem start_xmit_accepted_witness:
  "\<exists>s'. ctucan_start_xmit (core_bus (run_cfg True False) IO_LE 0) demo_kern demo_skb
     (demo_ndev [Netif_start_queue] demo_core) = Inr (NETDEV_TX_OK, s') \<and> tx_m (priv s') = 1"
  using start_xmit_accepted [OF run_cfg_ok(1) demo_reach _ demo_skb_ok]
  by (fastforce simp: demo_ndev_def demo_priv_def tx_m_def)

text \<open>C6: Called in a reachable state whose buffer at the tail has finished, \<open>ctucan_tx_interrupt\<close>
  returns, releases at least one buffer, leaves the queue awake and all of the invariant in
  force; the flag \<open>TXBHCI\<close> is left up only if a further buffer has finished meanwhile, and then it is up
  as long as finished buffers are signalled: the interrupt is not masked and the mode is one that transmits.\<close>

theorem tx_interrupt_progress:
  assumes "core_ok C" "sys_reach C acc base K (s, q)"
    "tail_finished (txt_buffer_count C) (tx_t (priv s)) (tx_m (priv s)) (core_view C (hw s))"
    "s' = ctucan_tx_interrupt (core_bus C acc base) K s"
  shows "tx_m (priv s') < tx_m (priv s) \<and> queue_awake (klog s') \<and> sys_ok C acc base (s', q) \<and>
    (hci (core_view C (hw s')) \<longrightarrow>
       tail_finished (txt_buffer_count C) (tx_t (priv s')) (tx_m (priv s')) (core_view C (hw s'))) \<and>
    (signalled (core_view C (hw s)) \<longrightarrow> (hci (core_view C (hw s')) \<longleftrightarrow>
       tail_finished (txt_buffer_count C) (tx_t (priv s')) (tx_m (priv s')) (core_view C (hw s'))))"
proof -
  let ?e = "if q = None then 0 else 1"
  note T = core_txt_core [OF assms(1), of acc base]
  have i: "sys_inv acc base (txt_buffer_count C) (\<not> core_silent C) (core_view C) ?e s"
    "q = None \<or> q = Some (txb_head (priv s) mod ntxbufs (priv s))"
    using sys_reach_ok [OF assms(1,2)] by (simp_all add: sys_ok_def)
  note t = txt_core.tx_interrupt_sys_inv [OF T i(1) assms(3), of K, folded assms(4)]
  have "sys_ok C acc base (s', q)"
    using t(1) i(2) by (simp add: sys_ok_def assms(4) tx_interrupt_head)
  moreover have "signalled (core_view C (hw s')) = signalled (core_view C (hw s))"
    using t(1) i(1) quiet_log [OF txt_core.tx_interrupt_sync(3) [OF T _ _ assms(3), of _ ?e K], folded assms(4)]
    by (auto simp: sys_inv_def tx_sync_def tx_inv_def)
  ultimately show ?thesis
    using t by (auto simp: sys_inv_def tx_sync_def hci_sound_def hci_complete_def)
qed

theorem tx_interrupt_progress_witness:
  "\<exists>s. sys_reach (run_cfg True False) IO_LE 0 demo_kern (s, None) \<and> tx_m (priv s) = 1 \<and>
     tx_m (priv (ctucan_tx_interrupt (core_bus (run_cfg True False) IO_LE 0) demo_kern s)) = 0"
proof -
  obtain s where s: "sys_reach (run_cfg True False) IO_LE 0 demo_kern (s, None)" "tx_m (priv s) = 1"
    "tail_fin 4 (core_view (run_cfg True False)) s"
    using demo_finished by blast
  from tx_interrupt_progress [OF run_cfg_ok(1) s(1) _ refl] s show ?thesis
    by (intro exI [of _ s]) (simp add: run_cfg_ok(2))
qed

text \<open>C7: Frames go out in the order in which they were accepted: when the protocol controller
  locks a buffer for transmission, every frame accepted before the one in that buffer has already
  been finished. The priorities the driver keeps in \<open>TX_PRIORITY\<close> are what makes this so.\<close>

theorem transmit_in_order:
  assumes "core_ok C" "sys_ok C acc base (s, q)" "k < txt_buffer_count C"
    "txtb (hw s) k = s_txt_ready" "txtb (core_cycle C 0 0 act (hw s)) k = s_txt_tx_prog"
  shows "\<exists>i<tx_m (priv s). k = (tx_t (priv s) + i) mod txt_buffer_count C \<and>
    (\<forall>j<i. finished (txtb (hw s) ((tx_t (priv s) + j) mod txt_buffer_count C)))"
proof -
  let ?n = "txt_buffer_count C" and ?t = "tx_t (priv s)" and ?m = "tx_m (priv s)" and ?v = "core_view C (hw s)"
  have w: "fifo ?n ?t ?m ?v" "falling ?n ?t ?m ?v"
    using assms(2) by (auto simp: sys_ok_def sys_inv_def tx_sync_def tx_inv_def txwin_def)
  have sel: "snd (hw_select C Core_lock (hw s)) = Some k"
    using cycle_locks [OF assms(3,4)] assms(5) by blast
  obtain a where a: "?m \<le> ?n" "a \<le> ?m" "\<And>j. j < ?n \<Longrightarrow> cell_ok a ?m j (sts ?v ((?t + j) mod ?n))"
    using w(1) unfolding fifo_def by blast
  obtain i where i: "i < ?n" "k = (?t + i) mod ?n" using mod_add_surj [OF assms(3)] .
  have "i = a" "a < ?m"
    using lock_first [OF a(3,1) w(2) i(1)] select_lock [OF assms(1) sel] i(2) by (simp_all add: view_at)
  then show ?thesis
    using a i by (intro exI [of _ a]) (force simp: cell_ok_def view_at split: if_splits)
qed

theorem transmit_in_order_witness:
  "sys_ok (run_cfg True False) IO_LE 0 (demo_ready, None) \<and>
   (\<exists>i<1. 0 = (tx_t (priv demo_ready) + i) mod 4 \<and>
     (\<forall>j<i. finished (txtb (hw demo_ready) ((tx_t (priv demo_ready) + j) mod 4))))"
  using transmit_in_order [OF run_cfg_ok(1) demo_ready_ok(1), of 0, OF _ demo_ready_ok(2,3)] demo_ready_ok(1,4)
  by (simp add: run_cfg_ok(2))

text \<open>C12: The TXT buffers of the controller refine the abstract view the driver is verified
  against: any number of clock cycles is a sequence of hardware steps of the view, and a cycle with
  a write of \<open>TX_COMMAND\<close> that addresses no buffer waiting or in transmission acts as the
  hardware's own step followed by the command.\<close>

theorem core_refines_view:
  assumes "core_ok C"
  shows "hwsteps (txt_buffer_count C) (core_view C d)
      (core_view C (foldl (\<lambda>d a. core_cycle C 0 0 a d) d acts)) \<and>
    ((\<forall>k<txt_buffer_count C. bit w (8 + k) \<longrightarrow> \<not> transient_state (txtb d k)) \<longrightarrow>
      core_view C (core_cycle C w 0 act d) =
      sw_tx_command (txt_buffer_count C) w (core_view C (core_cycle C 0 0 act d)))"
  using foldl_cycles [OF assms] cycle_command [OF assms] by blast

theorem core_refines_view_witness:
  "core_view (run_cfg True False) (core_cycle (run_cfg True False) 0x102 0 (access_act idle_access) demo_core) =
   sw_tx_command 4 0x102 (core_view (run_cfg True False)
     (core_cycle (run_cfg True False) 0 0 (access_act idle_access) demo_core))"
  using core_refines_view [OF run_cfg_ok(1), where d = demo_core and w = "0x102" and act = "access_act idle_access"]
  by (simp add: run_cfg_ok(2) demo_core_def transient_state_def)

text \<open>C13: The three-level comparator tree of the priority decoder computes what a search over all
  buffers would: it signals validity exactly when some buffer is valid, and then gives the valid
  buffer of the highest priority, the lowest index among equals.\<close>

theorem priority_decoder_max:
  assumes "2 \<le> n" "n \<le> 8"
  shows "fst (priority_decoder n p V) = (\<exists>k<n. V k) \<and>
    (fst (priority_decoder n p V) \<longrightarrow> (let i = snd (priority_decoder n p V) in
       i < n \<and> V i \<and> (\<forall>j<n. V j \<longrightarrow> p j < p i \<or> p j = p i \<and> i \<le> j)))"
proof -
  obtain v i where vi: "priority_decoder n p V = (v, i)" by (cases "priority_decoder n p V")
  have "i < n \<and> V i \<and> (\<forall>j<n. V j \<longrightarrow> p j < p i \<or> p j = p i \<and> i \<le> j)" if v
    using priority_decoder_correct(2) [OF assms vi that] by (metis loses_def less_imp_le order_refl)
  then show ?thesis
    using priority_decoder_correct(1) [OF assms vi] by (simp add: vi Let_def)
qed

theorem priority_decoder_max_witness:
  "priority_decoder 4 (\<lambda>k. k mod 2) (\<lambda>_. True) = (True, 1) \<and>
   (0 :: nat) mod 2 < 1 mod 2 \<and> ((3 :: nat) mod 2 < 1 mod 2 \<or> (3 :: nat) mod 2 = 1 mod 2 \<and> (1 :: nat) \<le> 3)"
proof -
  have "priority_decoder 4 (\<lambda>k. k mod 2) (\<lambda>_. True) = (True, 1)" by code_simp
  moreover have "j mod 2 < 1 mod 2 \<or> j mod 2 = 1 mod 2 \<and> (1 :: nat) \<le> j" if "j < 4" for j
    using priority_decoder_max [of 4 "\<lambda>k. k mod 2" "\<lambda>_. True"] that calculation by (simp add: Let_def)
  from this [of 0] this [of 3] have "(0 :: nat) mod 2 < 1 mod 2"
    "(3 :: nat) mod 2 < 1 mod 2 \<or> (3 :: nat) mod 2 = 1 mod 2 \<and> (1 :: nat) \<le> 3" by auto
  ultimately show ?thesis by blast
qed

text \<open>After any number of rotations by \<open>ctucan_rotate_txb_prio\<close> the priority word still
  gives every buffer its own priority, falling along the ring from the buffer that has become
  the tail.\<close>

lemma rotate_prio_ring:
  assumes "0 < n" "n \<le> 8" "j < n"
  shows "prio_of ((rotate_prio (of_nat n) ^^ r) 0x01234567) ((r + j) mod n) = 7 - j"
proof -
  have "prio_ring n r ((rotate_prio (of_nat n) ^^ r) 0x01234567)"
    by (induction r) (simp_all add: prio_ring_init prio_ring_rotate assms)
  then show ?thesis using assms(3) by (simp add: prio_ring_def)
qed

end
